(* ===== verification/Prelude.thy ===== *)
theory Prelude
  imports Main "HOL-Library.AList" "HOL-Library.Char_ord" "HOL-Library.List_Lexorder"
    "HOL-Library.Multiset"
begin

section \<open>Prelude: results, Python strings, lists and dictionaries\<close>

text \<open>
  The vocabulary every component shares.  An exception of the source is a value of the
  datatype \<open>exn\<close>, a fallible operation returns \<open>exn + 'a\<close> (\<open>Inl\<close> is the raised
  exception), a Python \<open>str\<close> is a HOL \<open>string\<close> over ASCII, a \<open>dict\<close> is an
  association list in insertion order (\<open>map_of\<close> and \<open>AList.update\<close>), a loop that stops
  at the first exception is \<open>fold_res\<close> or \<open>map_res\<close>.
\<close>

named_theorems res_simps \<open>unfolding the result combinators\<close>
named_theorems str_simps \<open>evaluating the string operations on literals\<close>

subsection \<open>Exceptions and results\<close>

datatype exn =
    ValueError string
  | TypeError string
  | KeyError string
  | AttributeError string
  | RuntimeError string
  | OverflowError
  | ZeroDivisionError
  | FileNotFoundError
  | FileExistsError
  | PermissionError
  | OSError
  | TimeoutError string
  | DatabaseError
  | TransportError string
  | ConnectionClosedError
  | FrameError string
  | EventValidationError string
  | PartitionExecutionError "string list"
  | RequestException
  | HTTPStatusError int
  | DatabaseBusyError
  | HTTPException int
  | WouldBlock

type_synonym 'a result = "exn + 'a"

fun bind_res :: "'a result \<Rightarrow> ('a \<Rightarrow> 'b result) \<Rightarrow> 'b result" where
  "bind_res (Inl e) f = Inl e"
| "bind_res (Inr x) f = f x"

fun fold_res :: "('s \<Rightarrow> 'a \<Rightarrow> 's result) \<Rightarrow> 's \<Rightarrow> 'a list \<Rightarrow> 's result" where
  "fold_res f s [] = Inr s"
| "fold_res f s (x # xs) = bind_res (f s x) (\<lambda>s'. fold_res f s' xs)"

fun map_res :: "('a \<Rightarrow> 'b result) \<Rightarrow> 'a list \<Rightarrow> 'b list result" where
  "map_res f [] = Inr []"
| "map_res f (x # xs) = bind_res (f x) (\<lambda>y. bind_res (map_res f xs) (\<lambda>ys. Inr (y # ys)))"

fun is_ok :: "'a result \<Rightarrow> bool" where
  "is_ok (Inl e) = False"
| "is_ok (Inr x) = True"

lemma bind_res_Inr_iff [res_simps]:
  "bind_res m f = Inr y \<longleftrightarrow> (\<exists>x. m = Inr x \<and> f x = Inr y)"
  by (cases m) auto

lemma bind_res_Inl_iff [res_simps]:
  "bind_res m f = Inl e \<longleftrightarrow> m = Inl e \<or> (\<exists>x. m = Inr x \<and> f x = Inl e)"
  by (cases m) auto

lemma if_Inl_eq_Inr [res_simps]: "(if b then Inl e else r) = Inr y \<longleftrightarrow> \<not> b \<and> r = Inr y"
  by auto

lemma bind_res_split:
  "P (bind_res m f) \<longleftrightarrow> (\<forall>e. m = Inl e \<longrightarrow> P (Inl e)) \<and> (\<forall>x. m = Inr x \<longrightarrow> P (f x))"
  by (cases m) auto

lemma is_ok_iff: "is_ok r \<longleftrightarrow> (\<exists>x. r = Inr x)"
  by (cases r) auto

lemma fold_res_append:
  "fold_res f s (xs @ ys) = bind_res (fold_res f s xs) (\<lambda>s'. fold_res f s' ys)"
proof (induction xs arbitrary: s)
  case (Cons x xs)
  then show ?case by (cases "f s x") auto
qed simp

text \<open>An invariant that every iteration of a loop keeps holds after the loop.\<close>

lemma fold_res_invariant:
  assumes "fold_res f s xs = Inr t" and "I s"
    and "\<And>s x s'. x \<in> set xs \<Longrightarrow> I s \<Longrightarrow> f s x = Inr s' \<Longrightarrow> I s'"
  shows "I t"
  using assms
proof (induction xs arbitrary: s)
  case (Cons x xs)
  from Cons.prems(1) obtain s' where s': "f s x = Inr s'" and t: "fold_res f s' xs = Inr t"
    by (auto simp: res_simps)
  from s' Cons.prems(2,3) have "I s'" by auto
  with t Cons.prems(3) show ?case by (intro Cons.IH [of s']) auto
qed simp

lemma map_res_length: "map_res f xs = Inr ys \<Longrightarrow> length ys = length xs"
  by (induction xs arbitrary: ys) (auto simp: res_simps)

lemma map_res_nth:
  "map_res f xs = Inr ys \<Longrightarrow> i < length xs \<Longrightarrow> f (xs ! i) = Inr (ys ! i)"
proof (induction xs arbitrary: ys i)
  case (Cons x xs)
  then show ?case by (cases i) (auto simp: res_simps)
qed simp

lemma map_res_pure [simp]: "map_res (\<lambda>x. Inr (f x)) xs = Inr (map f xs)"
  by (induction xs) auto

lemma map_res_set: "map_res f xs = Inr ys \<Longrightarrow> y \<in> set ys \<Longrightarrow> \<exists>x\<in>set xs. f x = Inr y"
  by (induction xs arbitrary: ys) (auto simp: res_simps)

subsection \<open>Programs over a state\<close>

text \<open>
  An operation that reads and changes a state and may raise, which keeps what the state has become:
  sequencing, a loop over a list, a pure result, and \<open>try ... finally\<close>-free handlers by case analysis.
\<close>

named_theorems st_simps \<open>unfolding stateful programs\<close>

type_synonym ('s, 'a) prog = "'s \<Rightarrow> 'a result \<times> 's"

definition return_st :: "'a \<Rightarrow> ('s, 'a) prog" where
  "return_st x s = (Inr x, s)"

definition fail_st :: "exn \<Rightarrow> ('s, 'a) prog" where
  "fail_st e s = (Inl e, s)"

definition lift_res :: "'a result \<Rightarrow> ('s, 'a) prog" where
  "lift_res r s = (r, s)"

definition bind_st :: "('s, 'a) prog \<Rightarrow> ('a \<Rightarrow> ('s, 'b) prog) \<Rightarrow> ('s, 'b) prog" where
  "bind_st m f s = (case m s of (Inl e, s') \<Rightarrow> (Inl e, s') | (Inr x, s') \<Rightarrow> f x s')"

fun for_st :: "('a \<Rightarrow> ('s, unit) prog) \<Rightarrow> 'a list \<Rightarrow> ('s, unit) prog" where
  "for_st f [] = return_st ()"
| "for_st f (x # xs) = bind_st (f x) (\<lambda>_. for_st f xs)"

lemma return_st_eq [st_simps]: "return_st x s = (Inr x, s)"
  by (simp add: return_st_def)

lemma fail_st_eq [st_simps]: "fail_st e s = (Inl e, s)"
  by (simp add: fail_st_def)

lemma lift_res_eq [st_simps]: "lift_res r s = (r, s)"
  by (simp add: lift_res_def)

lemma bind_st_Inr: "m s = (Inr x, s') \<Longrightarrow> bind_st m f s = f x s'"
  by (simp add: bind_st_def)

lemma bind_st_Inl: "m s = (Inl e, s') \<Longrightarrow> bind_st m f s = (Inl e, s')"
  by (simp add: bind_st_def)

lemma bind_st_cases:
  assumes "bind_st m f s = (r, s')"
  obtains (fail) e where "m s = (Inl e, s')" "r = Inl e"
    | (cont) x s1 where "m s = (Inr x, s1)" "f x s1 = (r, s')"
  using assms by (cases "m s") (auto simp: bind_st_def split: sum.splits)

text \<open>A relation between the states of every step that is reflexive and transitive holds for a program.\<close>

definition steps_by :: "('s \<Rightarrow> 's \<Rightarrow> bool) \<Rightarrow> ('s, 'a) prog \<Rightarrow> bool" where
  "steps_by R m \<longleftrightarrow> (\<forall>s r s'. m s = (r, s') \<longrightarrow> R s s')"

lemma steps_byI: "(\<And>s r s'. m s = (r, s') \<Longrightarrow> R s s') \<Longrightarrow> steps_by R m"
  by (simp add: steps_by_def)

lemma steps_byD: "steps_by R m \<Longrightarrow> m s = (r, s') \<Longrightarrow> R s s'"
  by (simp add: steps_by_def)

lemma steps_by_pure:
  assumes "reflp R"
  shows "steps_by R (return_st x)" and "steps_by R (fail_st e)" and "steps_by R (lift_res r)"
  using assms by (auto simp: steps_by_def st_simps reflp_def)

lemma steps_by_bind:
  assumes "transp R" and "steps_by R m" and "\<And>x. steps_by R (f x)"
  shows "steps_by R (bind_st m f)"
proof (rule steps_byI)
  fix s r s' assume "bind_st m f s = (r, s')"
  then show "R s s'"
    by (cases rule: bind_st_cases) (use assms in \<open>blast dest: steps_byD transpD\<close>)+
qed

lemma steps_by_for:
  assumes "reflp R" and "transp R" and "\<And>x. steps_by R (f x)"
  shows "steps_by R (for_st f xs)"
  using assms by (induction xs) (auto intro: steps_by_pure steps_by_bind)

subsection \<open>Strings\<close>

text \<open>
  ASCII code points.  \<open>str.strip\<close> drops Python's ASCII white space (code points 9 to 13,
  28 to 31 and 32), \<open>str.upper\<close> and \<open>str.lower\<close> map the letters.
\<close>

definition py_space :: "char \<Rightarrow> bool" where
  "py_space c = (let n = of_char c :: nat in 9 \<le> n \<and> n \<le> 13 \<or> 28 \<le> n \<and> n \<le> 32)"

definition up_char :: "char \<Rightarrow> char" where
  "up_char c = (let n = of_char c :: nat in if 97 \<le> n \<and> n \<le> 122 then char_of (n - 32) else c)"

definition low_char :: "char \<Rightarrow> char" where
  "low_char c = (let n = of_char c :: nat in if 65 \<le> n \<and> n \<le> 90 then char_of (n + 32) else c)"

definition py_lstrip :: "string \<Rightarrow> string" where
  "py_lstrip s = dropWhile py_space s"

definition py_strip :: "string \<Rightarrow> string" where
  "py_strip s = rev (py_lstrip (rev (py_lstrip s)))"

definition py_upper :: "string \<Rightarrow> string" where
  "py_upper s = map up_char s"

definition py_lower :: "string \<Rightarrow> string" where
  "py_lower s = map low_char s"

text \<open>\<open>value.strip().upper()\<close>, the normalisation of names the source uses everywhere.\<close>

definition norm_name :: "string \<Rightarrow> string" where
  "norm_name s = py_upper (py_strip s)"

definition is_digit :: "char \<Rightarrow> bool" where
  "is_digit c = (let n = of_char c :: nat in 48 \<le> n \<and> n \<le> 57)"

definition is_upper :: "char \<Rightarrow> bool" where
  "is_upper c = (let n = of_char c :: nat in 65 \<le> n \<and> n \<le> 90)"

definition is_alpha :: "char \<Rightarrow> bool" where
  "is_alpha c = (is_upper c \<or> (let n = of_char c :: nat in 97 \<le> n \<and> n \<le> 122))"

definition starts_with :: "string \<Rightarrow> string \<Rightarrow> bool" where
  "starts_with p s = (take (length p) s = p)"

fun split_on :: "char \<Rightarrow> string \<Rightarrow> string list" where
  "split_on c [] = [[]]"
| "split_on c (x # xs) =
     (if x = c then [] # split_on c xs
      else (case split_on c xs of [] \<Rightarrow> [[x]] | w # ws \<Rightarrow> (x # w) # ws))"

fun join_with :: "string \<Rightarrow> string list \<Rightarrow> string" where
  "join_with sep [] = []"
| "join_with sep [x] = x"
| "join_with sep (x # y # ys) = x @ sep @ join_with sep (y # ys)"

fun show_nat :: "nat \<Rightarrow> string" where
  "show_nat n = (if n < 10 then [char_of (48 + n)] else show_nat (n div 10) @ [char_of (48 + n mod 10)])"

declare show_nat.simps [simp del]

definition show_int :: "int \<Rightarrow> string" where
  "show_int i = (if i < 0 then ''-'' @ show_nat (nat (- i)) else show_nat (nat i))"

text \<open>Zero padding to a width, the format \<open>f"{n:05d}"\<close>.\<close>

definition zero_pad :: "nat \<Rightarrow> nat \<Rightarrow> string" where
  "zero_pad w n = (let s = show_nat n in replicate (w - length s) CHR ''0'' @ s)"

text \<open>Reading a string of digits; \<open>None\<close> when there is none or another character occurs.\<close>

definition digits_val :: "string \<Rightarrow> nat" where
  "digits_val s = foldl (\<lambda>n c. 10 * n + (of_char c - 48)) 0 s"

definition parse_digits :: "string \<Rightarrow> nat option" where
  "parse_digits s = (if s \<noteq> [] \<and> list_all is_digit s then Some (digits_val s) else None)"

lemma split_on_not_Nil [simp]: "split_on c s \<noteq> []"
  by (induction s) (auto split: list.splits)

lemma join_split_on: "join_with [c] (split_on c s) = s"
proof (induction s)
  case (Cons x xs)
  obtain w ws where w: "split_on c xs = w # ws"
    by (metis neq_Nil_conv split_on_not_Nil)
  with Cons have "join_with [c] (w # ws) = xs" by simp
  with w show ?case by (cases ws) auto
qed simp

lemma split_on_no_sep: "w \<in> set (split_on c s) \<Longrightarrow> c \<notin> set w"
proof (induction s arbitrary: w)
  case (Cons x xs)
  then show ?case by (cases "split_on c xs") (auto split: if_splits)
qed simp

lemma split_on_append: "c \<notin> set w \<Longrightarrow> split_on c (w @ c # s) = w # split_on c s"
  by (induction w) auto

lemma split_on_single: "c \<notin> set w \<Longrightarrow> split_on c w = [w]"
  by (induction w) auto

lemma split_join: "ws \<noteq> [] \<Longrightarrow> \<forall>w\<in>set ws. c \<notin> set w \<Longrightarrow> split_on c (join_with [c] ws) = ws"
proof (induction ws rule: induct_list012)
  case (2 x)
  then have "c \<notin> set x" by simp
  then show ?case by (simp add: split_on_single)
next
  case (3 x y zs)
  then have c: "c \<notin> set x" and ih: "split_on c (join_with [c] (y # zs)) = y # zs" by auto
  have "join_with [c] (x # y # zs) = x @ c # join_with [c] (y # zs)"
    by (simp only: join_with.simps append.simps)
  then show ?case using split_on_append [OF c] ih by (simp only:)
qed simp

text \<open>A delimiter that occurs in no field makes the joined key injective.\<close>

lemma join_with_inject:
  assumes "join_with [c] xs = join_with [c] ys" and "xs \<noteq> []" and "ys \<noteq> []"
    and "\<forall>w\<in>set xs. c \<notin> set w" and "\<forall>w\<in>set ys. c \<notin> set w"
  shows "xs = ys"
  using split_join [OF assms(2,4)] split_join [OF assms(3,5)] unfolding assms(1) by (rule trans [OF sym])

lemma show_nat_digits: "list_all is_digit (show_nat n)"
proof (induction n rule: show_nat.induct)
  case (1 n)
  have "is_digit (char_of (48 + n mod 10 :: nat))"
    by (auto simp: is_digit_def)
  moreover have "n < 10 \<Longrightarrow> is_digit (char_of (48 + n :: nat))"
    by (auto simp: is_digit_def)
  ultimately show ?case using "1.IH" by (subst show_nat.simps) auto
qed

lemma show_nat_not_Nil [simp]: "show_nat n \<noteq> []"
  by (subst show_nat.simps) simp

lemma digits_val_snoc: "digits_val (s @ [c]) = 10 * digits_val s + (of_char c - 48)"
  by (simp add: digits_val_def)

lemma digits_val_show_nat: "digits_val (show_nat n) = n"
proof (induction n rule: show_nat.induct)
  case (1 n)
  show ?case
  proof (cases "n < 10")
    case True
    then show ?thesis by (subst show_nat.simps) (simp add: digits_val_def)
  next
    case False
    then have "digits_val (show_nat n) = digits_val (show_nat (n div 10) @ [char_of (48 + n mod 10)])"
      by (subst show_nat.simps) simp
    also have "\<dots> = 10 * (n div 10) + n mod 10"
      using "1.IH" False by (simp add: digits_val_snoc)
    finally show ?thesis by simp
  qed
qed

lemma parse_show_nat [simp]: "parse_digits (show_nat n) = Some n"
  by (simp add: parse_digits_def show_nat_digits digits_val_show_nat)

lemma show_nat_inject [simp]: "show_nat m = show_nat n \<longleftrightarrow> m = n"
  by (metis digits_val_show_nat)

lemma show_int_inject [simp]: "show_int i = show_int j \<longleftrightarrow> i = j"
proof -
  have no_minus: "show_nat n \<noteq> CHR ''-'' # s" for n s
    using show_nat_digits [of n] by (auto simp: is_digit_def)
  show ?thesis
    using no_minus no_minus [THEN not_sym] by (auto simp: show_int_def)
qed

lemma zero_pad_inject: "zero_pad w m = zero_pad w n \<Longrightarrow> m = n"
proof -
  have z: "digits_val (replicate k CHR ''0'' @ s) = digits_val s" for k s
    by (induction k) (auto simp: digits_val_def)
  assume "zero_pad w m = zero_pad w n"
  then have "digits_val (zero_pad w m) = digits_val (zero_pad w n)" by simp
  then show "m = n" by (simp add: zero_pad_def Let_def z digits_val_show_nat)
qed

lemma zero_pad_digits: "list_all is_digit (zero_pad w n)"
proof -
  have "list_all is_digit (replicate k CHR ''0'')" for k
    by (induction k) (auto simp: is_digit_def)
  then show ?thesis by (simp add: zero_pad_def Let_def show_nat_digits)
qed

subsubsection \<open>Strip and upper are idempotent\<close>

lemma py_lstrip_Nil [simp]: "py_lstrip [] = []"
  by (simp add: py_lstrip_def)

lemma py_strip_set: "set (py_strip s) \<subseteq> set s"
  by (auto simp: py_strip_def py_lstrip_def dest!: set_dropWhileD)

lemma py_space_up [simp]: "py_space (up_char c) = py_space c"
  by (auto simp: py_space_def up_char_def Let_def)

lemma up_char_idem [simp]: "up_char (up_char c) = up_char c"
  by (auto simp: up_char_def Let_def)

lemma py_upper_idem [simp]: "py_upper (py_upper s) = py_upper s"
  by (simp add: py_upper_def)

lemma dropWhile_map_up: "dropWhile py_space (map up_char s) = map up_char (dropWhile py_space s)"
  by (induction s) auto

lemma py_strip_upper: "py_strip (py_upper s) = py_upper (py_strip s)"
  by (simp add: py_strip_def py_lstrip_def py_upper_def dropWhile_map_up rev_map)

lemma dropWhile_hd_stop: "t \<noteq> [] \<Longrightarrow> \<not> P (hd t) \<Longrightarrow> dropWhile P t = t"
  by (cases t) auto

lemma py_strip_idem [simp]: "py_strip (py_strip s) = py_strip s"
proof -
  let ?d = "dropWhile py_space"
  have hd: "\<not> py_space (hd (?d t))" if "?d t \<noteq> []" for t
    using that by (rule hd_dropWhile)
  let ?t = "rev (?d (rev (?d s)))"
  have "?d ?t = ?t"
  proof (cases "?t = []")
    case False
    then have ne: "?d (rev (?d s)) \<noteq> []" by simp
    obtain u where "rev (?d s) = u @ ?d (rev (?d s))"
      by (metis takeWhile_dropWhile_id)
    then have "?d s = ?t @ rev u"
      by (metis rev_append rev_rev_ident)
    with False have "hd ?t = hd (?d s)" by (metis hd_append2)
    moreover from ne have "?d s \<noteq> []"
      by (metis dropWhile.simps(1) rev.simps(1))
    ultimately have "\<not> py_space (hd ?t)" using hd by metis
    with False show ?thesis by (rule dropWhile_hd_stop)
  next
    case True
    then show ?thesis by (simp only: dropWhile.simps)
  qed
  moreover have "?d (rev ?t) = rev ?t" by (simp add: dropWhile_idem)
  ultimately show ?thesis by (simp add: py_strip_def py_lstrip_def)
qed

lemma norm_name_idem [simp]: "norm_name (norm_name s) = norm_name s"
  by (simp add: norm_name_def py_strip_upper)

lemma py_upper_Nil_iff [simp]: "py_upper s = [] \<longleftrightarrow> s = []"
  by (simp add: py_upper_def)

lemma norm_name_Nil_iff [simp]: "norm_name s = [] \<longleftrightarrow> py_strip s = []"
  by (simp add: norm_name_def)

subsection \<open>Insertion-ordered containers\<close>

text \<open>The idiom \<open>if x not in xs: xs.append(x)\<close>, and \<open>dict.fromkeys\<close> as its fold.\<close>

definition add_new :: "'a list \<Rightarrow> 'a \<Rightarrow> 'a list" where
  "add_new xs x = (if x \<in> set xs then xs else xs @ [x])"

definition uniq :: "'a list \<Rightarrow> 'a list" where
  "uniq xs = foldl add_new [] xs"

lemma set_add_new [simp]: "set (add_new xs x) = insert x (set xs)"
  by (auto simp: add_new_def)

lemma distinct_add_new [simp]: "distinct (add_new xs x) = distinct xs"
  by (auto simp: add_new_def)

lemma foldl_add_new:
  "set (foldl add_new acc xs) = set acc \<union> set xs"
  "distinct acc \<Longrightarrow> distinct (foldl add_new acc xs)"
  by (induction xs arbitrary: acc) auto

lemma set_uniq [simp]: "set (uniq xs) = set xs"
  by (simp add: uniq_def foldl_add_new)

lemma distinct_uniq [simp]: "distinct (uniq xs)"
  by (simp add: uniq_def foldl_add_new)

lemma foldl_add_new_distinct:
  "distinct (acc @ xs) \<Longrightarrow> foldl add_new acc xs = acc @ xs"
  by (induction xs arbitrary: acc) (auto simp: add_new_def)

lemma uniq_distinct: "distinct xs \<Longrightarrow> uniq xs = xs"
  by (simp add: uniq_def foldl_add_new_distinct)

lemma uniq_idem [simp]: "uniq (uniq xs) = uniq xs"
  by (rule uniq_distinct) simp

lemma uniq_Nil_iff [simp]: "uniq xs = [] \<longleftrightarrow> xs = []"
  by (metis set_empty set_uniq)

text \<open>The last \<open>n\<close> elements, a \<open>deque(maxlen=n)\<close> after its appends.\<close>

definition last_n :: "nat \<Rightarrow> 'a list \<Rightarrow> 'a list" where
  "last_n n xs = drop (length xs - n) xs"

lemma length_last_n [simp]: "length (last_n n xs) = min n (length xs)"
  by (simp add: last_n_def min_def)

lemma last_n_short: "length xs \<le> n \<Longrightarrow> last_n n xs = xs"
  by (simp add: last_n_def)

lemma last_n_append_last_n: "last_n n (last_n n xs @ ys) = last_n n (xs @ ys)"
  by (cases "length xs \<le> n") (auto simp: last_n_def add.commute)

lemma set_last_n: "set (last_n n xs) \<subseteq> set xs"
  by (auto simp: last_n_def dest: in_set_dropD)

subsection \<open>Dictionaries\<close>

text \<open>\<open>d.get(k, default)\<close>, \<open>d[k]\<close>, and the sorted list of the required keys that are missing.\<close>

definition dict_get :: "'v \<Rightarrow> (string \<times> 'v) list \<Rightarrow> string \<Rightarrow> 'v" where
  "dict_get dflt d k = (case map_of d k of None \<Rightarrow> dflt | Some v \<Rightarrow> v)"

definition missing_keys :: "string list \<Rightarrow> (string \<times> 'v) list \<Rightarrow> string list" where
  "missing_keys req d = filter (\<lambda>k. map_of d k = None) req"

lemma missing_keys_Nil: "missing_keys req d = [] \<longleftrightarrow> (\<forall>k\<in>set req. \<exists>v. map_of d k = Some v)"
  by (auto simp: missing_keys_def filter_empty_conv)

lemma dict_get_Some [simp]: "map_of d k = Some v \<Longrightarrow> dict_get x d k = v"
  by (simp add: dict_get_def)

lemma dict_get_None [simp]: "map_of d k = None \<Longrightarrow> dict_get x d k = x"
  by (simp add: dict_get_def)

end
