(* ===== verification/Py_Float.thy ===== *)
theory Py_Float
  imports Complex_Main Prelude "HOL-Library.Log_Nat"
begin

section \<open>Python floats: IEEE 754 binary64\<close>

text \<open>
  A Python \<open>float\<close> is a binary64 number.  A finite one is the rational it stands for
  (the two zeros are one value), an arithmetic operation computes the exact rational and
  rounds it to 53 significant bits, ties to even (\<open>fl_round\<close>), overflowing to an
  infinity (\<open>fl\<close>).  The locale \<open>rounding\<close> is the contract the components use:
  rounding is monotone and symmetric.  It is interpreted on \<open>fl_round\<close>.
\<close>

named_theorems fl_simps \<open>evaluating float operations\<close>

subsection \<open>The contract of a rounding function\<close>

locale rounding =
  fixes rnd :: "rat \<Rightarrow> rat"
  assumes mono: "x \<le> y \<Longrightarrow> rnd x \<le> rnd y"
    and odd: "rnd (- x) = - rnd x"
begin

lemma zero: "rnd 0 = 0"
  using odd [of 0] by simp

lemma nonneg: "0 \<le> x \<Longrightarrow> 0 \<le> rnd x"
  using mono [of 0 x] by (simp add: zero)

lemma nonpos: "x \<le> 0 \<Longrightarrow> rnd x \<le> 0"
  using mono [of x 0] by (simp add: zero)

lemma abs: "\<bar>rnd x\<bar> = rnd \<bar>x\<bar>"
  using nonneg [of x] nonpos [of x] by (cases "0 \<le> x") (auto simp: odd)

lemma diff_swap: "rnd (a - b) = - rnd (b - a)"
  using odd [of "b - a"] by simp

lemma abs_mono: "\<bar>x\<bar> \<le> \<bar>y\<bar> \<Longrightarrow> \<bar>rnd x\<bar> \<le> \<bar>rnd y\<bar>"
  by (simp add: abs mono)

end

subsection \<open>Round half to even\<close>

definition rne :: "rat \<Rightarrow> int" where
  "rne x = (let f = \<lfloor>x\<rfloor>; d = x - of_int f in
     if d < 1 / 2 then f else if d > 1 / 2 then f + 1 else if even f then f else f + 1)"

lemma rne_of_int [simp]: "rne (of_int n) = n"
  by (simp add: rne_def)

lemma rne_bounds: "\<lfloor>x\<rfloor> \<le> rne x" "rne x \<le> \<lfloor>x\<rfloor> + 1"
  by (simp_all add: rne_def Let_def)

lemma rne_floor: "x < of_int \<lfloor>x\<rfloor> + 1 / 2 \<Longrightarrow> rne x = \<lfloor>x\<rfloor>"
  by (simp add: rne_def Let_def algebra_simps)

lemma rne_mono:
  assumes "x \<le> y"
  shows "rne x \<le> rne y"
proof (cases "\<lfloor>x\<rfloor> = \<lfloor>y\<rfloor>")
  case True
  with assms show ?thesis by (simp add: rne_def Let_def)
next
  case False
  with assms have "\<lfloor>x\<rfloor> + 1 \<le> \<lfloor>y\<rfloor>"
    using floor_mono [OF assms] by linarith
  with rne_bounds [of x] rne_bounds [of y] show ?thesis by linarith
qed

lemma rne_minus: "rne (- x) = - rne x"
proof (cases "x = of_int \<lfloor>x\<rfloor>")
  case True
  then show ?thesis by (metis of_int_minus rne_of_int)
next
  case False
  then have m: "\<lfloor>- x\<rfloor> = - \<lfloor>x\<rfloor> - 1"
    using ceiling_altdef [of x] by (simp add: ceiling_def)
  show ?thesis unfolding rne_def Let_def m by auto
qed

lemma rne_close: "\<bar>of_int (rne x) - x\<bar> \<le> 1 / 2"
  using floor_correct [of x] by (auto simp: rne_def Let_def)

subsection \<open>The exponent of a rational\<close>

text \<open>\<open>ilog2 x\<close> is the exponent \<open>e\<close> with \<open>2 ^ e \<le> |x| < 2 ^ (e + 1)\<close>.\<close>

definition ilog2 :: "rat \<Rightarrow> int" where
  "ilog2 x = (let (n, d) = quotient_of \<bar>x\<bar>; e = bitlen n - bitlen d
     in if 2 powi e \<le> \<bar>x\<bar> then e else e - 1)"

lemma bitlen_powi:
  assumes "0 < n"
  shows "2 powi (bitlen n - 1) \<le> (of_int n :: rat)" and "(of_int n :: rat) < 2 powi bitlen n"
proof -
  from assms have b: "2 ^ nat (bitlen n - 1) \<le> n" "n < 2 ^ nat (bitlen n)"
    using bitlen_bounds [of n] by simp_all
  have p: "0 < bitlen n" using assms bitlen_eq_zero_iff [of n] bitlen_nonneg [of n] by linarith
  have "(of_int (2 ^ nat (bitlen n - 1)) :: rat) \<le> of_int n" using b(1) by (simp only: of_int_le_iff)
  with p show "2 powi (bitlen n - 1) \<le> (of_int n :: rat)" by (simp add: power_int_def)
  have "(of_int n :: rat) < of_int (2 ^ nat (bitlen n))" using b(2) by (simp only: of_int_less_iff)
  with p show "(of_int n :: rat) < 2 powi bitlen n" by (simp add: power_int_def)
qed

lemma ilog2_bounds:
  assumes "x \<noteq> 0"
  shows "2 powi ilog2 x \<le> \<bar>x\<bar>" and "\<bar>x\<bar> < 2 powi (ilog2 x + 1)"
proof -
  obtain n d where q: "quotient_of \<bar>x\<bar> = (n, d)" by fastforce
  have d: "0 < d" using q by (rule quotient_of_denom_pos)
  have x: "\<bar>x\<bar> = of_int n / of_int d" using q by (rule quotient_of_div)
  with assms d have n: "0 < n"
    by (metis abs_ge_zero divide_less_0_iff divide_eq_0_iff of_int_0_eq_iff abs_eq_0
        linorder_neqE_linordered_idom not_le of_int_less_0_iff of_int_0_less_iff)
  let ?e = "bitlen n - bitlen d"
  have up: "\<bar>x\<bar> < 2 powi (?e + 1)"
  proof -
    have "\<bar>x\<bar> < 2 powi bitlen n / 2 powi (bitlen d - 1)"
      unfolding x using bitlen_powi [OF n] bitlen_powi [OF d] d
      by (intro frac_less) (auto simp: n less_imp_le)
    also have "\<dots> = 2 powi (?e + 1)"
      by (simp add: power_int_diff power_int_add)
    finally show ?thesis .
  qed
  have lo: "2 powi (?e - 1) \<le> \<bar>x\<bar>"
  proof -
    have "2 powi (?e - 1) = (2 powi (bitlen n - 1) / 2 powi bitlen d :: rat)"
      by (simp add: power_int_diff)
    also have "\<dots> \<le> \<bar>x\<bar>"
      unfolding x using bitlen_powi [OF n] bitlen_powi [OF d] d
      by (intro frac_le) (auto simp: n less_imp_le)
    finally show ?thesis .
  qed
  show "2 powi ilog2 x \<le> \<bar>x\<bar>" "\<bar>x\<bar> < 2 powi (ilog2 x + 1)"
    using up lo by (auto simp: ilog2_def q Let_def)
qed

lemma powi_less_imp: "2 powi a < (2 powi b :: rat) \<Longrightarrow> a < b"
  by (meson not_less power_int_increasing one_le_numeral)

lemma ilog2_unique:
  assumes "2 powi e \<le> \<bar>x\<bar>" and "\<bar>x\<bar> < 2 powi (e + 1)"
  shows "ilog2 x = e"
proof -
  have "0 < (2 powi e :: rat)" by simp
  with assms(1) have "0 < \<bar>x\<bar>" by linarith
  then have "x \<noteq> 0" by simp
  note b = ilog2_bounds [OF this]
  from b assms have "2 powi ilog2 x < (2 powi (e + 1) :: rat)" "2 powi e < (2 powi (ilog2 x + 1) :: rat)"
    by linarith+
  then have "ilog2 x < e + 1" "e < ilog2 x + 1" by (blast intro: powi_less_imp)+
  then show ?thesis by linarith
qed

lemma ilog2_mono:
  assumes "x \<noteq> 0" and "\<bar>x\<bar> \<le> \<bar>y\<bar>"
  shows "ilog2 x \<le> ilog2 y"
proof -
  from assms have "y \<noteq> 0" by auto
  with assms ilog2_bounds [of x] ilog2_bounds [of y]
  have "2 powi ilog2 x < (2 powi (ilog2 y + 1) :: rat)" by linarith
  then have "ilog2 x < ilog2 y + 1" by (rule powi_less_imp)
  then show ?thesis by linarith
qed

lemma ilog2_minus [simp]: "ilog2 (- x) = ilog2 x"
  by (simp add: ilog2_def)

subsection \<open>Rounding to 53 bits\<close>

definition ulp_exp :: "rat \<Rightarrow> int" where
  "ulp_exp x = max (ilog2 x - 52) (- 1074)"

definition fl_round :: "rat \<Rightarrow> rat" where
  "fl_round x = (if x = 0 then 0 else of_int (rne (x / 2 powi ulp_exp x)) * 2 powi ulp_exp x)"

lemma fl_round_0 [simp]: "fl_round 0 = 0"
  by (simp add: fl_round_def)

lemma fl_round_minus: "fl_round (- x) = - fl_round x"
  by (simp add: fl_round_def ulp_exp_def rne_minus)

lemma fl_round_nonneg: "0 \<le> x \<Longrightarrow> 0 \<le> fl_round x"
proof -
  assume "0 \<le> x"
  then have "rne 0 \<le> rne (x / 2 powi ulp_exp x)" by (intro rne_mono) simp
  then show "0 \<le> fl_round x" using rne_of_int [of 0] by (simp add: fl_round_def)
qed

text \<open>An integer multiple of the grid spacing bounds the rounding from either side.\<close>

lemma fl_round_le_grid:
  "x \<noteq> 0 \<Longrightarrow> x \<le> of_int k * 2 powi ulp_exp x \<Longrightarrow> fl_round x \<le> of_int k * 2 powi ulp_exp x"
proof -
  let ?u = "2 powi ulp_exp x :: rat"
  assume "x \<noteq> 0" "x \<le> of_int k * ?u"
  then have "rne (x / ?u) \<le> rne (of_int k)"
    by (intro rne_mono) (simp add: divide_le_eq)
  then have "(of_int (rne (x / ?u)) :: rat) \<le> of_int k" by simp
  then show ?thesis using \<open>x \<noteq> 0\<close> by (simp add: fl_round_def mult_right_mono)
qed

lemma fl_round_ge_grid:
  "x \<noteq> 0 \<Longrightarrow> of_int k * 2 powi ulp_exp x \<le> x \<Longrightarrow> of_int k * 2 powi ulp_exp x \<le> fl_round x"
proof -
  let ?u = "2 powi ulp_exp x :: rat"
  assume "x \<noteq> 0" "of_int k * ?u \<le> x"
  then have "rne (of_int k) \<le> rne (x / ?u)"
    by (intro rne_mono) (simp add: le_divide_eq)
  then have "(of_int k :: rat) \<le> of_int (rne (x / ?u))" by simp
  then show ?thesis using \<open>x \<noteq> 0\<close> by (simp add: fl_round_def mult_right_mono)
qed

lemma powi_grid: "e \<le> p \<Longrightarrow> (2 powi p :: rat) = of_int (2 ^ nat (p - e)) * 2 powi e"
proof -
  assume "e \<le> p"
  then have "(2 powi p :: rat) = 2 powi (p - e) * 2 powi e"
    by (simp add: power_int_diff)
  with \<open>e \<le> p\<close> show ?thesis by (simp add: power_int_def)
qed

lemma fl_round_mono_pos:
  assumes "0 < x" and "x \<le> y"
  shows "fl_round x \<le> fl_round y"
proof (cases "ulp_exp x = ulp_exp y")
  case True
  have "rne (x / 2 powi ulp_exp x) \<le> rne (y / 2 powi ulp_exp y)"
    using assms True by (intro rne_mono) (simp add: divide_right_mono)
  with assms True show ?thesis by (simp add: fl_round_def mult_right_mono)
next
  case False
  from assms have l: "ilog2 x \<le> ilog2 y" by (intro ilog2_mono) auto
  with False have e: "ulp_exp y = ilog2 y - 52" "ulp_exp x < ulp_exp y" "ilog2 x < ilog2 y"
    by (auto simp: ulp_exp_def max_def split: if_splits)
  let ?p = "2 powi ilog2 y :: rat"
  have "x < 2 powi (ilog2 x + 1)" using ilog2_bounds(2) [of x] assms by simp
  also have "\<dots> \<le> ?p" using e(3) by (intro power_int_increasing) auto
  finally have "x \<le> ?p" by simp
  then have "fl_round x \<le> ?p"
    using fl_round_le_grid [of x "2 ^ nat (ilog2 y - ulp_exp x)"] powi_grid [of "ulp_exp x" "ilog2 y"] e assms
    by simp
  moreover have "?p \<le> fl_round y"
    using fl_round_ge_grid [of y "2 ^ nat (ilog2 y - ulp_exp y)"] powi_grid [of "ulp_exp y" "ilog2 y"] e
      assms ilog2_bounds(1) [of y] by simp
  ultimately show ?thesis by linarith
qed

lemma fl_round_mono: "x \<le> y \<Longrightarrow> fl_round x \<le> fl_round y"
proof -
  assume xy: "x \<le> y"
  consider "0 < x" | "x \<le> 0" "0 \<le> y" | "y < 0" by linarith
  then show "fl_round x \<le> fl_round y"
  proof cases
    case 1
    then show ?thesis using xy by (rule fl_round_mono_pos)
  next
    case 2
    then have "fl_round x \<le> 0" using fl_round_nonneg [of "- x"] by (simp add: fl_round_minus)
    with fl_round_nonneg [OF 2(2)] show ?thesis by linarith
  next
    case 3
    with xy have "fl_round (- y) \<le> fl_round (- x)" by (intro fl_round_mono_pos) auto
    then show ?thesis by (simp add: fl_round_minus)
  qed
qed

interpretation b64: rounding fl_round
  by unfold_locales (auto simp: fl_round_mono fl_round_minus)

text \<open>The error of one rounding: half a unit in the last place.\<close>

lemma fl_round_error: "\<bar>fl_round x - x\<bar> \<le> \<bar>x\<bar> / 2 ^ 53 + 1 / 2 ^ 1075"
proof (cases "x = 0")
  case False
  let ?u = "2 powi ulp_exp x :: rat"
  have u: "0 < ?u" by simp
  have "\<bar>fl_round x - x\<bar> = \<bar>of_int (rne (x / ?u)) - x / ?u\<bar> * ?u"
  proof -
    have "fl_round x - x = (of_int (rne (x / ?u)) - x / ?u) * ?u"
      using False u by (simp add: fl_round_def left_diff_distrib)
    then show ?thesis using u by (simp only: abs_mult abs_of_pos)
  qed
  also have "\<dots> \<le> 1 / 2 * ?u"
    using rne_close [of "x / ?u"] u by (intro mult_right_mono) simp_all
  also have "?u \<le> \<bar>x\<bar> / 2 ^ 52 + 1 / 2 ^ 1074"
  proof (cases "- 1074 \<le> ilog2 x - 52")
    case True
    then have "?u = 2 powi ilog2 x / 2 ^ 52"
      by (simp add: ulp_exp_def power_int_diff)
    also have "\<dots> \<le> \<bar>x\<bar> / 2 ^ 52" using ilog2_bounds(1) [OF False] by (simp add: divide_right_mono)
    finally show ?thesis by simp
  next
    case False
    then have "?u = 1 / 2 ^ 1074" by (simp add: ulp_exp_def power_int_minus_divide)
    then show ?thesis by simp
  qed
  then have "1 / 2 * ?u \<le> \<bar>x\<bar> / 2 ^ 53 + 1 / 2 ^ 1075" by simp
  finally show ?thesis .
qed simp

text \<open>A number that fits in 53 bits is not changed by rounding.\<close>

lemma fl_round_exact:
  assumes "\<bar>k\<bar> < 2 ^ 53" and "- 1074 \<le> e"
  shows "fl_round (of_int k * 2 powi e) = of_int k * 2 powi e"
proof (cases "k = 0")
  case False
  let ?x = "of_int k * 2 powi e :: rat"
  have x0: "?x \<noteq> 0" using False by simp
  have "\<bar>of_int k :: rat\<bar> < 2 ^ 53"
    using assms(1) by (metis of_int_abs of_int_less_iff of_int_numeral of_int_power)
  then have "\<bar>?x\<bar> < 2 ^ 53 * 2 powi e" by (simp add: abs_mult)
  also have "\<dots> = 2 powi (53 + e)" by (simp add: power_int_add)
  finally have "2 powi ilog2 ?x < (2 powi (53 + e) :: rat)"
    using ilog2_bounds(1) [OF x0] by linarith
  then have "ilog2 ?x < 53 + e" by (rule powi_less_imp)
  with assms(2) have u: "ulp_exp ?x \<le> e" by (simp add: ulp_exp_def)
  define v where "v = ulp_exp ?x"
  have g: "?x = of_int (k * 2 ^ nat (e - v)) * 2 powi v"
    using powi_grid [OF u] by (simp add: v_def)
  have "?x / 2 powi v = of_int (k * 2 ^ nat (e - v))" by (subst g) simp
  then have r: "rne (?x / 2 powi v) = k * 2 ^ nat (e - v)" by (simp only: rne_of_int)
  have "fl_round ?x = of_int (rne (?x / 2 powi v)) * 2 powi v"
    using x0 by (simp add: fl_round_def v_def)
  also have "\<dots> = ?x" unfolding r by (rule g [symmetric])
  finally show ?thesis .
qed simp

lemma fl_round_int [fl_simps]: "\<bar>k\<bar> < 2 ^ 53 \<Longrightarrow> fl_round (of_int k) = of_int k"
  using fl_round_exact [of k 0] by simp

lemma fl_round_numeral [fl_simps]:
  "(numeral k :: int) < 2 ^ 53 \<Longrightarrow> fl_round (numeral k) = numeral k"
  "(numeral k :: int) < 2 ^ 53 \<Longrightarrow> fl_round (- numeral k) = - numeral k"
  using fl_round_int [of "numeral k"] by (simp_all add: fl_round_minus)

lemma fl_round_1 [fl_simps]: "fl_round 1 = 1"
  using fl_round_int [of 1] by simp

subsection \<open>Float values and operations\<close>

datatype pyfloat = Fin rat | PInf | NInf | NaN

definition fl :: "rat \<Rightarrow> pyfloat" where
  "fl x = (let r = fl_round x in
     if 2 ^ 1024 \<le> r then PInf else if r \<le> - (2 ^ 1024) then NInf else Fin r)"

fun is_finite :: "pyfloat \<Rightarrow> bool" where
  "is_finite (Fin x) = True"
| "is_finite _ = False"

fun is_nan :: "pyfloat \<Rightarrow> bool" where
  "is_nan NaN = True"
| "is_nan _ = False"

fun fneg :: "pyfloat \<Rightarrow> pyfloat" where
  "fneg (Fin x) = Fin (- x)"
| "fneg PInf = NInf"
| "fneg NInf = PInf"
| "fneg NaN = NaN"

fun fabs :: "pyfloat \<Rightarrow> pyfloat" where
  "fabs (Fin x) = Fin \<bar>x\<bar>"
| "fabs PInf = PInf"
| "fabs NInf = PInf"
| "fabs NaN = NaN"

fun fadd :: "pyfloat \<Rightarrow> pyfloat \<Rightarrow> pyfloat" where
  "fadd (Fin x) (Fin y) = fl (x + y)"
| "fadd NaN _ = NaN"
| "fadd _ NaN = NaN"
| "fadd PInf NInf = NaN"
| "fadd NInf PInf = NaN"
| "fadd PInf _ = PInf"
| "fadd _ PInf = PInf"
| "fadd NInf _ = NInf"
| "fadd _ NInf = NInf"

definition fsub :: "pyfloat \<Rightarrow> pyfloat \<Rightarrow> pyfloat" where
  "fsub a b = fadd a (fneg b)"

definition signed_inf :: "bool \<Rightarrow> pyfloat" where
  "signed_inf p = (if p then PInf else NInf)"

fun fmul :: "pyfloat \<Rightarrow> pyfloat \<Rightarrow> pyfloat" where
  "fmul (Fin x) (Fin y) = fl (x * y)"
| "fmul NaN _ = NaN"
| "fmul _ NaN = NaN"
| "fmul (Fin x) i = (if x = 0 then NaN else signed_inf ((0 < x) = (i = PInf)))"
| "fmul i (Fin x) = (if x = 0 then NaN else signed_inf ((0 < x) = (i = PInf)))"
| "fmul i j = signed_inf (i = j)"

text \<open>Division by a finite, non-zero divisor.\<close>

fun fdiv :: "pyfloat \<Rightarrow> rat \<Rightarrow> pyfloat" where
  "fdiv (Fin x) y = fl (x / y)"
| "fdiv NaN y = NaN"
| "fdiv i y = signed_inf ((i = PInf) = (0 < y))"

text \<open>Comparisons: any comparison with a NaN is false.\<close>

fun fle :: "pyfloat \<Rightarrow> pyfloat \<Rightarrow> bool" where
  "fle (Fin x) (Fin y) = (x \<le> y)"
| "fle NaN _ = False"
| "fle _ NaN = False"
| "fle NInf _ = True"
| "fle _ PInf = True"
| "fle _ _ = False"

fun flt :: "pyfloat \<Rightarrow> pyfloat \<Rightarrow> bool" where
  "flt (Fin x) (Fin y) = (x < y)"
| "flt NaN _ = False"
| "flt _ NaN = False"
| "flt NInf b = (b \<noteq> NInf)"
| "flt a PInf = (a \<noteq> PInf)"
| "flt _ _ = False"

text \<open>The larger of two numbers, a NaN being skipped (the row maximum of a data frame).\<close>

definition fmax :: "pyfloat \<Rightarrow> pyfloat \<Rightarrow> pyfloat" where
  "fmax a b = (if is_nan a then b else if is_nan b then a else if fle a b then b else a)"

text \<open>\<open>float(n)\<close> of an integer, and \<open>round(x, n)\<close>.\<close>

definition float_of_int :: "int \<Rightarrow> pyfloat result" where
  "float_of_int n = (case fl (of_int n) of Fin x \<Rightarrow> Inr (Fin x) | _ \<Rightarrow> Inl OverflowError)"

fun round_nd :: "nat \<Rightarrow> pyfloat \<Rightarrow> pyfloat" where
  "round_nd n (Fin x) = fl (of_int (rne (x * 10 ^ n)) / 10 ^ n)"
| "round_nd n v = v"

lemma fneg_fneg [simp]: "fneg (fneg a) = a"
  by (cases a) auto

lemma fabs_fneg [simp]: "fabs (fneg a) = fabs a"
  by (cases a) auto

lemma is_nan_simps [simp]:
  "is_nan (fneg a) = is_nan a" "is_nan (fabs a) = is_nan a" "is_nan (fl x) = False"
  by (cases a; simp add: fl_def Let_def)+

lemma fl_Fin_minus: "fl (- x) = fneg (fl x)"
  by (auto simp: fl_def Let_def fl_round_minus)

lemma fadd_fneg: "fadd (fneg a) (fneg b) = fneg (fadd a b)"
  using fl_Fin_minus [of "x + y" for x y]
  by (cases "(a, b)" rule: fadd.cases) auto

lemma fadd_comm: "fadd a b = fadd b a"
  by (cases a; cases b) (auto simp: add.commute)

text \<open>Swapping the operands of a subtraction flips the sign, exactly.\<close>

lemma fsub_swap: "fsub b a = fneg (fsub a b)"
  unfolding fsub_def by (metis fadd_comm fadd_fneg fneg_fneg)

lemma fabs_fsub_swap: "fabs (fsub b a) = fabs (fsub a b)"
  by (simp add: fsub_swap [of b a])

lemma fsub_self [simp]: "is_finite a \<Longrightarrow> fsub a a = Fin 0"
  by (cases a) (auto simp: fsub_def fl_def)

lemma fsub_nan [simp]: "fsub NaN a = NaN" "fsub a NaN = NaN"
  by (cases a; simp add: fsub_def)+

lemma fmax_comm: "fmax a b = fmax b a"
  by (cases a; cases b) (auto simp: fmax_def)

lemma fmax_nan [simp]: "fmax NaN a = a" "fmax a NaN = a"
  by (cases a; simp add: fmax_def)+

lemma flt_not_fle: "\<not> is_nan a \<Longrightarrow> \<not> is_nan b \<Longrightarrow> flt a b \<longleftrightarrow> \<not> fle b a"
  by (cases a; cases b) auto

lemma flt_nan [simp]: "flt NaN a = False" "flt a NaN = False"
  by (cases a; simp)+

lemma fle_nan [simp]: "fle NaN a = False" "fle a NaN = False"
  by (cases a; simp)+

lemma fle_refl [simp]: "fle a a \<longleftrightarrow> \<not> is_nan a"
  by (cases a) auto

lemma fle_trans: "fle a b \<Longrightarrow> fle b c \<Longrightarrow> fle a c"
  by (cases a; cases b; cases c) auto

lemma flt_fle_trans: "flt a b \<Longrightarrow> fle b c \<Longrightarrow> flt a c"
  by (cases a; cases b; cases c) auto

lemma fle_flt_trans: "fle a b \<Longrightarrow> flt b c \<Longrightarrow> flt a c"
  by (cases a; cases b; cases c) auto

lemma fmax_ge: "fle a (fmax a b) \<longleftrightarrow> \<not> is_nan a" "fle b (fmax a b) \<longleftrightarrow> \<not> is_nan b"
  by (cases a; cases b; auto simp: fmax_def)+

lemma is_nan_fmax [simp]: "is_nan (fmax a b) \<longleftrightarrow> is_nan a \<and> is_nan b"
  by (cases a; cases b) (auto simp: fmax_def)

lemma fmax_mono: "fle a b \<Longrightarrow> fle c d \<Longrightarrow> fle (fmax a c) (fmax b d)"
  by (cases a; cases b; cases c; cases d) (auto simp: fmax_def)

text \<open>Rounding keeps the order, so multiplying a non-negative number by a larger factor
  gives a result that is no smaller.\<close>

lemma fl_mono: "x \<le> y \<Longrightarrow> fle (fl x) (fl y)"
  using b64.mono [of x y] by (auto simp: fl_def Let_def)

lemma fmul_mono_right:
  "0 \<le> x \<Longrightarrow> p \<le> q \<Longrightarrow> fle (fmul (Fin x) (Fin p)) (fmul (Fin x) (Fin q))"
  by (simp add: fl_mono mult_left_mono)

lemma fl_nonneg: "0 \<le> x \<Longrightarrow> fle (Fin 0) (fl x)"
  using fl_mono [of 0 x] by (simp add: fl_def)

lemma fl_small [fl_simps]: "fl_round x = r \<Longrightarrow> r < 2 ^ 1024 \<Longrightarrow> - (2 ^ 1024) < r \<Longrightarrow> fl x = Fin r"
  by (simp add: fl_def)

lemma fl_int [fl_simps]: "\<bar>k\<bar> < 2 ^ 53 \<Longrightarrow> fl (of_int k) = Fin (of_int k)"
proof -
  assume k: "\<bar>k\<bar> < 2 ^ 53"
  then have "\<bar>of_int k :: rat\<bar> < 2 ^ 53"
    by (metis of_int_abs of_int_less_iff of_int_numeral of_int_power)
  moreover have "(2 ^ 53 :: rat) \<le> 2 ^ 1024" by (rule power_increasing) auto
  ultimately show ?thesis using fl_round_int [OF k] by (intro fl_small) linarith+
qed

lemma fl_0 [simp]: "fl 0 = Fin 0"
  by (simp add: fl_def)

lemma fl_1 [fl_simps]: "fl 1 = Fin 1"
  using fl_int [of 1] by simp

lemma fl_numeral [fl_simps]:
  "(numeral k :: int) < 2 ^ 53 \<Longrightarrow> fl (numeral k) = Fin (numeral k)"
  "(numeral k :: int) < 2 ^ 53 \<Longrightarrow> fl (- numeral k) = Fin (- numeral k)"
  using fl_int [of "numeral k"] by (simp_all add: fl_Fin_minus)

lemma float_of_int_small [fl_simps]: "\<bar>k\<bar> < 2 ^ 53 \<Longrightarrow> float_of_int k = Inr (Fin (of_int k))"
  by (simp add: float_of_int_def fl_int)

lemma fl_in_range:
  assumes "0 \<le> x" and "x \<le> of_int k" and "\<bar>k\<bar> < 2 ^ 53"
  shows "\<exists>y. fl x = Fin y \<and> 0 \<le> y \<and> y \<le> of_int k"
proof -
  have "fle (fl x) (Fin (of_int k))" using fl_mono [OF assms(2)] fl_int [OF assms(3)] by simp
  with fl_nonneg [OF assms(1)] show ?thesis by (cases "fl x") auto
qed

lemma fl_bounded:
  assumes "0 \<le> x" and "x \<le> of_int k" and "\<bar>k\<bar> < 2 ^ 53"
  shows "fl x = Fin (fl_round x) \<and> 0 \<le> fl_round x \<and> fl_round x \<le> of_int k"
  using fl_in_range [OF assms] by (auto simp: fl_def Let_def split: if_splits)

text \<open>Subtraction is monotone in its first operand.\<close>

lemma fle_top: "\<not> is_nan a \<Longrightarrow> fle a PInf" "\<not> is_nan a \<Longrightarrow> fle NInf a"
  by (cases a; simp)+

lemma fsub_mono: "fle a b \<Longrightarrow> fle (fsub a (Fin w)) (fsub b (Fin w))"
  by (cases a; cases b) (auto simp: fsub_def fle_top intro: fl_mono)

end
