(* ===== verification/Py_Value.thy ===== *)
theory Py_Value
  imports Py_Float
begin

section \<open>Dynamic values\<close>

text \<open>
  The values a decoded JSON payload or a caller passes where the source tests types at run
  time.  A datetime is its local clock in microseconds with the UTC offset in microseconds,
  absent when it is naive; a date is its ordinal.  Dictionaries are association lists in
  insertion order.
\<close>

datatype datetime = Datetime (clock_us: int) (offset_us: "int option")

datatype pyval =
    PNone
  | PBool bool
  | PInt int
  | PFloat pyfloat
  | PStr string
  | PTime datetime
  | PDate int
  | PList "pyval list"
  | PDict "(string \<times> pyval) list"

type_synonym payload = "(string \<times> pyval) list"

text \<open>
  The run-time functions the source calls: UUID and SHA-256 digests (of the latter the first eight
  bytes as a number), ISO-8601 printing and parsing, the JSON codec, \<open>repr\<close>, the message of an
  exception, a float parsed from a string or printed with a number of decimals, and the clock.  Every
  theorem holds for all of them unless it states what it needs.
\<close>

type_synonym bytes = "nat list"

record runtime =
  uuid5 :: "string \<Rightarrow> string"
  sha256_64 :: "string \<Rightarrow> nat"
  fromisoformat :: "string \<Rightarrow> datetime option"
  isoformat :: "int \<Rightarrow> string"
  iso_date :: "int \<Rightarrow> string"
  date_of_iso :: "string \<Rightarrow> int option"
  json_loads :: "bytes \<Rightarrow> pyval option"
  json_dumps :: "pyval \<Rightarrow> string"
  repr_value :: "pyval \<Rightarrow> string"
  float_of_str :: "string \<Rightarrow> pyfloat option"
  str_exn :: "exn \<Rightarrow> string"
  format_float :: "nat \<Rightarrow> pyfloat \<Rightarrow> string"
  now_us :: int

fun py_str :: "runtime \<Rightarrow> pyval \<Rightarrow> string" where
  "py_str rt PNone = ''None''"
| "py_str rt (PBool b) = (if b then ''True'' else ''False'')"
| "py_str rt (PInt n) = show_int n"
| "py_str rt (PStr s) = s"
| "py_str rt (PDate d) = iso_date rt d"
| "py_str rt v = repr_value rt v"

text \<open>A concrete environment, on which theorems are applied.\<close>

definition sample_runtime :: runtime where
  "sample_runtime = \<lparr>uuid5 = (\<lambda>s. ''id:'' @ s), sha256_64 = List.length,
     fromisoformat = (\<lambda>s. None), isoformat = show_int, iso_date = show_int,
     date_of_iso = (\<lambda>s. map_option int (parse_digits s)), json_loads = (\<lambda>b. None),
     json_dumps = (\<lambda>v. ''{}''), repr_value = (\<lambda>v. ''?''), float_of_str = (\<lambda>s. None),
     str_exn = (\<lambda>e. ''error''),
     format_float = (\<lambda>n x. ''0''), now_us = 5000\<rparr>"

text \<open>\<open>isinstance(v, int) and not isinstance(v, bool)\<close>, and the test for a non-blank string.\<close>

fun plain_int :: "pyval \<Rightarrow> int option" where
  "plain_int (PInt n) = Some n"
| "plain_int _ = None"

fun nonblank_str :: "pyval \<Rightarrow> string option" where
  "nonblank_str (PStr s) = (if py_strip s = [] then None else Some s)"
| "nonblank_str _ = None"

text \<open>\<open>float(value)\<close> of an \<open>int\<close> or a \<open>float\<close> that is not a \<open>bool\<close>.\<close>

fun numeric_value :: "exn \<Rightarrow> pyval \<Rightarrow> pyfloat result" where
  "numeric_value e (PInt n) = float_of_int n"
| "numeric_value e (PFloat x) = Inr x"
| "numeric_value e _ = Inl e"

lemma plain_int_Some [simp]: "plain_int v = Some n \<longleftrightarrow> v = PInt n"
  by (cases v) auto

lemma nonblank_str_Some: "nonblank_str v = Some s \<longleftrightarrow> v = PStr s \<and> py_strip s \<noteq> []"
  by (cases v) auto

text \<open>The instant a timezone-aware datetime denotes, in microseconds since the epoch.\<close>

definition utc_us :: "datetime \<Rightarrow> int option" where
  "utc_us d = map_option (\<lambda>off. clock_us d - off) (offset_us d)"

text \<open>\<open>(b - a).total_seconds() * 1000\<close>: two float operations on the exact microseconds.\<close>

definition elapsed_ms :: "int \<Rightarrow> int \<Rightarrow> pyfloat" where
  "elapsed_ms a b = fmul (fl (of_int (b - a) / 1000000)) (Fin 1000)"

lemma elapsed_ms_not_nan [simp]: "\<not> is_nan (elapsed_ms a b)"
proof -
  have "\<not> is_nan (fmul (fl x) (Fin 1000))" for x
    by (auto simp: fl_def Let_def signed_inf_def)
  then show ?thesis by (simp add: elapsed_ms_def)
qed

lemma elapsed_ms_nonneg: "a \<le> b \<Longrightarrow> fle (Fin 0) (elapsed_ms a b)"
proof -
  assume "a \<le> b"
  then have "fle (Fin 0) (fl (of_int (b - a) / 1000000))" by (intro fl_nonneg) simp
  then show ?thesis
    by (cases "fl (of_int (b - a) / 1000000)")
      (auto simp: elapsed_ms_def signed_inf_def intro: fl_nonneg)
qed

lemma elapsed_ms_nonpos: "b \<le> a \<Longrightarrow> fle (elapsed_ms a b) (Fin 0)"
proof -
  assume "b \<le> a"
  then have "fle (fl (of_int (b - a) / 1000000)) (Fin 0)"
    using fl_mono [of "of_int (b - a) / 1000000" 0] by (simp add: divide_le_0_iff)
  then show ?thesis
    using fl_mono [of "x * 1000" 0 for x]
    by (cases "fl (of_int (b - a) / 1000000)") (auto simp: elapsed_ms_def signed_inf_def)
qed

end
