(* ===== verification/Sql.thy ===== *)
theory Sql
  imports Py_Value
begin

section \<open>Tables, statements and transactions\<close>

text \<open>
  The SQL the storage layer executes: tables with typed columns, primary keys, unique and
  foreign keys and \<open>NOT NULL\<close>; \<open>CREATE TABLE IF NOT EXISTS\<close>, \<open>ALTER TABLE ADD COLUMN IF NOT EXISTS\<close>,
  \<open>INSERT\<close>, \<open>INSERT ... ON CONFLICT DO NOTHING\<close>, \<open>UPDATE\<close>, \<open>SELECT\<close> and transactions.  The
  database engine is the parameter \<open>engine\<close>: how it converts a value to a column type, the time
  it reads, and for the n-th statement whether it fails (lock, disk, interrupt).  Every theorem
  holds for all engines.  A statement that fails changes no table.
\<close>

datatype coltype = VARCHAR | TIMESTAMP | DATE | FLOAT | DOUBLE | BIGINT | INTEGER | BOOLEAN

datatype default_value = NoDefault | DefaultValue pyval | CurrentTimestamp

record column =
  col_name :: string
  col_type :: coltype
  col_not_null :: bool
  col_default :: default_value

type_synonym row = "pyval list"

record table =
  tb_columns :: "column list"
  tb_primary :: "string list"
  tb_unique :: "string list list"
  tb_references :: "(string \<times> string) list"
  tb_rows :: "row list"

type_synonym tables = "(string \<times> table) list"

record engine =
  cast_value :: "coltype \<Rightarrow> pyval \<Rightarrow> pyval option"
  fault :: "nat \<Rightarrow> exn option"
  clock :: "nat \<Rightarrow> pyval"

record store =
  st_tables :: tables
  st_steps :: nat

type_synonym 'a db = "(store, 'a) prog"

text \<open>One statement: it counts, may be failed by the engine, and otherwise acts on the tables.\<close>

definition statement :: "engine \<Rightarrow> (tables \<Rightarrow> ('a \<times> tables) result) \<Rightarrow> 'a db" where
  "statement eng f s =
     (let s' = s\<lparr>st_steps := st_steps s + 1\<rparr> in
      case fault eng (st_steps s) of
        Some e \<Rightarrow> (Inl e, s')
      | None \<Rightarrow> (case f (st_tables s) of
            Inl e \<Rightarrow> (Inl e, s')
          | Inr (x, ts) \<Rightarrow> (Inr x, s'\<lparr>st_tables := ts\<rparr>)))"

text \<open>\<open>BEGIN TRANSACTION\<close>; \<open>try\<close>: body, \<open>COMMIT\<close>; \<open>except\<close>: \<open>ROLLBACK\<close> and re-raise.\<close>

definition no_op :: "tables \<Rightarrow> (unit \<times> tables) result" where
  "no_op ts = Inr ((), ts)"

definition transaction :: "engine \<Rightarrow> 'a db \<Rightarrow> 'a db" where
  "transaction eng body = bind_st (statement eng no_op) (\<lambda>_ s1.
     case bind_st body (\<lambda>x. bind_st (statement eng no_op) (\<lambda>_. return_st x)) s1 of
       (Inr x, s2) \<Rightarrow> (Inr x, s2)
     | (Inl e, s2) \<Rightarrow>
         (Inl (case fault eng (st_steps s2) of None \<Rightarrow> e | Some e' \<Rightarrow> e'),
          s2\<lparr>st_tables := st_tables s1, st_steps := st_steps s2 + 1\<rparr>))"

subsection \<open>Definition of tables\<close>

definition column_names :: "table \<Rightarrow> string list" where
  "column_names tb = map col_name (tb_columns tb)"

definition row_view :: "table \<Rightarrow> row \<Rightarrow> (string \<times> pyval) list" where
  "row_view tb r = zip (column_names tb) r"

definition field :: "table \<Rightarrow> string \<Rightarrow> row \<Rightarrow> pyval" where
  "field tb c r = dict_get PNone (row_view tb r) c"

definition cells :: "table \<Rightarrow> string list \<Rightarrow> row \<Rightarrow> pyval list" where
  "cells tb cs r = map (\<lambda>c. field tb c r) cs"

definition create_table :: "string \<Rightarrow> table \<Rightarrow> tables \<Rightarrow> (unit \<times> tables) result" where
  "create_table name tb ts =
     (case map_of ts name of Some _ \<Rightarrow> Inr ((), ts) | None \<Rightarrow> Inr ((), ts @ [(name, tb)]))"

definition default_of :: "pyval \<Rightarrow> column \<Rightarrow> pyval" where
  "default_of now c = (case col_default c of NoDefault \<Rightarrow> PNone | DefaultValue v \<Rightarrow> v | CurrentTimestamp \<Rightarrow> now)"

definition add_column :: "pyval \<Rightarrow> string \<Rightarrow> column \<Rightarrow> tables \<Rightarrow> (unit \<times> tables) result" where
  "add_column now name c ts =
     (case map_of ts name of
        None \<Rightarrow> Inl DatabaseError
      | Some tb \<Rightarrow>
          if col_name c \<in> set (column_names tb) then Inr ((), ts)
          else Inr ((), AList.update name
            (tb\<lparr>tb_columns := tb_columns tb @ [c],
                tb_rows := map (\<lambda>r. r @ [default_of now c]) (tb_rows tb)\<rparr>) ts))"

subsection \<open>Rows\<close>

text \<open>\<open>NULL\<close> has every type, and a string column stores a string as it is.\<close>

definition convert :: "engine \<Rightarrow> coltype \<Rightarrow> pyval \<Rightarrow> pyval option" where
  "convert eng t v =
     (case v of PNone \<Rightarrow> Some PNone
      | PStr s \<Rightarrow> if t = VARCHAR then Some v else cast_value eng t v
      | _ \<Rightarrow> cast_value eng t v)"

definition cast_cell :: "engine \<Rightarrow> table \<Rightarrow> column \<Rightarrow> pyval \<Rightarrow> pyval result" where
  "cast_cell eng tb c v =
     (case convert eng (col_type c) v of
        None \<Rightarrow> Inl DatabaseError
      | Some v' \<Rightarrow>
          if v' = PNone \<and> (col_not_null c \<or> col_name c \<in> set (tb_primary tb))
          then Inl DatabaseError else Inr v')"

definition build_row :: "engine \<Rightarrow> pyval \<Rightarrow> table \<Rightarrow> string list \<Rightarrow> pyval list \<Rightarrow> row result" where
  "build_row eng now tb cols vals =
     (if length vals \<noteq> length cols \<or> \<not> set cols \<subseteq> set (column_names tb) then Inl DatabaseError
      else map_res (\<lambda>c. cast_cell eng tb c (dict_get (default_of now c) (zip cols vals) (col_name c)))
             (tb_columns tb))"

definition same_primary :: "table \<Rightarrow> row \<Rightarrow> bool" where
  "same_primary tb r \<longleftrightarrow> tb_primary tb \<noteq> [] \<and>
     cells tb (tb_primary tb) r \<in> set (map (cells tb (tb_primary tb)) (tb_rows tb))"

definition unique_clash :: "table \<Rightarrow> row \<Rightarrow> bool" where
  "unique_clash tb r \<longleftrightarrow> (\<exists>u\<in>set (tb_unique tb).
     PNone \<notin> set (cells tb u r) \<and> cells tb u r \<in> set (map (cells tb u) (tb_rows tb)))"

definition dangling :: "tables \<Rightarrow> table \<Rightarrow> row \<Rightarrow> bool" where
  "dangling ts tb r \<longleftrightarrow> (\<exists>(c, parent)\<in>set (tb_references tb). field tb c r \<noteq> PNone \<and>
     (case map_of ts parent of
        None \<Rightarrow> True
      | Some p \<Rightarrow> [field tb c r] \<notin> set (map (cells p (tb_primary p)) (tb_rows p))))"

definition insert_row :: "engine \<Rightarrow> bool \<Rightarrow> pyval \<Rightarrow> string \<Rightarrow> string list \<Rightarrow> pyval list \<Rightarrow> tables \<Rightarrow>
    (unit \<times> tables) result" where
  "insert_row eng ignore now name cols vals ts =
     (case map_of ts name of
        None \<Rightarrow> Inl DatabaseError
      | Some tb \<Rightarrow> bind_res (build_row eng now tb cols vals) (\<lambda>r.
          if same_primary tb r then (if ignore then Inr ((), ts) else Inl DatabaseError)
          else if unique_clash tb r \<or> dangling ts tb r then Inl DatabaseError
          else Inr ((), AList.update name (tb\<lparr>tb_rows := tb_rows tb @ [r]\<rparr>) ts)))"

text \<open>\<open>INSERT INTO name (cols) VALUES (vals)\<close>, with or without \<open>ON CONFLICT DO NOTHING\<close>.\<close>

definition insert_into :: "engine \<Rightarrow> string \<Rightarrow> string list \<Rightarrow> pyval list \<Rightarrow> unit db" where
  "insert_into eng name cols vals s =
     statement eng (insert_row eng False (clock eng (st_steps s)) name cols vals) s"

definition insert_ignore :: "engine \<Rightarrow> string \<Rightarrow> string list \<Rightarrow> pyval list \<Rightarrow> unit db" where
  "insert_ignore eng name cols vals s =
     statement eng (insert_row eng True (clock eng (st_steps s)) name cols vals) s"

text \<open>\<open>executemany\<close> rejects an empty list of parameter sets.\<close>

definition insert_many :: "engine \<Rightarrow> string \<Rightarrow> string list \<Rightarrow> pyval list list \<Rightarrow> unit db" where
  "insert_many eng name cols rows =
     (if rows = [] then fail_st DatabaseError else for_st (insert_into eng name cols) rows)"

text \<open>\<open>SELECT cols FROM name WHERE key = value\<close>\<close>

definition select_rows :: "string \<Rightarrow> string list \<Rightarrow> string \<Rightarrow> pyval \<Rightarrow> tables \<Rightarrow>
    (pyval list list \<times> tables) result" where
  "select_rows name cols key v ts =
     (case map_of ts name of
        None \<Rightarrow> Inl DatabaseError
      | Some tb \<Rightarrow>
          if \<not> set (key # cols) \<subseteq> set (column_names tb) then Inl DatabaseError
          else Inr (map (cells tb cols) (filter (\<lambda>r. v \<noteq> PNone \<and> field tb key r = v) (tb_rows tb)), ts))"

definition select :: "engine \<Rightarrow> string \<Rightarrow> string list \<Rightarrow> string \<Rightarrow> pyval \<Rightarrow> pyval list list db" where
  "select eng name cols key v = statement eng (select_rows name cols key v)"

text \<open>\<open>UPDATE name SET ... WHERE ...\<close>; the assigned cells are given as a function of the row.  No
  update of the source assigns a key column, so keys are not checked again.\<close>

definition set_cells :: "engine \<Rightarrow> table \<Rightarrow> (string \<times> pyval) list \<Rightarrow> row \<Rightarrow> row result" where
  "set_cells eng tb upd r =
     map_res (\<lambda>(c, v). case map_of upd (col_name c) of None \<Rightarrow> Inr v | Some v' \<Rightarrow> cast_cell eng tb c v')
       (zip (tb_columns tb) r)"

definition update_rows :: "engine \<Rightarrow> string \<Rightarrow> ((string \<Rightarrow> pyval) \<Rightarrow> bool) \<Rightarrow>
    ((string \<Rightarrow> pyval) \<Rightarrow> (string \<times> pyval) list) \<Rightarrow> tables \<Rightarrow> (unit \<times> tables) result" where
  "update_rows eng name cond upd ts =
     (case map_of ts name of
        None \<Rightarrow> Inl DatabaseError
      | Some tb \<Rightarrow> bind_res
          (map_res (\<lambda>r. let get = (\<lambda>c. field tb c r) in
              if cond get then set_cells eng tb (upd get) r else Inr r) (tb_rows tb))
          (\<lambda>rows. Inr ((), AList.update name (tb\<lparr>tb_rows := rows\<rparr>) ts)))"


definition update_table :: "engine \<Rightarrow> string \<Rightarrow> ((string \<Rightarrow> pyval) \<Rightarrow> bool) \<Rightarrow>
    (pyval \<Rightarrow> (string \<Rightarrow> pyval) \<Rightarrow> (string \<times> pyval) list) \<Rightarrow> unit db" where
  "update_table eng name cond upd s =
     statement eng (update_rows eng name cond (upd (clock eng (st_steps s)))) s"

subsection \<open>Monad laws and frames\<close>

lemma statement_cases:
  assumes "statement eng f s = (r, s')"
  obtains (fault) e where "r = Inl e" "st_tables s' = st_tables s"
    | (fail) e where "f (st_tables s) = Inl e" "r = Inl e" "st_tables s' = st_tables s"
    | (effect) x ts where "f (st_tables s) = Inr (x, ts)" "r = Inr x" "st_tables s' = ts"
  using assms by (auto simp: statement_def Let_def split: option.splits sum.splits prod.splits)

lemma statement_ok:
  "fault eng (st_steps s) = None \<Longrightarrow> f (st_tables s) = Inr (x, ts) \<Longrightarrow>
   statement eng f s = (Inr x, \<lparr>st_tables = ts, st_steps = st_steps s + 1\<rparr>)"
  by (cases s) (simp add: statement_def)

text \<open>A transaction either fails and leaves every table as it was, or its body succeeded.\<close>

lemma transaction_cases:
  assumes "transaction eng body s = (r, s')"
  obtains (rolled_back) e where "r = Inl e" "st_tables s' = st_tables s"
    | (committed) x s1 s2 where "st_tables s1 = st_tables s" "body s1 = (Inr x, s2)" "r = Inr x"
        "st_tables s' = st_tables s2"
proof -
  have nop: "\<And>r a b. statement eng no_op a = (r, b) \<Longrightarrow> st_tables b = st_tables a"
    by (erule statement_cases) (auto simp: no_op_def)
  from assms show ?thesis
    unfolding transaction_def
  proof (cases rule: bind_st_cases)
    case (fail e)
    with nop that(1) show ?thesis by blast
  next
    case (cont x s1)
    have s1: "st_tables s1 = st_tables s" using nop cont(1) by blast
    obtain rb s2 where b: "bind_st body (\<lambda>x. bind_st (statement eng no_op) (\<lambda>_. return_st x)) s1 = (rb, s2)"
      by (cases "bind_st body (\<lambda>x. bind_st (statement eng no_op) (\<lambda>_. return_st x)) s1")
    show ?thesis
    proof (cases rb)
      case (Inl e)
      with cont(2) b s1 that(1) show ?thesis by auto
    next
      case (Inr y)
      with b obtain z s3 where z: "body s1 = (Inr z, s3)"
        "bind_st (statement eng no_op) (\<lambda>_. return_st z) s3 = (Inr y, s2)"
        by (auto elim: bind_st_cases)
      then have "y = z" "st_tables s2 = st_tables s3"
        by (auto elim!: bind_st_cases dest: nop simp: return_st_def)
      with cont(2) b Inr s1 z(1) that(2) show ?thesis by auto
    qed
  qed
qed

text \<open>What every statement of a program preserves, the program preserves.\<close>

definition preserves :: "(tables \<Rightarrow> bool) \<Rightarrow> 'a db \<Rightarrow> bool" where
  "preserves P m \<longleftrightarrow> (\<forall>s. P (st_tables s) \<longrightarrow> P (st_tables (snd (m s))))"

lemma preservesD: "preserves P m \<Longrightarrow> m s = (r, s') \<Longrightarrow> P (st_tables s) \<Longrightarrow> P (st_tables s')"
  by (metis preserves_def snd_conv)

lemma preserves_return [intro]: "preserves P (return_st x)" "preserves P (fail_st e)"
  by (simp_all add: preserves_def st_simps)

lemma preserves_bind [intro]:
  "preserves P m \<Longrightarrow> (\<And>x. preserves P (f x)) \<Longrightarrow> preserves P (bind_st m f)"
  unfolding preserves_def bind_st_def by (auto split: prod.splits sum.splits)

lemma preserves_for [intro]: "(\<And>x. preserves P (f x)) \<Longrightarrow> preserves P (for_st f xs)"
  by (induction xs) auto

lemma preserves_statement:
  "(\<And>ts x ts'. P ts \<Longrightarrow> f ts = Inr (x, ts') \<Longrightarrow> P ts') \<Longrightarrow> preserves P (statement eng f)"
  unfolding preserves_def statement_def Let_def
  by (auto split: option.splits sum.splits prod.splits)

lemma preserves_transaction [intro]: "preserves P m \<Longrightarrow> preserves P (transaction eng m)"
  unfolding preserves_def
proof (intro allI impI)
  fix s :: store assume m: "\<forall>s. P (st_tables s) \<longrightarrow> P (st_tables (snd (m s)))" and "P (st_tables s)"
  obtain r s' where t: "transaction eng m s = (r, s')" by (cases "transaction eng m s")
  then have "P (st_tables s')"
  proof (cases rule: transaction_cases)
    case (committed x s1 s2)
    with m \<open>P (st_tables s)\<close> show ?thesis by (metis snd_conv)
  qed (use \<open>P (st_tables s)\<close> in simp)
  with t show "P (st_tables (snd (transaction eng m s)))" by simp
qed


subsection \<open>Integrity: keys, widths and \<open>NOT NULL\<close>\<close>

definition required :: "table \<Rightarrow> column \<Rightarrow> bool" where
  "required tb c \<longleftrightarrow> col_not_null c \<or> col_name c \<in> set (tb_primary tb)"

definition row_ok :: "table \<Rightarrow> row \<Rightarrow> bool" where
  "row_ok tb r \<longleftrightarrow> length r = length (tb_columns tb) \<and>
     (\<forall>(c, v)\<in>set (zip (tb_columns tb) r). required tb c \<longrightarrow> v \<noteq> PNone)"

definition primary_keys :: "table \<Rightarrow> pyval list list" where
  "primary_keys tb = map (cells tb (tb_primary tb)) (tb_rows tb)"

definition table_ok :: "table \<Rightarrow> bool" where
  "table_ok tb \<longleftrightarrow> distinct (column_names tb) \<and> (\<forall>r\<in>set (tb_rows tb). row_ok tb r) \<and>
     (tb_primary tb \<noteq> [] \<longrightarrow> distinct (primary_keys tb))"

definition tables_ok :: "tables \<Rightarrow> bool" where
  "tables_ok ts \<longleftrightarrow> distinct (map fst ts) \<and> (\<forall>(n, tb)\<in>set ts. table_ok tb)"

lemma set_alist_update: "set (AList.update k v ts) \<subseteq> insert (k, v) (set ts)"
  by (induction ts) auto

lemma tables_ok_update: "tables_ok ts \<Longrightarrow> table_ok tb \<Longrightarrow> tables_ok (AList.update n tb ts)"
  using set_alist_update [of n tb ts] by (auto simp: tables_ok_def distinct_update)

lemma tables_ok_lookup: "tables_ok ts \<Longrightarrow> map_of ts n = Some tb \<Longrightarrow> table_ok tb"
  by (auto simp: tables_ok_def dest: map_of_SomeD)

lemma cast_cell_required: "cast_cell eng tb c v = Inr v' \<Longrightarrow> required tb c \<Longrightarrow> v' \<noteq> PNone"
  by (auto simp: cast_cell_def required_def split: if_splits option.splits)

lemma zip_map_res:
  assumes "map_res f xs = Inr ys" and "(x, y) \<in> set (zip xs ys)"
  shows "f x = Inr y"
proof -
  obtain i where "i < length xs" "i < length ys" "x = xs ! i" "y = ys ! i"
    using assms(2) by (auto simp: set_zip)
  then show ?thesis using map_res_nth [OF assms(1)] by simp
qed

lemma build_row_ok: "build_row eng now tb cols vals = Inr r \<Longrightarrow> row_ok tb r"
  by (auto simp: build_row_def row_ok_def map_res_length split: if_splits
      dest!: zip_map_res dest: cast_cell_required)

lemma fields_rows [simp]:
  "cells (tb\<lparr>tb_rows := rows\<rparr>) = cells tb" "field (tb\<lparr>tb_rows := rows\<rparr>) = field tb"
  "row_view (tb\<lparr>tb_rows := rows\<rparr>) = row_view tb" "column_names (tb\<lparr>tb_rows := rows\<rparr>) = column_names tb"
  "row_ok (tb\<lparr>tb_rows := rows\<rparr>) = row_ok tb" "required (tb\<lparr>tb_rows := rows\<rparr>) = required tb"
  by (simp_all add: fun_eq_iff cells_def field_def row_view_def column_names_def row_ok_def required_def)

lemma table_ok_append:
  "table_ok tb \<Longrightarrow> row_ok tb r \<Longrightarrow> \<not> same_primary tb r \<Longrightarrow> table_ok (tb\<lparr>tb_rows := tb_rows tb @ [r]\<rparr>)"
  by (auto simp: table_ok_def same_primary_def primary_keys_def)

lemma insert_row_cases:
  assumes "insert_row eng ignore now name cols vals ts = Inr (u, ts')"
  obtains (ignored) tb r where "ignore" "ts' = ts" "map_of ts name = Some tb"
      "build_row eng now tb cols vals = Inr r" "same_primary tb r"
    | (inserted) tb r where "map_of ts name = Some tb" "build_row eng now tb cols vals = Inr r"
      "\<not> same_primary tb r" "\<not> unique_clash tb r" "\<not> dangling ts tb r"
      "ts' = AList.update name (tb\<lparr>tb_rows := tb_rows tb @ [r]\<rparr>) ts"
proof -
  obtain tb where tb: "map_of ts name = Some tb"
    using assms by (auto simp: insert_row_def split: option.splits)
  obtain r where r: "build_row eng now tb cols vals = Inr r"
    using assms tb by (auto simp: insert_row_def res_simps)
  show ?thesis
    using assms tb r that(1) [OF _ _ tb r] that(2) [OF tb r]
    by (simp add: insert_row_def split: if_splits)
qed

lemma insert_row_tables_ok:
  assumes "tables_ok ts" and "insert_row eng ignore now name cols vals ts = Inr (u, ts')"
  shows "tables_ok ts'"
  using assms(2)
proof (cases rule: insert_row_cases)
  case (inserted tb r)
  with tables_ok_lookup [OF assms(1)] build_row_ok have "table_ok (tb\<lparr>tb_rows := tb_rows tb @ [r]\<rparr>)"
    by (intro table_ok_append) blast+
  with inserted tables_ok_update [OF assms(1)] show ?thesis by simp
qed (use assms(1) in simp)

lemma insert_into_ok [intro]: "preserves tables_ok (insert_into eng name cols vals)"
  unfolding preserves_def insert_into_def
  by (metis insert_row_tables_ok preserves_def preserves_statement)

lemma insert_ignore_ok [intro]: "preserves tables_ok (insert_ignore eng name cols vals)"
  unfolding preserves_def insert_ignore_def
  by (metis insert_row_tables_ok preserves_def preserves_statement)

lemma insert_many_ok [intro]: "preserves tables_ok (insert_many eng name cols rows)"
  unfolding insert_many_def by auto

lemma select_same: "select eng name cols key v s = (r, s') \<Longrightarrow> st_tables s' = st_tables s"
  unfolding select_def
  by (erule statement_cases) (auto simp: select_rows_def split: option.splits if_splits)

lemma select_ok [intro]: "preserves P (select eng name cols key v)"
  unfolding preserves_def by (metis prod.collapse select_same)

subsection \<open>Referential integrity\<close>

definition refs_ok :: "tables \<Rightarrow> bool" where
  "refs_ok ts \<longleftrightarrow> (\<forall>(n, tb)\<in>set ts. \<forall>r\<in>set (tb_rows tb). \<not> dangling ts tb r)"

lemma dangling_rows [simp]: "dangling ts (tb\<lparr>tb_rows := rows\<rparr>) = dangling ts tb"
  by (simp add: dangling_def fun_eq_iff cong: option.case_cong)

lemma dangling_grow:
  assumes "map_of ts name = Some tb" and "\<not> dangling ts tb' r"
  shows "\<not> dangling (AList.update name (tb\<lparr>tb_rows := tb_rows tb @ rs\<rparr>) ts) tb' r"
proof
  assume "dangling (AList.update name (tb\<lparr>tb_rows := tb_rows tb @ rs\<rparr>) ts) tb' r"
  then obtain c parent where c: "(c, parent) \<in> set (tb_references tb')" "field tb' c r \<noteq> PNone"
    and p: "case ((map_of ts)(name \<mapsto> tb\<lparr>tb_rows := tb_rows tb @ rs\<rparr>)) parent of None \<Rightarrow> True
      | Some p \<Rightarrow> [field tb' c r] \<notin> set (map (cells p (tb_primary p)) (tb_rows p))"
    by (auto simp: dangling_def update_conv)
  have "case map_of ts parent of None \<Rightarrow> True
      | Some p \<Rightarrow> [field tb' c r] \<notin> set (map (cells p (tb_primary p)) (tb_rows p))"
    using p assms(1) by (auto split: if_splits)
  with c assms(2) show False by (auto simp: dangling_def)
qed

lemma insert_row_refs_ok:
  assumes "refs_ok ts" and "insert_row eng ignore now name cols vals ts = Inr (u, ts')"
  shows "refs_ok ts'"
  using assms(2)
proof (cases rule: insert_row_cases)
  case (inserted tb r)
  let ?tb = "tb\<lparr>tb_rows := tb_rows tb @ [r]\<rparr>"
  have "\<not> dangling ts tb'' r''" if "(n, tb'') \<in> set ts'" "r'' \<in> set (tb_rows tb'')" for n tb'' r''
  proof -
    have "(n, tb'') = (name, ?tb) \<or> (n, tb'') \<in> set ts"
      using that(1) set_alist_update [of name ?tb ts] inserted(6) by auto
    moreover have "\<forall>r\<in>set (tb_rows tb). \<not> dangling ts tb r"
      using assms(1) map_of_SomeD [OF inserted(1)] unfolding refs_ok_def by blast
    ultimately show ?thesis
      using that(2) inserted(5) assms(1) unfolding refs_ok_def by auto
  qed
  with dangling_grow [OF inserted(1), of _ _ "[r]"] inserted(6) show ?thesis
    by (auto simp: refs_ok_def)
qed (use assms(1) in simp)

lemma insert_into_refs [intro]: "preserves refs_ok (insert_into eng name cols vals)"
  unfolding preserves_def insert_into_def
  by (metis insert_row_refs_ok preserves_def preserves_statement)

lemma insert_ignore_refs [intro]: "preserves refs_ok (insert_ignore eng name cols vals)"
  unfolding preserves_def insert_ignore_def
  by (metis insert_row_refs_ok preserves_def preserves_statement)

lemma insert_many_refs [intro]: "preserves refs_ok (insert_many eng name cols rows)"
  unfolding insert_many_def by auto

subsection \<open>Rows of the tables\<close>

definition rows_of :: "tables \<Rightarrow> string \<Rightarrow> row list" where
  "rows_of ts n = (case map_of ts n of None \<Rightarrow> [] | Some tb \<Rightarrow> tb_rows tb)"

definition schema_of :: "tables \<Rightarrow> string \<Rightarrow> table option" where
  "schema_of ts n = map_option (\<lambda>tb. tb\<lparr>tb_rows := []\<rparr>) (map_of ts n)"

lemma insert_row_effect:
  assumes "insert_row eng False now name cols vals ts = Inr (u, ts')"
  shows "\<exists>tb r. map_of ts name = Some tb \<and> build_row eng now tb cols vals = Inr r \<and>
    rows_of ts' = (rows_of ts)(name := rows_of ts name @ [r]) \<and> schema_of ts' = schema_of ts"
  using assms
proof (cases rule: insert_row_cases)
  case (inserted tb r)
  then show ?thesis
    by (auto simp: rows_of_def schema_of_def update_conv fun_eq_iff)
qed simp


lemma insert_row_new:
  assumes "insert_row eng False now name cols vals ts = Inr (u, ts')"
  shows "\<exists>tb r. map_of ts name = Some tb \<and> build_row eng now tb cols vals = Inr r \<and> \<not> same_primary tb r"
  using assms by (cases rule: insert_row_cases) auto

lemma field_nth:
  assumes "distinct (column_names tb)" and "length r = length (tb_columns tb)" and "i < length r"
  shows "field tb (col_name (tb_columns tb ! i)) r = r ! i"
proof -
  have "(col_name (tb_columns tb ! i), r ! i) \<in> set (row_view tb r)"
    using assms by (auto simp: row_view_def column_names_def set_zip intro!: exI [of _ i])
  moreover have "distinct (map fst (row_view tb r))"
    using assms by (simp add: row_view_def column_names_def)
  ultimately have "map_of (row_view tb r) (col_name (tb_columns tb ! i)) = Some (r ! i)" by simp
  then show ?thesis by (simp add: field_def)
qed

lemma build_row_field:
  assumes "build_row eng now tb cols vals = Inr r" and "distinct (column_names tb)"
    and "c \<in> set (tb_columns tb)"
  shows "cast_cell eng tb c (dict_get (default_of now c) (zip cols vals) (col_name c))
    = Inr (field tb (col_name c) r)"
proof -
  obtain i where i: "i < length (tb_columns tb)" "c = tb_columns tb ! i"
    using assms(3) by (metis in_set_conv_nth)
  have m: "map_res (\<lambda>c. cast_cell eng tb c (dict_get (default_of now c) (zip cols vals) (col_name c)))
      (tb_columns tb) = Inr r"
    using assms(1) by (auto simp: build_row_def split: if_splits)
  have len: "length r = length (tb_columns tb)" using map_res_length [OF m] .
  from map_res_nth [OF m i(1)] i field_nth [OF assms(2) len] len show ?thesis by simp
qed

lemma cast_string: "col_type c = VARCHAR \<Longrightarrow> cast_cell eng tb c (PStr s) = Inr (PStr s)"
  by (simp add: cast_cell_def convert_def)

end
