(* ===== verification/Store_Schema.thy ===== *)
theory Store_Schema
  imports Sql
begin

section \<open>The schema of the store and its migrations\<close>

text \<open>
  \<open>initialize_database\<close>, \<open>_migrate_equity_staging_primary_key\<close> and
  \<open>_migrate_reconciliation_results\<close> of \<open>storage/duckdb.py\<close>, statement by statement.  A table of an
  older release keeps its own columns and keys until the migrations rebuild it.
\<close>

definition plain :: "string \<Rightarrow> coltype \<Rightarrow> column" where
  "plain n t = \<lparr>col_name = n, col_type = t, col_not_null = False, col_default = NoDefault\<rparr>"

definition not_null :: "string \<Rightarrow> coltype \<Rightarrow> column" where
  "not_null n t = \<lparr>col_name = n, col_type = t, col_not_null = True, col_default = NoDefault\<rparr>"

definition defaulting :: "string \<Rightarrow> coltype \<Rightarrow> default_value \<Rightarrow> column" where
  "defaulting n t d = \<lparr>col_name = n, col_type = t, col_not_null = False, col_default = d\<rparr>"

definition new_table :: "column list \<Rightarrow> string list \<Rightarrow> string list list \<Rightarrow> (string \<times> string) list \<Rightarrow> table" where
  "new_table cs pk us fks = \<lparr>tb_columns = cs, tb_primary = pk, tb_unique = us,
     tb_references = fks, tb_rows = []\<rparr>"

definition pipeline_runs :: table where
  "pipeline_runs = new_table
     [plain ''run_id'' VARCHAR, defaulting ''created_At'' TIMESTAMP CurrentTimestamp,
      plain ''started_at'' TIMESTAMP, plain ''finished_at'' TIMESTAMP, plain ''status'' VARCHAR,
      plain ''yahoo_row_count'' BIGINT, plain ''alpaca_row_count'' BIGINT,
      defaulting ''massive_row_count'' BIGINT (DefaultValue (PInt 0)),
      plain ''match_count'' BIGINT, plain ''break_count'' BIGINT]
     [''run_id''] [] []"

definition staging_columns :: "column list" where
  "staging_columns =
     [plain ''symbol'' VARCHAR, plain ''run_id'' VARCHAR, plain ''source'' VARCHAR,
      plain ''timestamp'' TIMESTAMP, plain ''open'' FLOAT, plain ''high'' FLOAT, plain ''low'' FLOAT,
      plain ''close'' FLOAT, plain ''volume'' DOUBLE]"

definition equity_bars_staging :: table where
  "equity_bars_staging = new_table staging_columns
     [''run_id'', ''source'', ''symbol'', ''timestamp''] [] [(''run_id'', ''pipeline_runs'')]"

definition result_columns_v2 :: "column list" where
  "result_columns_v2 =
     [plain ''run_id'' VARCHAR, plain ''symbol'' VARCHAR, plain ''timestamp'' TIMESTAMP,
      plain ''metric_name'' VARCHAR, plain ''source_a'' VARCHAR, plain ''source_b'' VARCHAR,
      plain ''source_a_value'' DOUBLE, plain ''source_b_value'' DOUBLE, plain ''difference'' DOUBLE,
      plain ''is_discrepancy'' BOOLEAN]"

definition result_key :: "string list" where
  "result_key = [''run_id'', ''symbol'', ''timestamp'', ''metric_name'', ''source_a'', ''source_b'']"

definition equity_reconciliation_results :: table where
  "equity_reconciliation_results = new_table
     (result_columns_v2 @ [plain ''status'' VARCHAR, plain ''break_reason'' VARCHAR]) result_key [] []"

definition equity_exceptions :: table where
  "equity_exceptions = new_table
     [plain ''exception_id'' VARCHAR, plain ''run_id'' VARCHAR, plain ''instrument_type'' VARCHAR,
      plain ''symbol'' VARCHAR, plain ''trade_date'' DATE, plain ''yahoo_close'' DOUBLE,
      plain ''alpaca_close'' DOUBLE, plain ''close_difference'' DOUBLE, plain ''source_a'' VARCHAR,
      plain ''source_b'' VARCHAR, plain ''source_a_close'' DOUBLE, plain ''source_b_close'' DOUBLE,
      plain ''severity'' VARCHAR, plain ''priority'' VARCHAR, plain ''status'' VARCHAR,
      plain ''owner'' VARCHAR, plain ''reason_code'' VARCHAR, plain ''due_at'' TIMESTAMP,
      plain ''resolved_at'' TIMESTAMP, plain ''created_at'' TIMESTAMP]
     [''exception_id''] [] [(''run_id'', ''pipeline_runs'')]"

definition exception_additions :: "column list" where
  "exception_additions =
     [plain ''source_a'' VARCHAR, plain ''source_b'' VARCHAR, plain ''source_a_close'' DOUBLE,
      plain ''source_b_close'' DOUBLE, plain ''priority'' VARCHAR, plain ''owner'' VARCHAR,
      plain ''reason_code'' VARCHAR, plain ''due_at'' TIMESTAMP, plain ''resolved_at'' TIMESTAMP]"

definition work_partitions :: table where
  "work_partitions = new_table
     [plain ''partition_id'' VARCHAR, not_null ''run_id'' VARCHAR, not_null ''control_date'' DATE,
      not_null ''instrument_type'' VARCHAR, not_null ''symbol_bucket'' INTEGER,
      not_null ''provider'' VARCHAR, not_null ''symbols_json'' VARCHAR, not_null ''status'' VARCHAR,
      \<lparr>col_name = ''attempts'', col_type = INTEGER, col_not_null = True,
       col_default = DefaultValue (PInt 0)\<rparr>,
      plain ''started_at'' TIMESTAMP, plain ''finished_at'' TIMESTAMP, plain ''error_type'' VARCHAR,
      plain ''error_message'' VARCHAR, plain ''row_count'' BIGINT]
     [''partition_id''] [[''run_id'', ''provider'', ''instrument_type'', ''symbol_bucket'']] []"

definition provider_request_metrics :: table where
  "provider_request_metrics = new_table
     [plain ''partition_id'' VARCHAR, plain ''run_id'' VARCHAR, plain ''provider'' VARCHAR,
      plain ''instrument_type'' VARCHAR, plain ''symbol_bucket'' INTEGER,
      plain ''requested_symbols'' INTEGER, plain ''returned_rows'' BIGINT, plain ''latency_ms'' DOUBLE,
      plain ''reused_archive'' BOOLEAN, plain ''outcome_status'' VARCHAR, plain ''error_type'' VARCHAR,
      plain ''recorded_at'' TIMESTAMP] [] [] []"

definition quarantine_records :: table where
  "quarantine_records = new_table
     [plain ''quarantine_id'' VARCHAR, plain ''partition_id'' VARCHAR, plain ''run_id'' VARCHAR,
      plain ''provider'' VARCHAR, plain ''instrument_type'' VARCHAR, plain ''symbol_bucket'' INTEGER,
      plain ''reason'' VARCHAR, plain ''raw_archive_path'' VARCHAR, plain ''created_at'' TIMESTAMP]
     [''quarantine_id''] [] []"

definition option_runs :: table where
  "option_runs = new_table
     [plain ''run_id'' VARCHAR, not_null ''underlying'' VARCHAR, not_null ''expiry'' DATE,
      plain ''started_at'' TIMESTAMP, plain ''finished_at'' TIMESTAMP, not_null ''status'' VARCHAR,
      plain ''yahoo_row_count'' BIGINT, plain ''alpaca_row_count'' BIGINT, plain ''match_count'' BIGINT,
      plain ''break_count'' BIGINT] [''run_id''] [] []"

definition option_contracts_staging :: table where
  "option_contracts_staging = new_table
     [plain ''run_id'' VARCHAR, plain ''source'' VARCHAR, plain ''underlying'' VARCHAR,
      plain ''expiry'' DATE, plain ''strike'' DOUBLE, plain ''option_type'' VARCHAR,
      plain ''contract_symbol'' VARCHAR, plain ''trade_date'' DATE, plain ''close'' DOUBLE,
      plain ''bid'' DOUBLE, plain ''ask'' DOUBLE, plain ''volume'' DOUBLE, plain ''open_interest'' DOUBLE]
     [''run_id'', ''source'', ''underlying'', ''expiry'', ''strike'', ''option_type'', ''trade_date''] [] []"

definition option_reconciliation_results :: table where
  "option_reconciliation_results = new_table
     [plain ''run_id'' VARCHAR, plain ''underlying'' VARCHAR, plain ''expiry'' DATE,
      plain ''strike'' DOUBLE, plain ''option_type'' VARCHAR, plain ''contract_symbol'' VARCHAR,
      plain ''trade_date'' DATE, plain ''source_a'' VARCHAR, plain ''source_b'' VARCHAR,
      plain ''source_a_close'' DOUBLE, plain ''source_b_close'' DOUBLE,
      plain ''close_difference'' DOUBLE, plain ''status'' VARCHAR, plain ''break_reason'' VARCHAR]
     [''run_id'', ''underlying'', ''expiry'', ''strike'', ''option_type'', ''trade_date'', ''source_a'',
      ''source_b''] [] []"

definition realtime_event_journal :: table where
  "realtime_event_journal = new_table
     [plain ''event_id'' VARCHAR, not_null ''sequence_number'' BIGINT,
      not_null ''sequence_status'' VARCHAR, not_null ''transport'' VARCHAR, plain ''source'' VARCHAR,
      plain ''stream_id'' VARCHAR, plain ''event_type'' VARCHAR, plain ''quantity'' DOUBLE,
      plain ''correlation_id'' VARCHAR, plain ''expected_sequence'' BIGINT,
      defaulting ''missing_count'' BIGINT (DefaultValue (PInt 0)), not_null ''symbol'' VARCHAR,
      not_null ''price'' DOUBLE, not_null ''exchange_timestamp'' TIMESTAMP,
      not_null ''received_timestamp'' TIMESTAMP, not_null ''latency_ms'' DOUBLE,
      plain ''pct_change'' DOUBLE, not_null ''is_anomaly'' BOOLEAN, not_null ''reason'' VARCHAR,
      plain ''trace_id'' VARCHAR, plain ''span_id'' VARCHAR, not_null ''recorded_at'' TIMESTAMP]
     [''event_id''] [] []"

definition journal_additions :: "column list" where
  "journal_additions =
     [plain ''source'' VARCHAR, plain ''stream_id'' VARCHAR, plain ''event_type'' VARCHAR,
      plain ''quantity'' DOUBLE, plain ''correlation_id'' VARCHAR, plain ''expected_sequence'' BIGINT,
      defaulting ''missing_count'' BIGINT (DefaultValue (PInt 0))]"

subsection \<open>Statements of data definition\<close>

definition drop_table :: "string \<Rightarrow> tables \<Rightarrow> (unit \<times> tables) result" where
  "drop_table name ts =
     (if map_of ts name = None then Inl DatabaseError else Inr ((), AList.delete name ts))"

definition rename_table :: "string \<Rightarrow> string \<Rightarrow> tables \<Rightarrow> (unit \<times> tables) result" where
  "rename_table old new ts =
     (case map_of ts old of
        None \<Rightarrow> Inl DatabaseError
      | Some tb \<Rightarrow> if map_of ts new \<noteq> None then Inl DatabaseError
                   else Inr ((), AList.delete old ts @ [(new, tb)]))"

text \<open>\<open>CREATE TABLE\<close> without \<open>IF NOT EXISTS\<close>.\<close>

definition create_strict :: "string \<Rightarrow> table \<Rightarrow> tables \<Rightarrow> (unit \<times> tables) result" where
  "create_strict name tb ts =
     (if map_of ts name \<noteq> None then Inl DatabaseError else Inr ((), ts @ [(name, tb)]))"

text \<open>\<open>INSERT INTO target SELECT ... FROM source\<close>, one row of the source giving one row of values.\<close>

definition copy_rows :: "engine \<Rightarrow> pyval \<Rightarrow> string \<Rightarrow> string \<Rightarrow> (table \<Rightarrow> row \<Rightarrow> pyval list) \<Rightarrow> tables \<Rightarrow>
    (unit \<times> tables) result" where
  "copy_rows eng now target src pick ts =
     (case (map_of ts target, map_of ts src) of
        (Some tb, Some tb') \<Rightarrow> bind_res
          (fold_res (\<lambda>ts' r. bind_res (insert_row eng False now target (column_names tb) (pick tb' r) ts')
             (\<lambda>(_, ts''). Inr ts'')) ts (tb_rows tb'))
          (\<lambda>ts'. Inr ((), ts'))
      | _ \<Rightarrow> Inl DatabaseError)"

definition alter_type :: "engine \<Rightarrow> string \<Rightarrow> string \<Rightarrow> coltype \<Rightarrow> tables \<Rightarrow> (unit \<times> tables) result" where
  "alter_type eng name c t ts =
     (case map_of ts name of
        None \<Rightarrow> Inl DatabaseError
      | Some tb \<Rightarrow>
          (case find (\<lambda>k. col_name k = c) (tb_columns tb) of
             None \<Rightarrow> Inl DatabaseError
           | Some k \<Rightarrow>
               if col_type k = t then Inr ((), ts)
               else let tb1 = tb\<lparr>tb_columns := map (\<lambda>k. if col_name k = c then k\<lparr>col_type := t\<rparr> else k)
                                                 (tb_columns tb)\<rparr> in
               bind_res (map_res (\<lambda>r. set_cells eng tb1 [(c, field tb c r)] r) (tb_rows tb)) (\<lambda>rows.
               Inr ((), AList.update name (tb1\<lparr>tb_rows := rows\<rparr>) ts))))"

text \<open>Whether the text of the primary key constraint names \<open>symbol\<close>.\<close>

fun contains :: "string \<Rightarrow> string \<Rightarrow> bool" where
  "contains p [] = (p = [])"
| "contains p (c # s) = (starts_with p (c # s) \<or> contains p s)"

definition key_mentions_symbol :: "table \<Rightarrow> bool" where
  "key_mentions_symbol tb = contains ''symbol'' (py_lower (join_with '', '' (tb_primary tb)))"

definition primary_of :: "string \<Rightarrow> tables \<Rightarrow> (table option \<times> tables) result" where
  "primary_of name ts = Inr (map_of ts name, ts)"

definition migrate_staging_key :: "engine \<Rightarrow> unit db" where
  "migrate_staging_key eng = bind_st (statement eng (primary_of ''equity_bars_staging'')) (\<lambda>tb.
     if (case tb of None \<Rightarrow> True | Some t \<Rightarrow> tb_primary t = [] \<or> key_mentions_symbol t)
     then return_st ()
     else bind_st (statement eng (create_strict ''equity_bars_staging_v2'' equity_bars_staging)) (\<lambda>_.
       bind_st (\<lambda>s. statement eng (copy_rows eng (clock eng (st_steps s)) ''equity_bars_staging_v2''
                  ''equity_bars_staging'' (\<lambda>_ r. r)) s) (\<lambda>_.
       bind_st (statement eng (drop_table ''equity_bars_staging'')) (\<lambda>_.
       statement eng (rename_table ''equity_bars_staging_v2'' ''equity_bars_staging'')))))"

text \<open>Columns of the old results with the provider pair of that release in between.\<close>

definition with_lineage :: "table \<Rightarrow> row \<Rightarrow> pyval list" where
  "with_lineage tb r =
     cells tb [''run_id'', ''symbol'', ''timestamp'', ''metric_name''] r
     @ [PStr ''YAHOO'', PStr ''ALPACA'']
     @ cells tb [''source_a_value'', ''source_b_value'', ''difference'', ''is_discrepancy''] r"

definition migrate_results :: "engine \<Rightarrow> unit db" where
  "migrate_results eng = bind_st (statement eng (primary_of ''equity_reconciliation_results'')) (\<lambda>tb.
     case tb of
       None \<Rightarrow> fail_st DatabaseError
     | Some t \<Rightarrow> if ''source_a'' \<in> set (column_names t) then return_st ()
       else bind_st (statement eng (create_strict ''equity_reconciliation_results_v2''
              (new_table result_columns_v2 result_key [] []))) (\<lambda>_.
         bind_st (\<lambda>s. statement eng (copy_rows eng (clock eng (st_steps s))
              ''equity_reconciliation_results_v2'' ''equity_reconciliation_results'' with_lineage) s) (\<lambda>_.
         bind_st (statement eng (drop_table ''equity_reconciliation_results'')) (\<lambda>_.
         statement eng (rename_table ''equity_reconciliation_results_v2'' ''equity_reconciliation_results'')))))"

subsection \<open>The script\<close>

datatype ddl =
    Create string table
  | AddColumn string column
  | MigrateStaging
  | MigrateResults
  | AlterType string string coltype

fun run_ddl :: "engine \<Rightarrow> ddl \<Rightarrow> unit db" where
  "run_ddl eng (Create n tb) = statement eng (create_table n tb)"
| "run_ddl eng (AddColumn n c) = (\<lambda>s. statement eng (add_column (clock eng (st_steps s)) n c) s)"
| "run_ddl eng MigrateStaging = migrate_staging_key eng"
| "run_ddl eng MigrateResults = migrate_results eng"
| "run_ddl eng (AlterType n c t) = statement eng (alter_type eng n c t)"

definition schema_script :: "ddl list" where
  "schema_script =
     [Create ''pipeline_runs'' pipeline_runs,
      AddColumn ''pipeline_runs'' (defaulting ''massive_row_count'' BIGINT (DefaultValue (PInt 0))),
      AddColumn ''pipeline_runs'' (plain ''trace_id'' VARCHAR),
      AddColumn ''pipeline_runs'' (plain ''root_span_id'' VARCHAR),
      Create ''equity_bars_staging'' equity_bars_staging,
      MigrateStaging,
      AlterType ''equity_bars_staging'' ''volume'' DOUBLE,
      Create ''equity_reconciliation_results'' equity_reconciliation_results,
      MigrateResults,
      AddColumn ''equity_reconciliation_results'' (plain ''status'' VARCHAR),
      AddColumn ''equity_reconciliation_results'' (plain ''break_reason'' VARCHAR),
      Create ''equity_exceptions'' equity_exceptions]
     @ map (AddColumn ''equity_exceptions'') exception_additions @
     [Create ''work_partitions'' work_partitions,
      Create ''provider_request_metrics'' provider_request_metrics,
      AddColumn ''provider_request_metrics'' (plain ''outcome_status'' VARCHAR),
      AddColumn ''provider_request_metrics'' (plain ''error_type'' VARCHAR),
      Create ''quarantine_records'' quarantine_records,
      Create ''option_runs'' option_runs,
      Create ''option_contracts_staging'' option_contracts_staging,
      Create ''option_reconciliation_results'' option_reconciliation_results,
      Create ''realtime_event_journal'' realtime_event_journal]
     @ map (AddColumn ''realtime_event_journal'') journal_additions"

definition initialize_database :: "engine \<Rightarrow> unit db" where
  "initialize_database eng = for_st (run_ddl eng) schema_script"


subsection \<open>Effect of the statements on the schema\<close>

definition bare :: "table \<Rightarrow> table" where
  "bare tb = tb\<lparr>tb_rows := []\<rparr>"

lemma bare_simps [simp]:
  "tb_columns (bare tb) = tb_columns tb" "tb_primary (bare tb) = tb_primary tb"
  "column_names (bare tb) = column_names tb" "bare (tb\<lparr>tb_rows := rs\<rparr>) = bare tb"
  by (simp_all add: bare_def column_names_def)

lemma schema_of_eq: "schema_of ts n = map_option bare (map_of ts n)"
  by (simp add: schema_of_def bare_def [abs_def])

lemma schema_of_None [simp]: "schema_of ts n = None \<longleftrightarrow> map_of ts n = None"
  by (simp add: schema_of_eq)

lemma schema_update [simp]: "schema_of (AList.update n tb ts) = (schema_of ts)(n \<mapsto> bare tb)"
  by (simp add: schema_of_eq update_conv fun_eq_iff)

lemma schema_append: "map_of ts n = None \<Longrightarrow> schema_of (ts @ [(n, tb)]) = (schema_of ts)(n \<mapsto> bare tb)"
  by (auto simp: schema_of_eq fun_eq_iff map_add_def split: option.splits)

lemma schema_delete [simp]: "schema_of (AList.delete n ts) = (schema_of ts)(n := None)"
  by (simp add: schema_of_eq delete_conv' fun_eq_iff)

lemma schema_create:
  "create_table n tb ts = Inr (u, ts') \<Longrightarrow>
   schema_of ts' = (if schema_of ts n = None then (schema_of ts)(n \<mapsto> bare tb) else schema_of ts)"
  by (auto simp: create_table_def schema_append split: option.splits)

lemma schema_create_strict:
  "create_strict n tb ts = Inr (u, ts') \<Longrightarrow>
   map_of ts n = None \<and> schema_of ts' = (schema_of ts)(n \<mapsto> bare tb)"
  by (auto simp: create_strict_def schema_append split: if_splits)

lemma schema_drop: "drop_table n ts = Inr (u, ts') \<Longrightarrow> schema_of ts' = (schema_of ts)(n := None)"
  by (auto simp: drop_table_def split: if_splits)

lemma schema_rename:
  assumes "rename_table a b ts = Inr (u, ts')" and "a \<noteq> b"
  shows "schema_of ts' = (schema_of ts)(a := None, b := schema_of ts a)"
proof -
  obtain tb where tb: "map_of ts a = Some tb" "map_of ts b = None" "ts' = AList.delete a ts @ [(b, tb)]"
    using assms(1) by (auto simp: rename_table_def split: option.splits if_splits)
  moreover have "map_of (AList.delete a ts) b = None" using tb(2) assms(2) by (simp add: delete_conv')
  ultimately show ?thesis by (simp add: schema_append) (simp add: schema_of_eq)
qed

lemma schema_insert:
  assumes "insert_row eng ig now n cols vals ts = Inr (u, ts')"
  shows "schema_of ts' = schema_of ts"
  using assms
proof (cases rule: insert_row_cases)
  case (inserted tb r)
  then have "schema_of ts n = Some (bare tb)" by (simp add: schema_of_eq)
  with inserted(6) show ?thesis by (simp add: fun_upd_idem)
qed simp

lemma schema_copy: "copy_rows eng now a b pick ts = Inr (u, ts') \<Longrightarrow> schema_of ts' = schema_of ts"
proof -
  assume c: "copy_rows eng now a b pick ts = Inr (u, ts')"
  have "fold_res (\<lambda>ts' r. bind_res (insert_row eng False now a cs (pick t r) ts') (\<lambda>(_, ts''). Inr ts'')) ts0 rs
      = Inr ts1 \<Longrightarrow> schema_of ts1 = schema_of ts0" for cs t rs ts0 ts1
    by (induction rs arbitrary: ts0) (auto simp: res_simps dest: schema_insert)
  with c show ?thesis by (auto simp: copy_rows_def res_simps split: option.splits)
qed

lemma schema_add_column:
  assumes "add_column now n c ts = Inr (u, ts')"
  shows "\<exists>t. schema_of ts n = Some t \<and> (if col_name c \<in> set (column_names t) then ts' = ts
    else schema_of ts' = (schema_of ts)(n \<mapsto> t\<lparr>tb_columns := tb_columns t @ [c]\<rparr>))"
proof -
  obtain t where t: "map_of ts n = Some t" using assms by (auto simp: add_column_def split: option.splits)
  then have "schema_of ts n = Some (bare t)" by (simp add: schema_of_eq)
  moreover have "if col_name c \<in> set (column_names t) then ts' = ts
    else schema_of ts' = (schema_of ts)(n \<mapsto> bare t\<lparr>tb_columns := tb_columns t @ [c]\<rparr>)"
    using assms t by (auto simp: add_column_def bare_def split: if_splits)
  ultimately show ?thesis by auto
qed

lemma schema_alter_type:
  assumes "alter_type eng n c ty ts = Inr (u, ts')"
  shows "\<exists>t k. schema_of ts n = Some t \<and> find (\<lambda>k. col_name k = c) (tb_columns t) = Some k \<and>
    (if col_type k = ty then ts' = ts else schema_of ts' = (schema_of ts)(n \<mapsto>
       t\<lparr>tb_columns := map (\<lambda>k. if col_name k = c then k\<lparr>col_type := ty\<rparr> else k) (tb_columns t)\<rparr>))"
proof -
  obtain t k where t: "map_of ts n = Some t" "find (\<lambda>k. col_name k = c) (tb_columns t) = Some k"
    using assms by (auto simp: alter_type_def split: option.splits)
  then have "schema_of ts n = Some (bare t)" by (simp add: schema_of_eq)
  moreover have "if col_type k = ty then ts' = ts else schema_of ts' = (schema_of ts)(n \<mapsto>
       bare t\<lparr>tb_columns := map (\<lambda>k. if col_name k = c then k\<lparr>col_type := ty\<rparr> else k) (tb_columns t)\<rparr>)"
    using assms t by (auto simp: alter_type_def bare_def Let_def res_simps split: if_splits)
  ultimately show ?thesis using t(2) by auto
qed

text \<open>What it means for a statement to have nothing left to do.\<close>

fun settled :: "ddl \<Rightarrow> (string \<Rightarrow> table option) \<Rightarrow> bool" where
  "settled (Create n tb) S = (S n \<noteq> None)"
| "settled (AddColumn n c) S = (case S n of None \<Rightarrow> False | Some t \<Rightarrow> col_name c \<in> set (column_names t))"
| "settled MigrateStaging S = (case S ''equity_bars_staging'' of None \<Rightarrow> False
     | Some t \<Rightarrow> tb_primary t = [] \<or> key_mentions_symbol t)"
| "settled MigrateResults S = (case S ''equity_reconciliation_results'' of None \<Rightarrow> False
     | Some t \<Rightarrow> ''source_a'' \<in> set (column_names t))"
| "settled (AlterType n c ty) S = (case S n of None \<Rightarrow> False
     | Some t \<Rightarrow> (case find (\<lambda>k. col_name k = c) (tb_columns t) of None \<Rightarrow> False | Some k \<Rightarrow> col_type k = ty))"

lemma statement_Inr:
  assumes "statement eng f s = (Inr x, s')"
  shows "f (st_tables s) = Inr (x, st_tables s')"
  using assms by (cases rule: statement_cases) auto

lemma primary_of_same: "statement eng (primary_of n) s = (r, s') \<Longrightarrow> st_tables s' = st_tables s"
  by (erule statement_cases) (simp_all add: primary_of_def)

lemma primary_of_Inr:
  "statement eng (primary_of n) s = (Inr tb, s1) \<Longrightarrow>
   tb = map_of (st_tables s) n \<and> st_tables s1 = st_tables s"
  by (drule statement_Inr) (auto simp: primary_of_def)

lemma key_bare [simp]: "key_mentions_symbol (bare tb) = key_mentions_symbol tb"
  by (simp add: key_mentions_symbol_def)

lemma settled_no_change:
  assumes "settled d (schema_of (st_tables s))" and "run_ddl eng d s = (r, s')"
  shows "st_tables s' = st_tables s"
proof (cases d)
  case (Create n tb)
  with assms(2) have "statement eng (create_table n tb) s = (r, s')" by simp
  then show ?thesis using assms(1) Create
    by (cases rule: statement_cases) (auto simp: create_table_def schema_of_eq split: option.splits)
next
  case (AddColumn n c)
  with assms(2) have "statement eng (add_column (clock eng (st_steps s)) n c) s = (r, s')" by simp
  then show ?thesis using assms(1) AddColumn
    by (cases rule: statement_cases) (auto simp: add_column_def schema_of_eq split: option.splits)
next
  case MigrateStaging
  from assms(2) [unfolded MigrateStaging run_ddl.simps migrate_staging_key_def] show ?thesis
  proof (cases rule: bind_st_cases)
    case (cont tb s1)
    have "tb = map_of (st_tables s) ''equity_bars_staging''" "st_tables s1 = st_tables s"
      using primary_of_Inr [OF cont(1)] by auto
    with cont(2) assms(1) MigrateStaging show ?thesis
      by (auto simp: schema_of_eq st_simps split: option.splits)
  qed (rule primary_of_same)
next
  case MigrateResults
  from assms(2) [unfolded MigrateResults run_ddl.simps migrate_results_def] show ?thesis
  proof (cases rule: bind_st_cases)
    case (cont tb s1)
    have "tb = map_of (st_tables s) ''equity_reconciliation_results''" "st_tables s1 = st_tables s"
      using primary_of_Inr [OF cont(1)] by auto
    with cont(2) assms(1) MigrateResults show ?thesis
      by (auto simp: schema_of_eq st_simps split: option.splits)
  qed (rule primary_of_same)
next
  case (AlterType n c ty)
  with assms(2) have "statement eng (alter_type eng n c ty) s = (r, s')" by simp
  then show ?thesis using assms(1) AlterType
    by (cases rule: statement_cases) (auto simp: alter_type_def schema_of_eq split: option.splits)
qed


text \<open>The schema after a statement that succeeded.\<close>

definition step_schema :: "ddl \<Rightarrow> (string \<Rightarrow> table option) \<Rightarrow> (string \<Rightarrow> table option) \<Rightarrow> bool" where
  "step_schema d S S' = (if settled d S then S' = S else
     case d of
       Create n tb \<Rightarrow> S' = S(n \<mapsto> bare tb)
     | AddColumn n c \<Rightarrow> (\<exists>t. S n = Some t \<and> S' = S(n \<mapsto> t\<lparr>tb_columns := tb_columns t @ [c]\<rparr>))
     | MigrateStaging \<Rightarrow> (if S ''equity_bars_staging'' = None then S' = S else
         S ''equity_bars_staging_v2'' = None \<and> S' = S(''equity_bars_staging'' \<mapsto> bare equity_bars_staging))
     | MigrateResults \<Rightarrow> S ''equity_reconciliation_results_v2'' = None \<and>
         S' = S(''equity_reconciliation_results'' \<mapsto> bare (new_table result_columns_v2 result_key [] []))
     | AlterType n c ty \<Rightarrow> (\<exists>t k. S n = Some t \<and> find (\<lambda>k. col_name k = c) (tb_columns t) = Some k \<and>
         S' = S(n \<mapsto> t\<lparr>tb_columns := map (\<lambda>k. if col_name k = c then k\<lparr>col_type := ty\<rparr> else k)
                                        (tb_columns t)\<rparr>)))"

lemma bind_st_Inr_cases:
  assumes "bind_st m f s = (Inr y, s')"
  obtains x s1 where "m s = (Inr x, s1)" "f x s1 = (Inr y, s')"
  using assms by (cases rule: bind_st_cases) auto

text \<open>The rebuild of a table: create the new one, copy, drop the old one, rename.\<close>

lemma rebuild_schema:
  assumes "bind_st (statement eng (create_strict v2 tb)) (\<lambda>_.
       bind_st (\<lambda>s. statement eng (copy_rows eng (clock eng (st_steps s)) v2 n pick) s) (\<lambda>_.
       bind_st (statement eng (drop_table n)) (\<lambda>_. statement eng (rename_table v2 n)))) s = (Inr u, s')"
    and "v2 \<noteq> n"
  shows "schema_of (st_tables s) v2 = None \<and>
    schema_of (st_tables s') = (schema_of (st_tables s))(n \<mapsto> bare tb)"
proof -
  obtain u1 s1 where 1: "statement eng (create_strict v2 tb) s = (Inr u1, s1)"
    and r1: "bind_st (\<lambda>s. statement eng (copy_rows eng (clock eng (st_steps s)) v2 n pick) s) (\<lambda>_.
       bind_st (statement eng (drop_table n)) (\<lambda>_. statement eng (rename_table v2 n))) s1 = (Inr u, s')"
    using assms(1) by (rule bind_st_Inr_cases)
  from r1 obtain u2 s2 where 2: "statement eng (copy_rows eng (clock eng (st_steps s1)) v2 n pick) s1 = (Inr u2, s2)"
    and r2: "bind_st (statement eng (drop_table n)) (\<lambda>_. statement eng (rename_table v2 n)) s2 = (Inr u, s')"
    by (rule bind_st_Inr_cases)
  from r2 obtain u3 s3 where 3: "statement eng (drop_table n) s2 = (Inr u3, s3)"
    and 4: "statement eng (rename_table v2 n) s3 = (Inr u, s')"
    by (rule bind_st_Inr_cases)
  note c = schema_create_strict [OF statement_Inr [OF 1]]
  have s4: "schema_of (st_tables s') = (schema_of (st_tables s3))(v2 := None, n := schema_of (st_tables s3) v2)"
    using schema_rename [OF statement_Inr [OF 4] assms(2)] .
  have s3: "schema_of (st_tables s3) = (schema_of (st_tables s))(v2 \<mapsto> bare tb, n := None)"
    using schema_drop [OF statement_Inr [OF 3]] schema_copy [OF statement_Inr [OF 2]] c by simp
  have "schema_of (st_tables s) v2 = None" using c by simp
  moreover have "schema_of (st_tables s') = (schema_of (st_tables s))(n \<mapsto> bare tb)"
    unfolding s4 s3 using calculation assms(2) by (intro ext) (auto simp: schema_of_eq)
  ultimately show ?thesis ..
qed

lemma run_ddl_schema:
  assumes "run_ddl eng d s = (Inr u, s')"
  shows "step_schema d (schema_of (st_tables s)) (schema_of (st_tables s'))"
proof (cases "settled d (schema_of (st_tables s))")
  case True
  with settled_no_change [OF True assms] show ?thesis by (simp add: step_schema_def)
next
  case False
  show ?thesis
  proof (cases d)
    case (Create n tb)
    with assms have "create_table n tb (st_tables s) = Inr (u, st_tables s')"
      using statement_Inr by fastforce
    from schema_create [OF this] False Create show ?thesis by (auto simp: step_schema_def)
  next
    case (AddColumn n c)
    with assms have "add_column (clock eng (st_steps s)) n c (st_tables s) = Inr (u, st_tables s')"
      using statement_Inr by fastforce
    from schema_add_column [OF this] show ?thesis using False AddColumn
      by (auto simp: step_schema_def)
  next
    case MigrateStaging
    from assms [unfolded MigrateStaging run_ddl.simps migrate_staging_key_def]
    obtain tb s1 where 1: "statement eng (primary_of ''equity_bars_staging'') s = (Inr tb, s1)"
      and rest: "(if (case tb of None \<Rightarrow> True | Some t \<Rightarrow> tb_primary t = [] \<or> key_mentions_symbol t)
     then return_st ()
     else bind_st (statement eng (create_strict ''equity_bars_staging_v2'' equity_bars_staging)) (\<lambda>_.
       bind_st (\<lambda>s. statement eng (copy_rows eng (clock eng (st_steps s)) ''equity_bars_staging_v2''
                  ''equity_bars_staging'' (\<lambda>_ r. r)) s) (\<lambda>_.
       bind_st (statement eng (drop_table ''equity_bars_staging'')) (\<lambda>_.
       statement eng (rename_table ''equity_bars_staging_v2'' ''equity_bars_staging''))))) s1 = (Inr u, s')"
      by (rule bind_st_Inr_cases)
    have tb: "tb = map_of (st_tables s) ''equity_bars_staging''" "st_tables s1 = st_tables s"
      using primary_of_Inr [OF 1] by auto
    show ?thesis
    proof (cases tb)
      case None
      with rest tb False MigrateStaging show ?thesis by (simp add: step_schema_def st_simps)
    next
      case (Some t)
      with False MigrateStaging tb(1) have "\<not> (tb_primary t = [] \<or> key_mentions_symbol t)"
        by (auto simp: schema_of_eq split: option.splits)
      with rest Some rebuild_schema [of eng "''equity_bars_staging_v2''" equity_bars_staging "''equity_bars_staging''" "\<lambda>_ r. r" s1 u s']
      have "schema_of (st_tables s) ''equity_bars_staging_v2'' = None \<and>
        schema_of (st_tables s') = (schema_of (st_tables s))(''equity_bars_staging'' \<mapsto> bare equity_bars_staging)"
        by (simp add: tb(2))
      with Some tb(1) False MigrateStaging show ?thesis by (simp add: step_schema_def)
    qed
  next
    case MigrateResults
    from assms [unfolded MigrateResults run_ddl.simps migrate_results_def]
    obtain tb s1 where 1: "statement eng (primary_of ''equity_reconciliation_results'') s = (Inr tb, s1)"
      and rest: "(case tb of None \<Rightarrow> fail_st DatabaseError
     | Some t \<Rightarrow> if ''source_a'' \<in> set (column_names t) then return_st ()
       else bind_st (statement eng (create_strict ''equity_reconciliation_results_v2''
              (new_table result_columns_v2 result_key [] []))) (\<lambda>_.
         bind_st (\<lambda>s. statement eng (copy_rows eng (clock eng (st_steps s))
              ''equity_reconciliation_results_v2'' ''equity_reconciliation_results'' with_lineage) s) (\<lambda>_.
         bind_st (statement eng (drop_table ''equity_reconciliation_results'')) (\<lambda>_.
         statement eng (rename_table ''equity_reconciliation_results_v2'' ''equity_reconciliation_results'')))))
       s1 = (Inr u, s')"
      by (rule bind_st_Inr_cases)
    have tb: "tb = map_of (st_tables s) ''equity_reconciliation_results''" "st_tables s1 = st_tables s"
      using primary_of_Inr [OF 1] by auto
    show ?thesis
    proof (cases tb)
      case None
      with rest show ?thesis by (simp add: st_simps)
    next
      case (Some t)
      with False MigrateResults tb(1) have "''source_a'' \<notin> set (column_names t)"
        by (auto simp: schema_of_eq split: option.splits)
      with rest Some rebuild_schema [of eng "''equity_reconciliation_results_v2''"
          "new_table result_columns_v2 result_key [] []" "''equity_reconciliation_results''" with_lineage s1 u s']
      have "schema_of (st_tables s) ''equity_reconciliation_results_v2'' = None \<and>
        schema_of (st_tables s') = (schema_of (st_tables s))
          (''equity_reconciliation_results'' \<mapsto> bare (new_table result_columns_v2 result_key [] []))"
        by (simp add: tb(2))
      with False MigrateResults show ?thesis by (simp add: step_schema_def)
    qed
  next
    case (AlterType n c ty)
    with assms have "alter_type eng n c ty (st_tables s) = Inr (u, st_tables s')"
      using statement_Inr by fastforce
    from schema_alter_type [OF this] show ?thesis using False AlterType
      by (auto simp: step_schema_def)
  qed
qed

lemma key_of_staging: "key_mentions_symbol (bare equity_bars_staging)"
  by code_simp

lemma names_v2: "''source_a'' \<in> set (column_names (new_table result_columns_v2 result_key [] []))"
  by (simp add: column_names_def new_table_def result_columns_v2_def plain_def)

lemma find_changed:
  "find (\<lambda>k. col_name k = c) ks = Some k \<Longrightarrow>
   find (\<lambda>k. col_name k = c) (map (\<lambda>k. if col_name k = c then k\<lparr>col_type := ty\<rparr> else k) ks)
     = Some (k\<lparr>col_type := ty\<rparr>)"
  by (induction ks) (auto split: if_splits)

lemma settled_after:
  assumes "step_schema d S S'" and "d = MigrateStaging \<Longrightarrow> S ''equity_bars_staging'' \<noteq> None"
  shows "settled d S'"
  using assms key_of_staging
  by (cases d) (auto simp: step_schema_def column_names_def new_table_def result_columns_v2_def plain_def
      find_changed split: if_splits)

text \<open>A later statement keeps an earlier one settled, unless it rebuilds the table.\<close>

fun compatible :: "ddl \<Rightarrow> ddl \<Rightarrow> bool" where
  "compatible (AddColumn n c) d' =
     (case d' of MigrateStaging \<Rightarrow> n \<noteq> ''equity_bars_staging''
      | MigrateResults \<Rightarrow> n \<noteq> ''equity_reconciliation_results'' | _ \<Rightarrow> True)"
| "compatible (AlterType n c ty) d' =
     (case d' of MigrateStaging \<Rightarrow> n \<noteq> ''equity_bars_staging''
      | MigrateResults \<Rightarrow> n \<noteq> ''equity_reconciliation_results''
      | AlterType n' c' ty' \<Rightarrow> n \<noteq> n' \<or> c \<noteq> c' | _ \<Rightarrow> True)"
| "compatible _ d' = True"

lemma find_append_Some: "find P xs = Some x \<Longrightarrow> find P (xs @ ys) = Some x"
  by (induction xs) auto

lemma find_other:
  "c \<noteq> c' \<Longrightarrow> find (\<lambda>k. col_name k = c) ks = Some k \<Longrightarrow>
   find (\<lambda>k. col_name k = c) (map (\<lambda>k. if col_name k = c' then k\<lparr>col_type := ty\<rparr> else k) ks) = Some k"
  by (induction ks) (auto split: if_splits)

lemma names_retyped [simp]:
  "column_names (t\<lparr>tb_columns := map (\<lambda>k. if col_name k = c then k\<lparr>col_type := ty\<rparr> else k) (tb_columns t)\<rparr>)
   = column_names t"
proof -
  have "map col_name (map (\<lambda>k. if col_name k = c then k\<lparr>col_type := ty\<rparr> else k) ks) = map col_name ks" for ks
    by (induction ks) auto
  then show ?thesis by (simp add: column_names_def)
qed

lemma names_extended [simp]:
  "column_names (t\<lparr>tb_columns := tb_columns t @ [c]\<rparr>) = column_names t @ [col_name c]"
  by (simp add: column_names_def)

lemma compatible_settled:
  assumes "compatible d d'" and "settled d S" and "step_schema d' S S'"
  shows "settled d S'"
proof (cases "settled d' S")
  case True
  with assms show ?thesis by (simp add: step_schema_def)
next
  case False
  with assms show ?thesis
    by (cases d; cases d')
      (auto simp: step_schema_def find_append_Some find_changed find_other key_of_staging
        key_mentions_symbol_def names_v2 split: option.splits if_splits)
qed


subsection \<open>The whole script\<close>

fun orderly :: "ddl list \<Rightarrow> ddl list \<Rightarrow> bool" where
  "orderly E [] = True"
| "orderly E (d # ds) = (list_all (\<lambda>e. compatible e d) E \<and>
     (d = MigrateStaging \<longrightarrow> Create ''equity_bars_staging'' equity_bars_staging \<in> set E) \<and>
     orderly (E @ [d]) ds)"

lemma orderly_script: "orderly [] schema_script"
  by (simp add: schema_script_def exception_additions_def journal_additions_def plain_def
      defaulting_def)

lemma script_settles:
  assumes "for_st (run_ddl eng) ds s = (Inr u, s')" and "orderly E ds"
    and "\<forall>e\<in>set E. settled e (schema_of (st_tables s))"
  shows "\<forall>e\<in>set (E @ ds). settled e (schema_of (st_tables s'))"
  using assms
proof (induction ds arbitrary: E s)
  case (Cons d ds)
  obtain v s1 where 1: "run_ddl eng d s = (Inr v, s1)" "for_st (run_ddl eng) ds s1 = (Inr u, s')"
    using Cons.prems(1) by (auto elim: bind_st_Inr_cases)
  note st = run_ddl_schema [OF 1(1)]
  have "settled e (schema_of (st_tables s1))" if "e \<in> set E" for e
    using compatible_settled [OF _ _ st] that Cons.prems(2,3) by (simp add: list_all_iff)
  moreover have "settled d (schema_of (st_tables s1))"
  proof (rule settled_after [OF st])
    assume "d = MigrateStaging"
    then have "settled (Create ''equity_bars_staging'' equity_bars_staging) (schema_of (st_tables s))"
      using Cons.prems(2,3) by auto
    then show "schema_of (st_tables s) ''equity_bars_staging'' \<noteq> None" by simp
  qed
  ultimately have "\<forall>e\<in>set (E @ [d]). settled e (schema_of (st_tables s1))" by auto
  from Cons.IH [OF 1(2) _ this] Cons.prems(2) show ?case by simp
qed (simp add: st_simps)

lemma settled_script_no_change:
  assumes "for_st (run_ddl eng) ds s = (r, s')" and "\<forall>d\<in>set ds. settled d (schema_of (st_tables s))"
  shows "st_tables s' = st_tables s"
  using assms
proof (induction ds arbitrary: s)
  case (Cons d ds)
  from Cons.prems(1) have "bind_st (run_ddl eng d) (\<lambda>_. for_st (run_ddl eng) ds) s = (r, s')" by simp
  then show ?case
  proof (cases rule: bind_st_cases)
    case (fail e)
    with settled_no_change Cons.prems(2) show ?thesis by (metis list.set_intros(1))
  next
    case (cont x s1)
    have "st_tables s1 = st_tables s" using settled_no_change [OF _ cont(1)] Cons.prems(2) by simp
    with Cons.IH [OF cont(2)] Cons.prems(2) show ?thesis by simp
  qed
qed (simp add: st_simps)

subsection \<open>Properties\<close>

definition plain_engine :: engine where
  "plain_engine = \<lparr>cast_value = (\<lambda>t v. Some v), fault = (\<lambda>n. None), clock = (\<lambda>n. PTime (Datetime 0 (Some 0)))\<rparr>"

text \<open>Once \<open>initialize_database\<close> has succeeded, on an empty store or on
  one of any older release, every further call leaves every table as it is, whatever the engine
  does meanwhile.\<close>

theorem initialize_idempotent:
  assumes "initialize_database eng s = (Inr u, s1)" and "st_tables s2 = st_tables s1"
  shows "st_tables (snd (initialize_database eng' s2)) = st_tables s1"
proof -
  have "\<forall>d\<in>set schema_script. settled d (schema_of (st_tables s1))"
    using script_settles [OF _ orderly_script] assms(1) by (simp add: initialize_database_def)
  with settled_script_no_change [of eng' schema_script s2] assms(2) show ?thesis
    by (cases "initialize_database eng' s2") (simp add: initialize_database_def)
qed

lemma initialize_idempotent_witness:
  "\<exists>s1. initialize_database plain_engine \<lparr>st_tables = [], st_steps = 0\<rparr> = (Inr (), s1) \<and>
     st_tables (snd (initialize_database plain_engine s1)) = st_tables s1"
proof -
  have "is_ok (fst (initialize_database plain_engine \<lparr>st_tables = [], st_steps = 0\<rparr>))"
    by code_simp
  then obtain s1 where "initialize_database plain_engine \<lparr>st_tables = [], st_steps = 0\<rparr> = (Inr (), s1)"
    by (auto simp: is_ok_iff prod_eq_iff)
  with initialize_idempotent [OF this refl] show ?thesis by blast
qed

text \<open>The migration of the staging table is not one transaction.
  When it stopped after creating \<open>equity_bars_staging_v2\<close>, every later \<open>initialize_database\<close> fails.\<close>

theorem interrupted_migration_blocks:
  assumes "map_of (st_tables s) ''equity_bars_staging'' = Some old" and "tb_primary old \<noteq> []"
    and "\<not> key_mentions_symbol old" and "map_of (st_tables s) ''equity_bars_staging_v2'' \<noteq> None"
  shows "\<not> is_ok (fst (initialize_database eng s))"
proof
  assume "is_ok (fst (initialize_database eng s))"
  then obtain u s' where i: "for_st (run_ddl eng) schema_script s = (Inr u, s')"
    by (auto simp: initialize_database_def is_ok_iff prod_eq_iff)
  define P where "P S \<longleftrightarrow> (\<exists>t. S ''equity_bars_staging'' = Some t \<and> tb_primary t \<noteq> [] \<and> \<not> key_mentions_symbol t)
    \<and> S ''equity_bars_staging_v2'' \<noteq> None" for S :: "string \<Rightarrow> table option"
  have keep: "P S'" if "step_schema d S S'" "P S" for d S S'
    using that by (cases d) (auto simp: P_def step_schema_def key_mentions_symbol_def split: if_splits)
  have "\<not> P (schema_of (st_tables s1))"
    if "for_st (run_ddl eng) ds s1 = (Inr u, s')" "MigrateStaging \<in> set ds" for ds s1
    using that
  proof (induction ds arbitrary: s1)
    case (Cons d ds)
    obtain v s2 where 1: "run_ddl eng d s1 = (Inr v, s2)" "for_st (run_ddl eng) ds s2 = (Inr u, s')"
      using Cons.prems(1) by (auto elim: bind_st_Inr_cases)
    show ?case
    proof (cases "d = MigrateStaging")
      case True
      with run_ddl_schema [OF 1(1)] show ?thesis
        by (auto simp: P_def step_schema_def simp del: schema_of_None split: if_splits)
    next
      case False
      with Cons.IH [OF 1(2)] Cons.prems(2) keep [OF run_ddl_schema [OF 1(1)]] show ?thesis by auto
    qed
  qed simp
  moreover have "MigrateStaging \<in> set schema_script" by (simp add: schema_script_def)
  ultimately have "\<not> P (schema_of (st_tables s))" using i by blast
  then show False using assms by (simp add: P_def schema_of_eq)
qed

definition half_migrated :: store where
  "half_migrated = \<lparr>st_tables = [(''equity_bars_staging'', new_table staging_columns
      [''run_id'', ''source'', ''timestamp''] [] []), (''equity_bars_staging_v2'', equity_bars_staging)],
     st_steps = 0\<rparr>"

lemma interrupted_migration_blocks_witness:
  "\<not> is_ok (fst (initialize_database plain_engine half_migrated))"
proof -
  have "\<not> key_mentions_symbol (new_table staging_columns [''run_id'', ''source'', ''timestamp''] [] [])"
    by code_simp
  then show ?thesis
    by (intro interrupted_migration_blocks [of _ "new_table staging_columns [''run_id'', ''source'', ''timestamp''] [] []"])
      (simp_all add: half_migrated_def new_table_def)
qed

end
