(* ===== verification/Once_Store.thy ===== *)
theory Once_Store
  imports Sql
begin

section \<open>Storing each key once\<close>

text \<open>
  The contract shared by the operations that store a run or an event under a key and report whether
  they did: a key is stored when it is new, refused when it is there, and a failure changes
  nothing.  The callers' guarantees (retries, replays, interleaved batches) follow from it alone.
\<close>

fun persist_each :: "('e \<Rightarrow> bool db) \<Rightarrow> 'e list \<Rightarrow> store \<Rightarrow> bool result list \<times> store" where
  "persist_each f [] s = ([], s)"
| "persist_each f (e # es) s =
     (let (r, s1) = f e s; (rs, s2) = persist_each f es s1 in (r # rs, s2))"

definition accepted :: "('e \<Rightarrow> pyval) \<Rightarrow> 'e list \<Rightarrow> bool result list \<Rightarrow> pyval list" where
  "accepted key es rs = map (\<lambda>(e, r). key e) (filter (\<lambda>(e, r). r = Inr True) (zip es rs))"

locale once_store =
  fixes valid :: "tables \<Rightarrow> bool"
    and ids :: "tables \<Rightarrow> pyval list"
    and key :: "'e \<Rightarrow> pyval"
    and persist :: "'e \<Rightarrow> bool db"
  assumes stays_valid: "valid (st_tables s) \<Longrightarrow> persist e s = (r, s') \<Longrightarrow> valid (st_tables s')"
    and stored: "valid (st_tables s) \<Longrightarrow> persist e s = (Inr True, s') \<Longrightarrow>
      key e \<notin> set (ids (st_tables s)) \<and> ids (st_tables s') = ids (st_tables s) @ [key e]"
    and refused: "valid (st_tables s) \<Longrightarrow> persist e s = (Inr False, s') \<Longrightarrow>
      key e \<in> set (ids (st_tables s)) \<and> st_tables s' = st_tables s"
    and failed: "valid (st_tables s) \<Longrightarrow> persist e s = (Inl x, s') \<Longrightarrow> st_tables s' = st_tables s"
begin

lemma step_ids:
  assumes "valid (st_tables s)" and "persist e s = (r, s')"
  shows "ids (st_tables s') = ids (st_tables s) @ (if r = Inr True then [key e] else [])"
proof (cases r)
  case (Inr b)
  with assms stored refused show ?thesis by (cases b) auto
qed (use assms failed in auto)

lemma only_new:
  assumes "valid (st_tables s)" and "persist e s = (Inr True, s')"
  shows "key e \<notin> set (ids (st_tables s))"
  using stored [OF assms] by simp

lemma persist_each_ids:
  assumes "valid (st_tables s)" and "persist_each persist es s = (rs, s')"
  shows "valid (st_tables s') \<and> length rs = length es \<and>
    ids (st_tables s') = ids (st_tables s) @ accepted key es rs \<and>
    (distinct (ids (st_tables s)) \<longrightarrow> distinct (ids (st_tables s')))"
  using assms
proof (induction es arbitrary: s rs s')
  case (Cons e es)
  obtain r s1 where 1: "persist e s = (r, s1)" by (cases "persist e s")
  obtain rs2 s2 where 2: "persist_each persist es s1 = (rs2, s2)"
    by (cases "persist_each persist es s1")
  have eq: "rs = r # rs2" "s' = s2" using Cons.prems(2) 1 2 by auto
  note v1 = stays_valid [OF Cons.prems(1) 1]
  note ih = Cons.IH [OF v1 2]
  have "distinct (ids (st_tables s)) \<longrightarrow> distinct (ids (st_tables s1))"
    using step_ids [OF Cons.prems(1) 1] only_new [OF Cons.prems(1)] 1 by auto
  then have "distinct (ids (st_tables s)) \<longrightarrow> distinct (ids (st_tables s'))" using ih eq by blast
  moreover have "accepted key (e # es) rs = (if r = Inr True then [key e] else []) @ accepted key es rs2"
    by (simp add: eq accepted_def)
  ultimately show ?case using ih step_ids [OF Cons.prems(1) 1] eq by simp
qed (simp add: accepted_def)

text \<open>A key that is stored once is never stored again, whatever happens in between.\<close>

lemma never_again:
  assumes "valid (st_tables s)" and "key e \<in> set (ids (st_tables s))" and "persist e s = (r, s')"
  shows "r \<noteq> Inr True \<and> st_tables s' = st_tables s"
proof (cases r)
  case (Inr b)
  with assms stored refused show ?thesis by (cases b) auto
qed (use assms failed in auto)

lemma replay:
  assumes "valid (st_tables s)" and "persist e s = (Inr True, s1)"
    and "persist_each persist es s1 = (rs, s2)" and "key e' = key e" and "persist e' s2 = (r, s3)"
  shows "r \<noteq> Inr True \<and> st_tables s3 = st_tables s2"
proof -
  have v1: "valid (st_tables s1)" using stays_valid assms(1,2) by blast
  have "key e \<in> set (ids (st_tables s1))" using stored [OF assms(1,2)] by simp
  with persist_each_ids [OF v1 assms(3)] assms(4)
  have "key e' \<in> set (ids (st_tables s2))" "valid (st_tables s2)" by auto
  with never_again assms(5) show ?thesis by blast
qed

end

subsection \<open>Tables with a string key\<close>

definition keyed :: "string \<Rightarrow> string \<Rightarrow> tables \<Rightarrow> bool" where
  "keyed name k ts \<longleftrightarrow> (case map_of ts name of None \<Rightarrow> False
     | Some tb \<Rightarrow> tb_primary tb = [k] \<and> distinct (column_names tb) \<and>
         (\<exists>c\<in>set (tb_columns tb). col_name c = k \<and> col_type c = VARCHAR))"

definition ids_of :: "string \<Rightarrow> string \<Rightarrow> tables \<Rightarrow> pyval list" where
  "ids_of name k ts = (case map_of ts name of None \<Rightarrow> [] | Some tb \<Rightarrow> map (field tb k) (tb_rows tb))"

lemma keyed_update:
  "keyed name k (AList.update n (tb\<lparr>tb_rows := rs\<rparr>) ts) = keyed name k ts"
  if "map_of ts n = Some tb"
  using that by (auto simp: keyed_def update_conv)

lemma insert_keyed:
  assumes "insert_row eng False now name cols vals ts = Inr (u, ts')" and "keyed name k ts"
    and "map_of (zip cols vals) k = Some (PStr v)"
  shows "keyed name k ts' \<and> PStr v \<notin> set (ids_of name k ts) \<and> ids_of name k ts' = ids_of name k ts @ [PStr v]"
  using assms(1)
proof (cases rule: insert_row_cases)
  case (inserted tb r)
  obtain c where c: "tb_primary tb = [k]" "distinct (column_names tb)" "c \<in> set (tb_columns tb)"
    "col_name c = k" "col_type c = VARCHAR"
    using assms(2) inserted(1) by (auto simp: keyed_def)
  have "cast_cell eng tb c (PStr v) = Inr (field tb k r)"
    using build_row_field [OF inserted(2) c(2,3)] assms(3) c(4) by simp
  then have f: "field tb k r = PStr v" using cast_string [OF c(5)] by simp
  have "PStr v \<notin> set (ids_of name k ts)"
    using inserted(1,3) c(1) f by (auto simp: same_primary_def cells_def ids_of_def)
  moreover have "ids_of name k ts' = ids_of name k ts @ [PStr v]"
    using inserted(1,6) f by (simp add: ids_of_def update_conv)
  moreover have "keyed name k ts'" using assms(2) inserted(1,6) by (simp add: keyed_update)
  ultimately show ?thesis by blast
qed simp

lemma insert_other:
  assumes "insert_row eng ig now n cols vals ts = Inr (u, ts')"
  shows "keyed name k ts' = keyed name k ts"
    and "n \<noteq> name \<Longrightarrow> ids_of name k ts' = ids_of name k ts"
  using assms by (cases rule: insert_row_cases; simp add: keyed_update ids_of_def update_conv)+

lemma insert_into_step:
  assumes "insert_into eng n cols vals s = (r, s')"
  shows "(\<exists>e. r = Inl e) \<and> st_tables s' = st_tables s \<or>
    (\<exists>now. r = Inr () \<and> insert_row eng False now n cols vals (st_tables s) = Inr ((), st_tables s'))"
  using assms unfolding insert_into_def by (cases rule: statement_cases) auto

lemma for_insert_other:
  assumes "for_st (insert_into eng n cols) rows s = (r, s')" and "n \<noteq> name"
  shows "keyed name k (st_tables s') = keyed name k (st_tables s) \<and>
    ids_of name k (st_tables s') = ids_of name k (st_tables s)"
  using assms(1)
proof (induction rows arbitrary: s)
  case (Cons v rows)
  from Cons.prems have "bind_st (insert_into eng n cols v) (\<lambda>_. for_st (insert_into eng n cols) rows) s = (r, s')"
    by simp
  then show ?case
  proof (cases rule: bind_st_cases)
    case (fail e)
    with insert_into_step [OF fail(1)] show ?thesis by auto
  next
    case (cont x s1)
    with insert_into_step [OF cont(1)] Cons.IH [OF cont(2)] insert_other assms(2) show ?thesis by auto
  qed
qed (simp add: st_simps)

lemma insert_many_other:
  assumes "insert_many eng n cols rows s = (r, s')" and "n \<noteq> name"
  shows "keyed name k (st_tables s') = keyed name k (st_tables s) \<and>
    ids_of name k (st_tables s') = ids_of name k (st_tables s)"
  using assms for_insert_other unfolding insert_many_def by (cases "rows = []") (auto simp: st_simps)

lemma select_hit:
  assumes "select eng name [] k v s = (Inr rows, s')" and "keyed name k (st_tables s)" and "v \<noteq> PNone"
  shows "rows \<noteq> [] \<longleftrightarrow> v \<in> set (ids_of name k (st_tables s))"
proof -
  have "select_rows name [] k v (st_tables s) = Inr (rows, st_tables s')"
    using assms(1) unfolding select_def by (cases rule: statement_cases) auto
  with assms(2,3) show ?thesis
    by (auto simp: select_rows_def keyed_def ids_of_def filter_empty_conv split: option.splits if_splits)
qed

end
