(* ===== verification/Frames.thy ===== *)
theory Frames
  imports Py_Value
begin

section \<open>Data frames\<close>

text \<open>
  The data frames the code passes around: the column names, which of them have a numeric dtype,
  and the rows, aligned with the columns.  A missing value is \<open>None\<close> or a NaN.
\<close>

record frame =
  fr_columns :: "string list"
  fr_numeric :: "string list"
  fr_rows :: "pyval list list"

definition cell :: "frame \<Rightarrow> pyval list \<Rightarrow> string \<Rightarrow> pyval" where
  "cell f r c = dict_get PNone (zip (fr_columns f) r) c"

text \<open>\<open>row[c]\<close> raises a \<open>KeyError\<close> when the column does not exist; \<open>row.get(c)\<close> does not.\<close>

definition cell_at :: "frame \<Rightarrow> pyval list \<Rightarrow> string \<Rightarrow> pyval result" where
  "cell_at f r c = (if c \<in> set (fr_columns f) then Inr (cell f r c) else Inl (KeyError c))"

definition select_columns :: "frame \<Rightarrow> string list \<Rightarrow> frame result" where
  "select_columns f cs =
     (if set cs \<subseteq> set (fr_columns f)
      then Inr \<lparr>fr_columns = cs, fr_numeric = filter (\<lambda>c. c \<in> set cs) (fr_numeric f),
                fr_rows = map (\<lambda>r. map (cell f r) cs) (fr_rows f)\<rparr>
      else Inl (KeyError ''columns''))"

definition absent_columns :: "frame \<Rightarrow> string list \<Rightarrow> string list" where
  "absent_columns f cs = filter (\<lambda>c. c \<notin> set (fr_columns f)) cs"

definition column :: "frame \<Rightarrow> string \<Rightarrow> pyval list" where
  "column f c = map (\<lambda>r. cell f r c) (fr_rows f)"

fun isna :: "pyval \<Rightarrow> bool" where
  "isna PNone = True"
| "isna (PFloat x) = is_nan x"
| "isna _ = False"

text \<open>\<open>frame[c] = value\<close>: a constant column, replacing an existing one.\<close>

definition set_column :: "frame \<Rightarrow> string \<Rightarrow> pyval \<Rightarrow> frame" where
  "set_column f c v =
     (if c \<in> set (fr_columns f)
      then f\<lparr>fr_rows := map (\<lambda>r. map (\<lambda>(k, x). if k = c then v else x) (zip (fr_columns f) r)) (fr_rows f)\<rparr>
      else f\<lparr>fr_columns := fr_columns f @ [c], fr_rows := map (\<lambda>r. r @ [v]) (fr_rows f)\<rparr>)"

definition drop_column :: "frame \<Rightarrow> string \<Rightarrow> frame" where
  "drop_column f c =
     \<lparr>fr_columns = filter (\<lambda>k. k \<noteq> c) (fr_columns f), fr_numeric = filter (\<lambda>k. k \<noteq> c) (fr_numeric f),
      fr_rows = map (\<lambda>r. map snd (filter (\<lambda>(k, x). k \<noteq> c) (zip (fr_columns f) r))) (fr_rows f)\<rparr>"

definition count_status :: "frame \<Rightarrow> string \<Rightarrow> int" where
  "count_status f s = int (length (filter (\<lambda>v. v = PStr s) (column f ''status'')))"

text \<open>\<open>pd.DataFrame\<close> of rows: a column of numbers and \<open>None\<close> gets a numeric dtype, in which \<open>None\<close> is NaN and, beside
  floats or NaN, an integer is a float.\<close>

fun is_number :: "pyval \<Rightarrow> bool" where
  "is_number (PInt n) = True"
| "is_number (PFloat x) = True"
| "is_number _ = False"

fun is_int :: "pyval \<Rightarrow> bool" where
  "is_int (PInt n) = True"
| "is_int _ = False"

fun float_cell :: "pyval \<Rightarrow> pyval" where
  "float_cell (PInt n) = PFloat (fl (of_int n))"
| "float_cell PNone = PFloat NaN"
| "float_cell v = v"

definition numeric_dtype :: "pyval list \<Rightarrow> bool" where
  "numeric_dtype vs \<longleftrightarrow> list_ex is_number vs \<and> list_all (\<lambda>v. is_number v \<or> v = PNone) vs"

definition infer_cell :: "pyval list \<Rightarrow> pyval \<Rightarrow> pyval" where
  "infer_cell vs v = (if numeric_dtype vs \<and> \<not> list_all is_int vs then float_cell v else v)"

definition build_frame :: "string list \<Rightarrow> (string \<Rightarrow> 'r \<Rightarrow> pyval) \<Rightarrow> 'r list \<Rightarrow> frame" where
  "build_frame cols get rows =
     \<lparr>fr_columns = cols, fr_numeric = filter (\<lambda>c. numeric_dtype (map (get c) rows)) cols,
      fr_rows = map (\<lambda>r. map (\<lambda>c. infer_cell (map (get c) rows) (get c r)) cols) rows\<rparr>"

lemma build_frame_rows [simp]:
  "fr_columns (build_frame cols get rows) = cols" "length (fr_rows (build_frame cols get rows)) = length rows"
  by (simp_all add: build_frame_def)

definition frame_ok :: "frame \<Rightarrow> bool" where
  "frame_ok f \<longleftrightarrow> distinct (fr_columns f) \<and> (\<forall>r\<in>set (fr_rows f). length r = length (fr_columns f))"

lemma select_columns_rows:
  "select_columns f cs = Inr g \<Longrightarrow> fr_columns g = cs \<and> length (fr_rows g) = length (fr_rows f)"
  by (auto simp: select_columns_def split: if_splits)

lemma drop_set_column:
  assumes "frame_ok f" and "c \<notin> set (fr_columns f)" and "c \<notin> set (fr_numeric f)"
  shows "drop_column (set_column f c v) c = f"
proof -
  have "filter (\<lambda>k. k \<noteq> c) (fr_columns f) = fr_columns f" "filter (\<lambda>k. k \<noteq> c) (fr_numeric f) = fr_numeric f"
    using assms(2,3) by (auto intro!: filter_True)
  moreover have "map snd (filter (\<lambda>(k, x). k \<noteq> c) (zip (fr_columns f @ [c]) (r @ [v]))) = r"
    if "r \<in> set (fr_rows f)" for r
  proof -
    have l: "length (fr_columns f) = length r" using assms(1) that by (simp add: frame_ok_def)
    have "filter (\<lambda>(k, x). k \<noteq> c) (zip (fr_columns f) r) = zip (fr_columns f) r"
      using assms(2) by (intro filter_True) (auto dest: set_zip_leftD)
    with l show ?thesis by simp
  qed
  then have "map ((\<lambda>r. map snd (filter (\<lambda>(k, x). k \<noteq> c) (zip (fr_columns f @ [c]) r))) \<circ> (\<lambda>r. r @ [v])) (fr_rows f)
      = fr_rows f"
    by (intro map_idI) (simp only: o_def)
  ultimately show ?thesis using assms(2)
    by (cases f) (simp add: drop_column_def set_column_def)
qed

end
