(* ===== verification/Partitions.thy ===== *)
theory Partitions
  imports Py_Value
begin

section \<open>Stable work partitions\<close>

text \<open>
  \<open>scaling/partitions.py\<close>: symbols are spread over buckets by a digest, and each non-empty
  bucket and provider makes one partition with a derived identifier.  The dictionary of buckets
  is an association list in insertion order.
\<close>

record work_partition =
  wp_id :: string
  wp_run_id :: string
  wp_date :: int
  wp_instrument :: string
  wp_bucket :: nat
  wp_provider :: string
  wp_symbols :: "string list"

definition symbols_json :: "runtime \<Rightarrow> work_partition \<Rightarrow> string" where
  "symbols_json rt p = json_dumps rt (PList (map PStr (wp_symbols p)))"

definition symbol_bucket :: "runtime \<Rightarrow> int \<Rightarrow> string \<Rightarrow> nat result" where
  "symbol_bucket rt bucket_count symb =
     (if bucket_count \<le> 0 then Inl (ValueError ''bucket_count must be positive'')
      else Inr (sha256_64 rt (norm_name symb) mod nat bucket_count))"

type_synonym buckets = "(nat \<times> string list) list"

text \<open>\<open>buckets.setdefault(b, []).append(symbol)\<close>\<close>

definition add_to_bucket :: "buckets \<Rightarrow> nat \<Rightarrow> string \<Rightarrow> buckets" where
  "add_to_bucket d b s =
     AList.update b ((case map_of d b of None \<Rightarrow> [] | Some xs \<Rightarrow> xs) @ [s]) d"

definition fill_buckets :: "runtime \<Rightarrow> int \<Rightarrow> string list \<Rightarrow> buckets result" where
  "fill_buckets rt n symbols =
     fold_res (\<lambda>d s. bind_res (symbol_bucket rt n s) (\<lambda>b. Inr (add_to_bucket d b s))) [] symbols"

definition logical_key :: "runtime \<Rightarrow> string \<Rightarrow> int \<Rightarrow> string \<Rightarrow> nat \<Rightarrow> string \<Rightarrow> string" where
  "logical_key rt run_id day instrument bucket provider =
     join_with ''|'' [run_id, iso_date rt day, instrument, zero_pad 5 bucket, provider]"

definition make_partition :: "runtime \<Rightarrow> string \<Rightarrow> int \<Rightarrow> string \<Rightarrow> nat \<Rightarrow> string list \<Rightarrow> string \<Rightarrow> work_partition" where
  "make_partition rt run_id day instrument bucket symbols provider =
     \<lparr>wp_id = uuid5 rt (logical_key rt run_id day instrument bucket provider), wp_run_id = run_id,
      wp_date = day, wp_instrument = instrument, wp_bucket = bucket, wp_provider = provider,
      wp_symbols = symbols\<rparr>"

definition normalized_symbols :: "string list \<Rightarrow> string list" where
  "normalized_symbols symbols = sort (remdups (map norm_name symbols))"

definition normalized_providers :: "string list \<Rightarrow> string list" where
  "normalized_providers providers = uniq (map norm_name providers)"

definition build_work_partitions :: "runtime \<Rightarrow> string \<Rightarrow> int \<Rightarrow> string \<Rightarrow> string list \<Rightarrow> string list \<Rightarrow>
    int \<Rightarrow> work_partition list result" where
  "build_work_partitions rt run_id day instrument_type symbols providers bucket_count =
     (if normalized_symbols symbols = [] then Inl (ValueError ''At least one symbol is required'')
      else if normalized_providers providers = []
      then Inl (ValueError ''At least one provider is required'')
      else bind_res (fill_buckets rt bucket_count (normalized_symbols symbols)) (\<lambda>buckets.
        Inr (concat (map (\<lambda>b. map (make_partition rt run_id day (norm_name instrument_type) b
                                    (the (map_of buckets b)))
                                 (normalized_providers providers))
                         (sort (map fst buckets))))))"

subsection \<open>What the buckets hold\<close>

definition bucket_of :: "runtime \<Rightarrow> int \<Rightarrow> string \<Rightarrow> nat" where
  "bucket_of rt n s = sha256_64 rt (norm_name s) mod nat n"

definition bucketed :: "(string \<Rightarrow> nat) \<Rightarrow> string list \<Rightarrow> buckets \<Rightarrow> bool" where
  "bucketed h xs d \<longleftrightarrow> distinct (map fst d) \<and> set (map fst d) = h ` set xs \<and>
     (\<forall>b\<in>set (map fst d). map_of d b = Some (filter (\<lambda>s. h s = b) xs))"

lemma bucketedD:
  assumes "bucketed h xs d"
  shows "distinct (map fst d)" "set (map fst d) = h ` set xs"
    "b \<in> set (map fst d) \<Longrightarrow> map_of d b = Some (filter (\<lambda>s. h s = b) xs)"
  using assms unfolding bucketed_def by blast+

lemma bucketed_None: "bucketed h xs d \<Longrightarrow> b \<notin> set (map fst d) \<Longrightarrow> filter (\<lambda>s. h s = b) xs = []"
proof -
  assume d: "bucketed h xs d" and "b \<notin> set (map fst d)"
  then have "b \<notin> h ` set xs" using bucketedD(2) [OF d] by simp
  then show ?thesis by (auto intro: filter_False)
qed

lemma bucketed_add: "bucketed h xs d \<Longrightarrow> bucketed h (xs @ [s]) (add_to_bucket d (h s) s)"
proof -
  assume b: "bucketed h xs d"
  have l: "(case map_of d (h s) of None \<Rightarrow> [] | Some xs \<Rightarrow> xs) = filter (\<lambda>t. h t = h s) xs"
  proof (cases "h s \<in> set (map fst d)")
    case True
    from bucketedD(3) [OF b True] show ?thesis by (simp only: option.simps)
  next
    case False
    then have "map_of d (h s) = None" by (simp add: map_of_eq_None_iff)
    with bucketed_None [OF b False] show ?thesis by simp
  qed
  let ?ys = "filter (\<lambda>t. h t = h s) xs @ [s]"
  have eq: "add_to_bucket d (h s) s = AList.update (h s) ?ys d" by (simp add: add_to_bucket_def l)
  show ?thesis
    unfolding bucketed_def eq
  proof (intro conjI ballI)
    show "distinct (map fst (AList.update (h s) ?ys d))"
      using distinct_update bucketedD(1) [OF b] .
    show keys: "set (map fst (AList.update (h s) ?ys d)) = h ` set (xs @ [s])"
      using bucketedD(2) [OF b] by (simp add: dom_update)
    fix k assume k: "k \<in> set (map fst (AList.update (h s) ?ys d))"
    show "map_of (AList.update (h s) ?ys d) k = Some (filter (\<lambda>t. h t = k) (xs @ [s]))"
    proof (cases "k = h s")
      case False
      with k have "k \<in> set (map fst d)" by (simp add: dom_update)
      then have "map_of d k = Some (filter (\<lambda>t. h t = k) xs)" by (rule bucketedD(3) [OF b])
      moreover have "filter (\<lambda>t. h t = k) (xs @ [s]) = filter (\<lambda>t. h t = k) xs" using False by simp
      moreover have "map_of (AList.update (h s) ?ys d) k = map_of d k"
        using False by (simp add: update_conv)
      ultimately show ?thesis by (simp only:)
    qed (simp add: update_conv)
  qed
qed

lemma fill_buckets_eq:
  "0 < n \<Longrightarrow> \<exists>d. fill_buckets rt n xs = Inr d \<and> bucketed (bucket_of rt n) xs d"
proof (induction xs rule: rev_induct)
  case Nil
  then show ?case by (simp add: fill_buckets_def bucketed_def)
next
  case (snoc x xs)
  then obtain d where d: "fill_buckets rt n xs = Inr d" "bucketed (bucket_of rt n) xs d" by blast
  moreover have "symbol_bucket rt n x = Inr (bucket_of rt n x)"
    using snoc.prems by (simp add: symbol_bucket_def bucket_of_def)
  ultimately show ?case
    using bucketed_add [OF d(2)] by (simp add: fill_buckets_def fold_res_append)
qed

lemma mset_by_key:
  assumes "distinct ks" and "h ` set xs \<subseteq> set ks"
  shows "mset (concat (map (\<lambda>b. filter (\<lambda>s. h s = b) xs) ks)) = mset xs"
  using assms
proof (induction ks arbitrary: xs)
  case (Cons k ks)
  let ?ys = "filter (\<lambda>s. h s \<noteq> k) xs"
  have "concat (map (\<lambda>b. filter (\<lambda>s. h s = b) xs) ks) = concat (map (\<lambda>b. filter (\<lambda>s. h s = b) ?ys) ks)"
    using Cons.prems(1) by (intro arg_cong [of _ _ concat] map_cong) (auto intro: filter_cong)
  moreover have "mset (concat (map (\<lambda>b. filter (\<lambda>s. h s = b) ?ys) ks)) = mset ?ys"
    using Cons.prems by (intro Cons.IH) auto
  moreover have "mset (filter (\<lambda>s. h s = k) xs) + mset ?ys = mset xs"
    using multiset_partition [of "mset xs" "\<lambda>s. h s = k"] by simp
  ultimately show ?case by simp
qed simp

lemma logical_key_inject:
  assumes "logical_key rt r d i b p = logical_key rt r d i b' p'"
  shows "b = b' \<and> p = p'"
proof -
  have "zero_pad 5 b @ ''|'' @ p = zero_pad 5 b' @ ''|'' @ p'"
    using assms by (simp add: logical_key_def)
  moreover have "CHR ''|'' \<notin> set (zero_pad 5 x)" for x
    using zero_pad_digits [of 5 x] by (auto simp: list_all_iff is_digit_def)
  then have "split_on CHR ''|'' (zero_pad 5 x @ CHR ''|'' # y) = zero_pad 5 x # split_on CHR ''|'' y" for x y
    by (rule split_on_append)
  ultimately have "zero_pad 5 b = zero_pad 5 b'"
    by (metis append_Cons append_Nil list.inject)
  with \<open>zero_pad 5 b @ ''|'' @ p = zero_pad 5 b' @ ''|'' @ p'\<close>
  have "zero_pad 5 b = zero_pad 5 b' \<and> p = p'" by simp
  then show ?thesis by (auto dest: zero_pad_inject)
qed


subsection \<open>Properties\<close>

text \<open>What \<open>build_work_partitions\<close> returns when it accepts its arguments.\<close>

lemma build_eq:
  assumes "build_work_partitions rt run_id day typ symbols providers n = Inr ps"
  shows "\<exists>d. bucketed (bucket_of rt n) (normalized_symbols symbols) d \<and> 0 < n \<and>
    ps = concat (map (\<lambda>b. map (make_partition rt run_id day (norm_name typ) b
             (filter (\<lambda>s. bucket_of rt n s = b) (normalized_symbols symbols)))
           (normalized_providers providers)) (sort (map fst d)))"
proof -
  have n: "0 < n"
  proof (rule ccontr)
    assume "\<not> 0 < n"
    then have "fill_buckets rt n (x # xs) = Inl (ValueError ''bucket_count must be positive'')" for x xs
      by (simp add: fill_buckets_def symbol_bucket_def)
    with assms show False
      by (cases "normalized_symbols symbols")
        (auto simp: build_work_partitions_def split: if_splits)
  qed
  obtain d where d: "fill_buckets rt n (normalized_symbols symbols) = Inr d"
    "bucketed (bucket_of rt n) (normalized_symbols symbols) d"
    using fill_buckets_eq [OF n] by blast
  have "map (\<lambda>b. map (make_partition rt run_id day (norm_name typ) b (the (map_of d b)))
          (normalized_providers providers)) (sort (map fst d))
      = map (\<lambda>b. map (make_partition rt run_id day (norm_name typ) b
             (filter (\<lambda>s. bucket_of rt n s = b) (normalized_symbols symbols)))
           (normalized_providers providers)) (sort (map fst d))"
  proof (intro map_cong refl)
    fix b q assume "b \<in> set (sort (map fst d))"
    then have "map_of d b = Some (filter (\<lambda>s. bucket_of rt n s = b) (normalized_symbols symbols))"
      using d(2) unfolding bucketed_def set_sort by blast
    then show "make_partition rt run_id day (norm_name typ) b (the (map_of d b)) q
      = make_partition rt run_id day (norm_name typ) b
          (filter (\<lambda>s. bucket_of rt n s = b) (normalized_symbols symbols)) q" by (simp only: option.sel)
  qed
  note eq = this
  have "ps = concat (map (\<lambda>b. map (make_partition rt run_id day (norm_name typ) b (the (map_of d b)))
          (normalized_providers providers)) (sort (map fst d)))"
    using assms d(1) by (simp add: build_work_partitions_def split: if_splits)
  then have "ps = concat (map (\<lambda>b. map (make_partition rt run_id day (norm_name typ) b
             (filter (\<lambda>s. bucket_of rt n s = b) (normalized_symbols symbols)))
           (normalized_providers providers)) (sort (map fst d)))" by (simp only: eq)
  with d(2) n show ?thesis by blast
qed

lemma make_partition_fields [simp]:
  "wp_provider (make_partition rt r d i b xs p) = p" "wp_bucket (make_partition rt r d i b xs p) = b"
  "wp_symbols (make_partition rt r d i b xs p) = xs"
  "wp_id (make_partition rt r d i b xs p) = uuid5 rt (logical_key rt r d i b p)"
  by (simp_all add: make_partition_def)

lemma distinct_concat_pairs:
  "distinct bs \<Longrightarrow> distinct qs \<Longrightarrow> distinct (concat (map (\<lambda>b. map (Pair b) qs) bs))"
  by (induction bs) (auto simp: distinct_map inj_on_def)

lemma in_concat_map: "w \<in> set (concat (map f bs)) \<Longrightarrow> \<exists>b\<in>set bs. w \<in> set (f b)"
  by simp

text \<open>The partitions of each requested provider hold every requested symbol, in
  normal form, exactly once, each in the bucket of its digest; no partition is empty.\<close>

theorem partitions_cover:
  assumes "build_work_partitions rt run_id day typ symbols providers n = Inr ps"
    and "p \<in> set providers"
  shows "mset (concat (map wp_symbols (filter (\<lambda>w. wp_provider w = norm_name p) ps)))
      = mset_set (norm_name ` set symbols)
    \<and> (\<forall>w\<in>set ps. wp_symbols w \<noteq> [] \<and> (\<forall>s\<in>set (wp_symbols w). bucket_of rt n s = wp_bucket w))"
proof -
  let ?xs = "normalized_symbols symbols" and ?qs = "normalized_providers providers"
  obtain d where d: "bucketed (bucket_of rt n) ?xs d"
    and ps: "ps = concat (map (\<lambda>b. map (make_partition rt run_id day (norm_name typ) b
             (filter (\<lambda>s. bucket_of rt n s = b) ?xs)) ?qs) (sort (map fst d)))"
    using build_eq [OF assms(1)] by blast
  have q: "distinct ?qs" "norm_name p \<in> set ?qs"
    using assms(2) by (simp_all add: normalized_providers_def)
  have one: "concat (map wp_symbols (filter (\<lambda>w. wp_provider w = norm_name p)
      (map (make_partition rt run_id day (norm_name typ) b ys) qs))) = ys"
    if "distinct qs" "norm_name p \<in> set qs" for b ys qs
    using that
  proof (induction qs)
    case (Cons q qs)
    then show ?case by (cases "q = norm_name p") (auto simp: filter_map o_def filter_False)
  qed simp
  have many: "concat (map wp_symbols (filter (\<lambda>w. wp_provider w = norm_name p)
      (concat (map (\<lambda>b. map (make_partition rt run_id day (norm_name typ) b (ys b)) ?qs) bs))))
    = concat (map ys bs)" for ys bs
    by (induction bs) (simp_all add: one [OF q])
  have "concat (map wp_symbols (filter (\<lambda>w. wp_provider w = norm_name p) ps))
      = concat (map (\<lambda>b. filter (\<lambda>s. bucket_of rt n s = b) ?xs) (sort (map fst d)))"
    unfolding ps by (rule many)
  also have "mset \<dots> = mset ?xs"
    using bucketedD(1,2) [OF d] by (intro mset_by_key) simp_all
  also have "\<dots> = mset_set (norm_name ` set symbols)"
    by (simp add: normalized_symbols_def mset_set_set [symmetric])
  finally have "mset (concat (map wp_symbols (filter (\<lambda>w. wp_provider w = norm_name p) ps)))
      = mset_set (norm_name ` set symbols)" .
  moreover have "wp_symbols w \<noteq> [] \<and> (\<forall>s\<in>set (wp_symbols w). bucket_of rt n s = wp_bucket w)"
    if w_in: "w \<in> set ps" for w
  proof -
    obtain b where b: "b \<in> set (sort (map fst d))" and w: "w \<in> set (map (make_partition rt run_id day
        (norm_name typ) b (filter (\<lambda>s. bucket_of rt n s = b) ?xs)) ?qs)"
      using in_concat_map [OF w_in [unfolded ps]] by blast
    have "b \<in> bucket_of rt n ` set ?xs" using b bucketedD(2) [OF d] by (simp only: set_sort)
    then obtain s where "s \<in> set ?xs" "bucket_of rt n s = b" by blast
    then show ?thesis using w by (auto simp: filter_empty_conv)
  qed
  ultimately show ?thesis by blast
qed


lemma partitions_cover_witness:
  "\<exists>ps. build_work_partitions sample_runtime ''r1'' 9 ''equity'' [''b'', ''AAA'', '' B ''] [''yahoo''] 4 = Inr ps
     \<and> mset (concat (map wp_symbols (filter (\<lambda>w. wp_provider w = norm_name ''yahoo'') ps)))
       = mset_set (norm_name ` set [''b'', ''AAA'', '' B ''])"
proof -
  have "is_ok (build_work_partitions sample_runtime ''r1'' 9 ''equity'' [''b'', ''AAA'', '' B ''] [''yahoo''] 4)"
    by code_simp
  then obtain ps where ps:
    "build_work_partitions sample_runtime ''r1'' 9 ''equity'' [''b'', ''AAA'', '' B ''] [''yahoo''] 4 = Inr ps"
    by (auto simp: is_ok_iff)
  then show ?thesis using partitions_cover [OF ps, of "''yahoo''"] by simp
qed

text \<open>When the digest does not collide on the logical keys of the run, all
  partition identifiers are distinct, whatever characters the provider names contain.\<close>

theorem partition_ids_distinct:
  assumes "build_work_partitions rt run_id day typ symbols providers n = Inr ps"
    and "inj_on (uuid5 rt) ((\<lambda>(b, p). logical_key rt run_id day (norm_name typ) b p)
           ` {(wp_bucket w, wp_provider w) |w. w \<in> set ps})"
  shows "distinct (map wp_id ps)"
proof -
  let ?xs = "normalized_symbols symbols" and ?qs = "normalized_providers providers"
  let ?k = "\<lambda>(b, p). logical_key rt run_id day (norm_name typ) b p"
  obtain d where d: "bucketed (bucket_of rt n) ?xs d"
    and ps: "ps = concat (map (\<lambda>b. map (make_partition rt run_id day (norm_name typ) b
             (filter (\<lambda>s. bucket_of rt n s = b) ?xs)) ?qs) (sort (map fst d)))"
    using build_eq [OF assms(1)] by blast
  let ?pairs = "concat (map (\<lambda>b. map (Pair b) ?qs) (sort (map fst d)))"
  have pairs: "map (\<lambda>w. (wp_bucket w, wp_provider w)) ps = ?pairs"
    unfolding ps by (simp add: map_concat o_def)
  have ids: "map wp_id ps = map (\<lambda>x. uuid5 rt (?k x)) ?pairs"
    unfolding ps by (simp add: map_concat o_def)
  have "distinct ?pairs"
    using bucketedD(1) [OF d] by (intro distinct_concat_pairs) (simp_all add: normalized_providers_def)
  moreover have "inj_on ?k (set ?pairs)"
    by (rule inj_onI) (auto dest: logical_key_inject)
  moreover have pair_set: "{(wp_bucket w, wp_provider w) |w. w \<in> set ps} = set ?pairs"
  proof -
    have "{(wp_bucket w, wp_provider w) |w. w \<in> set ps} = set (map (\<lambda>w. (wp_bucket w, wp_provider w)) ps)"
      by auto
    then show ?thesis by (simp only: pairs)
  qed
  then have "inj_on (uuid5 rt) (?k ` set ?pairs)" using assms(2) by (simp only:)
  ultimately show ?thesis
    unfolding ids by (simp add: distinct_map comp_inj_on o_def del: set_concat)
       (metis (mono_tags) comp_inj_on o_def inj_on_cong)
qed


lemma partition_ids_distinct_witness:
  "\<exists>ps. build_work_partitions sample_runtime ''r1'' 9 ''equity'' [''b'', ''AAA''] [''yahoo'', ''a|b''] 4 = Inr ps
     \<and> distinct (map wp_id ps)"
proof -
  have "is_ok (build_work_partitions sample_runtime ''r1'' 9 ''equity'' [''b'', ''AAA''] [''yahoo'', ''a|b''] 4)"
    by code_simp
  then obtain ps where ps:
    "build_work_partitions sample_runtime ''r1'' 9 ''equity'' [''b'', ''AAA''] [''yahoo'', ''a|b''] 4 = Inr ps"
    by (auto simp: is_ok_iff)
  have "inj_on (uuid5 sample_runtime) A" for A by (simp add: sample_runtime_def inj_on_def)
  then show ?thesis using partition_ids_distinct [OF ps] ps by simp
qed

end
