(* ===== verification/Persistence.thy ===== *)
theory Persistence
  imports Store_Schema Once_Store Frames Partitions
begin

section \<open>Persisting runs, events and work partitions\<close>

text \<open>
  The operations of \<open>storage/duckdb.py\<close> on an initialised store.  A call runs on its own
  connection; outside \<open>BEGIN TRANSACTION\<close> every statement commits on its own.
\<close>

definition opt_str :: "string option \<Rightarrow> pyval" where
  "opt_str s = (case s of None \<Rightarrow> PNone | Some t \<Rightarrow> PStr t)"

subsection \<open>Work partitions\<close>

definition partition_values :: "runtime \<Rightarrow> work_partition \<Rightarrow> pyval list" where
  "partition_values rt p = [PStr (wp_id p), PStr (wp_run_id p), PDate (wp_date p),
     PStr (wp_instrument p), PInt (int (wp_bucket p)), PStr (wp_provider p),
     PStr (symbols_json rt p), PStr ''PENDING'']"

definition register_work_partitions :: "engine \<Rightarrow> runtime \<Rightarrow> work_partition list \<Rightarrow> unit db" where
  "register_work_partitions eng rt ps =
     (if ps = [] then return_st ()
      else for_st (insert_ignore eng ''work_partitions''
             [''partition_id'', ''run_id'', ''control_date'', ''instrument_type'', ''symbol_bucket'',
              ''provider'', ''symbols_json'', ''status''])
           (map (partition_values rt) ps))"

fun add_one :: "pyval \<Rightarrow> pyval" where
  "add_one (PInt n) = PInt (n + 1)"
| "add_one v = PNone"

definition mark_partition_running :: "engine \<Rightarrow> string \<Rightarrow> unit db" where
  "mark_partition_running eng pid =
     update_table eng ''work_partitions''
       (\<lambda>get. get ''partition_id'' = PStr pid \<and> get ''status'' \<noteq> PStr ''SUCCESS'')
       (\<lambda>now get. [(''status'', PStr ''RUNNING''), (''attempts'', add_one (get ''attempts'')),
          (''started_at'', now), (''finished_at'', PNone), (''error_type'', PNone),
          (''error_message'', PNone)])"

text \<open>\<open>type(error).__name__\<close>\<close>

fun exn_name :: "exn \<Rightarrow> string" where
  "exn_name (ValueError m) = ''ValueError''"
| "exn_name (TypeError m) = ''TypeError''"
| "exn_name (KeyError m) = ''KeyError''"
| "exn_name (AttributeError m) = ''AttributeError''"
| "exn_name (RuntimeError m) = ''RuntimeError''"
| "exn_name OverflowError = ''OverflowError''"
| "exn_name ZeroDivisionError = ''ZeroDivisionError''"
| "exn_name FileNotFoundError = ''FileNotFoundError''"
| "exn_name FileExistsError = ''FileExistsError''"
| "exn_name PermissionError = ''PermissionError''"
| "exn_name OSError = ''OSError''"
| "exn_name (TimeoutError m) = ''TimeoutError''"
| "exn_name (TransportError m) = ''TransportError''"
| "exn_name ConnectionClosedError = ''ConnectionClosedError''"
| "exn_name (FrameError m) = ''FrameError''"
| "exn_name (EventValidationError m) = ''EventValidationError''"
| "exn_name (PartitionExecutionError m) = ''PartitionExecutionError''"
| "exn_name DatabaseError = ''DatabaseError''"
| "exn_name RequestException = ''RequestException''"
| "exn_name (HTTPStatusError n) = ''HTTPError''"
| "exn_name DatabaseBusyError = ''DatabaseBusyError''"
| "exn_name (HTTPException n) = ''HTTPException''"
| "exn_name WouldBlock = ''BlockingIOError''"

definition finish_work_partition :: "engine \<Rightarrow> runtime \<Rightarrow> string \<Rightarrow> string \<Rightarrow> int \<Rightarrow> exn option \<Rightarrow> unit db" where
  "finish_work_partition eng rt pid status row_count error =
     (if status \<notin> {''SUCCESS'', ''FAILED''}
      then fail_st (ValueError ''Partition status must be SUCCESS or FAILED'')
      else update_table eng ''work_partitions'' (\<lambda>get. get ''partition_id'' = PStr pid)
        (\<lambda>now get. [(''status'', PStr status), (''finished_at'', now), (''row_count'', PInt row_count),
           (''error_type'', opt_str (map_option exn_name error)),
           (''error_message'', opt_str (map_option (\<lambda>e. take 1000 (str_exn rt e)) error))]))"

definition insert_now :: "engine \<Rightarrow> bool \<Rightarrow> string \<Rightarrow> string list \<Rightarrow> (pyval \<Rightarrow> pyval list) \<Rightarrow> unit db" where
  "insert_now eng ignore name cols vals s =
     (if ignore then insert_ignore eng name cols (vals (clock eng (st_steps s))) s
      else insert_into eng name cols (vals (clock eng (st_steps s))) s)"

definition record_provider_metric :: "engine \<Rightarrow> work_partition \<Rightarrow> int \<Rightarrow> pyfloat \<Rightarrow> bool \<Rightarrow> string \<Rightarrow>
    string option \<Rightarrow> unit db" where
  "record_provider_metric eng p returned_rows latency reused outcome_status error_type =
     insert_now eng False ''provider_request_metrics''
       [''partition_id'', ''run_id'', ''provider'', ''instrument_type'', ''symbol_bucket'',
        ''requested_symbols'', ''returned_rows'', ''latency_ms'', ''reused_archive'',
        ''outcome_status'', ''error_type'', ''recorded_at'']
       (\<lambda>now. [PStr (wp_id p), PStr (wp_run_id p), PStr (wp_provider p), PStr (wp_instrument p),
          PInt (int (wp_bucket p)), PInt (int (length (wp_symbols p))), PInt returned_rows,
          PFloat latency, PBool reused, PStr outcome_status, opt_str error_type, now])"

definition quarantine_id :: "runtime \<Rightarrow> work_partition \<Rightarrow> string \<Rightarrow> string" where
  "quarantine_id rt p reason = uuid5 rt (wp_id p @ ''|'' @ take 500 reason)"

definition record_quarantine :: "engine \<Rightarrow> runtime \<Rightarrow> work_partition \<Rightarrow> string \<Rightarrow> string option \<Rightarrow> unit db" where
  "record_quarantine eng rt p reason raw_path =
     insert_now eng True ''quarantine_records'' (column_names quarantine_records)
       (\<lambda>now. [PStr (quarantine_id rt p reason), PStr (wp_id p), PStr (wp_run_id p),
          PStr (wp_provider p), PStr (wp_instrument p), PInt (int (wp_bucket p)),
          PStr (take 1000 reason), opt_str raw_path, now])"

subsection \<open>Rows of an equity run\<close>

definition bar_columns :: "string list" where
  "bar_columns = [''symbol'', ''trade_date'', ''open'', ''high'', ''low'', ''close'', ''volume'']"

definition equity_bar_rows :: "frame \<Rightarrow> string \<Rightarrow> string \<Rightarrow> pyval list list result" where
  "equity_bar_rows f source run_id =
     bind_res (select_columns f bar_columns) (\<lambda>g. Inr (map (\<lambda>r.
       [cell g r ''symbol'', PStr run_id, PStr source, cell g r ''trade_date'', cell g r ''open'',
        cell g r ''high'', cell g r ''low'', cell g r ''close'', cell g r ''volume'']) (fr_rows g)))"

definition reconciliation_row :: "frame \<Rightarrow> string \<Rightarrow> pyval list \<Rightarrow> pyval list list result" where
  "reconciliation_row f run_id r =
     (let pairwise = ''source_a'' \<in> set (fr_columns f) in
      bind_res (if pairwise then cell_at f r ''source_a'' else Inr (PStr ''YAHOO'')) (\<lambda>source_a.
      bind_res (if pairwise then cell_at f r ''source_b'' else Inr (PStr ''ALPACA'')) (\<lambda>source_b.
      bind_res (cell_at f r (if pairwise then ''source_a_close'' else ''yahoo_close'')) (\<lambda>close_a.
      bind_res (cell_at f r (if pairwise then ''source_b_close'' else ''alpaca_close'')) (\<lambda>close_b.
      bind_res (cell_at f r (if pairwise then ''source_a_volume'' else ''yahoo_volume'')) (\<lambda>volume_a.
      bind_res (cell_at f r (if pairwise then ''source_b_volume'' else ''alpaca_volume'')) (\<lambda>volume_b.
      bind_res (cell_at f r ''status'') (\<lambda>status.
      bind_res (cell_at f r ''symbol'') (\<lambda>symb.
      bind_res (cell_at f r ''trade_date'') (\<lambda>day.
      bind_res (cell_at f r ''close_difference'') (\<lambda>dc.
      bind_res (cell_at f r ''volume_difference'') (\<lambda>dv.
      let reason = (if pairwise then cell f r ''break_reason'' else PNone);
          is_break = PBool (status = PStr ''BREAK'') in
      Inr [[PStr run_id, symb, day, PStr ''close'', source_a, source_b, close_a, close_b, dc, is_break,
            status, reason],
           [PStr run_id, symb, day, PStr ''volume'', source_a, source_b, volume_a, volume_b, dv,
            is_break, status, reason]]))))))))))))"

definition reconciliation_rows :: "frame \<Rightarrow> string \<Rightarrow> pyval list list result" where
  "reconciliation_rows f run_id = bind_res (map_res (reconciliation_row f run_id) (fr_rows f)) (\<lambda>rss. Inr (concat rss))"

definition exception_rows :: "frame \<Rightarrow> pyval list list" where
  "exception_rows f = fr_rows f"

definition staging_insert :: "string list" where
  "staging_insert = [''symbol'', ''run_id'', ''source'', ''timestamp'', ''open'', ''high'', ''low'',
     ''close'', ''volume'']"

definition result_insert :: "string list" where
  "result_insert = [''run_id'', ''symbol'', ''timestamp'', ''metric_name'', ''source_a'', ''source_b'',
     ''source_a_value'', ''source_b_value'', ''difference'', ''is_discrepancy'', ''status'',
     ''break_reason'']"

definition exception_insert :: "string list" where
  "exception_insert = [''exception_id'', ''run_id'', ''instrument_type'', ''symbol'', ''trade_date'',
     ''source_a'', ''source_b'', ''source_a_close'', ''source_b_close'', ''close_difference'',
     ''severity'', ''priority'', ''status'', ''owner'', ''reason_code'', ''due_at'', ''resolved_at'',
     ''created_at'']"

definition save_pipeline_run :: "engine \<Rightarrow> string \<Rightarrow> string \<Rightarrow> string \<Rightarrow> string \<Rightarrow> int \<Rightarrow> int \<Rightarrow> int \<Rightarrow> int \<Rightarrow>
    unit db" where
  "save_pipeline_run eng run_id started_at finished_at status yahoo alpaca matches breaks =
     insert_into eng ''pipeline_runs''
       [''run_id'', ''started_at'', ''finished_at'', ''status'', ''yahoo_row_count'',
        ''alpaca_row_count'', ''match_count'', ''break_count'']
       [PStr run_id, PStr started_at, PStr finished_at, PStr status, PInt yahoo, PInt alpaca,
        PInt matches, PInt breaks]"

definition save_equity_bars :: "engine \<Rightarrow> frame \<Rightarrow> string \<Rightarrow> string \<Rightarrow> unit db" where
  "save_equity_bars eng f source run_id = bind_st (lift_res (equity_bar_rows f source run_id))
     (insert_many eng ''equity_bars_staging'' staging_insert)"

definition save_reconciliation_results :: "engine \<Rightarrow> frame \<Rightarrow> string \<Rightarrow> unit db" where
  "save_reconciliation_results eng f run_id = bind_st (lift_res (reconciliation_rows f run_id))
     (insert_many eng ''equity_reconciliation_results'' result_insert)"

definition save_exceptions :: "engine \<Rightarrow> frame \<Rightarrow> unit db" where
  "save_exceptions eng f =
     (if exception_rows f = [] then return_st ()
      else insert_many eng ''equity_exceptions'' exception_insert (exception_rows f))"

definition run_summary_columns :: "string list" where
  "run_summary_columns = [''run_id'', ''status'', ''yahoo_row_count'', ''alpaca_row_count'',
     ''massive_row_count'', ''match_count'', ''break_count'']"

definition get_pipeline_run :: "engine \<Rightarrow> string \<Rightarrow> payload option db" where
  "get_pipeline_run eng run_id = bind_st
     (select eng ''pipeline_runs'' run_summary_columns ''run_id'' (PStr run_id))
     (\<lambda>rows. return_st (case rows of [] \<Rightarrow> None | row # _ \<Rightarrow> Some (zip run_summary_columns row)))"

subsection \<open>The equity run in one transaction\<close>

record equity_run =
  eq_run_id :: string
  eq_started_at :: string
  eq_finished_at :: string
  eq_status :: string
  eq_yahoo :: frame
  eq_alpaca :: frame
  eq_massive :: "frame option"
  eq_reconciliation :: frame
  eq_exceptions :: frame
  eq_trace :: "string option"
  eq_root_span :: "string option"

definition run_bar_rows :: "equity_run \<Rightarrow> pyval list list result" where
  "run_bar_rows q =
     bind_res (equity_bar_rows (eq_yahoo q) ''YAHOO'' (eq_run_id q)) (\<lambda>y.
     bind_res (equity_bar_rows (eq_alpaca q) ''ALPACA'' (eq_run_id q)) (\<lambda>a.
     case eq_massive q of
       None \<Rightarrow> Inr (y @ a)
     | Some m \<Rightarrow> bind_res (equity_bar_rows m ''MASSIVE'' (eq_run_id q)) (\<lambda>mr. Inr (y @ a @ mr))))"

definition run_values :: "equity_run \<Rightarrow> pyval list" where
  "run_values q =
     [PStr (eq_run_id q), PStr (eq_started_at q), PStr (eq_finished_at q), PStr (eq_status q),
      PInt (int (length (fr_rows (eq_yahoo q)))), PInt (int (length (fr_rows (eq_alpaca q)))),
      PInt (case eq_massive q of None \<Rightarrow> 0 | Some m \<Rightarrow> int (length (fr_rows m))),
      PInt (count_status (eq_reconciliation q) ''MATCH''), PInt (count_status (eq_reconciliation q) ''BREAK''),
      opt_str (eq_trace q), opt_str (eq_root_span q)]"

definition run_insert :: "string list" where
  "run_insert = [''run_id'', ''started_at'', ''finished_at'', ''status'', ''yahoo_row_count'',
     ''alpaca_row_count'', ''massive_row_count'', ''match_count'', ''break_count'', ''trace_id'',
     ''root_span_id'']"

definition insert_if_any :: "engine \<Rightarrow> string \<Rightarrow> string list \<Rightarrow> pyval list list \<Rightarrow> unit db" where
  "insert_if_any eng name cols rows =
     (if rows = [] then return_st () else insert_many eng name cols rows)"

definition equity_body :: "engine \<Rightarrow> equity_run \<Rightarrow> pyval list list \<Rightarrow> pyval list list \<Rightarrow> bool db" where
  "equity_body eng q bars results = bind_st
     (select eng ''pipeline_runs'' [] ''run_id'' (PStr (eq_run_id q))) (\<lambda>existing.
     if existing \<noteq> [] then return_st False
     else bind_st (insert_into eng ''pipeline_runs'' run_insert (run_values q)) (\<lambda>_.
          bind_st (insert_if_any eng ''equity_bars_staging'' staging_insert bars) (\<lambda>_.
          bind_st (insert_if_any eng ''equity_reconciliation_results'' result_insert results) (\<lambda>_.
          bind_st (insert_if_any eng ''equity_exceptions'' exception_insert
                     (exception_rows (eq_exceptions q))) (\<lambda>_.
          return_st True)))))"

text \<open>The rows are computed before the transaction begins; a \<open>ROLLBACK\<close> of a run that is already
  stored ends the transaction like a \<open>COMMIT\<close>, since nothing was changed.\<close>

definition status_counted :: "frame \<Rightarrow> unit result" where
  "status_counted f = (if ''status'' \<in> set (fr_columns f) then Inr () else Inl (KeyError ''status''))"

definition persist_equity_run :: "engine \<Rightarrow> equity_run \<Rightarrow> bool db" where
  "persist_equity_run eng q =
     bind_st (lift_res (status_counted (eq_reconciliation q))) (\<lambda>_.
     bind_st (lift_res (run_bar_rows q)) (\<lambda>bars.
     bind_st (lift_res (reconciliation_rows (eq_reconciliation q) (eq_run_id q))) (\<lambda>results.
     transaction eng (equity_body eng q bars results))))"

subsection \<open>Real-time events\<close>

definition journal_required :: "string list" where
  "journal_required = [''event_id'', ''sequence_number'', ''sequence_status'', ''transport'', ''symbol'',
     ''price'', ''exchange_timestamp'', ''received_timestamp'', ''latency_ms'', ''pct_change'',
     ''is_anomaly'', ''reason'']"

definition journal_columns :: "string list" where
  "journal_columns = [''event_id'', ''sequence_number'', ''sequence_status'', ''transport'', ''source'',
     ''stream_id'', ''event_type'', ''quantity'', ''correlation_id'', ''expected_sequence'',
     ''missing_count'', ''symbol'', ''price'', ''exchange_timestamp'', ''received_timestamp'',
     ''latency_ms'', ''pct_change'', ''is_anomaly'', ''reason'', ''trace_id'', ''span_id'', ''recorded_at'']"

definition journal_values :: "payload \<Rightarrow> string option \<Rightarrow> string option \<Rightarrow> pyval \<Rightarrow> pyval list" where
  "journal_values e trace_id span_id now =
     map (dict_get PNone e) [''event_id'', ''sequence_number'', ''sequence_status'', ''transport'',
       ''source'', ''stream_id'', ''event_type'', ''quantity'', ''correlation_id'', ''expected_sequence'']
     @ [dict_get (PInt 0) e ''missing_count'']
     @ map (dict_get PNone e) [''symbol'', ''price'', ''exchange_timestamp'', ''received_timestamp'',
       ''latency_ms'', ''pct_change'', ''is_anomaly'', ''reason'']
     @ [opt_str trace_id, opt_str span_id, now]"

definition persist_realtime_event :: "engine \<Rightarrow> bool \<Rightarrow> string option \<Rightarrow> string option \<Rightarrow> payload \<Rightarrow> bool db" where
  "persist_realtime_event eng initialize_schema trace_id span_id event =
     (if missing_keys journal_required event \<noteq> []
      then fail_st (ValueError ''Real-time event is missing fields'')
      else bind_st (if initialize_schema then initialize_database eng else return_st ()) (\<lambda>_.
      bind_st (select eng ''realtime_event_journal'' [] ''event_id'' (dict_get PNone event ''event_id''))
        (\<lambda>before.
        if before \<noteq> [] then return_st False
        else bind_st (insert_now eng False ''realtime_event_journal'' journal_columns
               (journal_values event trace_id span_id)) (\<lambda>_. return_st True))))"

subsection \<open>Option runs\<close>

definition option_columns :: "string list" where
  "option_columns = [''underlying'', ''expiry'', ''strike'', ''option_type'', ''contract_symbol'',
     ''trade_date'', ''close'', ''bid'', ''ask'', ''volume'', ''open_interest'']"

definition option_result_columns :: "string list" where
  "option_result_columns = [''underlying'', ''expiry'', ''strike'', ''option_type'', ''contract_symbol'',
     ''trade_date'', ''source_a'', ''source_b'', ''source_a_close'', ''source_b_close'',
     ''close_difference'', ''status'', ''break_reason'']"

definition database_value :: "pyval \<Rightarrow> pyval" where
  "database_value v = (if isna v then PNone else v)"

record option_run =
  op_run_id :: string
  op_underlying :: string
  op_expiry :: string
  op_started_at :: string
  op_finished_at :: string
  op_status :: string
  op_yahoo :: frame
  op_alpaca :: frame
  op_reconciliation :: frame

definition option_staging_rows :: "string \<Rightarrow> string \<Rightarrow> frame \<Rightarrow> pyval list list result" where
  "option_staging_rows run_id source f =
     (if absent_columns f option_columns \<noteq> []
      then Inl (ValueError (source @ '' option data is missing columns''))
      else Inr (map (\<lambda>r. [PStr run_id, PStr source] @ map (\<lambda>c. database_value (cell f r c)) option_columns)
                 (fr_rows f)))"

definition option_result_rows :: "string \<Rightarrow> frame \<Rightarrow> pyval list list result" where
  "option_result_rows run_id f =
     (if absent_columns f option_result_columns \<noteq> []
      then Inl (ValueError ''Option reconciliation is missing columns'')
      else Inr (map (\<lambda>r. PStr run_id # map (\<lambda>c. database_value (cell f r c)) option_result_columns)
                 (fr_rows f)))"

definition option_values :: "option_run \<Rightarrow> pyval list" where
  "option_values q = [PStr (op_run_id q), PStr (py_upper (op_underlying q)), PStr (op_expiry q),
     PStr (op_started_at q), PStr (op_finished_at q), PStr (op_status q),
     PInt (int (length (fr_rows (op_yahoo q)))), PInt (int (length (fr_rows (op_alpaca q)))),
     PInt (count_status (op_reconciliation q) ''MATCH''), PInt (count_status (op_reconciliation q) ''BREAK'')]"

definition option_body :: "engine \<Rightarrow> option_run \<Rightarrow> pyval list list \<Rightarrow> pyval list list \<Rightarrow> bool db" where
  "option_body eng q staging results = bind_st
     (select eng ''option_runs'' [] ''run_id'' (PStr (op_run_id q))) (\<lambda>existing.
     if existing \<noteq> [] then return_st False
     else bind_st (insert_into eng ''option_runs'' (column_names option_runs) (option_values q)) (\<lambda>_.
          bind_st (insert_if_any eng ''option_contracts_staging'' (column_names option_contracts_staging)
                     staging) (\<lambda>_.
          bind_st (insert_if_any eng ''option_reconciliation_results''
                     (column_names option_reconciliation_results) results) (\<lambda>_.
          return_st True))))"

definition persist_option_run :: "engine \<Rightarrow> option_run \<Rightarrow> bool db" where
  "persist_option_run eng q =
     bind_st (lift_res (option_staging_rows (op_run_id q) ''YAHOO'' (op_yahoo q))) (\<lambda>y.
     bind_st (lift_res (option_staging_rows (op_run_id q) ''ALPACA'' (op_alpaca q))) (\<lambda>a.
     bind_st (lift_res (option_result_rows (op_run_id q) (op_reconciliation q))) (\<lambda>results.
     transaction eng (option_body eng q (y @ a) results))))"


subsection \<open>The run tables\<close>

lemma lift_res_bind: "bind_st (lift_res r) f s = (case r of Inl e \<Rightarrow> (Inl e, s) | Inr x \<Rightarrow> f x s)"
  by (simp add: bind_st_def lift_res_def split: sum.splits)

lemma insert_if_any_other:
  assumes "insert_if_any eng n cols rows s = (r, s')" and "n \<noteq> name"
  shows "keyed name k (st_tables s') = keyed name k (st_tables s) \<and>
    ids_of name k (st_tables s') = ids_of name k (st_tables s)"
  using assms insert_many_other by (auto simp: insert_if_any_def st_simps split: if_splits)

text \<open>The transaction both runs use: look the run up, insert its row, insert the dependent rows.\<close>

definition run_body :: "engine \<Rightarrow> string \<Rightarrow> string \<Rightarrow> string list \<Rightarrow> pyval list \<Rightarrow>
    (string \<times> string list \<times> pyval list list) list \<Rightarrow> bool db" where
  "run_body eng name run_id cols vals parts = bind_st (select eng name [] ''run_id'' (PStr run_id)) (\<lambda>existing.
     if existing \<noteq> [] then return_st False
     else bind_st (insert_into eng name cols vals) (\<lambda>_.
          bind_st (for_st (\<lambda>(n, cs, rows). insert_if_any eng n cs rows) parts) (\<lambda>_. return_st True)))"

lemma bind_st_assoc: "bind_st (bind_st m f) g = bind_st m (\<lambda>x. bind_st (f x) g)"
  by (auto simp: bind_st_def fun_eq_iff split: prod.splits sum.splits)

lemma bind_return_unit: "bind_st (return_st x) f = f x"
  by (simp add: bind_st_def return_st_def fun_eq_iff)

lemma equity_body_eq:
  "equity_body eng q bars results = run_body eng ''pipeline_runs'' (eq_run_id q) run_insert (run_values q)
     [(''equity_bars_staging'', staging_insert, bars),
      (''equity_reconciliation_results'', result_insert, results),
      (''equity_exceptions'', exception_insert, exception_rows (eq_exceptions q))]"
  by (simp add: equity_body_def run_body_def bind_st_assoc bind_return_unit cong del: if_weak_cong)

lemma option_body_eq:
  "option_body eng q staging results = run_body eng ''option_runs'' (op_run_id q) (column_names option_runs)
     (option_values q)
     [(''option_contracts_staging'', column_names option_contracts_staging, staging),
      (''option_reconciliation_results'', column_names option_reconciliation_results, results)]"
  by (simp add: option_body_def run_body_def bind_st_assoc bind_return_unit cong del: if_weak_cong)

lemma parts_other:
  assumes "for_st (\<lambda>(n, cs, rows). insert_if_any eng n cs rows) parts s = (r, s')"
    and "name \<notin> fst ` set parts"
  shows "keyed name k (st_tables s') = keyed name k (st_tables s) \<and>
    ids_of name k (st_tables s') = ids_of name k (st_tables s)"
  using assms
proof (induction parts arbitrary: s)
  case (Cons p parts)
  obtain n cs rows where p: "p = (n, cs, rows)" by (cases p)
  with Cons.prems(1) have "bind_st (insert_if_any eng n cs rows)
      (\<lambda>_. for_st (\<lambda>(n, cs, rows). insert_if_any eng n cs rows) parts) s = (r, s')" by simp
  then show ?case
  proof (cases rule: bind_st_cases)
    case (fail e)
    with insert_if_any_other [OF fail(1)] Cons.prems(2) p show ?thesis by auto
  next
    case (cont x s1)
    with insert_if_any_other [OF cont(1)] Cons.IH [OF cont(2)] Cons.prems(2) p show ?thesis by auto
  qed
qed (simp add: st_simps)

lemma select_keeps: "select eng n cs k v s = (Inr rows, s') \<Longrightarrow> st_tables s' = st_tables s"
  by (rule select_same)

lemma run_body_effect:
  assumes "run_body eng name run_id cols vals parts s = (Inr b, s')"
    and "keyed name ''run_id'' (st_tables s)" and "name \<notin> fst ` set parts"
    and "map_of (zip cols vals) ''run_id'' = Some (PStr run_id)"
  shows "keyed name ''run_id'' (st_tables s') \<and>
    (if b then PStr run_id \<notin> set (ids_of name ''run_id'' (st_tables s)) \<and>
        ids_of name ''run_id'' (st_tables s') = ids_of name ''run_id'' (st_tables s) @ [PStr run_id]
     else PStr run_id \<in> set (ids_of name ''run_id'' (st_tables s)) \<and> st_tables s' = st_tables s)"
proof -
  obtain rows s1 where 1: "select eng name [] ''run_id'' (PStr run_id) s = (Inr rows, s1)"
    and rest: "(if rows \<noteq> [] then return_st False
     else bind_st (insert_into eng name cols vals) (\<lambda>_.
          bind_st (for_st (\<lambda>(n, cs, rows). insert_if_any eng n cs rows) parts) (\<lambda>_. return_st True))) s1
     = (Inr b, s')"
    using assms(1) unfolding run_body_def by (rule bind_st_Inr_cases)
  note hit = select_hit [OF 1 assms(2)] and same = select_keeps [OF 1]
  show ?thesis
  proof (cases "rows = []")
    case False
    with rest hit same assms(2) show ?thesis by (simp add: st_simps)
  next
    case True
    with rest obtain u s2 v s3 where 2: "insert_into eng name cols vals s1 = (Inr u, s2)"
      and 3: "for_st (\<lambda>(n, cs, rows). insert_if_any eng n cs rows) parts s2 = (Inr v, s3)"
      and fin: "(Inr True, s3) = (Inr b, s')"
      by (auto elim!: bind_st_Inr_cases simp: st_simps)
    obtain now where i: "insert_row eng False now name cols vals (st_tables s1) = Inr ((), st_tables s2)"
      using insert_into_step [OF 2] by auto
    from insert_keyed [OF i, of "''run_id''" run_id] parts_other [OF 3 assms(3)] assms(2,4) same fin
    show ?thesis by auto
  qed
qed

lemma persist_run_effect:
  assumes "transaction eng (run_body eng name run_id cols vals parts) s = (r, s')"
    and "keyed name ''run_id'' (st_tables s)" and "name \<notin> fst ` set parts"
    and "map_of (zip cols vals) ''run_id'' = Some (PStr run_id)"
  shows "keyed name ''run_id'' (st_tables s') \<and>
    (case r of
       Inl e \<Rightarrow> st_tables s' = st_tables s
     | Inr True \<Rightarrow> PStr run_id \<notin> set (ids_of name ''run_id'' (st_tables s)) \<and>
        ids_of name ''run_id'' (st_tables s') = ids_of name ''run_id'' (st_tables s) @ [PStr run_id]
     | Inr False \<Rightarrow> PStr run_id \<in> set (ids_of name ''run_id'' (st_tables s)) \<and> st_tables s' = st_tables s)"
  using assms(1)
proof (cases rule: transaction_cases)
  case (rolled_back e)
  with assms(2) show ?thesis by simp
next
  case (committed b s1 s2)
  with run_body_effect [OF committed(2) _ assms(3,4)] assms(2) show ?thesis
    by (auto split: bool.splits)
qed

lemma persist_equity_effect:
  assumes "persist_equity_run eng q s = (r, s')" and "keyed ''pipeline_runs'' ''run_id'' (st_tables s)"
  shows "keyed ''pipeline_runs'' ''run_id'' (st_tables s') \<and>
    (case r of
       Inl e \<Rightarrow> st_tables s' = st_tables s
     | Inr True \<Rightarrow> PStr (eq_run_id q) \<notin> set (ids_of ''pipeline_runs'' ''run_id'' (st_tables s)) \<and>
        ids_of ''pipeline_runs'' ''run_id'' (st_tables s')
          = ids_of ''pipeline_runs'' ''run_id'' (st_tables s) @ [PStr (eq_run_id q)]
     | Inr False \<Rightarrow> PStr (eq_run_id q) \<in> set (ids_of ''pipeline_runs'' ''run_id'' (st_tables s))
         \<and> st_tables s' = st_tables s)"
proof -
  have k: "map_of (zip run_insert (run_values q)) ''run_id'' = Some (PStr (eq_run_id q))"
    by (simp add: run_insert_def run_values_def)
  show ?thesis
  proof (cases "(\<exists>e. r = Inl e) \<and> s' = s")
    case True
    with assms(2) show ?thesis by auto
  next
    case False
    then obtain bars results where
      "transaction eng (run_body eng ''pipeline_runs'' (eq_run_id q) run_insert (run_values q)
       [(''equity_bars_staging'', staging_insert, bars),
        (''equity_reconciliation_results'', result_insert, results),
        (''equity_exceptions'', exception_insert, exception_rows (eq_exceptions q))]) s = (r, s')"
      using assms(1) by (auto simp: persist_equity_run_def lift_res_bind equity_body_eq split: sum.splits)
    from persist_run_effect [OF this assms(2) _ k] show ?thesis by simp
  qed
qed

interpretation equity_runs: once_store "keyed ''pipeline_runs'' ''run_id''" "ids_of ''pipeline_runs'' ''run_id''"
  "\<lambda>q. PStr (eq_run_id q)" "persist_equity_run eng" for eng
  by unfold_locales (auto dest!: persist_equity_effect)

lemma persist_option_effect:
  assumes "persist_option_run eng q s = (r, s')" and "keyed ''option_runs'' ''run_id'' (st_tables s)"
  shows "keyed ''option_runs'' ''run_id'' (st_tables s') \<and>
    (case r of
       Inl e \<Rightarrow> st_tables s' = st_tables s
     | Inr True \<Rightarrow> PStr (op_run_id q) \<notin> set (ids_of ''option_runs'' ''run_id'' (st_tables s)) \<and>
        ids_of ''option_runs'' ''run_id'' (st_tables s')
          = ids_of ''option_runs'' ''run_id'' (st_tables s) @ [PStr (op_run_id q)]
     | Inr False \<Rightarrow> PStr (op_run_id q) \<in> set (ids_of ''option_runs'' ''run_id'' (st_tables s))
         \<and> st_tables s' = st_tables s)"
proof -
  have k: "map_of (zip (column_names option_runs) (option_values q)) ''run_id'' = Some (PStr (op_run_id q))"
    by (simp add: option_runs_def new_table_def column_names_def plain_def not_null_def option_values_def)
  show ?thesis
  proof (cases "(\<exists>e. r = Inl e) \<and> s' = s")
    case True
    with assms(2) show ?thesis by auto
  next
    case False
    then obtain staging results where
      "transaction eng (run_body eng ''option_runs'' (op_run_id q) (column_names option_runs) (option_values q)
       [(''option_contracts_staging'', column_names option_contracts_staging, staging),
        (''option_reconciliation_results'', column_names option_reconciliation_results, results)]) s = (r, s')"
      using assms(1) by (auto simp: persist_option_run_def lift_res_bind option_body_eq split: sum.splits)
    from persist_run_effect [OF this assms(2) _ k] show ?thesis by simp
  qed
qed

interpretation option_runs: once_store "keyed ''option_runs'' ''run_id''" "ids_of ''option_runs'' ''run_id''"
  "\<lambda>q. PStr (op_run_id q)" "persist_option_run eng" for eng
  by unfold_locales (auto dest!: persist_option_effect)


subsection \<open>The event journal\<close>

text \<open>An event with its identifier; the trace of the span it is recorded in comes with it.\<close>

record identified =
  id_event :: string
  id_rest :: payload
  id_trace :: "string option"
  id_span :: "string option"

definition persist_identified :: "engine \<Rightarrow> identified \<Rightarrow> bool db" where
  "persist_identified eng e = persist_realtime_event eng False (id_trace e) (id_span e)
     ((''event_id'', PStr (id_event e)) # id_rest e)"

lemma persist_event_effect:
  assumes "persist_identified eng e s = (r, s')" and "keyed ''realtime_event_journal'' ''event_id'' (st_tables s)"
  shows "keyed ''realtime_event_journal'' ''event_id'' (st_tables s') \<and>
    (case r of
       Inl x \<Rightarrow> st_tables s' = st_tables s
     | Inr True \<Rightarrow> PStr (id_event e) \<notin> set (ids_of ''realtime_event_journal'' ''event_id'' (st_tables s)) \<and>
        ids_of ''realtime_event_journal'' ''event_id'' (st_tables s')
          = ids_of ''realtime_event_journal'' ''event_id'' (st_tables s) @ [PStr (id_event e)]
     | Inr False \<Rightarrow> PStr (id_event e) \<in> set (ids_of ''realtime_event_journal'' ''event_id'' (st_tables s))
         \<and> st_tables s' = st_tables s)"
proof -
  let ?ev = "(''event_id'', PStr (id_event e)) # id_rest e"
  have k: "map_of (zip journal_columns (journal_values ?ev t p now)) ''event_id'' = Some (PStr (id_event e))"
    for t p now by (simp add: journal_columns_def journal_values_def dict_get_def)
  show ?thesis
  proof (cases "missing_keys journal_required ?ev = []")
    case False
    with assms show ?thesis
      by (auto simp: persist_identified_def persist_realtime_event_def st_simps)
  next
    case True
    with assms(1) have "bind_st (select eng ''realtime_event_journal'' [] ''event_id'' (PStr (id_event e)))
        (\<lambda>before. if before \<noteq> [] then return_st False
        else bind_st (insert_now eng False ''realtime_event_journal'' journal_columns
               (journal_values ?ev (id_trace e) (id_span e))) (\<lambda>_. return_st True)) s = (r, s')"
      by (simp add: persist_identified_def persist_realtime_event_def bind_return_unit dict_get_def)
    then show ?thesis
    proof (cases rule: bind_st_cases)
      case (fail x)
      with select_same [OF fail(1)] assms(2) show ?thesis by simp
    next
      case (cont rows s1)
      note hit = select_hit [OF cont(1) assms(2)] and same = select_keeps [OF cont(1)]
      show ?thesis
      proof (cases "rows = []")
        case False
        with cont(2) hit same assms(2) show ?thesis by (auto simp: st_simps)
      next
        case True
        obtain q s2 where i: "insert_into eng ''realtime_event_journal'' journal_columns
            (journal_values ?ev (id_trace e) (id_span e) (clock eng (st_steps s1))) s1 = (q, s2)"
          by fastforce
        from insert_into_step [OF i] show ?thesis
        proof
          assume "(\<exists>e. q = Inl e) \<and> st_tables s2 = st_tables s1"
          with cont(2) True i same assms(2) show ?thesis
            by (auto simp: bind_st_def insert_now_def)
        next
          assume "\<exists>now. q = Inr () \<and> insert_row eng False now ''realtime_event_journal'' journal_columns
            (journal_values ?ev (id_trace e) (id_span e) (clock eng (st_steps s1))) (st_tables s1)
            = Inr ((), st_tables s2)"
          then obtain now where q: "q = Inr ()" and ins: "insert_row eng False now ''realtime_event_journal''
            journal_columns (journal_values ?ev (id_trace e) (id_span e) (clock eng (st_steps s1)))
            (st_tables s1) = Inr ((), st_tables s2)" by blast
          from insert_keyed [OF ins _ k] assms(2) same cont(2) True i q hit show ?thesis
            by (auto simp: bind_st_def insert_now_def return_st_def)
        qed
      qed
    qed
  qed
qed

interpretation journal: once_store "keyed ''realtime_event_journal'' ''event_id''"
  "ids_of ''realtime_event_journal'' ''event_id''" "\<lambda>e. PStr (id_event e)" "persist_identified eng" for eng
  by unfold_locales (auto dest!: persist_event_effect)

text \<open>Persisting depends on an event only through its fields, so the contract of the journal holds for
  events with their identifier anywhere.\<close>

lemma persist_by_id:
  assumes "map_of e ''event_id'' = Some (PStr i)"
  shows "persist_realtime_event eng False t p e
    = persist_identified eng \<lparr>id_event = i, id_rest = e, id_trace = t, id_span = p\<rparr>"
proof -
  have m: "map_of ((''event_id'', PStr i) # e) = map_of e" using assms by (auto simp: fun_eq_iff)
  have g: "dict_get d ((''event_id'', PStr i) # e) = dict_get d e" for d :: pyval
    by (simp add: dict_get_def fun_eq_iff m del: map_of.simps)
  have "missing_keys r ((''event_id'', PStr i) # e) = missing_keys r e" for r
    by (simp add: missing_keys_def m del: map_of.simps)
  moreover have "journal_values ((''event_id'', PStr i) # e) = journal_values e"
    by (simp add: journal_values_def fun_eq_iff g)
  ultimately show ?thesis
    by (simp add: persist_identified_def persist_realtime_event_def g cong del: if_weak_cong)
qed

definition recorded :: "store \<Rightarrow> payload \<Rightarrow> bool" where
  "recorded s e \<longleftrightarrow> (\<exists>i. map_of e ''event_id'' = Some (PStr i) \<and>
     PStr i \<in> set (ids_of ''realtime_event_journal'' ''event_id'' (st_tables s)))"

lemma persist_records:
  assumes "persist_realtime_event eng False t p e s = (r, s')" and "map_of e ''event_id'' = Some (PStr i)"
    and "keyed ''realtime_event_journal'' ''event_id'' (st_tables s)"
  shows "keyed ''realtime_event_journal'' ''event_id'' (st_tables s') \<and>
    (r = Inr b \<longrightarrow> recorded s' e) \<and> (\<forall>e'. recorded s e' \<longrightarrow> recorded s' e')"
proof -
  let ?x = "\<lparr>id_event = i, id_rest = e, id_trace = t, id_span = p\<rparr>"
  have e: "persist_identified eng ?x s = (r, s')" using assms(1) persist_by_id [OF assms(2)] by simp
  from persist_event_effect [OF e assms(3)] assms(2) show ?thesis
    by (cases r) (auto simp: recorded_def split: bool.splits)
qed

subsection \<open>The rows a run adds\<close>

definition adds :: "tables \<Rightarrow> tables \<Rightarrow> string \<Rightarrow> row list \<Rightarrow> bool" where
  "adds ts ts' name news \<longleftrightarrow> rows_of ts' = (rows_of ts)(name := rows_of ts name @ news)"

lemma build_row_bare: "build_row eng now (tb\<lparr>tb_rows := rs\<rparr>) cols v = build_row eng now tb cols v"
proof -
  have "cast_cell eng (tb\<lparr>tb_rows := rs\<rparr>) = cast_cell eng tb"
    by (simp add: cast_cell_def fun_eq_iff split: option.split)
  then show ?thesis by (simp add: build_row_def column_names_def)
qed

text \<open>Rows stored for the values of an \<open>INSERT\<close>, one for each and in their order: what the engine makes of the
  values for the columns of the table.\<close>

definition stored_rows :: "engine \<Rightarrow> tables \<Rightarrow> string \<Rightarrow> string list \<Rightarrow> pyval list list \<Rightarrow> row list \<Rightarrow> bool" where
  "stored_rows eng ts name cols vals rows \<longleftrightarrow>
     list_all2 (\<lambda>v r. \<exists>now tb. schema_of ts name = Some tb \<and> build_row eng now tb cols v = Inr r) vals rows"

lemma stored_rows_length: "stored_rows eng ts name cols vals rows \<Longrightarrow> length rows = length vals"
  unfolding stored_rows_def by (simp add: list_all2_lengthD)

definition adds_stored :: "engine \<Rightarrow> tables \<Rightarrow> tables \<Rightarrow> string \<Rightarrow> string list \<Rightarrow> pyval list list \<Rightarrow> row list \<Rightarrow> bool" where
  "adds_stored eng ts ts' name cols vals news \<longleftrightarrow>
     adds ts ts' name news \<and> schema_of ts' = schema_of ts \<and> stored_rows eng ts name cols vals news"

lemma for_insert_stored:
  assumes "for_st (insert_into eng name cols) vals s = (Inr u, s')"
  shows "\<exists>news. adds_stored eng (st_tables s) (st_tables s') name cols vals news"
  using assms
proof (induction vals arbitrary: s)
  case Nil
  then show ?case by (simp add: st_simps adds_stored_def adds_def stored_rows_def)
next
  case (Cons v vals)
  obtain x s1 where 1: "insert_into eng name cols v s = (Inr x, s1)"
    and 2: "for_st (insert_into eng name cols) vals s1 = (Inr u, s')"
    using Cons.prems by (auto elim: bind_st_Inr_cases)
  obtain now where "insert_row eng False now name cols v (st_tables s) = Inr ((), st_tables s1)"
    using insert_into_step [OF 1] by auto
  from insert_row_effect [OF this] obtain tb r where tb: "map_of (st_tables s) name = Some tb" "build_row eng now tb cols v = Inr r"
    and r: "rows_of (st_tables s1) = (rows_of (st_tables s))(name := rows_of (st_tables s) name @ [r])"
    and same: "schema_of (st_tables s1) = schema_of (st_tables s)" by blast
  from Cons.IH [OF 2] obtain news where n: "adds_stored eng (st_tables s1) (st_tables s') name cols vals news" by blast
  have "\<exists>now tb. schema_of (st_tables s) name = Some tb \<and> build_row eng now tb cols v = Inr r"
    using tb by (auto simp: schema_of_def build_row_bare)
  with n r same have "adds_stored eng (st_tables s) (st_tables s') name cols (v # vals) (r # news)"
    by (simp add: adds_stored_def adds_def stored_rows_def)
  then show ?case by blast
qed

lemma insert_many_stored:
  "insert_many eng name cols vals s = (Inr u, s') \<Longrightarrow>
   \<exists>news. adds_stored eng (st_tables s) (st_tables s') name cols vals news"
  using for_insert_stored by (auto simp: insert_many_def st_simps split: if_splits)

lemma insert_one_stored:
  assumes "insert_into eng name cols v s = (Inr u, s')"
  shows "\<exists>r. adds_stored eng (st_tables s) (st_tables s') name cols [v] [r]"
proof -
  have "insert_many eng name cols [v] s = (Inr (), s')"
    using assms by (simp add: insert_many_def bind_st_def return_st_def)
  from insert_many_stored [OF this] obtain news where n: "adds_stored eng (st_tables s) (st_tables s') name cols [v] news" by blast
  then have "length news = 1" by (auto simp: adds_stored_def dest: stored_rows_length)
  then obtain r where "news = [r]" by (auto simp: length_Suc_conv)
  with n show ?thesis by blast
qed

lemma insert_if_any_stored:
  "insert_if_any eng name cols vals s = (Inr u, s') \<Longrightarrow>
   \<exists>news. adds_stored eng (st_tables s) (st_tables s') name cols vals news"
  using insert_many_stored by (auto simp: insert_if_any_def st_simps adds_stored_def adds_def stored_rows_def split: if_splits)

lemma reconciliation_rows_length:
  assumes "reconciliation_rows f run_id = Inr rs"
  shows "length rs = 2 * length (fr_rows f)"
proof -
  obtain rss where m: "map_res (reconciliation_row f run_id) (fr_rows f) = Inr rss" and rs: "rs = concat rss"
    using assms by (auto simp: reconciliation_rows_def res_simps)
  have "\<forall>x\<in>set rss. length x = 2"
  proof
    fix x assume "x \<in> set rss"
    then obtain r where "reconciliation_row f run_id r = Inr x" using map_res_set [OF m] by blast
    then show "length x = 2" by (auto simp: reconciliation_row_def res_simps Let_def split: if_splits)
  qed
  then have "length (concat rss) = 2 * length rss" by (induction rss) auto
  with map_res_length [OF m] rs show ?thesis by simp
qed

lemma run_bar_rows_length:
  assumes "run_bar_rows q = Inr bars"
  shows "length bars = length (fr_rows (eq_yahoo q)) + length (fr_rows (eq_alpaca q))
    + (case eq_massive q of None \<Rightarrow> 0 | Some m \<Rightarrow> length (fr_rows m))"
  using assms
  by (auto simp: run_bar_rows_def equity_bar_rows_def res_simps dest!: select_columns_rows split: option.splits)

subsection \<open>Example values\<close>

definition fresh_store :: store where
  "fresh_store = snd (initialize_database plain_engine \<lparr>st_tables = [], st_steps = 0\<rparr>)"

definition one_bar :: "pyfloat \<Rightarrow> frame" where
  "one_bar c = \<lparr>fr_columns = bar_columns, fr_numeric = drop 2 bar_columns,
     fr_rows = [[PStr ''AAPL'', PDate 9, PFloat c, PFloat c, PFloat c, PFloat c, PInt 5]]\<rparr>"

definition one_result :: frame where
  "one_result = \<lparr>fr_columns = [''symbol'', ''trade_date'', ''yahoo_close'', ''alpaca_close'',
       ''close_difference'', ''yahoo_volume'', ''alpaca_volume'', ''volume_difference'', ''status''],
     fr_numeric = [],
     fr_rows = [[PStr ''AAPL'', PDate 9, PFloat (Fin 1), PFloat (Fin 1), PFloat (Fin 0), PInt 5, PInt 5,
       PInt 0, PStr ''MATCH'']]\<rparr>"

definition sample_run :: equity_run where
  "sample_run = \<lparr>eq_run_id = ''r1'', eq_started_at = ''t0'', eq_finished_at = ''t1'',
     eq_status = ''SUCCESS'', eq_yahoo = one_bar (Fin 1), eq_alpaca = one_bar (Fin 1), eq_massive = None,
     eq_reconciliation = one_result, eq_exceptions = \<lparr>fr_columns = [], fr_numeric = [], fr_rows = []\<rparr>,
     eq_trace = None, eq_root_span = None\<rparr>"

definition stored_once :: store where
  "stored_once = snd (persist_equity_run plain_engine sample_run fresh_store)"

lemma fresh_keyed:
  "keyed ''pipeline_runs'' ''run_id'' (st_tables fresh_store)"
  "keyed ''realtime_event_journal'' ''event_id'' (st_tables fresh_store)"
  "ids_of ''pipeline_runs'' ''run_id'' (st_tables fresh_store) = []"
  "ids_of ''realtime_event_journal'' ''event_id'' (st_tables fresh_store) = []"
  by code_simp+

lemma first_run: "persist_equity_run plain_engine sample_run fresh_store = (Inr True, stored_once)"
proof -
  have "fst (persist_equity_run plain_engine sample_run fresh_store) = Inr True" by code_simp
  then show ?thesis by (simp add: stored_once_def prod_eq_iff)
qed

subsection \<open>Properties\<close>

text \<open>C3 (persist_equity_run_once): replaying runs. Whatever runs are persisted, in whatever order and
  with whatever failures of the engine, each run identifier is stored at most once and in the
  order of the calls that returned \<open>True\<close>.\<close>

theorem persist_equity_run_once:
  assumes "keyed ''pipeline_runs'' ''run_id'' (st_tables s)"
    and "distinct (ids_of ''pipeline_runs'' ''run_id'' (st_tables s))"
    and "persist_each (persist_equity_run eng) qs s = (rs, s')"
  shows "distinct (ids_of ''pipeline_runs'' ''run_id'' (st_tables s'))
    \<and> ids_of ''pipeline_runs'' ''run_id'' (st_tables s')
      = ids_of ''pipeline_runs'' ''run_id'' (st_tables s) @ accepted (\<lambda>q. PStr (eq_run_id q)) qs rs"
  using equity_runs.persist_each_ids [OF assms(1,3)] assms(2) by blast

lemma persist_equity_run_once_witness:
  "\<exists>rs s'. persist_each (persist_equity_run plain_engine) [sample_run, sample_run] fresh_store = (rs, s') \<and>
     distinct (ids_of ''pipeline_runs'' ''run_id'' (st_tables s'))"
proof -
  obtain rs s' where p: "persist_each (persist_equity_run plain_engine) [sample_run, sample_run] fresh_store = (rs, s')"
    by fastforce
  from persist_equity_run_once [OF fresh_keyed(1) _ p] fresh_keyed(3) p show ?thesis by auto
qed

text \<open>C12 (persist_equity_run_atomic): a call of \<open>persist_equity_run\<close> that raises or returns \<open>False\<close>
  leaves every table as it was; after one that returned \<open>True\<close>, with any number of other runs in
  between, a second call for the same run changes nothing.\<close>

theorem persist_equity_run_atomic:
  assumes "keyed ''pipeline_runs'' ''run_id'' (st_tables s)" and "persist_equity_run eng q s = (r, s1)"
  shows "(r \<noteq> Inr True \<longrightarrow> st_tables s1 = st_tables s) \<and>
    (r = Inr True \<longrightarrow> persist_each (persist_equity_run eng) qs s1 = (rs, s2) \<longrightarrow> eq_run_id q' = eq_run_id q \<longrightarrow>
      fst (persist_equity_run eng q' s2) \<noteq> Inr True \<and>
      st_tables (snd (persist_equity_run eng q' s2)) = st_tables s2)"
proof (intro conjI impI)
  assume "r \<noteq> Inr True"
  with persist_equity_effect [OF assms(2,1)] show "st_tables s1 = st_tables s"
    by (auto split: sum.splits bool.splits)
next
  assume "r = Inr True" "persist_each (persist_equity_run eng) qs s1 = (rs, s2)" "eq_run_id q' = eq_run_id q"
  with equity_runs.replay [OF assms(1), of eng q s1 qs rs s2 q'] assms(2)
  show "fst (persist_equity_run eng q' s2) \<noteq> Inr True"
    "st_tables (snd (persist_equity_run eng q' s2)) = st_tables s2"
    by (metis prod.collapse)+
qed

lemma persist_equity_run_atomic_witness:
  "fst (persist_equity_run plain_engine sample_run stored_once) \<noteq> Inr True \<and>
   st_tables (snd (persist_equity_run plain_engine sample_run stored_once)) = st_tables stored_once"
  using persist_equity_run_atomic [OF fresh_keyed(1) first_run, of "[]" "[]" stored_once sample_run] by simp

text \<open>The journal. Replaying events in any order, each event identifier is
  recorded at most once, and a recorded event is never recorded again.\<close>

theorem persist_event_once:
  assumes "keyed ''realtime_event_journal'' ''event_id'' (st_tables s)"
    and "persist_each (persist_identified eng) es s = (rs, s')"
  shows "ids_of ''realtime_event_journal'' ''event_id'' (st_tables s')
      = ids_of ''realtime_event_journal'' ''event_id'' (st_tables s) @ accepted (\<lambda>e. PStr (id_event e)) es rs
    \<and> (distinct (ids_of ''realtime_event_journal'' ''event_id'' (st_tables s)) \<longrightarrow>
       distinct (ids_of ''realtime_event_journal'' ''event_id'' (st_tables s')))"
  using journal.persist_each_ids [OF assms] by blast


definition sample_identified :: identified where
  "sample_identified = \<lparr>id_event = ''e1'', id_rest = map (\<lambda>k. (k, PInt 1)) (tl journal_required),
     id_trace = None, id_span = None\<rparr>"

lemma persist_event_once_witness:
  "\<exists>rs s'. persist_each (persist_identified plain_engine) [sample_identified, sample_identified] fresh_store = (rs, s') \<and>
     distinct (ids_of ''realtime_event_journal'' ''event_id'' (st_tables s')) \<and> rs = [Inr True, Inr False]"
proof -
  obtain rs s' where p: "persist_each (persist_identified plain_engine) [sample_identified, sample_identified] fresh_store = (rs, s')"
    by fastforce
  have "fst (persist_each (persist_identified plain_engine) [sample_identified, sample_identified] fresh_store)
    = [Inr True, Inr False]" by code_simp
  with persist_event_once [OF fresh_keyed(2) p] fresh_keyed(4) p show ?thesis by auto
qed

text \<open>A call that returned \<open>True\<close> added its run row, the bars of every provider, the rows of the comparison and the
  exceptions, in this order after the rows that were there, and touched no other table.\<close>

lemma persist_rows_added:
  assumes "persist_equity_run eng q s = (Inr True, s')"
  shows "\<exists>bars results run staged outcomes exceptions.
    run_bar_rows q = Inr bars \<and> reconciliation_rows (eq_reconciliation q) (eq_run_id q) = Inr results \<and>
    rows_of (st_tables s') = (rows_of (st_tables s))
      (''pipeline_runs'' := rows_of (st_tables s) ''pipeline_runs'' @ [run],
       ''equity_bars_staging'' := rows_of (st_tables s) ''equity_bars_staging'' @ staged,
       ''equity_reconciliation_results'' := rows_of (st_tables s) ''equity_reconciliation_results'' @ outcomes,
       ''equity_exceptions'' := rows_of (st_tables s) ''equity_exceptions'' @ exceptions) \<and>
    stored_rows eng (st_tables s) ''pipeline_runs'' run_insert [run_values q] [run] \<and>
    stored_rows eng (st_tables s) ''equity_bars_staging'' staging_insert bars staged \<and>
    stored_rows eng (st_tables s) ''equity_reconciliation_results'' result_insert results outcomes \<and>
    stored_rows eng (st_tables s) ''equity_exceptions'' exception_insert (exception_rows (eq_exceptions q)) exceptions"
proof -
  obtain bars results where b: "run_bar_rows q = Inr bars"
    "reconciliation_rows (eq_reconciliation q) (eq_run_id q) = Inr results"
    and t: "transaction eng (equity_body eng q bars results) s = (Inr True, s')"
    using assms by (auto simp: persist_equity_run_def lift_res_bind split: sum.splits)
  from t obtain s1 s2 where s: "st_tables s1 = st_tables s" "st_tables s' = st_tables s2"
    and body: "equity_body eng q bars results s1 = (Inr True, s2)"
    by (cases rule: transaction_cases) auto
  obtain rows a1 where sel: "select eng ''pipeline_runs'' [] ''run_id'' (PStr (eq_run_id q)) s1 = (Inr rows, a1)"
    and rest: "(if rows \<noteq> [] then return_st False
     else bind_st (insert_into eng ''pipeline_runs'' run_insert (run_values q)) (\<lambda>_.
          bind_st (insert_if_any eng ''equity_bars_staging'' staging_insert bars) (\<lambda>_.
          bind_st (insert_if_any eng ''equity_reconciliation_results'' result_insert results) (\<lambda>_.
          bind_st (insert_if_any eng ''equity_exceptions'' exception_insert
                     (exception_rows (eq_exceptions q))) (\<lambda>_.
          return_st True))))) a1 = (Inr True, s2)"
    using body unfolding equity_body_def by (rule bind_st_Inr_cases)
  from rest obtain u2 a2 u3 a3 u4 a4 u5 a5 where
    i: "insert_into eng ''pipeline_runs'' run_insert (run_values q) a1 = (Inr u2, a2)"
      "insert_if_any eng ''equity_bars_staging'' staging_insert bars a2 = (Inr u3, a3)"
      "insert_if_any eng ''equity_reconciliation_results'' result_insert results a3 = (Inr u4, a4)"
      "insert_if_any eng ''equity_exceptions'' exception_insert (exception_rows (eq_exceptions q)) a4 = (Inr u5, a5)"
    and fin: "a5 = s2"
    by (auto simp: st_simps elim!: bind_st_Inr_cases split: if_splits)
  have s1: "st_tables a1 = st_tables s" using select_keeps [OF sel] s(1) by simp
  from insert_one_stored [OF i(1)] obtain run where
    1: "adds_stored eng (st_tables a1) (st_tables a2) ''pipeline_runs'' run_insert [run_values q] [run]" by blast
  from insert_if_any_stored [OF i(2)] obtain n2 where
    2: "adds_stored eng (st_tables a2) (st_tables a3) ''equity_bars_staging'' staging_insert bars n2" by blast
  from insert_if_any_stored [OF i(3)] obtain n3 where
    3: "adds_stored eng (st_tables a3) (st_tables a4) ''equity_reconciliation_results'' result_insert results n3" by blast
  from insert_if_any_stored [OF i(4)] obtain n4 where
    4: "adds_stored eng (st_tables a4) (st_tables a5) ''equity_exceptions'' exception_insert (exception_rows (eq_exceptions q)) n4"
    by blast
  note all = 1 [unfolded adds_stored_def] 2 [unfolded adds_stored_def] 3 [unfolded adds_stored_def] 4 [unfolded adds_stored_def]
  have "rows_of (st_tables s') = (rows_of (st_tables s))
      (''pipeline_runs'' := rows_of (st_tables s) ''pipeline_runs'' @ [run],
       ''equity_bars_staging'' := rows_of (st_tables s) ''equity_bars_staging'' @ n2,
       ''equity_reconciliation_results'' := rows_of (st_tables s) ''equity_reconciliation_results'' @ n3,
       ''equity_exceptions'' := rows_of (st_tables s) ''equity_exceptions'' @ n4)"
    using all s(2) fin s1 by (simp add: adds_def)
  moreover have "stored_rows eng (st_tables s) ''pipeline_runs'' run_insert [run_values q] [run]"
    "stored_rows eng (st_tables s) ''equity_bars_staging'' staging_insert bars n2"
    "stored_rows eng (st_tables s) ''equity_reconciliation_results'' result_insert results n3"
    "stored_rows eng (st_tables s) ''equity_exceptions'' exception_insert (exception_rows (eq_exceptions q)) n4"
    using all s1 by (simp_all add: stored_rows_def)
  ultimately show ?thesis using b by blast
qed

end
