(* ===== verification/Work_Manifest.thy ===== *)
theory Work_Manifest
  imports Persistence
begin

section \<open>The manifest of work partitions as a state machine\<close>

text \<open>
  \<open>register_work_partitions\<close>, \<open>mark_partition_running\<close> and \<open>finish_work_partition\<close> as steps on the
  table \<open>work_partitions\<close>.  The lemmas describe what an update does to each row; the properties
  follow a partition over any run of the steps, with failing statements included.
\<close>

subsection \<open>Updates row by row\<close>

lemma map_res_list_all2: "map_res f xs = Inr ys \<Longrightarrow> list_all2 (\<lambda>x y. f x = Inr y) xs ys"
  using map_res_length [of f xs ys] map_res_nth [of f xs ys]
  by (simp add: list_all2_conv_all_nth)

lemma list_all2_in: "list_all2 P xs ys \<Longrightarrow> y \<in> set ys \<Longrightarrow> \<exists>x\<in>set xs. P x y"
  by (induction rule: list_all2_induct) auto

lemma list_all2_map:
  "list_all2 P xs ys \<Longrightarrow> (\<And>x y. x \<in> set xs \<Longrightarrow> P x y \<Longrightarrow> f y = g x) \<Longrightarrow> map f ys = map g xs"
  by (induction rule: list_all2_induct) auto

lemma update_rows_effect:
  assumes "update_rows eng name cond upd ts = Inr (u, ts')"
  shows "\<exists>tb rows. map_of ts name = Some tb \<and> ts' = AList.update name (tb\<lparr>tb_rows := rows\<rparr>) ts \<and>
    list_all2 (\<lambda>r r'. if cond (\<lambda>c. field tb c r) then set_cells eng tb (upd (\<lambda>c. field tb c r)) r = Inr r'
                       else r' = r) (tb_rows tb) rows"
proof -
  obtain tb where tb: "map_of ts name = Some tb"
    using assms by (auto simp: update_rows_def split: option.splits)
  then obtain rows where m: "map_res (\<lambda>r. let get = (\<lambda>c. field tb c r) in
      if cond get then set_cells eng tb (upd get) r else Inr r) (tb_rows tb) = Inr rows"
    and ts': "ts' = AList.update name (tb\<lparr>tb_rows := rows\<rparr>) ts"
    using assms by (auto simp: update_rows_def res_simps)
  have "list_all2 (\<lambda>r r'. if cond (\<lambda>c. field tb c r) then set_cells eng tb (upd (\<lambda>c. field tb c r)) r = Inr r'
      else r' = r) (tb_rows tb) rows"
    by (rule list_all2_mono [OF map_res_list_all2 [OF m]]) (auto simp: Let_def split: if_splits)
  with tb ts' show ?thesis by blast
qed

lemma set_cells_nth:
  assumes "set_cells eng tb upd r = Inr r'" and "length r = length (tb_columns tb)"
  shows "length r' = length r \<and> (\<forall>i<length r.
    (case map_of upd (col_name (tb_columns tb ! i)) of None \<Rightarrow> r' ! i = r ! i
     | Some v \<Rightarrow> cast_cell eng tb (tb_columns tb ! i) v = Inr (r' ! i)))"
proof -
  have m: "map_res (\<lambda>(c, v). case map_of upd (col_name c) of None \<Rightarrow> Inr v | Some v' \<Rightarrow> cast_cell eng tb c v')
      (zip (tb_columns tb) r) = Inr r'" using assms(1) by (simp add: set_cells_def)
  have len: "length r' = length r" using map_res_length [OF m] assms(2) by simp
  have "case map_of upd (col_name (tb_columns tb ! i)) of None \<Rightarrow> r' ! i = r ! i
     | Some v \<Rightarrow> cast_cell eng tb (tb_columns tb ! i) v = Inr (r' ! i)" if "i < length r" for i
    using map_res_nth [OF m, of i] that assms(2) by (simp split: option.splits)
  with len show ?thesis by blast
qed

lemma set_cells_field:
  assumes "set_cells eng tb upd r = Inr r'" and "row_ok tb r" and "distinct (column_names tb)"
    and "c \<in> set (tb_columns tb)"
  shows "(case map_of upd (col_name c) of None \<Rightarrow> field tb (col_name c) r' = field tb (col_name c) r
    | Some v \<Rightarrow> cast_cell eng tb c v = Inr (field tb (col_name c) r'))"
proof -
  have len: "length r = length (tb_columns tb)" using assms(2) by (simp add: row_ok_def)
  obtain i where i: "i < length (tb_columns tb)" "c = tb_columns tb ! i"
    using assms(4) by (metis in_set_conv_nth)
  note n = set_cells_nth [OF assms(1) len]
  have f: "field tb (col_name c) r' = r' ! i" "field tb (col_name c) r = r ! i"
    using field_nth [OF assms(3)] n i len by simp_all
  have "case map_of upd (col_name (tb_columns tb ! i)) of None \<Rightarrow> r' ! i = r ! i
    | Some v \<Rightarrow> cast_cell eng tb (tb_columns tb ! i) v = Inr (r' ! i)"
    using n i(1) len by simp
  then show ?thesis unfolding f i(2) [symmetric] .
qed

lemma set_cells_row_ok:
  assumes "set_cells eng tb upd r = Inr r'" and "row_ok tb r"
  shows "row_ok tb r'"
proof -
  have len: "length r = length (tb_columns tb)" using assms(2) by (simp add: row_ok_def)
  note n = set_cells_nth [OF assms(1) len]
  have "v \<noteq> PNone" if cv: "(c, v) \<in> set (zip (tb_columns tb) r')" "required tb c" for c v
  proof -
    obtain i where i: "i < length (tb_columns tb)" "c = tb_columns tb ! i" "v = r' ! i"
      using cv(1) by (auto simp: set_zip)
    have "(tb_columns tb ! i, r ! i) \<in> set (zip (tb_columns tb) r)"
      using i len by (auto simp: set_zip)
    then have "r ! i \<noteq> PNone" using assms(2) cv(2) i(2) by (auto simp: row_ok_def)
    moreover have "case map_of upd (col_name (tb_columns tb ! i)) of None \<Rightarrow> r' ! i = r ! i
      | Some v \<Rightarrow> cast_cell eng tb (tb_columns tb ! i) v = Inr (r' ! i)"
      using n i len by simp
    ultimately show ?thesis
      using i cv(2) by (auto split: option.splits dest: cast_cell_required)
  qed
  with n len show ?thesis by (auto simp: row_ok_def)
qed

text \<open>An update that assigns no key column keeps the keys, whatever it does.\<close>

lemma update_keeps:
  assumes "update_rows eng name cond upd ts = Inr (u, ts')" and "tables_ok ts"
    and "map_of ts name = Some tb" and "set ks \<subseteq> set (column_names tb)"
    and "\<And>get. set (map fst (upd get)) \<inter> set ks = {}"
  shows "map (cells tb ks) (rows_of ts' name) = map (cells tb ks) (rows_of ts name)"
proof -
  obtain rows where r: "ts' = AList.update name (tb\<lparr>tb_rows := rows\<rparr>) ts"
    "list_all2 (\<lambda>r r'. if cond (\<lambda>c. field tb c r) then set_cells eng tb (upd (\<lambda>c. field tb c r)) r = Inr r'
       else r' = r) (tb_rows tb) rows"
    using update_rows_effect [OF assms(1)] assms(3) by auto
  have ok: "table_ok tb" using tables_ok_lookup [OF assms(2,3)] .
  have same: "cells tb ks r' = cells tb ks r"
    if sc: "set_cells eng tb (upd g) r = Inr r'" and r_in: "r \<in> set (tb_rows tb)" for r r' g
  proof -
    have "field tb k r' = field tb k r" if k: "k \<in> set ks" for k
    proof -
      obtain c where c: "c \<in> set (tb_columns tb)" "col_name c = k"
        using assms(4) k by (auto simp: column_names_def)
      have "map_of (upd g) k = None" using assms(5) [of g] k by (auto simp: map_of_eq_None_iff)
      with set_cells_field [OF sc _ _ c(1)] ok r_in c(2) show ?thesis
        by (auto simp: table_ok_def)
    qed
    then show ?thesis by (simp add: cells_def)
  qed
  have "map (cells tb ks) rows = map (cells tb ks) (tb_rows tb)"
    using r(2) by (rule list_all2_map) (auto dest: same split: if_splits)
  with r(1) assms(3) show ?thesis by (simp add: rows_of_def update_conv)
qed

lemma update_tables_ok:
  assumes "update_rows eng name cond upd ts = Inr (u, ts')" and "tables_ok ts"
    and "\<And>tb get. map_of ts name = Some tb \<Longrightarrow> set (map fst (upd get)) \<inter> set (tb_primary tb) = {} \<and>
      set (tb_primary tb) \<subseteq> set (column_names tb)"
  shows "tables_ok ts'"
proof -
  obtain tb rows where r: "map_of ts name = Some tb" "ts' = AList.update name (tb\<lparr>tb_rows := rows\<rparr>) ts"
    "list_all2 (\<lambda>r r'. if cond (\<lambda>c. field tb c r) then set_cells eng tb (upd (\<lambda>c. field tb c r)) r = Inr r'
       else r' = r) (tb_rows tb) rows"
    using update_rows_effect [OF assms(1)] by blast
  have ok: "table_ok tb" using tables_ok_lookup [OF assms(2) r(1)] .
  have "\<forall>r'\<in>set rows. row_ok tb r'"
  proof
    fix r' assume "r' \<in> set rows"
    then obtain r where "r \<in> set (tb_rows tb)"
      "if cond (\<lambda>c. field tb c r) then set_cells eng tb (upd (\<lambda>c. field tb c r)) r = Inr r' else r' = r"
      using list_all2_in [OF r(3)] by blast
    then show "row_ok tb r'"
      using ok set_cells_row_ok by (auto simp: table_ok_def split: if_splits)
  qed
  moreover have "map (cells tb (tb_primary tb)) rows = map (cells tb (tb_primary tb)) (tb_rows tb)"
    using update_keeps [OF assms(1,2) r(1), of "tb_primary tb"] assms(3) [OF r(1)] r(1,2)
    by (simp add: rows_of_def update_conv)
  ultimately have "table_ok (tb\<lparr>tb_rows := rows\<rparr>)"
    using ok by (simp add: table_ok_def primary_keys_def)
  with tables_ok_update [OF assms(2)] r(2) show ?thesis by simp
qed


subsection \<open>Steps and reachable manifests\<close>

definition manifest_table :: "tables \<Rightarrow> bool" where
  "manifest_table ts \<longleftrightarrow> schema_of ts ''work_partitions'' = Some (bare work_partitions)"

inductive manifest_step :: "engine \<Rightarrow> runtime \<Rightarrow> store \<Rightarrow> store \<Rightarrow> bool" for eng rt where
  register: "register_work_partitions eng rt ps s = (r, s') \<Longrightarrow> manifest_step eng rt s s'"
| running: "mark_partition_running eng pid s = (r, s') \<Longrightarrow> manifest_step eng rt s s'"
| finished: "finish_work_partition eng rt pid st n err s = (r, s') \<Longrightarrow> manifest_step eng rt s s'"

inductive_cases manifest_stepE: "manifest_step eng rt s s'"

definition manifest_columns :: "string list" where
  "manifest_columns = [''partition_id'', ''run_id'', ''control_date'', ''instrument_type'',
     ''symbol_bucket'', ''provider'', ''symbols_json'']"

definition manifest_keys :: "tables \<Rightarrow> pyval list list" where
  "manifest_keys ts = map (cells work_partitions manifest_columns) (rows_of ts ''work_partitions'')"

lemma cells_schema:
  "tb_columns tb = tb_columns tb' \<Longrightarrow> cells tb = cells tb'"
  by (simp add: fun_eq_iff cells_def field_def row_view_def column_names_def)

lemma manifest_lookup:
  assumes "manifest_table ts"
  obtains tb where "map_of ts ''work_partitions'' = Some tb" "tb_columns tb = tb_columns work_partitions"
    "tb_primary tb = [''partition_id'']" "cells tb = cells work_partitions"
    "column_names tb = column_names work_partitions"
proof -
  obtain tb where tb: "map_of ts ''work_partitions'' = Some tb" "bare tb = bare work_partitions"
    using assms by (auto simp: manifest_table_def schema_of_eq)
  then have c: "tb_columns tb = tb_columns work_partitions" "tb_primary tb = tb_primary work_partitions"
    by (metis bare_simps(1), metis bare_simps(2))
  have "tb_primary work_partitions = [''partition_id'']"
    by (simp add: work_partitions_def new_table_def)
  with c(2) have pk: "tb_primary tb = [''partition_id'']" by (simp only:)
  have "column_names tb = column_names work_partitions" by (simp only: column_names_def c(1))
  from that [OF tb(1) c(1) pk cells_schema [OF c(1)] this] show ?thesis .
qed

lemma manifest_names: "column_names work_partitions = [''partition_id'', ''run_id'', ''control_date'',
    ''instrument_type'', ''symbol_bucket'', ''provider'', ''symbols_json'', ''status'', ''attempts'',
    ''started_at'', ''finished_at'', ''error_type'', ''error_message'', ''row_count'']"
  by (simp add: work_partitions_def new_table_def column_names_def plain_def not_null_def)

text \<open>What one statement of a step may do: leave the tables, append one row, or rewrite cells that are
  not part of the identity of a partition.\<close>

lemma update_manifest:
  assumes "update_table eng ''work_partitions'' cond upd s = (r, s')" and "tables_ok (st_tables s)"
    and "manifest_table (st_tables s)"
    and "\<And>now get. set (map fst (upd now get)) \<inter> set manifest_columns = {}"
  shows "tables_ok (st_tables s') \<and> manifest_table (st_tables s') \<and>
    manifest_keys (st_tables s') = manifest_keys (st_tables s)"
  using assms(1) unfolding update_table_def
proof (cases rule: statement_cases)
  case (effect x ts)
  obtain tb where tb: "map_of (st_tables s) ''work_partitions'' = Some tb"
    "tb_primary tb = [''partition_id'']" "cells tb = cells work_partitions"
    "column_names tb = column_names work_partitions"
    using manifest_lookup [OF assms(3)] by metis
  have "tables_ok ts"
    using update_tables_ok [OF effect(1) assms(2)] assms(4) tb
    by (fastforce simp: manifest_columns_def manifest_names)
  moreover have "manifest_keys ts = manifest_keys (st_tables s)"
    using update_keeps [OF effect(1) assms(2) tb(1) _ assms(4)] tb(3,4)
    by (simp add: manifest_keys_def manifest_names manifest_columns_def)
  moreover have "schema_of ts = schema_of (st_tables s)"
    using update_rows_effect [OF effect(1)] by (auto simp: fun_eq_iff schema_of_eq update_conv)
  ultimately show ?thesis using effect(3) assms(3) by (simp add: manifest_table_def)
qed (use assms in simp_all)

lemma mark_manifest:
  assumes "mark_partition_running eng pid s = (r, s')" and "tables_ok (st_tables s)"
    and "manifest_table (st_tables s)"
  shows "tables_ok (st_tables s') \<and> manifest_table (st_tables s') \<and>
    manifest_keys (st_tables s') = manifest_keys (st_tables s)"
  using assms(1) unfolding mark_partition_running_def
  by (rule update_manifest [OF _ assms(2,3)]) (simp add: manifest_columns_def)

lemma finish_manifest:
  assumes "finish_work_partition eng rt pid st n err s = (r, s')" and "tables_ok (st_tables s)"
    and "manifest_table (st_tables s)"
  shows "tables_ok (st_tables s') \<and> manifest_table (st_tables s') \<and>
    manifest_keys (st_tables s') = manifest_keys (st_tables s)"
proof (cases "st \<notin> {''SUCCESS'', ''FAILED''}")
  case True
  with assms show ?thesis by (simp add: finish_work_partition_def st_simps)
next
  case False
  from assms(1) have "update_table eng ''work_partitions'' (\<lambda>get. get ''partition_id'' = PStr pid)
        (\<lambda>now get. [(''status'', PStr st), (''finished_at'', now), (''row_count'', PInt n),
           (''error_type'', opt_str (map_option exn_name err)),
           (''error_message'', opt_str (map_option (\<lambda>e. take 1000 (str_exn rt e)) err))]) s = (r, s')"
    unfolding finish_work_partition_def if_not_P [OF False] .
  then show ?thesis
    by (rule update_manifest [OF _ assms(2,3)]) (simp add: manifest_columns_def)
qed

lemma insert_ignore_manifest:
  assumes "insert_ignore eng ''work_partitions'' cols vals s = (r, s')" and "tables_ok (st_tables s)"
    and "manifest_table (st_tables s)"
  shows "tables_ok (st_tables s') \<and> manifest_table (st_tables s') \<and>
    (\<exists>news. manifest_keys (st_tables s') = manifest_keys (st_tables s) @ news)"
  using assms(1) unfolding insert_ignore_def
proof (cases rule: statement_cases)
  case (effect x ts)
  have "schema_of ts = schema_of (st_tables s)" using schema_insert [OF effect(1)] .
  moreover have "tables_ok ts" using insert_row_tables_ok [OF assms(2) effect(1)] .
  moreover have "\<exists>news. manifest_keys ts = manifest_keys (st_tables s) @ news"
    using effect(1) by (cases rule: insert_row_cases) (auto simp: manifest_keys_def rows_of_def update_conv)
  ultimately show ?thesis using effect(3) assms(3) by (simp add: manifest_table_def)
qed (use assms in simp_all)

lemma register_manifest:
  assumes "for_st (insert_ignore eng ''work_partitions'' cols) rows s = (r, s')" and "tables_ok (st_tables s)"
    and "manifest_table (st_tables s)"
  shows "tables_ok (st_tables s') \<and> manifest_table (st_tables s') \<and>
    (\<exists>news. manifest_keys (st_tables s') = manifest_keys (st_tables s) @ news)"
  using assms
proof (induction rows arbitrary: s)
  case (Cons v rows)
  from Cons.prems(1) have "bind_st (insert_ignore eng ''work_partitions'' cols v)
      (\<lambda>_. for_st (insert_ignore eng ''work_partitions'' cols) rows) s = (r, s')" by simp
  then show ?case
  proof (cases rule: bind_st_cases)
    case (fail e)
    from insert_ignore_manifest [OF fail(1) Cons.prems(2,3)] show ?thesis .
  next
    case (cont x s1)
    from insert_ignore_manifest [OF cont(1) Cons.prems(2,3)] Cons.IH [OF cont(2)] show ?thesis by force
  qed
qed (simp add: st_simps)

lemma manifest_step_keeps:
  assumes "manifest_step eng rt s s'" and "tables_ok (st_tables s)" and "manifest_table (st_tables s)"
  shows "tables_ok (st_tables s') \<and> manifest_table (st_tables s') \<and>
    (\<exists>news. manifest_keys (st_tables s') = manifest_keys (st_tables s) @ news)"
  using assms(1)
proof (elim manifest_stepE)
  fix ps r assume "register_work_partitions eng rt ps s = (r, s')"
  with register_manifest [OF _ assms(2,3)] assms(2,3) show ?thesis
    by (auto simp: register_work_partitions_def st_simps split: if_splits)
next
  fix pid r assume "mark_partition_running eng pid s = (r, s')"
  from mark_manifest [OF this assms(2,3)] show ?thesis by simp
next
  fix pid st n err r assume "finish_work_partition eng rt pid st n err s = (r, s')"
  from finish_manifest [OF this assms(2,3)] show ?thesis by simp
qed


definition sample_partition :: work_partition where
  "sample_partition = \<lparr>wp_id = ''p1'', wp_run_id = ''r1'', wp_date = 9, wp_instrument = ''EQUITY'',
     wp_bucket = 3, wp_provider = ''YAHOO'', wp_symbols = [''AAPL'']\<rparr>"

definition registered_store :: store where
  "registered_store = snd (register_work_partitions plain_engine sample_runtime [sample_partition] fresh_store)"

lemma fresh_manifest: "tables_ok (st_tables fresh_store)" "manifest_table (st_tables fresh_store)"
proof -
  have "fst (initialize_database plain_engine \<lparr>st_tables = [], st_steps = 0\<rparr>) = Inr ()" by code_simp
  have "list_all (\<lambda>(n, tb). tb_rows tb = [] \<and> distinct (column_names tb)) (st_tables fresh_store)"
    "distinct (map fst (st_tables fresh_store))" by code_simp+
  then show "tables_ok (st_tables fresh_store)"
    by (auto simp: tables_ok_def table_ok_def primary_keys_def list_all_iff)
  show "manifest_table (st_tables fresh_store)" by code_simp
qed

lemma registered_manifest:
  "tables_ok (st_tables registered_store) \<and> manifest_table (st_tables registered_store)"
proof -
  have "manifest_step plain_engine sample_runtime fresh_store registered_store"
    unfolding registered_store_def by (rule register) (rule prod.collapse [symmetric])
  with manifest_step_keeps fresh_manifest show ?thesis by blast
qed

subsection \<open>Properties\<close>

text \<open>C28 (manifest_append_only): along any run of the three operations, with engine failures anywhere,
  the integrity of the tables is kept, no partition disappears, and the identity of a registered
  partition (identifier, run, date, instrument, bucket, provider, symbols) never changes: the
  manifest only grows at its end.\<close>

theorem manifest_append_only:
  assumes "(manifest_step eng rt)\<^sup>*\<^sup>* s s'" and "tables_ok (st_tables s)" and "manifest_table (st_tables s)"
  shows "tables_ok (st_tables s') \<and> (\<exists>news. manifest_keys (st_tables s') = manifest_keys (st_tables s) @ news)"
proof -
  have "tables_ok (st_tables s') \<and> manifest_table (st_tables s') \<and>
    (\<exists>news. manifest_keys (st_tables s') = manifest_keys (st_tables s) @ news)"
    using assms(1)
  proof (induction rule: rtranclp_induct)
    case base
    with assms(2,3) show ?case by simp
  next
    case (step s1 s2)
    with manifest_step_keeps [OF step.hyps(2)] show ?case by force
  qed
  then show ?thesis by blast
qed

lemma manifest_append_only_witness:
  "\<exists>news. manifest_keys (st_tables registered_store) = manifest_keys (st_tables fresh_store) @ news"
proof -
  have "manifest_step plain_engine sample_runtime fresh_store registered_store"
    unfolding registered_store_def by (rule register) (rule prod.collapse [symmetric])
  then have "(manifest_step plain_engine sample_runtime)\<^sup>*\<^sup>* fresh_store registered_store" by simp
  from manifest_append_only [OF this fresh_manifest] show ?thesis by blast
qed

text \<open>A successful \<open>mark_partition_running\<close> turns every row of that
  partition that is not \<open>SUCCESS\<close> into \<open>RUNNING\<close> with the error cells cleared and the stored number
  of attempts being the conversion of one more than before; every other row, and a row that
  already succeeded, is left as it is.\<close>

theorem running_is_conditional:
  assumes "mark_partition_running eng pid s = (Inr u, s')" and "tables_ok (st_tables s)"
    and "manifest_table (st_tables s)"
  shows "list_all2 (\<lambda>r r'. let get = (\<lambda>c. field work_partitions c r); get' = (\<lambda>c. field work_partitions c r') in
     if get ''partition_id'' = PStr pid \<and> get ''status'' \<noteq> PStr ''SUCCESS''
     then get' ''status'' = PStr ''RUNNING'' \<and> get' ''error_type'' = PNone \<and> get' ''error_message'' = PNone
       \<and> convert eng INTEGER (add_one (get ''attempts'')) = Some (get' ''attempts'')
     else r' = r)
    (rows_of (st_tables s) ''work_partitions'') (rows_of (st_tables s') ''work_partitions'')"
proof -
  obtain tb where tb: "map_of (st_tables s) ''work_partitions'' = Some tb"
    "tb_columns tb = tb_columns work_partitions" and pk: "tb_primary tb = [''partition_id'']"
    using manifest_lookup [OF assms(3)] by metis
  have f: "field tb c = field work_partitions c" for c
    using tb(2) by (simp add: fun_eq_iff field_def row_view_def column_names_def)
  have ok: "table_ok tb" using tables_ok_lookup [OF assms(2) tb(1)] .
  let ?cond = "\<lambda>get :: string \<Rightarrow> pyval. get ''partition_id'' = PStr pid \<and> get ''status'' \<noteq> PStr ''SUCCESS''"
  let ?upd = "\<lambda>now get. [(''status'', PStr ''RUNNING''), (''attempts'', add_one (get ''attempts'')),
          (''started_at'', now), (''finished_at'', PNone), (''error_type'', PNone),
          (''error_message'', PNone)]"
  define now where "now = clock eng (st_steps s)"
  have "update_rows eng ''work_partitions'' ?cond (?upd now) (st_tables s) = Inr (u, st_tables s')"
    using statement_Inr [OF assms(1) [unfolded mark_partition_running_def update_table_def]]
    by (simp only: now_def)
  from update_rows_effect [OF this] tb(1) obtain rows where
    rows: "st_tables s' = AList.update ''work_partitions'' (tb\<lparr>tb_rows := rows\<rparr>) (st_tables s)"
    "list_all2 (\<lambda>r r'. if ?cond (\<lambda>c. field tb c r) then set_cells eng tb (?upd now (\<lambda>c. field tb c r)) r = Inr r'
       else r' = r) (tb_rows tb) rows" by auto
  have cols: "plain ''error_type'' VARCHAR \<in> set (tb_columns tb)" "plain ''error_message'' VARCHAR \<in> set (tb_columns tb)"
    "not_null ''status'' VARCHAR \<in> set (tb_columns tb)"
    "\<lparr>col_name = ''attempts'', col_type = INTEGER, col_not_null = True, col_default = DefaultValue (PInt 0)\<rparr>
      \<in> set (tb_columns tb)"
    by (simp_all add: tb(2) work_partitions_def new_table_def)
  have "list_all2 (\<lambda>r r'. let get = (\<lambda>c. field tb c r); get' = (\<lambda>c. field tb c r') in
     if get ''partition_id'' = PStr pid \<and> get ''status'' \<noteq> PStr ''SUCCESS''
     then get' ''status'' = PStr ''RUNNING'' \<and> get' ''error_type'' = PNone \<and> get' ''error_message'' = PNone
       \<and> convert eng INTEGER (add_one (get ''attempts'')) = Some (get' ''attempts'')
     else r' = r) (tb_rows tb) rows"
  proof (rule list_all2_mono [OF list.rel_mono_strong [OF rows(2)]])
    fix r r' assume r_in: "r \<in> set (tb_rows tb)"
      and st: "if ?cond (\<lambda>c. field tb c r) then set_cells eng tb (?upd now (\<lambda>c. field tb c r)) r = Inr r' else r' = r"
    have rok: "row_ok tb r" and dis: "distinct (column_names tb)"
      using ok r_in by (simp_all add: table_ok_def)
    show "let get = (\<lambda>c. field tb c r); get' = (\<lambda>c. field tb c r') in
     if get ''partition_id'' = PStr pid \<and> get ''status'' \<noteq> PStr ''SUCCESS''
     then get' ''status'' = PStr ''RUNNING'' \<and> get' ''error_type'' = PNone \<and> get' ''error_message'' = PNone
       \<and> convert eng INTEGER (add_one (get ''attempts'')) = Some (get' ''attempts'')
     else r' = r"
    proof (cases "?cond (\<lambda>c. field tb c r)")
      case True
      with st have sc: "set_cells eng tb (?upd now (\<lambda>c. field tb c r)) r = Inr r'" by simp
      note f = set_cells_field [OF sc rok dis]
      have "field tb ''error_type'' r' = PNone" "field tb ''error_message'' r' = PNone"
        using f [OF cols(1)] f [OF cols(2)] pk
        by (simp_all add: plain_def cast_cell_def convert_def)
      moreover have "field tb ''status'' r' = PStr ''RUNNING''"
        using f [OF cols(3)] by (simp add: not_null_def cast_cell_def convert_def)
      moreover have "convert eng INTEGER (add_one (field tb ''attempts'' r)) = Some (field tb ''attempts'' r')"
        using f [OF cols(4)] by (auto simp: cast_cell_def split: option.splits if_splits)
      ultimately show ?thesis using True by simp
    next
      case False
      with st show ?thesis by (simp add: Let_def)
    qed
  qed simp
  then show ?thesis
    using tb(1) rows(1) by (simp add: rows_of_def update_conv f)
qed


lemma running_is_conditional_witness:
  "\<exists>s'. mark_partition_running plain_engine ''p1'' registered_store = (Inr (), s') \<and>
     list_all2 (\<lambda>r r'. field work_partitions ''status'' r' = PStr ''RUNNING'')
       (rows_of (st_tables registered_store) ''work_partitions'') (rows_of (st_tables s') ''work_partitions'')"
proof -
  obtain s' where m: "mark_partition_running plain_engine ''p1'' registered_store = (Inr (), s')"
  proof -
    have "fst (mark_partition_running plain_engine ''p1'' registered_store) = Inr ()" by code_simp
    then show ?thesis using that by (metis prod.collapse)
  qed
  have "list_all (\<lambda>r. field work_partitions ''partition_id'' r = PStr ''p1''
      \<and> field work_partitions ''status'' r \<noteq> PStr ''SUCCESS'')
    (rows_of (st_tables registered_store) ''work_partitions'')" by code_simp
  then have "list_all2 (\<lambda>r r'. field work_partitions ''status'' r' = PStr ''RUNNING'')
      (rows_of (st_tables registered_store) ''work_partitions'') (rows_of (st_tables s') ''work_partitions'')"
    using running_is_conditional [OF m] registered_manifest
    by (auto simp: Let_def list_all_iff elim!: list.rel_mono_strong)
  with m show ?thesis by blast
qed

end
