(* ===== verification/Sequence_Tracker.thy ===== *)
theory Sequence_Tracker
  imports Py_Value
begin

section \<open>Vendor sequence classification\<close>

text \<open>
  \<open>SequenceTracker\<close> of \<open>realtime/network_transport.py\<close>: per \<open>(source, stream)\<close> the highest
  sequence number seen, the bounded window of recent numbers and their multiplicities.
  The specification is a history per stream; the tracker is shown to refine it.  The locale
  \<open>stream_classifier\<close> is the interface the monitor relies on.
\<close>

type_synonym stream_key = "string \<times> string"

datatype seq_status = FIRST | IN_ORDER | GAP | DUPLICATE | REORDERED

record observation =
  status :: seq_status
  expected_sequence :: "int option"
  missing_count :: int

record tracker =
  duplicate_window :: int
  highest :: "stream_key \<rightharpoonup> int"
  recent :: "stream_key \<rightharpoonup> int list"
  recent_counts :: "stream_key \<rightharpoonup> (int \<rightharpoonup> int)"

definition new_tracker :: "int \<Rightarrow> tracker result" where
  "new_tracker window =
     (if window \<le> 0 then Inl (ValueError ''duplicate_window must be positive'')
      else Inr \<lparr>duplicate_window = window, highest = Map.empty, recent = Map.empty,
             recent_counts = Map.empty\<rparr>)"

text \<open>The classification and the new highest number, in the order of the source's tests.\<close>

definition classify :: "int option \<Rightarrow> (int \<rightharpoonup> int) \<Rightarrow> int \<Rightarrow> observation \<times> int option" where
  "classify hi counts n =
     (if counts n \<noteq> None
      then (\<lparr>status = DUPLICATE, expected_sequence = map_option (\<lambda>h. h + 1) hi,
             missing_count = 0\<rparr>, hi)
      else case hi of
        None \<Rightarrow> (\<lparr>status = FIRST, expected_sequence = None, missing_count = 0\<rparr>, Some n)
      | Some h \<Rightarrow>
          if n = h + 1
          then (\<lparr>status = IN_ORDER, expected_sequence = Some (h + 1), missing_count = 0\<rparr>, Some n)
          else if n > h + 1
          then (\<lparr>status = GAP, expected_sequence = Some (h + 1), missing_count = n - h - 1\<rparr>, Some n)
          else (\<lparr>status = REORDERED, expected_sequence = Some (h + 1), missing_count = 0\<rparr>, hi))"

text \<open>\<open>while len(recent) > self.duplicate_window\<close>; a missing count is the \<open>KeyError\<close>.\<close>

fun evict :: "int \<Rightarrow> int list \<Rightarrow> (int \<rightharpoonup> int) \<Rightarrow> (int list \<times> (int \<rightharpoonup> int)) result" where
  "evict w [] counts = Inr ([], counts)"
| "evict w (x # xs) counts =
     (if int (length (x # xs)) > w
      then case counts x of
             None \<Rightarrow> Inl (KeyError ''recent_counts'')
           | Some c \<Rightarrow> evict w xs (if c - 1 \<noteq> 0 then counts(x \<mapsto> c - 1) else counts(x := None))
      else Inr (x # xs, counts))"

definition observe_key :: "tracker \<Rightarrow> stream_key \<Rightarrow> int \<Rightarrow> (observation \<times> tracker) result" where
  "observe_key t key n =
     (let hi = highest t key;
          rec = (case recent t key of None \<Rightarrow> [] | Some xs \<Rightarrow> xs);
          counts = (case recent_counts t key of None \<Rightarrow> Map.empty | Some c \<Rightarrow> c);
          (obs, hi') = classify hi counts n;
          counts' = counts(n \<mapsto> (case counts n of None \<Rightarrow> 0 | Some c \<Rightarrow> c) + 1)
      in bind_res (evict (duplicate_window t) (rec @ [n]) counts') (\<lambda>(rec', counts'').
           Inr (obs, t\<lparr>highest := (highest t)(key := hi'),
                       recent := (recent t)(key \<mapsto> rec'),
                       recent_counts := (recent_counts t)(key \<mapsto> counts'')\<rparr>)))"

definition observe :: "tracker \<Rightarrow> pyval \<Rightarrow> pyval \<Rightarrow> pyval \<Rightarrow> (observation \<times> tracker) result" where
  "observe t source stream_id sequence_number =
     (case nonblank_str source of
        None \<Rightarrow> Inl (ValueError ''source must be non-empty'')
      | Some src \<Rightarrow> (case nonblank_str stream_id of
          None \<Rightarrow> Inl (ValueError ''stream_id must be non-empty'')
        | Some str \<Rightarrow> (case plain_int sequence_number of
            None \<Rightarrow> Inl (ValueError ''sequence_number must be a non-negative integer'')
          | Some n \<Rightarrow>
              if n < 0 then Inl (ValueError ''sequence_number must be a non-negative integer'')
              else observe_key t (norm_name src, norm_name str) n)))"

subsection \<open>The specification: a history per stream\<close>

definition spec_observe :: "nat \<Rightarrow> int list \<Rightarrow> int \<Rightarrow> observation" where
  "spec_observe w hist n =
     (let top = Max (set hist) in
      if n \<in> set (last_n w hist)
      then \<lparr>status = DUPLICATE, expected_sequence = Some (top + 1), missing_count = 0\<rparr>
      else if hist = [] then \<lparr>status = FIRST, expected_sequence = None, missing_count = 0\<rparr>
      else if n = top + 1
      then \<lparr>status = IN_ORDER, expected_sequence = Some (top + 1), missing_count = 0\<rparr>
      else if n > top + 1
      then \<lparr>status = GAP, expected_sequence = Some (top + 1), missing_count = n - top - 1\<rparr>
      else \<lparr>status = REORDERED, expected_sequence = Some (top + 1), missing_count = 0\<rparr>)"

definition multiplicities :: "int list \<Rightarrow> (int \<rightharpoonup> int)" where
  "multiplicities xs = (\<lambda>n. if n \<in> set xs then Some (int (count_list xs n)) else None)"

definition hist_top :: "int list \<Rightarrow> int option" where
  "hist_top xs = (if xs = [] then None else Some (Max (set xs)))"

definition refines_key :: "tracker \<Rightarrow> stream_key \<Rightarrow> int list \<Rightarrow> bool" where
  "refines_key t k hist \<longleftrightarrow>
     highest t k = hist_top hist \<and>
     (case recent t k of None \<Rightarrow> [] | Some xs \<Rightarrow> xs) = last_n (nat (duplicate_window t)) hist \<and>
     (case recent_counts t k of None \<Rightarrow> Map.empty | Some c \<Rightarrow> c)
       = multiplicities (last_n (nat (duplicate_window t)) hist)"

definition refines :: "tracker \<Rightarrow> (stream_key \<Rightarrow> int list) \<Rightarrow> bool" where
  "refines t h \<longleftrightarrow> 0 < duplicate_window t \<and> (\<forall>k. refines_key t k (h k))"

lemma multiplicities_Nil [simp]: "multiplicities [] = Map.empty"
  by (simp add: multiplicities_def)

lemma multiplicities_snoc:
  "(multiplicities xs)(n \<mapsto> (case multiplicities xs n of None \<Rightarrow> 0 | Some c \<Rightarrow> c) + 1)
     = multiplicities (xs @ [n])"
  by (auto simp: multiplicities_def fun_eq_iff count_notin)

lemma multiplicities_pop:
  "(if int (count_list (x # xs) x) - 1 \<noteq> 0
    then (multiplicities (x # xs))(x \<mapsto> int (count_list (x # xs) x) - 1)
    else (multiplicities (x # xs))(x := None)) = multiplicities xs"
  by (auto simp: multiplicities_def fun_eq_iff count_list_0_iff)

text \<open>The eviction loop never misses a key: it leaves the last \<open>w\<close> numbers and their counts.\<close>

lemma evict_multiplicities:
  "0 \<le> w \<Longrightarrow> evict w xs (multiplicities xs)
     = Inr (last_n (nat w) xs, multiplicities (last_n (nat w) xs))"
proof (induction xs)
  case Nil
  then show ?case by (simp add: last_n_def)
next
  case (Cons x xs)
  show ?case
  proof (cases "int (length (x # xs)) > w")
    case True
    have c: "multiplicities (x # xs) x = Some (int (count_list (x # xs) x))"
      by (simp add: multiplicities_def)
    from True have "last_n (nat w) (x # xs) = last_n (nat w) xs"
      by (simp add: last_n_def Suc_diff_le)
    with True Cons c multiplicities_pop [of x xs] show ?thesis
      by (simp del: count_list.simps)
  next
    case False
    then show ?thesis by (simp add: last_n_short)
  qed
qed

lemma classify_refines:
  "classify (hist_top hist) (multiplicities (last_n w hist)) n
     = (spec_observe w hist n, hist_top (hist @ [n]))"
proof (cases "hist = []")
  case True
  then show ?thesis by (simp add: classify_def spec_observe_def hist_top_def last_n_def)
next
  case False
  have le: "m \<le> Max (set hist)" if "m \<in> set (last_n w hist)" for m
    using that set_last_n [of w hist] by (intro Max_ge) auto
  from False have "hist_top (hist @ [n]) = Some (max n (Max (set hist)))"
    by (simp add: hist_top_def)
  with False le [of n] show ?thesis
    by (auto simp: classify_def spec_observe_def hist_top_def multiplicities_def Let_def max_def)
qed

lemma observe_key_refines:
  assumes "refines t h"
  obtains t' where "observe_key t k n
      = Inr (spec_observe (nat (duplicate_window t)) (h k) n, t')"
    and "refines t' (h(k := h k @ [n]))" and "duplicate_window t' = duplicate_window t"
proof -
  let ?w = "nat (duplicate_window t)"
  let ?r = "last_n ?w (h k)"
  from assms have w: "0 \<le> duplicate_window t" and k: "refines_key t k (h k)"
    by (cases k; auto simp: refines_def)+
  have ev: "evict (duplicate_window t) (?r @ [n]) (multiplicities (?r @ [n]))
      = Inr (last_n ?w (h k @ [n]), multiplicities (last_n ?w (h k @ [n])))"
    using evict_multiplicities [OF w, of "?r @ [n]"] by (simp add: last_n_append_last_n)
  let ?t' = "t\<lparr>highest := (highest t)(k := hist_top (h k @ [n])),
               recent := (recent t)(k \<mapsto> last_n ?w (h k @ [n])),
               recent_counts := (recent_counts t)(k \<mapsto> multiplicities (last_n ?w (h k @ [n])))\<rparr>"
  have "observe_key t k n = Inr (spec_observe ?w (h k) n, ?t')"
    using k ev unfolding observe_key_def refines_key_def
    by (simp add: classify_refines multiplicities_snoc Let_def)
  moreover have "refines ?t' (h(k := h k @ [n]))"
    using assms by (simp add: refines_def refines_key_def)
  ultimately show thesis by (rule that) simp
qed

lemma new_tracker_refines: "new_tracker w = Inr t \<Longrightarrow> refines t (\<lambda>_. [])"
  by (auto simp: new_tracker_def refines_def refines_key_def hist_top_def last_n_def split: if_splits)

subsection \<open>Runs over many events and the interface of a stream classifier\<close>

fun run_steps :: "('t \<Rightarrow> 'k \<Rightarrow> int \<Rightarrow> ('o \<times> 't) result) \<Rightarrow> 't \<Rightarrow> ('k \<times> int) list \<Rightarrow>
    ('o list \<times> 't) result" where
  "run_steps f t [] = Inr ([], t)"
| "run_steps f t (e # es) = bind_res (f t (fst e) (snd e)) (\<lambda>(ob, t').
     bind_res (run_steps f t' es) (\<lambda>(obs, t''). Inr (ob # obs, t'')))"

text \<open>
  What a client may rely on: in a good state every observation succeeds, its outcome depends
  on the stream's own part of the state only, and the other streams' parts are untouched.
\<close>

locale stream_classifier =
  fixes step :: "'t \<Rightarrow> 'k \<Rightarrow> int \<Rightarrow> ('o \<times> 't) result"
    and inv :: "'t \<Rightarrow> bool"
    and view :: "'t \<Rightarrow> 'k \<Rightarrow> 'v"
    and out :: "'v \<Rightarrow> int \<Rightarrow> 'o"
    and nxt :: "'v \<Rightarrow> int \<Rightarrow> 'v"
  assumes step_ok: "inv t \<Longrightarrow> \<exists>t'. step t k n = Inr (out (view t k) n, t') \<and> inv t'
      \<and> view t' k = nxt (view t k) n \<and> (\<forall>k'. k' \<noteq> k \<longrightarrow> view t' k' = view t k')"
begin

lemma run_total:
  "inv t \<Longrightarrow> \<exists>obs t'. run_steps step t es = Inr (obs, t') \<and> inv t' \<and> length obs = length es"
proof (induction es arbitrary: t)
  case (Cons e es)
  from step_ok [OF Cons.prems, of "fst e" "snd e"] obtain t1 where
    t1: "step t (fst e) (snd e) = Inr (out (view t (fst e)) (snd e), t1)" "inv t1" by blast
  from Cons.IH [OF t1(2)] t1(1) show ?case by auto
qed simp

text \<open>Two runs that agree on one stream classify its events alike, whatever surrounds them.\<close>

lemma run_independent:
  assumes "inv t" and "inv u" and "view t k = view u k"
    and "run_steps step t es = Inr (obs, t')"
    and "run_steps step u (filter (\<lambda>e. fst e = k) es) = Inr (obs', u')"
  shows "obs' = map snd (filter (\<lambda>p. fst (fst p) = k) (zip es obs))"
  using assms
proof (induction es arbitrary: t u obs obs')
  case (Cons e es)
  obtain k1 n where e: "e = (k1, n)" by (cases e)
  obtain t1 where t1: "step t k1 n = Inr (out (view t k1) n, t1)" "inv t1"
      "view t1 k1 = nxt (view t k1) n" "\<forall>k'. k' \<noteq> k1 \<longrightarrow> view t1 k' = view t k'"
    using step_ok [OF Cons.prems(1)] by blast
  from Cons.prems(4) e t1(1) obtain os where
    os: "run_steps step t1 es = Inr (os, t')" "obs = out (view t k1) n # os"
    by (auto simp: res_simps)
  show ?case
  proof (cases "k1 = k")
    case False
    with Cons.prems e t1 os show ?thesis
      using Cons.IH [OF t1(2) Cons.prems(2) _ os(1)] by auto
  next
    case True
    obtain u1 where u1: "step u k n = Inr (out (view u k) n, u1)" "inv u1"
        "view u1 k = nxt (view u k) n"
      using step_ok [OF Cons.prems(2)] by blast
    from Cons.prems(5) e True u1(1) obtain os' where
      os': "run_steps step u1 (filter (\<lambda>e. fst e = k) es) = Inr (os', u')"
        "obs' = out (view u k) n # os'"
      by (auto simp: res_simps)
    have "view t1 k = view u1 k" using True t1(3) u1(3) Cons.prems(3) by simp
    from Cons.IH [OF t1(2) u1(2) this os(1) os'(1)] show ?thesis
      using e True os(2) os'(2) Cons.prems(3) by simp
  qed
qed simp

end

definition key_recent :: "tracker \<Rightarrow> stream_key \<Rightarrow> int list" where
  "key_recent t k = (case recent t k of None \<Rightarrow> [] | Some xs \<Rightarrow> xs)"

definition key_counts :: "tracker \<Rightarrow> stream_key \<Rightarrow> (int \<rightharpoonup> int)" where
  "key_counts t k = (case recent_counts t k of None \<Rightarrow> Map.empty | Some c \<Rightarrow> c)"

text \<open>The well-formedness of a tracker: the counts are the multiplicities of the window.\<close>

definition tracker_ok :: "int \<Rightarrow> tracker \<Rightarrow> bool" where
  "tracker_ok w t \<longleftrightarrow> duplicate_window t = w \<and> 0 < w \<and>
     (\<forall>k. key_counts t k = multiplicities (key_recent t k) \<and> int (length (key_recent t k)) \<le> w)"

definition key_view :: "tracker \<Rightarrow> stream_key \<Rightarrow> int option \<times> int list" where
  "key_view t k = (highest t k, key_recent t k)"

lemma observe_key_step:
  assumes "tracker_ok w t"
  shows "\<exists>t'. observe_key t k n
        = Inr (fst (classify (highest t k) (multiplicities (key_recent t k)) n), t')
      \<and> tracker_ok w t'
      \<and> key_view t' k = (snd (classify (highest t k) (multiplicities (key_recent t k)) n),
           last_n (nat w) (key_recent t k @ [n]))
      \<and> (\<forall>k'. k' \<noteq> k \<longrightarrow> key_view t' k' = key_view t k')"
proof -
  from assms have w: "0 \<le> w" "duplicate_window t = w" and
    c: "key_counts t k = multiplicities (key_recent t k)"
    by (cases k; auto simp: tracker_ok_def)+
  let ?r = "last_n (nat w) (key_recent t k @ [n])"
  let ?cl = "classify (highest t k) (multiplicities (key_recent t k)) n"
  let ?t' = "t\<lparr>highest := (highest t)(k := snd ?cl), recent := (recent t)(k \<mapsto> ?r),
               recent_counts := (recent_counts t)(k \<mapsto> multiplicities ?r)\<rparr>"
  have "observe_key t k n = Inr (fst ?cl, ?t')"
    using c evict_multiplicities [OF w(1), of "key_recent t k @ [n]"] w
    unfolding observe_key_def key_counts_def [symmetric] key_recent_def [symmetric]
    by (simp add: multiplicities_snoc Let_def case_prod_unfold)
  moreover have "tracker_ok w ?t'"
    using assms by (auto simp: tracker_ok_def key_counts_def key_recent_def)
  moreover have "key_view ?t' k = (snd ?cl, ?r)" "\<forall>k'. k' \<noteq> k \<longrightarrow> key_view ?t' k' = key_view t k'"
    by (simp_all add: key_view_def key_recent_def)
  ultimately show ?thesis by blast
qed

lemma new_tracker_ok: "new_tracker w = Inr t \<Longrightarrow> tracker_ok w t"
  by (auto simp: new_tracker_def tracker_ok_def key_counts_def key_recent_def split: if_splits)

interpretation vendor: stream_classifier observe_key "tracker_ok w" key_view
  "\<lambda>v n. fst (classify (fst v) (multiplicities (snd v)) n)"
  "\<lambda>v n. (snd (classify (fst v) (multiplicities (snd v)) n), last_n (nat w) (snd v @ [n]))"
  for w
  using observe_key_step by unfold_locales (simp add: key_view_def)

subsection \<open>Accounting for gaps\<close>

definition advances :: "observation \<Rightarrow> bool" where
  "advances ob \<longleftrightarrow> status ob = IN_ORDER \<or> status ob = GAP"

definition advance :: "observation list \<Rightarrow> int" where
  "advance obs = int (length (filter advances obs)) + sum_list (map missing_count obs)"

lemma classify_advance:
  assumes "classify (Some h) c n = (ob, hi')"
  shows "hi' = Some (h + advance [ob])"
  using assms by (auto simp: classify_def advance_def advances_def split: if_splits)

lemma run_advance:
  "tracker_ok w t \<Longrightarrow> highest t k = Some h \<Longrightarrow>
   run_steps observe_key t (map (Pair k) ns) = Inr (obs, t') \<Longrightarrow> highest t' k = Some (h + advance obs)"
proof (induction ns arbitrary: t h obs)
  case Nil
  then show ?case by (simp add: advance_def)
next
  case (Cons n ns)
  obtain t1 where t1: "observe_key t k n
        = Inr (fst (classify (highest t k) (multiplicities (key_recent t k)) n), t1)"
      "tracker_ok w t1"
      "highest t1 k = snd (classify (highest t k) (multiplicities (key_recent t k)) n)"
    using observe_key_step [OF Cons.prems(1), of k n] by (auto simp: key_view_def)
  let ?ob = "fst (classify (highest t k) (multiplicities (key_recent t k)) n)"
  from Cons.prems(3) t1(1) obtain os where
    os: "run_steps observe_key t1 (map (Pair k) ns) = Inr (os, t')" "obs = ?ob # os"
    by (auto simp: res_simps)
  have "highest t1 k = Some (h + advance [?ob])"
    using t1(3) Cons.prems(2) classify_advance [of h] by (metis prod.collapse)
  from Cons.IH [OF t1(2) this os(1)] show ?case
    by (simp add: os(2) advance_def)
qed

lemma observe_valid:
  "py_strip src \<noteq> [] \<Longrightarrow> py_strip str \<noteq> [] \<Longrightarrow> 0 \<le> n \<Longrightarrow>
   observe t (PStr src) (PStr str) (PInt n) = observe_key t (norm_name src, norm_name str) n"
  by (simp add: observe_def)

subsection \<open>Properties\<close>

definition stream_of :: "stream_key \<Rightarrow> stream_key" where
  "stream_of k = (norm_name (fst k), norm_name (snd k))"

definition observe_raw :: "tracker \<Rightarrow> stream_key \<Rightarrow> int \<Rightarrow> (observation \<times> tracker) result" where
  "observe_raw t k n = observe t (PStr (fst k)) (PStr (snd k)) (PInt n)"

definition valid_event :: "stream_key \<times> int \<Rightarrow> bool" where
  "valid_event e \<longleftrightarrow> py_strip (fst (fst e)) \<noteq> [] \<and> py_strip (snd (fst e)) \<noteq> [] \<and> 0 \<le> snd e"

fun spec_run :: "nat \<Rightarrow> (stream_key \<Rightarrow> int list) \<Rightarrow> (stream_key \<times> int) list \<Rightarrow> observation list" where
  "spec_run w h [] = []"
| "spec_run w h (e # es) =
     (let k = stream_of (fst e) in
      spec_observe w (h k) (snd e) # spec_run w (h(k := h k @ [snd e])) es)"

lemma observe_raw_valid: "valid_event e \<Longrightarrow>
    observe_raw t (fst e) (snd e) = observe_key t (stream_of (fst e)) (snd e)"
  by (simp add: observe_raw_def valid_event_def stream_of_def observe_valid)

lemma run_raw_valid: "list_all valid_event es \<Longrightarrow>
    run_steps observe_raw t es = run_steps observe_key t (map (map_prod stream_of id) es)"
proof (induction es arbitrary: t)
  case (Cons e es)
  then show ?case
    by (cases "observe_key t (stream_of (fst e)) (snd e)") (auto simp: observe_raw_valid)
qed simp

lemma run_refines: "list_all valid_event es \<Longrightarrow> refines t h \<Longrightarrow> nat (duplicate_window t) = w \<Longrightarrow>
    \<exists>t'. run_steps observe_raw t es = Inr (spec_run w h es, t')"
proof (induction es arbitrary: t h)
  case (Cons e es)
  obtain t1 where t1: "observe_key t (stream_of (fst e)) (snd e)
      = Inr (spec_observe w (h (stream_of (fst e))) (snd e), t1)"
    "refines t1 (h(stream_of (fst e) := h (stream_of (fst e)) @ [snd e]))"
    "nat (duplicate_window t1) = w"
    using observe_key_refines [OF Cons.prems(2)] Cons.prems(3) by metis
  with Cons.IH [OF _ t1(2,3)] Cons.prems(1) show ?case
    by (auto simp: observe_raw_valid Let_def fun_upd_def)
qed simp

text \<open>C7 (tracker_refines_history): for every sequence of valid observations, over any mix of
  streams, a fresh tracker never raises and classifies each event exactly as the history of its
  normalised stream says: a duplicate is a number among the last \<open>window\<close> ones, a gap reports
  the distance to the highest number ever seen, everything else below it is reordered.\<close>

theorem tracker_refines_history:
  assumes "new_tracker w = Inr t" and "list_all valid_event es"
  shows "\<exists>t'. run_steps observe_raw t es = Inr (spec_run (nat w) (\<lambda>_. []) es, t')"
proof -
  from assms(1) have "duplicate_window t = w" by (auto simp: new_tracker_def split: if_splits)
  with run_refines [OF assms(2) new_tracker_refines [OF assms(1)]] show ?thesis by simp
qed

theorem tracker_refines_history_witness:
  "\<exists>t'. run_steps observe_raw (projr (new_tracker 2))
      [((''v'', ''s''), 5), (('' V '', ''S''), 8), ((''v'', ''s''), 8), ((''v'', ''s''), 6)]
    = Inr (spec_run 2 (\<lambda>_. []) [((''v'', ''s''), 5), (('' V '', ''S''), 8), ((''v'', ''s''), 8), ((''v'', ''s''), 6)], t')
   \<and> map status (spec_run 2 (\<lambda>_. []) [((''v'', ''s''), 5), (('' V '', ''S''), 8), ((''v'', ''s''), 8), ((''v'', ''s''), 6)])
     = [FIRST, GAP, DUPLICATE, REORDERED]"
proof -
  let ?es = "[((''v'', ''s''), 5 :: int), (('' V '', ''S''), 8), ((''v'', ''s''), 8), ((''v'', ''s''), 6)]"
  have v: "list_all valid_event ?es" by code_simp
  have n: "new_tracker 2 = Inr (projr (new_tracker 2))" by (simp add: new_tracker_def)
  have "map status (spec_run 2 (\<lambda>_. []) ?es) = [FIRST, GAP, DUPLICATE, REORDERED]" by code_simp
  with tracker_refines_history [OF n v] show ?thesis by simp
qed

text \<open>The classification of one stream's events is the same whether the
  events of other streams are interleaved with them or not, for any tracker state and any
  interleaving.\<close>

theorem streams_independent:
  assumes "tracker_ok w t"
    and "run_steps observe_key t es = Inr (obs, t')"
    and "run_steps observe_key t (filter (\<lambda>e. fst e = k) es) = Inr (obs', u')"
  shows "obs' = map snd (filter (\<lambda>p. fst (fst p) = k) (zip es obs))"
  by (rule vendor.run_independent [OF assms(1) assms(1) refl assms(2,3)])

theorem streams_independent_witness:
  "\<exists>obs' u'. run_steps observe_key (projr (new_tracker 4)) [((''A'', ''T''), 1), ((''A'', ''T''), 2)] = Inr (obs', u')
     \<and> map status obs' = [FIRST, IN_ORDER]"
proof -
  let ?t = "projr (new_tracker 4)"
  let ?es = "[((''A'', ''T''), 1), ((''B'', ''T''), 7), ((''A'', ''T''), 2 :: int)]"
  have ok: "tracker_ok 4 ?t" by (rule new_tracker_ok) (simp add: new_tracker_def)
  obtain obs t' where r: "run_steps observe_key ?t ?es = Inr (obs, t')"
    using vendor.run_total [OF ok] by blast
  obtain obs' u' where f: "run_steps observe_key ?t (filter (\<lambda>e. fst e = (''A'', ''T'')) ?es) = Inr (obs', u')"
    using vendor.run_total [OF ok] by blast
  have "map status obs = [FIRST, FIRST, IN_ORDER]"
    using r by (auto simp: observe_key_def classify_def new_tracker_def Let_def split: if_splits)
  with streams_independent [OF ok r f] f show ?thesis by auto
qed

text \<open>On one stream the numbers are accounted for: after a fresh tracker has
  observed a non-empty list of numbers, the highest number minus the first one is the number of
  in-order and gap events plus all the missing counts reported, whatever duplicates and
  reordered events occurred in between.\<close>

theorem gap_accounting:
  assumes "new_tracker w = Inr t"
    and "run_steps observe_key t (map (Pair k) (n # ns)) = Inr (obs, t')"
  shows "highest t' k = Some (n + int (length (filter advances obs)) + sum_list (map missing_count obs))"
proof -
  note ok = new_tracker_ok [OF assms(1)]
  from assms(1) have e: "highest t k = None" "key_recent t k = []"
    by (auto simp: new_tracker_def key_recent_def split: if_splits)
  obtain t1 where t1: "observe_key t k n = Inr (fst (classify None (multiplicities []) n), t1)"
      "tracker_ok w t1" "highest t1 k = Some n"
    using observe_key_step [OF ok, of k n] by (auto simp: key_view_def e classify_def)
  from assms(2) t1(1) obtain os where
    os: "run_steps observe_key t1 (map (Pair k) ns) = Inr (os, t')"
      "obs = fst (classify None (multiplicities []) n) # os"
    by (auto simp: res_simps)
  from run_advance [OF t1(2,3) os(1)] show ?thesis
    by (simp add: os(2) classify_def advance_def advances_def)
qed

theorem gap_accounting_witness:
  "\<exists>obs t'. run_steps observe_key (projr (new_tracker 4)) (map (Pair (''A'', ''T'')) (3 # [4, 9, 4, 5])) = Inr (obs, t')
     \<and> highest t' (''A'', ''T'') = Some (3 + int (length (filter advances obs)) + sum_list (map missing_count obs))"
proof -
  have n: "new_tracker 4 = Inr (projr (new_tracker 4))" by (simp add: new_tracker_def)
  obtain obs t' where r: "run_steps observe_key (projr (new_tracker 4))
      (map (Pair (''A'', ''T'')) (3 # [4, 9, 4, 5])) = Inr (obs, t')"
    using vendor.run_total [OF new_tracker_ok [OF n]] by blast
  from gap_accounting [OF n r] r show ?thesis by blast
qed

end
