(* ===== verification/Market_Event.thy ===== *)
theory Market_Event
  imports Sequence_Tracker
begin

section \<open>Market events: validation, identity and journal form\<close>

text \<open>
  The first part of \<open>realtime/network_transport.py\<close>: \<open>_utc_datetime\<close>,
  \<open>_positive_number\<close>, \<open>MarketEvent.from_mapping\<close> and its views, \<open>_decode_event\<close> and
  \<open>_sequence_reason\<close>.
\<close>

text \<open>\<open>value.replace("Z", "+00:00")\<close>\<close>

definition replace_z :: "string \<Rightarrow> string" where
  "replace_z s = concat (map (\<lambda>c. if c = CHR ''Z'' then ''+00:00'' else [c]) s)"

definition utc_datetime :: "runtime \<Rightarrow> pyval \<Rightarrow> string \<Rightarrow> int result" where
  "utc_datetime rt v field = bind_res
     (case v of
        PTime d \<Rightarrow> Inr d
      | PStr s \<Rightarrow> (case fromisoformat rt (replace_z s) of
          None \<Rightarrow> Inl (EventValidationError (field @ '' must be a valid ISO-8601 timestamp''))
        | Some d \<Rightarrow> Inr d)
      | _ \<Rightarrow> Inl (EventValidationError (field @ '' must be an ISO-8601 timestamp'')))
     (\<lambda>parsed. case utc_us parsed of
        None \<Rightarrow> Inl (EventValidationError (field @ '' must be timezone-aware''))
      | Some t \<Rightarrow> Inr t)"

definition positive_number :: "pyval \<Rightarrow> string \<Rightarrow> bool \<Rightarrow> pyfloat result" where
  "positive_number v field allow_zero = bind_res
     (numeric_value (EventValidationError (field @ '' must be numeric'')) v)
     (\<lambda>number.
        if \<not> is_finite number \<or> flt number (Fin 0) \<or> (\<not> allow_zero \<and> number = Fin 0)
        then Inl (EventValidationError (field @ '' must be a ''
               @ (if allow_zero then ''non-negative'' else ''positive'') @ '' finite number''))
        else Inr number)"

record market_event =
  ev_event_id :: string
  ev_source :: string
  ev_stream_id :: string
  ev_transport :: string
  ev_sequence_number :: int
  ev_symbol :: string
  ev_event_type :: string
  ev_price :: pyfloat
  ev_quantity :: pyfloat
  ev_exchange_timestamp :: int
  ev_received_timestamp :: int
  ev_correlation_id :: string

definition required_fields :: "string list" where
  "required_fields = [''source'', ''sequence_number'', ''symbol'', ''event_type'', ''price'',
     ''quantity'', ''exchange_timestamp'']"

definition required_name :: "payload \<Rightarrow> string \<Rightarrow> string result" where
  "required_name payload field =
     (case nonblank_str (dict_get PNone payload field) of
        None \<Rightarrow> Inl (EventValidationError (field @ '' must be a non-empty string''))
      | Some s \<Rightarrow> Inr (norm_name s))"

definition valid_sequence :: "pyval \<Rightarrow> int result" where
  "valid_sequence v =
     (case plain_int v of
        None \<Rightarrow> Inl (EventValidationError ''sequence_number must be a non-negative integer'')
      | Some n \<Rightarrow> if n < 0
          then Inl (EventValidationError ''sequence_number must be a non-negative integer'')
          else Inr n)"

text \<open>The string the identifier digests.\<close>

definition event_identity :: "runtime \<Rightarrow> string \<Rightarrow> string \<Rightarrow> string \<Rightarrow> int \<Rightarrow> string \<Rightarrow> string \<Rightarrow>
    int \<Rightarrow> string" where
  "event_identity rt src stream transport n symb typ exchange =
     join_with ''|'' [src, stream, transport, show_int n, symb, typ, isoformat rt exchange]"

definition accepted_transport :: "string \<Rightarrow> string result" where
  "accepted_transport transport =
     (let t = norm_name transport in
      if t \<notin> {''TCP'', ''TLS'', ''MULTICAST''}
      then Inl (EventValidationError ''transport must be TCP, TLS, or MULTICAST'')
      else Inr t)"

definition stream_name :: "payload \<Rightarrow> string \<Rightarrow> string result" where
  "stream_name payload source =
     (case nonblank_str (dict_get (PStr source) payload ''stream_id'') of
        None \<Rightarrow> Inl (EventValidationError ''stream_id must be a non-empty string'')
      | Some s \<Rightarrow> Inr (norm_name s))"

definition resolve_event_id :: "runtime \<Rightarrow> payload \<Rightarrow> string \<Rightarrow> string result" where
  "resolve_event_id rt payload identity =
     (let v = dict_get PNone payload ''event_id'';
          event_id = (if v = PNone then uuid5 rt identity else py_strip (py_str rt v)) in
      if event_id = []
      then Inl (EventValidationError ''event_id must be non-empty when supplied'')
      else Inr event_id)"

definition resolve_correlation_id :: "runtime \<Rightarrow> payload \<Rightarrow> string \<Rightarrow> string result" where
  "resolve_correlation_id rt payload event_id =
     (let c = py_strip (py_str rt (dict_get (PStr event_id) payload ''correlation_id'')) in
      if c = [] then Inl (EventValidationError ''correlation_id must be non-empty when supplied'')
      else Inr c)"

definition from_mapping :: "runtime \<Rightarrow> payload \<Rightarrow> string \<Rightarrow> datetime option \<Rightarrow>
    market_event result" where
  "from_mapping rt payload transport received_at =
     (if missing_keys required_fields payload \<noteq> []
      then Inl (EventValidationError ''Market event is missing fields'')
      else
      bind_res (valid_sequence (dict_get PNone payload ''sequence_number'')) (\<lambda>sequence.
      bind_res (required_name payload ''source'') (\<lambda>source.
      bind_res (required_name payload ''symbol'') (\<lambda>symbol.
      bind_res (required_name payload ''event_type'') (\<lambda>event_type.
      bind_res (accepted_transport transport) (\<lambda>transport'.
      bind_res (stream_name payload source) (\<lambda>stream.
      bind_res (utc_datetime rt (dict_get PNone payload ''exchange_timestamp'') ''exchange_timestamp'')
        (\<lambda>exchange.
      bind_res (utc_datetime rt (PTime (case received_at of None \<Rightarrow> Datetime (now_us rt) (Some 0)
                                                         | Some d \<Rightarrow> d)) ''received_timestamp'')
        (\<lambda>received.
      if received < exchange
      then Inl (EventValidationError ''received_timestamp cannot precede exchange_timestamp'')
      else
      bind_res (resolve_event_id rt payload
          (event_identity rt source stream transport' sequence symbol event_type exchange)) (\<lambda>event_id.
      bind_res (resolve_correlation_id rt payload event_id) (\<lambda>correlation_id.
      bind_res (positive_number (dict_get PNone payload ''price'') ''price'' False) (\<lambda>price.
      bind_res (positive_number (dict_get PNone payload ''quantity'') ''quantity'' True) (\<lambda>quantity.
      Inr \<lparr>ev_event_id = event_id, ev_source = source, ev_stream_id = stream,
           ev_transport = transport', ev_sequence_number = sequence, ev_symbol = symbol,
           ev_event_type = event_type, ev_price = price, ev_quantity = quantity,
           ev_exchange_timestamp = exchange, ev_received_timestamp = received,
           ev_correlation_id = correlation_id\<rparr>)))))))))))))"

definition latency_ms :: "market_event \<Rightarrow> pyfloat" where
  "latency_ms e = round_nd 3 (elapsed_ms (ev_exchange_timestamp e) (ev_received_timestamp e))"

definition as_dict :: "runtime \<Rightarrow> market_event \<Rightarrow> payload" where
  "as_dict rt e =
     [(''event_id'', PStr (ev_event_id e)), (''source'', PStr (ev_source e)),
      (''stream_id'', PStr (ev_stream_id e)), (''transport'', PStr (ev_transport e)),
      (''sequence_number'', PInt (ev_sequence_number e)), (''symbol'', PStr (ev_symbol e)),
      (''event_type'', PStr (ev_event_type e)), (''price'', PFloat (ev_price e)),
      (''quantity'', PFloat (ev_quantity e)),
      (''exchange_timestamp'', PStr (isoformat rt (ev_exchange_timestamp e))),
      (''received_timestamp'', PStr (isoformat rt (ev_received_timestamp e))),
      (''correlation_id'', PStr (ev_correlation_id e)),
      (''latency_ms'', PFloat (latency_ms e))]"

definition sequence_statuses :: "string list" where
  "sequence_statuses = [''FIRST'', ''IN_ORDER'', ''GAP'', ''DUPLICATE'', ''REORDERED'']"

fun status_name :: "seq_status \<Rightarrow> string" where
  "status_name FIRST = ''FIRST''"
| "status_name IN_ORDER = ''IN_ORDER''"
| "status_name GAP = ''GAP''"
| "status_name DUPLICATE = ''DUPLICATE''"
| "status_name REORDERED = ''REORDERED''"

definition as_journal_event :: "runtime \<Rightarrow> market_event \<Rightarrow> string \<Rightarrow> string \<Rightarrow> int option \<Rightarrow> int \<Rightarrow>
    payload result" where
  "as_journal_event rt e seq_st reason expected missing =
     (if seq_st \<notin> set sequence_statuses then Inl (ValueError ''Unsupported sequence status'')
      else Inr
       [(''event_id'', PStr (ev_event_id e)), (''sequence_number'', PInt (ev_sequence_number e)),
        (''sequence_status'', PStr seq_st), (''transport'', PStr (ev_transport e)),
        (''source'', PStr (ev_source e)), (''stream_id'', PStr (ev_stream_id e)),
        (''event_type'', PStr (ev_event_type e)), (''quantity'', PFloat (ev_quantity e)),
        (''correlation_id'', PStr (ev_correlation_id e)),
        (''expected_sequence'', (case expected of None \<Rightarrow> PNone | Some n \<Rightarrow> PInt n)),
        (''missing_count'', PInt missing), (''symbol'', PStr (ev_symbol e)),
        (''price'', PFloat (ev_price e)),
        (''exchange_timestamp'', PStr (isoformat rt (ev_exchange_timestamp e))),
        (''received_timestamp'', PStr (isoformat rt (ev_received_timestamp e))),
        (''latency_ms'', PFloat (latency_ms e)), (''pct_change'', PNone),
        (''is_anomaly'', PBool False), (''reason'', PStr reason)])"

definition decode_event :: "runtime \<Rightarrow> bytes \<Rightarrow> string \<Rightarrow> market_event result" where
  "decode_event rt frame transport =
     (case json_loads rt frame of
        None \<Rightarrow> Inl (FrameError ''Network frame must contain one UTF-8 JSON object'')
      | Some (PDict payload) \<Rightarrow> from_mapping rt payload transport None
      | Some _ \<Rightarrow> Inl (FrameError ''Network frame JSON must be an object''))"

definition show_expected :: "int option \<Rightarrow> string" where
  "show_expected e = (case e of None \<Rightarrow> ''None'' | Some n \<Rightarrow> show_int n)"

definition sequence_reason :: "market_event \<Rightarrow> observation \<Rightarrow> string" where
  "sequence_reason e ob =
     (if status ob = GAP
      then ''Missing '' @ show_int (missing_count ob) @ '' event(s) before vendor sequence ''
           @ show_int (ev_sequence_number e) @ ''; expected '' @ show_expected (expected_sequence ob)
      else if status ob = DUPLICATE
      then ''Duplicate vendor sequence '' @ show_int (ev_sequence_number e)
      else if status ob = REORDERED
      then ''Reordered vendor sequence '' @ show_int (ev_sequence_number e)
           @ ''; next expected was '' @ show_expected (expected_sequence ob)
      else ''Vendor sequence '' @ show_int (ev_sequence_number e) @ '' classified ''
           @ status_name (status ob))"

subsection \<open>The invariant of a validated event\<close>

definition named :: "string \<Rightarrow> bool" where
  "named s \<longleftrightarrow> s \<noteq> [] \<and> norm_name s = s"

definition event_ok :: "market_event \<Rightarrow> bool" where
  "event_ok e \<longleftrightarrow>
     ev_event_id e \<noteq> [] \<and> ev_correlation_id e \<noteq> [] \<and>
     named (ev_source e) \<and> named (ev_stream_id e) \<and> named (ev_symbol e) \<and>
     named (ev_event_type e) \<and> ev_transport e \<in> {''TCP'', ''TLS'', ''MULTICAST''} \<and>
     0 \<le> ev_sequence_number e \<and>
     (\<exists>p. ev_price e = Fin p \<and> 0 < p) \<and> (\<exists>q. ev_quantity e = Fin q \<and> 0 \<le> q) \<and>
     ev_exchange_timestamp e \<le> ev_received_timestamp e"

lemma named_norm_name: "py_strip s \<noteq> [] \<Longrightarrow> named (norm_name s)"
  by (simp add: named_def)

lemma required_name_Inr: "required_name p f = Inr s \<Longrightarrow> named s"
  by (auto simp: required_name_def nonblank_str_Some named_norm_name split: option.splits)

lemma valid_sequence_Inr: "valid_sequence v = Inr n \<Longrightarrow> v = PInt n \<and> 0 \<le> n"
  by (auto simp: valid_sequence_def split: option.splits if_splits)

lemma positive_number_Inr:
  "positive_number v f z = Inr x \<Longrightarrow> \<exists>r. x = Fin r \<and> 0 \<le> r \<and> (z \<or> 0 < r)"
  by (cases x) (auto simp: positive_number_def res_simps)

lemma numeric_value_Inl: "numeric_value e v = Inl e' \<Longrightarrow> e' = e \<or> e' = OverflowError"
  by (cases v) (auto simp: float_of_int_def split: pyfloat.splits)

definition validation_error :: "exn \<Rightarrow> bool" where
  "validation_error e = (case e of EventValidationError m \<Rightarrow> True | _ \<Rightarrow> False)"

lemma validation_error_simps [simp]:
  "validation_error (EventValidationError m)" "\<not> validation_error (FrameError m)"
  "\<not> validation_error OverflowError" "\<not> validation_error (ValueError m)"
  by (simp_all add: validation_error_def)

lemma positive_number_Inl:
  "positive_number v f z = Inl e \<Longrightarrow> validation_error e \<or> e = OverflowError"
  by (auto simp: positive_number_def res_simps split: if_splits dest!: numeric_value_Inl)

lemma utc_datetime_Inl: "utc_datetime rt v f = Inl e \<Longrightarrow> validation_error e"
  by (cases v) (auto simp: utc_datetime_def res_simps split: option.splits)

lemma required_name_Inl: "required_name p f = Inl e \<Longrightarrow> validation_error e"
  by (auto simp: required_name_def split: option.splits)

lemma valid_sequence_Inl: "valid_sequence v = Inl e \<Longrightarrow> validation_error e"
  by (auto simp: valid_sequence_def split: option.splits if_splits)

lemma round_nd_nonneg: "fle (Fin 0) x \<Longrightarrow> fle (Fin 0) (round_nd n x)"
proof (cases x)
  case (Fin r)
  assume "fle (Fin 0) x"
  with Fin have "rne 0 \<le> rne (r * 10 ^ n)" by (intro rne_mono) simp
  then have "0 \<le> rne (r * 10 ^ n)" using rne_of_int [of 0] by simp
  with Fin show ?thesis by (simp add: fl_nonneg)
qed auto

lemma accepted_transport_Inr:
  "accepted_transport t = Inr u \<Longrightarrow> u \<in> {''TCP'', ''TLS'', ''MULTICAST''}"
  by (auto simp: accepted_transport_def Let_def split: if_splits)

lemma accepted_transport_Inl: "accepted_transport t = Inl e \<Longrightarrow> validation_error e"
  by (auto simp: accepted_transport_def Let_def split: if_splits)

lemma stream_name_Inr: "stream_name p s = Inr u \<Longrightarrow> named u"
  by (auto simp: stream_name_def nonblank_str_Some named_norm_name split: option.splits)

lemma stream_name_Inl: "stream_name p s = Inl e \<Longrightarrow> validation_error e"
  by (auto simp: stream_name_def split: option.splits)

lemma resolve_ids_Inr:
  "resolve_event_id rt p i = Inr u \<Longrightarrow> u \<noteq> []"
  "resolve_correlation_id rt p i = Inr u \<Longrightarrow> u \<noteq> []"
  by (auto simp: resolve_event_id_def resolve_correlation_id_def Let_def split: if_splits)

lemma resolve_ids_Inl:
  "resolve_event_id rt p i = Inl e \<Longrightarrow> validation_error e"
  "resolve_correlation_id rt p i = Inl e \<Longrightarrow> validation_error e"
  by (auto simp: resolve_event_id_def resolve_correlation_id_def Let_def split: if_splits)

lemmas validation_Inl = valid_sequence_Inl required_name_Inl accepted_transport_Inl stream_name_Inl
  utc_datetime_Inl resolve_ids_Inl

lemmas from_mapping_unfold = from_mapping_def required_name_def valid_sequence_def
  accepted_transport_def stream_name_def resolve_event_id_def resolve_correlation_id_def
  utc_datetime_def missing_keys_def required_fields_def utc_us_def dict_get_def

lemma status_name_known: "status_name st \<in> set sequence_statuses"
  by (cases st) (simp_all add: sequence_statuses_def)

subsection \<open>Example values\<close>

text \<open>A payload and a run-time environment on which the theorems are applied.\<close>

definition sample_payload :: payload where
  "sample_payload = [(''source'', PStr '' nyse''), (''sequence_number'', PInt 7),
     (''symbol'', PStr ''aapl ''), (''event_type'', PStr ''trade''), (''price'', PInt 101),
     (''quantity'', PInt 0), (''exchange_timestamp'', PTime (Datetime 1000 (Some 0)))]"

lemma from_mapping_valid:
  assumes "from_mapping rt payload transport received_at = Inr e"
  shows "event_ok e \<and> map_of payload ''sequence_number'' = Some (PInt (ev_sequence_number e))"
proof -
  from assms have m: "map_of payload ''sequence_number'' \<noteq> None"
    by (auto simp: from_mapping_def missing_keys_Nil required_fields_def split: if_splits)
  from assms obtain sequence source symbol event_type tr stream exchange received event_id
      correlation_id price quantity where
    seq: "valid_sequence (dict_get PNone payload ''sequence_number'') = Inr sequence"
    and names: "required_name payload ''source'' = Inr source"
      "required_name payload ''symbol'' = Inr symbol"
      "required_name payload ''event_type'' = Inr event_type"
      "accepted_transport transport = Inr tr" "stream_name payload source = Inr stream"
    and order: "exchange \<le> received"
    and ids: "resolve_event_id rt payload
        (event_identity rt source stream tr sequence symbol event_type exchange) = Inr event_id"
      "resolve_correlation_id rt payload event_id = Inr correlation_id"
    and price: "positive_number (dict_get PNone payload ''price'') ''price'' False = Inr price"
    and quantity: "positive_number (dict_get PNone payload ''quantity'') ''quantity'' True = Inr quantity"
    and e: "e = \<lparr>ev_event_id = event_id, ev_source = source, ev_stream_id = stream,
           ev_transport = tr, ev_sequence_number = sequence, ev_symbol = symbol,
           ev_event_type = event_type, ev_price = price, ev_quantity = quantity,
           ev_exchange_timestamp = exchange, ev_received_timestamp = received,
           ev_correlation_id = correlation_id\<rparr>"
    unfolding from_mapping_def res_simps by (auto simp: res_simps not_less)
  have "event_ok e"
    using valid_sequence_Inr [OF seq] names(1-3) [THEN required_name_Inr] order
      resolve_ids_Inr(1) [OF ids(1)] resolve_ids_Inr(2) [OF ids(2)]
      accepted_transport_Inr [OF names(4)] stream_name_Inr [OF names(5)]
      positive_number_Inr [OF price] positive_number_Inr [OF quantity]
    by (auto simp: event_ok_def e)
  with m valid_sequence_Inr [OF seq] show ?thesis by (auto simp: dict_get_def e)
qed

lemma decode_event_valid: "decode_event rt frame transport = Inr e \<Longrightarrow> event_ok e"
  using from_mapping_valid by (auto simp: decode_event_def split: option.splits pyval.splits)

subsection \<open>Properties\<close>

text \<open>An event that validation accepts satisfies the event invariant:
  non-blank names in normal form, an accepted transport, a non-negative sequence number, a finite
  positive price, a finite non-negative quantity and a receive time not before the exchange time,
  with the sequence number being exactly the payload's.\<close>

theorem from_mapping_event_ok:
  assumes "from_mapping rt payload transport received_at = Inr e"
  shows "event_ok e \<and> map_of payload ''sequence_number'' = Some (PInt (ev_sequence_number e))"
  by (rule from_mapping_valid [OF assms])

theorem from_mapping_event_ok_witness:
  "\<exists>e. from_mapping sample_runtime sample_payload ''tcp'' None = Inr e \<and> event_ok e
     \<and> ev_symbol e = ''AAPL''"
proof -
  have n: "norm_name ''tcp'' = ''TCP''" "norm_name '' nyse'' = ''NYSE''" "norm_name ''aapl '' = ''AAPL''"
    "norm_name ''trade'' = ''TRADE''" "norm_name ''NYSE'' = ''NYSE''"
    "py_strip '' nyse'' \<noteq> []" "py_strip ''NYSE'' \<noteq> []" "py_strip ''aapl '' \<noteq> []" "py_strip ''trade'' \<noteq> []"
    by code_simp+
  have i: "py_strip (CHR ''i'' # s) \<noteq> []" for s
    by (simp add: py_strip_def py_lstrip_def py_space_def)
  obtain e where c: "from_mapping sample_runtime sample_payload ''tcp'' None = Inr e"
      "ev_symbol e = ''AAPL''"
    using n i by (simp add: sample_runtime_def sample_payload_def from_mapping_unfold
        positive_number_def fl_simps)
  from from_mapping_event_ok [OF c(1)] c show ?thesis by blast
qed

text \<open>A payload is rejected only by an \<open>EventValidationError\<close> or, when
  an integer price or quantity is too large for a float, by Python's \<open>OverflowError\<close>.\<close>

theorem from_mapping_errors:
  assumes "from_mapping rt payload transport received_at = Inl e"
  shows "validation_error e \<or> e = OverflowError"
  using assms unfolding from_mapping_def
  by (auto simp: res_simps dest: positive_number_Inl validation_Inl split: if_splits)

theorem from_mapping_errors_witness:
  "\<exists>e. from_mapping sample_runtime [] ''tcp'' None = Inl e \<and> validation_error e"
proof -
  have c: "from_mapping sample_runtime [] ''tcp'' None
      = Inl (EventValidationError ''Market event is missing fields'')" by code_simp
  from from_mapping_errors [OF c] c show ?thesis by auto
qed

text \<open>The second case of the previous property does occur: a decoded
  frame whose integer price is \<open>10 ^ 400\<close> raises \<open>OverflowError\<close>, which is neither a frame nor
  a validation error, so no handler of the transports catches it.\<close>

theorem huge_price_overflows:
  assumes "json_loads rt frame = Some (PDict
      ((''source'', PStr ''N'') # (''sequence_number'', PInt 1) # (''symbol'', PStr ''A'') #
       (''event_type'', PStr ''T'') # (''price'', PInt (10 ^ 400)) # (''quantity'', PInt 1) #
       (''exchange_timestamp'', PTime (Datetime 0 (Some 0))) # [(''event_id'', PStr ''e'')]))"
    and "0 \<le> now_us rt"
  shows "decode_event rt frame ''TCP'' = Inl OverflowError"
proof -
  have big: "(2 ^ 1024 :: rat) \<le> 10 ^ 400"
  proof -
    have "(2 ^ 1024 :: rat) \<le> 2 ^ 1200" by (rule power_increasing) auto
    also have "\<dots> = (2 ^ 3) ^ 400" by (simp only: power_mult [symmetric]) simp
    also have "\<dots> \<le> 10 ^ 400" by (rule power_mono) auto
    finally show ?thesis .
  qed
  have "fl_round (2 ^ 1024) = 2 ^ 1024" using fl_round_exact [of 1 1024] by (simp add: power_int_def)
  with b64.mono [OF big] have "fl (10 ^ 400) = PInf" by (simp add: fl_def)
  then have "float_of_int (10 ^ 400) = Inl OverflowError"
    by (simp only: float_of_int_def of_int_power of_int_numeral pyfloat.case)
  then have p: "positive_number (PInt (10 ^ 400)) ''price'' False = Inl OverflowError"
    by (simp only: positive_number_def numeric_value.simps bind_res.simps)
  have n: "norm_name ''TCP'' = ''TCP''" "norm_name ''N'' = ''N''" "norm_name ''A'' = ''A''"
    "norm_name ''T'' = ''T''" "py_strip ''e'' = ''e''" "py_strip ''N'' \<noteq> []"
    "py_strip ''A'' \<noteq> []" "py_strip ''T'' \<noteq> []"
    by code_simp+
  show ?thesis
    using p assms n
    by (simp add: decode_event_def from_mapping_unfold)
qed

theorem huge_price_overflows_witness:
  "decode_event (sample_runtime\<lparr>json_loads := (\<lambda>b. Some (PDict
      [(''source'', PStr ''N''), (''sequence_number'', PInt 1), (''symbol'', PStr ''A''),
       (''event_type'', PStr ''T''), (''price'', PInt (10 ^ 400)), (''quantity'', PInt 1),
       (''exchange_timestamp'', PTime (Datetime 0 (Some 0))), (''event_id'', PStr ''e'')]))\<rparr>)
     [123] ''TCP'' = Inl OverflowError"
  by (rule huge_price_overflows) (simp_all add: sample_runtime_def)

text \<open>As long as no field contains the separator, two events have the same
  identity string only if they agree in source, stream, transport, sequence number, symbol, type
  and exchange time, so (given a collision-free digest) they get the same identifier only then.\<close>

theorem identity_injective:
  assumes "event_identity rt s st tr n sy ty x = event_identity rt s' st' tr' n' sy' ty' x'"
    and "\<forall>w\<in>{s, st, tr, sy, ty, s', st', tr', sy', ty'}. CHR ''|'' \<notin> set w"
    and "\<forall>u. CHR ''|'' \<notin> set (isoformat rt u)" and "inj (isoformat rt)"
  shows "(s, st, tr, n, sy, ty, x) = (s', st', tr', n', sy', ty', x')"
proof -
  have d: "CHR ''|'' \<notin> set (show_int i)" for i
    using show_nat_digits [of "nat i"] show_nat_digits [of "nat (- i)"]
    by (auto simp: show_int_def list_all_iff is_digit_def)
  have "[s, st, tr, show_int n, sy, ty, isoformat rt x]
      = [s', st', tr', show_int n', sy', ty', isoformat rt x']"
    by (rule join_with_inject [OF assms(1) [unfolded event_identity_def]])
      (use assms(2,3) d in auto)
  with assms(4) show ?thesis by (auto dest: injD)
qed

theorem identity_injective_witness:
  "(''N'', ''S'', ''TCP'', 3 :: int, ''A'', ''T'', 9 :: int) = (''N'', ''S'', ''TCP'', 3, ''A'', ''T'', 9)
    \<and> event_identity sample_runtime ''N'' ''S'' ''TCP'' 3 ''A'' ''T'' 9 = ''N|S|TCP|3|A|T|9''"
proof -
  have d: "CHR ''|'' \<notin> set (show_int i)" for i
    using show_nat_digits [of "nat i"] show_nat_digits [of "nat (- i)"]
    by (auto simp: show_int_def list_all_iff is_digit_def)
  have "(''N'', ''S'', ''TCP'', 3 :: int, ''A'', ''T'', 9 :: int) = (''N'', ''S'', ''TCP'', 3, ''A'', ''T'', 9)"
    by (rule identity_injective [of sample_runtime])
      (use d in \<open>auto simp: sample_runtime_def inj_on_def\<close>)
  moreover have "event_identity sample_runtime ''N'' ''S'' ''TCP'' 3 ''A'' ''T'' 9 = ''N|S|TCP|3|A|T|9''"
    by code_simp
  ultimately show ?thesis by blast
qed

definition pipe_payload :: "string \<Rightarrow> string \<Rightarrow> payload" where
  "pipe_payload src stream = [(''source'', PStr src), (''sequence_number'', PInt 1),
     (''symbol'', PStr ''X''), (''event_type'', PStr ''T''), (''price'', PFloat (Fin 1)),
     (''quantity'', PFloat (Fin 1)), (''exchange_timestamp'', PTime (Datetime 0 (Some 0))),
     (''stream_id'', PStr stream), (''correlation_id'', PStr ''c'')]"

text \<open>Validation does not exclude the separator, so two events of
  different sources can share an identifier, whatever the digest: the payload of source
  \<open>A|B\<close>, stream \<open>C\<close> and the payload of source \<open>A\<close>, stream \<open>B|C\<close> are both accepted
  with one event id, and the journal will take the second for a repetition of the first.\<close>

theorem separator_collision:
  assumes "\<forall>s. uuid5 rt s \<noteq> []" and "0 \<le> now_us rt"
  shows "\<exists>e1 e2. from_mapping rt (pipe_payload ''A|B'' ''C'') ''TCP'' None = Inr e1
     \<and> from_mapping rt (pipe_payload ''A'' ''B|C'') ''TCP'' None = Inr e2
     \<and> ev_event_id e1 = ev_event_id e2 \<and> ev_source e1 \<noteq> ev_source e2"
proof -
  have n: "norm_name ''TCP'' = ''TCP''" "norm_name ''A|B'' = ''A|B''" "norm_name ''C'' = ''C''"
    "norm_name ''A'' = ''A''" "norm_name ''B|C'' = ''B|C''" "norm_name ''X'' = ''X''"
    "norm_name ''T'' = ''T''" "py_strip ''A|B'' \<noteq> []" "py_strip ''C'' \<noteq> []" "py_strip ''A'' \<noteq> []"
    "py_strip ''B|C'' \<noteq> []" "py_strip ''X'' \<noteq> []" "py_strip ''T'' \<noteq> []" "py_strip ''c'' = ''c''"
    by code_simp+
  show ?thesis
    using assms n
    by (simp add: pipe_payload_def from_mapping_unfold positive_number_def event_identity_def)
qed

theorem separator_collision_witness:
  "\<exists>e1 e2. from_mapping sample_runtime (pipe_payload ''A|B'' ''C'') ''TCP'' None = Inr e1
     \<and> from_mapping sample_runtime (pipe_payload ''A'' ''B|C'') ''TCP'' None = Inr e2
     \<and> ev_event_id e1 = ev_event_id e2 \<and> ev_source e1 \<noteq> ev_source e2"
  by (rule separator_collision) (simp_all add: sample_runtime_def)

end
