(* ===== verification/Ticks.thy ===== *)
theory Ticks
  imports Market_Event
begin

section \<open>The simulated tick feed\<close>

text \<open>
  \<open>realtime/__init__.py\<close>, \<open>publisher.py\<close> and \<open>subscriber.py\<close>.  The environment is a map of its
  variables after the env file was read; a ZeroMQ socket is the list of what its receive calls
  deliver.  A loop without a count ends with the list, which is the keyboard interrupt.
\<close>

subsection \<open>Endpoints\<close>

type_synonym environment = "string \<Rightarrow> string option"

definition env_get :: "environment \<Rightarrow> string \<Rightarrow> string \<Rightarrow> string" where
  "env_get env name dflt = (case env name of None \<Rightarrow> dflt | Some v \<Rightarrow> v)"

definition get_endpoint :: "environment \<Rightarrow> string result" where
  "get_endpoint env =
     (let e = py_strip (env_get env ''REALTIME_ZMQ_ENDPOINT'' ''tcp://127.0.0.1:5555'') in
      if e = [] then Inl (ValueError ''REALTIME_ZMQ_ENDPOINT cannot be empty'') else Inr e)"

definition get_scored_endpoint :: "environment \<Rightarrow> string result" where
  "get_scored_endpoint env =
     (let e = py_strip (env_get env ''REALTIME_SCORED_ZMQ_ENDPOINT'' ''tcp://127.0.0.1:5556'') in
      if e = [] then Inl (ValueError ''REALTIME_SCORED_ZMQ_ENDPOINT cannot be empty'') else Inr e)"

definition local_prefixes :: "string list" where
  "local_prefixes = [''tcp://127.0.0.1:'', ''tcp://localhost:'', ''tcp://[::1]:'', ''ipc://'', ''inproc://'']"

definition validate_local_endpoint :: "string \<Rightarrow> string result" where
  "validate_local_endpoint e =
     (if list_ex (\<lambda>p. starts_with p e) local_prefixes then Inr e
      else Inl (ValueError ''The real-time endpoint must use loopback TCP, IPC, or in-process transport''))"

subsection \<open>Creating and validating ticks\<close>

definition tick_fields :: "string list" where
  "tick_fields = [''symbol'', ''price'', ''exchange_timestamp'', ''received_timestamp'', ''latency_ms'']"

text \<open>\<open>_utc_datetime\<close> of the publisher, and the price test.\<close>

definition aware_utc :: "datetime \<Rightarrow> string \<Rightarrow> int result" where
  "aware_utc d field = (case utc_us d of
     None \<Rightarrow> Inl (ValueError (field @ '' must be timezone-aware'')) | Some t \<Rightarrow> Inr t)"

definition tick_price :: "runtime \<Rightarrow> pyval \<Rightarrow> pyfloat result" where
  "tick_price rt v =
     (let err = ValueError ''price must be a positive finite number'' in
      case v of
        PBool b \<Rightarrow> Inl err
      | _ \<Rightarrow> bind_res
          (case v of
             PStr s \<Rightarrow> (case float_of_str rt s of
                 None \<Rightarrow> Inl (ValueError ''could not convert string to float'') | Some x \<Rightarrow> Inr x)
           | _ \<Rightarrow> numeric_value (TypeError ''float() argument must be a string or a real number'') v)
          (\<lambda>x. if \<not> is_finite x \<or> fle x (Fin 0) then Inl err else Inr x))"

definition create_tick :: "runtime \<Rightarrow> pyval \<Rightarrow> pyval \<Rightarrow> datetime \<Rightarrow> datetime option \<Rightarrow> payload result" where
  "create_tick rt symb price exchange received =
     (case nonblank_str symb of
        None \<Rightarrow> Inl (ValueError ''symbol must be a non-empty string'')
      | Some s \<Rightarrow>
      bind_res (tick_price rt price) (\<lambda>p.
      bind_res (aware_utc exchange ''exchange_timestamp'') (\<lambda>ex.
      bind_res (aware_utc (case received of None \<Rightarrow> Datetime (now_us rt) (Some 0) | Some d \<Rightarrow> d)
                  ''received_timestamp'') (\<lambda>rc.
      let latency = elapsed_ms ex rc in
      if flt latency (Fin 0)
      then Inl (ValueError ''received_timestamp cannot be before exchange_timestamp'')
      else Inr [(''symbol'', PStr (norm_name s)), (''price'', PFloat p),
                (''exchange_timestamp'', PStr (isoformat rt ex)),
                (''received_timestamp'', PStr (isoformat rt rc)),
                (''latency_ms'', PFloat (round_nd 3 latency))]))))"

definition parse_utc_timestamp :: "runtime \<Rightarrow> pyval \<Rightarrow> string \<Rightarrow> int result" where
  "parse_utc_timestamp rt v field =
     (case v of
        PStr s \<Rightarrow> (case fromisoformat rt (replace_z s) of
            None \<Rightarrow> Inl (ValueError (field @ '' must be a valid ISO-8601 timestamp''))
          | Some d \<Rightarrow> (if offset_us d = Some 0 then Inr (clock_us d)
                       else Inl (ValueError (field @ '' must be timezone-aware UTC''))))
      | _ \<Rightarrow> Inl (ValueError (field @ '' must be an ISO-8601 string'')))"

text \<open>\<open>math.isclose(a, b, abs_tol=0.001)\<close> with the default relative tolerance.\<close>

definition isclose :: "pyfloat \<Rightarrow> pyfloat \<Rightarrow> bool" where
  "isclose a b = (a = b \<or>
     (is_finite a \<and> is_finite b \<and>
      (let diff = fabs (fsub b a); rel = fl (1 / 10 ^ 9) in
       fle diff (fabs (fmul rel b)) \<or> fle diff (fabs (fmul rel a)) \<or> fle diff (fl (1 / 1000)))))"

definition finite_number :: "pyval \<Rightarrow> string \<Rightarrow> pyfloat result" where
  "finite_number v field = bind_res (numeric_value (ValueError (field @ '' must be numeric'')) v) (\<lambda>x.
     if is_finite x then Inr x else Inl (ValueError (field @ '' must be finite'')))"

definition exact_fields :: "string list \<Rightarrow> payload \<Rightarrow> bool" where
  "exact_fields req p \<longleftrightarrow> set (map fst p) = set req"

definition validate_tick :: "runtime \<Rightarrow> pyval \<Rightarrow> payload result" where
  "validate_tick rt message =
     (case message of
        PDict m \<Rightarrow>
          if \<not> exact_fields tick_fields m then Inl (ValueError ''tick fields must be exactly'')
          else if nonblank_str (dict_get PNone m ''symbol'') = None
          then Inl (ValueError ''symbol must be a non-empty string'')
          else
          bind_res (finite_number (dict_get PNone m ''price'') ''price'') (\<lambda>price.
          bind_res (finite_number (dict_get PNone m ''latency_ms'') ''latency_ms'') (\<lambda>latency.
          if fle price (Fin 0) then Inl (ValueError ''price must be positive'')
          else if flt latency (Fin 0) then Inl (ValueError ''latency_ms must be non-negative'')
          else
          bind_res (parse_utc_timestamp rt (dict_get PNone m ''exchange_timestamp'') ''exchange_timestamp'')
            (\<lambda>ex.
          bind_res (parse_utc_timestamp rt (dict_get PNone m ''received_timestamp'') ''received_timestamp'')
            (\<lambda>rc.
          let calculated = elapsed_ms ex rc in
          if flt calculated (Fin 0) \<or> \<not> isclose calculated latency
          then Inl (ValueError ''latency_ms does not match the message timestamps'')
          else Inr m))))
      | _ \<Rightarrow> Inl (ValueError ''tick fields must be exactly''))"

subsection \<open>The publisher\<close>

definition simulated_prices :: "rat list" where
  "simulated_prices = [100, 10005 / 100, 9998 / 100, 10012 / 100, 10008 / 100]"

definition simulated_price :: "nat \<Rightarrow> pyfloat" where
  "simulated_price i = fl (simulated_prices ! (i mod length simulated_prices))"

record publication =
  sent :: "payload list"
  slept :: "pyfloat list"

text \<open>One instant per iteration; the end of the list is the keyboard interrupt.\<close>

fun publish_loop :: "runtime \<Rightarrow> pyval \<Rightarrow> pyfloat \<Rightarrow> nat option \<Rightarrow> nat \<Rightarrow> int list \<Rightarrow> publication \<Rightarrow>
    (nat \<times> publication) result" where
  "publish_loop rt symb interval limit published instants p =
     (if (case limit of None \<Rightarrow> False | Some c \<Rightarrow> published \<ge> c) then Inr (published, p)
      else case instants of
        [] \<Rightarrow> Inr (published, p)
      | now # later \<Rightarrow>
          bind_res (create_tick rt symb (PFloat (simulated_price published))
                      (Datetime (now - 5000) (Some 0)) (Some (Datetime now (Some 0)))) (\<lambda>tick.
          let published' = Suc published;
              p' = p\<lparr>sent := sent p @ [tick]\<rparr>;
              p'' = (if (case limit of None \<Rightarrow> True | Some c \<Rightarrow> published' < c)
                     then p'\<lparr>slept := slept p' @ [interval]\<rparr> else p')
          in publish_loop rt symb interval limit published' later p''))"

declare publish_loop.simps [simp del]

definition publish_simulated_ticks :: "runtime \<Rightarrow> string \<Rightarrow> pyval \<Rightarrow> pyfloat \<Rightarrow> int option \<Rightarrow> pyfloat \<Rightarrow>
    int list \<Rightarrow> (nat \<times> publication) result" where
  "publish_simulated_ticks rt endpoint symb interval limit startup instants =
     bind_res (validate_local_endpoint endpoint) (\<lambda>_.
     if (case limit of None \<Rightarrow> False | Some c \<Rightarrow> c < 0)
     then Inl (ValueError ''count must be non-negative or None'')
     else if flt interval (Fin 0) \<or> flt startup (Fin 0)
     then Inl (ValueError ''timing values must be non-negative'')
     else publish_loop rt symb interval (map_option nat limit) 0 instants
            \<lparr>sent = [], slept = [startup]\<rparr>)"

subsection \<open>The subscriber\<close>

datatype socket_event = Message pyval | Again | Interrupt

fun receive_ticks_loop :: "runtime \<Rightarrow> nat option \<Rightarrow> nat \<Rightarrow> payload list \<Rightarrow> socket_event list \<Rightarrow>
    payload list result" where
  "receive_ticks_loop rt limit n received events =
     (if (case limit of None \<Rightarrow> False | Some c \<Rightarrow> n \<ge> c) then Inr received
      else case events of
        [] \<Rightarrow> Inl WouldBlock
      | Interrupt # es \<Rightarrow> Inr received
      | Again # es \<Rightarrow> Inl (TimeoutError ''Timed out waiting for a real-time tick'')
      | Message m # es \<Rightarrow> bind_res (validate_tick rt m) (\<lambda>tick.
          receive_ticks_loop rt limit (Suc n) (if limit = None then received else received @ [tick]) es))"

declare receive_ticks_loop.simps [simp del]

definition receive_ticks :: "runtime \<Rightarrow> string \<Rightarrow> int option \<Rightarrow> int option \<Rightarrow> socket_event list \<Rightarrow>
    payload list result" where
  "receive_ticks rt endpoint limit timeout_ms events =
     bind_res (validate_local_endpoint endpoint) (\<lambda>_.
     if (case limit of None \<Rightarrow> False | Some c \<Rightarrow> c < 0)
     then Inl (ValueError ''count must be non-negative or None'')
     else if (case timeout_ms of None \<Rightarrow> False | Some t \<Rightarrow> t < 0)
     then Inl (ValueError ''timeout_ms must be non-negative or None'')
     else receive_ticks_loop rt (map_option nat limit) 0 [] events)"


subsection \<open>A created tick is a valid tick\<close>

text \<open>What the ISO-8601 functions of the run-time library promise for UTC instants.\<close>

definition iso_roundtrip :: "runtime \<Rightarrow> bool" where
  "iso_roundtrip rt \<longleftrightarrow> (\<forall>t. CHR ''Z'' \<notin> set (isoformat rt t) \<and>
     fromisoformat rt (isoformat rt t) = Some (Datetime t (Some 0)))"

lemma replace_z_id: "CHR ''Z'' \<notin> set s \<Longrightarrow> replace_z s = s"
  by (induction s) (auto simp: replace_z_def)

lemma parse_isoformat: "iso_roundtrip rt \<Longrightarrow> parse_utc_timestamp rt (PStr (isoformat rt t)) f = Inr t"
  by (simp add: parse_utc_timestamp_def iso_roundtrip_def replace_z_id)

text \<open>For a delay of up to ten to the fifteen microseconds (31 years) the rounding to three digits is
  within the tolerance of the comparison.\<close>

lemma latency_close:
  assumes "a \<le> b" and "b - a \<le> 10 ^ 15"
  shows "isclose (elapsed_ms a b) (round_nd 3 (elapsed_ms a b))
    \<and> is_finite (round_nd 3 (elapsed_ms a b)) \<and> fle (Fin 0) (round_nd 3 (elapsed_ms a b))
    \<and> fle (Fin 0) (elapsed_ms a b)"
proof -
  define s where "s = (of_int (b - a) / 1000000 :: rat)"
  have "(of_int (b - a) :: rat) \<le> of_int (10 ^ 15)" using assms(2) by (simp only: of_int_le_iff)
  then have s: "0 \<le> s" "s \<le> of_int (10 ^ 9)" using assms(1) by (simp_all add: s_def)
  have fs: "fl s = Fin (fl_round s)" "0 \<le> fl_round s" "fl_round s \<le> of_int (10 ^ 9)"
    using fl_bounded [OF s] by auto
  define x where "x = fl_round (fl_round s * 1000)"
  have m: "0 \<le> fl_round s * 1000" "fl_round s * 1000 \<le> of_int (10 ^ 12)" using fs by simp_all
  have x: "elapsed_ms a b = Fin x" "0 \<le> x" "x \<le> 10 ^ 12"
  proof -
    have "elapsed_ms a b = fmul (fl s) (Fin 1000)" by (simp only: elapsed_ms_def s_def)
    with fl_bounded [OF m] fs(1) show "elapsed_ms a b = Fin x" "0 \<le> x" "x \<le> 10 ^ 12"
      by (simp_all add: x_def)
  qed
  define t where "t = (of_int (rne (x * 1000)) / 1000 :: rat)"
  have tx: "\<bar>t - x\<bar> \<le> 1 / 2000"
  proof -
    have "\<bar>(t - x) * 1000\<bar> \<le> 1 / 2" using rne_close [of "x * 1000"] by (simp add: t_def left_diff_distrib)
    then have "\<bar>t - x\<bar> * 1000 \<le> 1 / 2" unfolding abs_mult by simp
    then show ?thesis by simp
  qed
  have "rne 0 \<le> rne (x * 1000)" "rne (x * 1000) \<le> rne (of_int (10 ^ 15))"
    using x by (intro rne_mono; simp)+
  then have "0 \<le> rne (x * 1000)" "rne (x * 1000) \<le> 10 ^ 15"
    using rne_of_int [of 0] rne_of_int [of "10 ^ 15"] by simp_all
  then have "(0 :: rat) \<le> of_int (rne (x * 1000))" "(of_int (rne (x * 1000)) :: rat) \<le> of_int (10 ^ 15)"
    by (simp, simp only: of_int_le_iff)
  then have t: "0 \<le> t" "t \<le> of_int (10 ^ 12)" by (simp_all add: t_def)
  have ft: "fl t = Fin (fl_round t)" "0 \<le> fl_round t" "fl_round t \<le> of_int (10 ^ 12)"
    using fl_bounded [OF t] by auto
  have y: "round_nd 3 (elapsed_ms a b) = Fin (fl_round t)"
    using ft(1) x(1) by (simp add: t_def)
  have "\<bar>fl_round t - t\<bar> \<le> t / 2 ^ 53 + 1 / 2 ^ 1075" using fl_round_error [of t] t(1) by simp
  also have "\<dots> \<le> 10 ^ 12 / 2 ^ 53 + 1 / 2 ^ 13"
  proof (intro add_mono)
    show "t / 2 ^ 53 \<le> 10 ^ 12 / 2 ^ 53" using t(2) by (intro divide_right_mono) simp_all
    have "(2 :: rat) ^ 13 \<le> 2 ^ 1075" by (rule power_increasing) auto
    then show "1 / 2 ^ 1075 \<le> (1 / 2 ^ 13 :: rat)" by (intro divide_left_mono) simp_all
  qed
  also have "\<dots> \<le> 1 / 2000" by simp
  finally have "\<bar>fl_round t - t\<bar> + \<bar>t - x\<bar> \<le> 1 / 2000 + 1 / 2000" using tx by (rule add_mono)
  moreover have "\<bar>fl_round t - x\<bar> \<le> \<bar>fl_round t - t\<bar> + \<bar>t - x\<bar>"
    using abs_triangle_ineq [of "fl_round t - t" "t - x"] by simp
  ultimately have close: "\<bar>fl_round t - x\<bar> \<le> 1 / 1000" by simp
  then have "fl_round \<bar>fl_round t - x\<bar> \<le> fl_round (1 / 1000)" by (rule b64.mono)
  moreover have d: "fl \<bar>fl_round t - x\<bar> = Fin (fl_round \<bar>fl_round t - x\<bar>)"
    using fl_bounded [of "\<bar>fl_round t - x\<bar>" 1] close by simp
  moreover have "fl (1 / 1000) = Fin (fl_round (1 / 1000))" using fl_bounded [of "1 / 1000" 1] by simp
  ultimately have "fle (fl \<bar>fl_round t - x\<bar>) (fl (1 / 1000))" by simp
  moreover have "fabs (fsub (Fin (fl_round t)) (Fin x)) = fl \<bar>fl_round t - x\<bar>"
  proof -
    have "fabs (fl z) = fl \<bar>z\<bar>" for z
    proof (cases "0 \<le> z")
      case True
      with fl_nonneg [OF True] show ?thesis by (cases "fl z") auto
    next
      case False
      then have "fle (Fin 0) (fl (- z))" by (intro fl_nonneg) simp
      then have "fabs (fl (- z)) = fl (- z)" by (cases "fl (- z)") auto
      with False show ?thesis by (simp add: fl_Fin_minus)
    qed
    then show ?thesis by (simp add: fsub_def)
  qed
  ultimately have "isclose (Fin x) (Fin (fl_round t))" by (simp add: isclose_def Let_def)
  with x y ft(2) show ?thesis by simp
qed


lemma elapsed_ms_neg: "b < a \<Longrightarrow> flt (elapsed_ms a b) (Fin 0)"
proof -
  assume "b < a"
  then have "b - a \<le> -1" by simp
  then have "(of_int (b - a) :: rat) \<le> of_int (-1)" by (simp only: of_int_le_iff)
  then have d: "of_int (b - a) / 1000000 \<le> - (1 / 2 ^ 20 :: rat)" by simp
  have e: "fl (- (1 / 2 ^ 20)) = Fin (- (1 / 2 ^ 20))"
    using fl_round_exact [of "-1" "-20"] by (intro fl_small) (simp_all add: power_int_minus_divide)
  have f: "fle (fl (of_int (b - a) / 1000000)) (Fin (- (1 / 2 ^ 20)))"
    using fl_mono [OF d] by (simp only: e)
  have neg: "flt x (Fin 0)" if "fle x (Fin (- (1 / 2 ^ 20)))" for x
    using that by (cases x) auto
  show ?thesis
  proof (cases "fl (of_int (b - a) / 1000000)")
    case (Fin q)
    with f have "q * 1000 \<le> - (1 / 2 ^ 20)" by simp
    from fl_mono [OF this] have "flt (fl (q * 1000)) (Fin 0)" by (intro neg) (simp only: e)
    with Fin show ?thesis by (simp add: elapsed_ms_def)
  qed (use f in \<open>simp_all add: elapsed_ms_def signed_inf_def\<close>)
qed

lemma create_tick_valid:
  assumes "create_tick rt symb price (Datetime a oa) (Some (Datetime b ob)) = Inr tick"
    and "iso_roundtrip rt" and "oa = Some za" and "ob = Some zb" and "(b - zb) - (a - za) \<le> 10 ^ 15"
  shows "validate_tick rt (PDict tick) = Inr tick"
proof -
  let ?ex = "a - za" and ?rc = "b - zb"
  obtain s p where sp: "nonblank_str symb = Some s" "tick_price rt price = Inr p"
    and lat: "\<not> flt (elapsed_ms ?ex ?rc) (Fin 0)"
    and tick: "tick = [(''symbol'', PStr (norm_name s)), (''price'', PFloat p),
        (''exchange_timestamp'', PStr (isoformat rt ?ex)), (''received_timestamp'', PStr (isoformat rt ?rc)),
        (''latency_ms'', PFloat (round_nd 3 (elapsed_ms ?ex ?rc)))]"
    using assms(1,3,4) by (auto simp: create_tick_def aware_utc_def utc_us_def Let_def res_simps
        split: option.splits if_splits)
  have le: "?ex \<le> ?rc" using elapsed_ms_neg [of ?rc ?ex] lat by linarith
  note c = latency_close [OF le assms(5)]
  have p: "is_finite p" "\<not> fle p (Fin 0)"
    using sp(2) by (auto simp: tick_price_def Let_def res_simps split: pyval.splits if_splits)
  have l: "\<not> flt (round_nd 3 (elapsed_ms ?ex ?rc)) (Fin 0)"
    using c by (cases "round_nd 3 (elapsed_ms ?ex ?rc)") auto
  have n: "py_strip (norm_name s) \<noteq> []" using sp(1)
    by (auto simp: nonblank_str_Some norm_name_def py_strip_upper)
  have dom: "exact_fields tick_fields tick"
    by (simp add: exact_fields_def tick_fields_def tick insert_commute)
  have get: "dict_get PNone tick ''symbol'' = PStr (norm_name s)" "dict_get PNone tick ''price'' = PFloat p"
    "dict_get PNone tick ''exchange_timestamp'' = PStr (isoformat rt ?ex)"
    "dict_get PNone tick ''received_timestamp'' = PStr (isoformat rt ?rc)"
    "dict_get PNone tick ''latency_ms'' = PFloat (round_nd 3 (elapsed_ms ?ex ?rc))"
    by (simp_all add: tick dict_get_def)
  have num: "finite_number (PFloat p) ''price'' = Inr p"
    "finite_number (PFloat (round_nd 3 (elapsed_ms ?ex ?rc))) ''latency_ms'' = Inr (round_nd 3 (elapsed_ms ?ex ?rc))"
    using p(1) c by (simp_all add: finite_number_def)
  show ?thesis
    using c p(2) l n lat
    by (simp add: validate_tick_def dom get num parse_isoformat [OF assms(2)] Let_def)
qed


lemma fl_between:
  assumes "1 \<le> x" and "x \<le> 1000"
  shows "is_finite (fl x) \<and> \<not> fle (fl x) (Fin 0)"
proof -
  have "fl x = Fin (fl_round x)" using fl_bounded [of x 1000] assms by simp
  moreover have "1 \<le> fl_round x" using b64.mono [OF assms(1)] by (simp add: fl_round_1)
  ultimately show ?thesis by simp
qed

lemma simulated_price_ok: "is_finite (simulated_price i) \<and> \<not> fle (simulated_price i) (Fin 0)"
proof -
  have "i mod 5 < 5" by simp
  then have "i mod 5 = 0 \<or> i mod 5 = 1 \<or> i mod 5 = 2 \<or> i mod 5 = 3 \<or> i mod 5 = 4" by linarith
  then have "1 \<le> simulated_prices ! (i mod length simulated_prices)
      \<and> simulated_prices ! (i mod length simulated_prices) \<le> 1000"
    by (elim disjE) (simp_all add: simulated_prices_def)
  then show ?thesis unfolding simulated_price_def by (intro fl_between) simp_all
qed

definition simulated_tick :: "runtime \<Rightarrow> string \<Rightarrow> nat \<Rightarrow> int \<Rightarrow> payload" where
  "simulated_tick rt s i now =
     [(''symbol'', PStr (norm_name s)), (''price'', PFloat (simulated_price i)),
      (''exchange_timestamp'', PStr (isoformat rt (now - 5000))),
      (''received_timestamp'', PStr (isoformat rt now)),
      (''latency_ms'', PFloat (round_nd 3 (elapsed_ms (now - 5000) now)))]"

lemma create_simulated:
  assumes "py_strip s \<noteq> []"
  shows "create_tick rt (PStr s) (PFloat (simulated_price i)) (Datetime (now - 5000) (Some 0))
    (Some (Datetime now (Some 0))) = Inr (simulated_tick rt s i now)"
proof -
  have "fle (Fin 0) (elapsed_ms (now - 5000) now)" by (rule elapsed_ms_nonneg) simp
  then have "\<not> flt (elapsed_ms (now - 5000) now) (Fin 0)"
    by (cases "elapsed_ms (now - 5000) now") auto
  with assms simulated_price_ok [of i] show ?thesis
    by (simp add: create_tick_def tick_price_def aware_utc_def utc_us_def simulated_tick_def Let_def)
qed

lemma publish_loop_eq:
  assumes "py_strip s \<noteq> []" and "c \<le> n + length instants" and "n \<le> c"
  shows "\<exists>q. publish_loop rt (PStr s) iv (Some c) n instants p = Inr (c, q) \<and>
    sent q = sent p @ map (\<lambda>(i, now). simulated_tick rt s i now) (zip [n ..< c] instants) \<and>
    length (slept q) = length (slept p) + (c - n - 1)"
  using assms(2,3)
proof (induction "c - n" arbitrary: n instants p)
  case 0
  then show ?case by (subst publish_loop.simps) simp
next
  case (Suc k)
  then obtain now later where i: "instants = now # later" by (cases instants) auto
  let ?p1 = "p\<lparr>sent := sent p @ [simulated_tick rt s n now]\<rparr>"
  let ?p2 = "if Suc n < c then ?p1\<lparr>slept := slept ?p1 @ [iv]\<rparr> else ?p1"
  have "n < c" using Suc.hyps(2) by simp
  have "k = c - Suc n" "c \<le> Suc n + length later" "Suc n \<le> c" using Suc i by simp_all
  from Suc.hyps(1) [OF this, of ?p2] obtain q where q:
    "publish_loop rt (PStr s) iv (Some c) (Suc n) later ?p2 = Inr (c, q)"
    "sent q = sent ?p2 @ map (\<lambda>(i, now). simulated_tick rt s i now) (zip [Suc n ..< c] later)"
    "length (slept q) = length (slept ?p2) + (c - Suc n - 1)" by blast
  have "publish_loop rt (PStr s) iv (Some c) n instants p
      = publish_loop rt (PStr s) iv (Some c) (Suc n) later ?p2"
    using \<open>n < c\<close> i create_simulated [OF assms(1)]
    by (subst publish_loop.simps) (simp add: Let_def)
  moreover have "[n ..< c] = n # [Suc n ..< c]" using Suc.hyps(2) by (simp add: upt_conv_Cons)
  ultimately show ?case using q i Suc.hyps(2) by (auto split: if_splits)
qed

subsection \<open>Properties\<close>

text \<open>Every tick that \<open>create_tick\<close> accepts for timezone-aware times at
  most 31 years apart passes \<open>validate_tick\<close> unchanged: the published latency, computed in binary
  floating point and rounded to three digits, is within the subscriber's tolerance, given that the
  library reads back the UTC timestamps it prints.\<close>

theorem created_ticks_validate:
  assumes "create_tick rt symb price (Datetime a (Some za)) (Some (Datetime b (Some zb))) = Inr tick"
    and "iso_roundtrip rt" and "(b - zb) - (a - za) \<le> 10 ^ 15"
  shows "validate_tick rt (PDict tick) = Inr tick"
  using create_tick_valid [OF assms(1,2) refl refl assms(3)] .

definition iso_runtime :: runtime where
  "iso_runtime = sample_runtime\<lparr>fromisoformat := (\<lambda>s.
     (case s of CHR ''-'' # t \<Rightarrow> map_option (\<lambda>n. Datetime (- int n) (Some 0)) (parse_digits t)
      | _ \<Rightarrow> map_option (\<lambda>n. Datetime (int n) (Some 0)) (parse_digits s)))\<rparr>"

lemma iso_runtime_roundtrip: "iso_roundtrip iso_runtime"
proof -
  have z: "CHR ''Z'' \<notin> set (show_nat n)" for n
    using show_nat_digits [of n] by (auto simp: list_all_iff is_digit_def)
  have m: "\<exists>c t. show_nat n = c # t \<and> c \<noteq> CHR ''-''" for n
    using show_nat_digits [of n] by (cases "show_nat n") (auto simp: is_digit_def)
  have "fromisoformat iso_runtime (show_int t) = Some (Datetime t (Some 0))" for t
  proof (cases "t < 0")
    case True
    then show ?thesis by (simp add: iso_runtime_def show_int_def)
  next
    case False
    obtain c s where c: "show_nat (nat t) = c # s" "c \<noteq> CHR ''-''" using m by blast
    have "fromisoformat iso_runtime (c # s)
        = map_option (\<lambda>n. Datetime (int n) (Some 0)) (parse_digits (c # s))"
      using c(2) by (simp add: iso_runtime_def split: char.splits bool.splits)
    with False c(1) parse_show_nat [of "nat t"] show ?thesis by (simp add: show_int_def)
  qed
  moreover have "isoformat iso_runtime = show_int" by (simp add: iso_runtime_def sample_runtime_def)
  ultimately show ?thesis using z by (simp add: iso_roundtrip_def show_int_def)
qed

lemma created_ticks_validate_witness:
  "\<exists>tick. create_tick iso_runtime (PStr '' aapl'') (PInt 101) (Datetime 7203001234 (Some 7200000000))
     (Some (Datetime 3004000 (Some 0))) = Inr tick \<and> validate_tick iso_runtime (PDict tick) = Inr tick"
proof -
  have l: "\<not> flt (elapsed_ms 3001234 3004000) (Fin 0)"
    using elapsed_ms_nonneg [of 3001234 3004000] by (cases "elapsed_ms 3001234 3004000") auto
  have n: "py_strip '' aapl'' \<noteq> []" by code_simp
  have "fl 101 = Fin 101" by (simp add: fl_simps)
  then have p: "tick_price iso_runtime (PInt 101) = Inr (Fin 101)"
    by (simp add: tick_price_def float_of_int_small)
  have "\<exists>tick. create_tick iso_runtime (PStr '' aapl'') (PInt 101) (Datetime 7203001234 (Some 7200000000))
     (Some (Datetime 3004000 (Some 0))) = Inr tick"
    using l by (simp add: create_tick_def n p aware_utc_def utc_us_def Let_def)
  then show ?thesis using created_ticks_validate [OF _ iso_runtime_roundtrip] by fastforce
qed

text \<open>Asked for \<open>c\<close> ticks, the publisher sends exactly \<open>c\<close> of them, one per
  instant and in order, with the simulated prices repeating with period five, and sleeps \<open>c - 1\<close>
  intervals after the start-up delay.\<close>

theorem publisher_counts:
  assumes "validate_local_endpoint endpoint = Inr endpoint" and "py_strip s \<noteq> []"
    and "\<not> flt iv (Fin 0)" and "\<not> flt startup (Fin 0)" and "c \<le> length instants"
  shows "\<exists>q. publish_simulated_ticks rt endpoint (PStr s) iv (Some (int c)) startup instants = Inr (c, q) \<and>
    sent q = map (\<lambda>(i, now). simulated_tick rt s i now) (zip [0 ..< c] instants) \<and>
    length (slept q) = Suc (c - 1)"
  using publish_loop_eq [OF assms(2), of c 0 instants rt iv "\<lparr>sent = [], slept = [startup]\<rparr>"] assms
  by (auto simp: publish_simulated_ticks_def)

lemma publisher_counts_witness:
  "\<exists>q. publish_simulated_ticks sample_runtime ''ipc://x'' (PStr ''AAPL'') (Fin 1) (Some (int 2)) (Fin 0)
       [10000, 20000, 30000] = Inr (2, q) \<and> length (sent q) = 2"
proof -
  have "\<exists>q. publish_simulated_ticks sample_runtime ''ipc://x'' (PStr ''AAPL'') (Fin 1) (Some (int 2)) (Fin 0)
       [10000, 20000, 30000] = Inr (2, q) \<and>
    sent q = map (\<lambda>(i, now). simulated_tick sample_runtime ''AAPL'' i now) (zip [0 ..< 2] [10000, 20000, 30000]) \<and>
    length (slept q) = Suc (2 - 1)"
    by (rule publisher_counts) (code_simp, code_simp, simp_all)
  then show ?thesis by auto
qed

end
