(* ===== verification/Anomaly.thy ===== *)
theory Anomaly
  imports Ticks Persistence
begin

section \<open>The anomaly scorer\<close>

text \<open>
  \<open>realtime/anomaly_scorer.py\<close>: the percentage rule, the annotated tick and its validator, the
  scorer with the last price of each symbol, the isolation forest of the library as a parameter,
  and the loop that receives, scores, journals and republishes.
\<close>

subsection \<open>Scoring one tick\<close>

text \<open>\<open>float(value)\<close> of a caller's argument.\<close>

definition to_float :: "runtime \<Rightarrow> pyval \<Rightarrow> pyfloat result" where
  "to_float rt v =
     (case v of
        PStr s \<Rightarrow> (case float_of_str rt s of
            None \<Rightarrow> Inl (ValueError ''could not convert string to float'') | Some x \<Rightarrow> Inr x)
      | PBool b \<Rightarrow> Inr (if b then Fin 1 else Fin 0)
      | _ \<Rightarrow> numeric_value (TypeError ''float() argument must be a string or a real number'') v)"

definition validate_threshold :: "runtime \<Rightarrow> pyval \<Rightarrow> pyfloat result" where
  "validate_threshold rt v =
     (let err = ValueError ''threshold_pct must be a non-negative finite number'' in
      case v of
        PBool b \<Rightarrow> Inl err
      | _ \<Rightarrow> bind_res (to_float rt v) (\<lambda>x.
          if \<not> is_finite x \<or> flt x (Fin 0) then Inl err else Inr x))"

text \<open>The status of a sequence number against the previous one.\<close>

definition step_status :: "int option \<Rightarrow> int \<Rightarrow> seq_status" where
  "step_status previous n =
     (case previous of
        None \<Rightarrow> FIRST
      | Some p \<Rightarrow> if n = p + 1 then IN_ORDER else if n > p + 1 then GAP
                  else if n = p then DUPLICATE else REORDERED)"

text \<open>\<open>round((price - previous) / previous * 100, 6)\<close>\<close>

definition pct_change :: "pyfloat \<Rightarrow> rat \<Rightarrow> pyfloat" where
  "pct_change price previous =
     round_nd 6 (fmul (fdiv (fsub price (Fin previous)) previous) (Fin 100))"

definition change_reason :: "runtime \<Rightarrow> pyfloat \<Rightarrow> bool \<Rightarrow> pyfloat \<Rightarrow> string" where
  "change_reason rt pct anomaly threshold =
     ''Absolute price change '' @ format_float rt 6 (fabs pct) @ ''% ''
     @ (if anomaly then ''exceeded'' else ''did not exceed'') @ '' ''
     @ format_float rt 6 threshold @ ''% threshold''"

definition judge :: "runtime \<Rightarrow> pyfloat \<Rightarrow> pyfloat option \<Rightarrow> pyfloat \<Rightarrow> (pyval \<times> bool \<times> string) result" where
  "judge rt price previous threshold =
     (case previous of
        None \<Rightarrow> Inr (PNone, False, ''No prior price for symbol; warm-up tick'')
      | Some p \<Rightarrow> (case p of
          Fin q \<Rightarrow> if q \<le> 0 then Inl (ValueError ''previous_price must be a positive finite number or None'')
            else (let pct = pct_change price q; anomaly = flt threshold (fabs pct) in
                  Inr (PFloat pct, anomaly, change_reason rt pct anomaly threshold))
        | _ \<Rightarrow> Inl (ValueError ''previous_price must be a positive finite number or None'')))"

definition scored_id :: "runtime \<Rightarrow> string \<Rightarrow> payload \<Rightarrow> int \<Rightarrow> string" where
  "scored_id rt transport tick n = uuid5 rt (transport @ ''|'' @ py_str rt (dict_get PNone tick ''symbol'')
     @ ''|'' @ py_str rt (dict_get PNone tick ''exchange_timestamp'') @ ''|'' @ show_int n)"

definition score_tick :: "runtime \<Rightarrow> pyval \<Rightarrow> pyfloat option \<Rightarrow> pyval \<Rightarrow> int \<Rightarrow> int option \<Rightarrow> string \<Rightarrow>
    payload result" where
  "score_tick rt tick previous threshold_pct n previous_n transport =
     bind_res (validate_tick rt tick) (\<lambda>valid.
     bind_res (validate_threshold rt threshold_pct) (\<lambda>threshold.
     if n < 0 then Inl (ValueError ''sequence_number must be a non-negative integer'')
     else if norm_name transport = [] then Inl (ValueError ''transport must be non-empty'')
     else
     bind_res (numeric_value (TypeError ''price'') (dict_get PNone valid ''price'')) (\<lambda>price.
     bind_res (judge rt price previous threshold) (\<lambda>(pct, anomaly, reason).
     Inr (valid @
       [(''pct_change'', pct), (''is_anomaly'', PBool anomaly), (''reason'', PStr reason),
        (''event_id'', PStr (scored_id rt (norm_name transport) valid n)),
        (''sequence_number'', PInt n),
        (''sequence_status'', PStr (status_name (step_status previous_n n))),
        (''transport'', PStr (norm_name transport))])))))"

subsection \<open>The contract of an annotated tick\<close>

definition annotation_fields :: "string list" where
  "annotation_fields = [''pct_change'', ''is_anomaly'', ''reason'', ''event_id'', ''sequence_number'',
     ''sequence_status'', ''transport'']"

definition annotated_fields :: "string list" where
  "annotated_fields = tick_fields @ annotation_fields"

definition finite_or_none :: "pyval \<Rightarrow> unit result" where
  "finite_or_none v =
     (let err = ValueError ''pct_change must be a finite number or None'' in
      case v of PNone \<Rightarrow> Inr ()
      | _ \<Rightarrow> bind_res (numeric_value err v) (\<lambda>x. if is_finite x then Inr () else Inl err))"

text \<open>\<open>isinstance(True, int)\<close> holds: a boolean passes as a sequence number.\<close>

definition natural_number :: "pyval \<Rightarrow> bool" where
  "natural_number v = (case v of PInt n \<Rightarrow> 0 \<le> n | PBool b \<Rightarrow> True | _ \<Rightarrow> False)"

definition known_status :: "pyval \<Rightarrow> bool result" where
  "known_status v =
     (case v of
        PList xs \<Rightarrow> Inl (TypeError ''unhashable type'')
      | PDict d \<Rightarrow> Inl (TypeError ''unhashable type'')
      | PStr s \<Rightarrow> Inr (s \<in> set sequence_statuses)
      | _ \<Rightarrow> Inr False)"

definition validate_annotated_tick :: "runtime \<Rightarrow> pyval \<Rightarrow> payload result" where
  "validate_annotated_tick rt message =
     (case message of
        PDict m \<Rightarrow>
          if \<not> exact_fields annotated_fields m
          then Inl (ValueError ''annotated tick fields must be exactly'')
          else
          bind_res (validate_tick rt (PDict (map (\<lambda>f. (f, dict_get PNone m f)) tick_fields))) (\<lambda>_.
          bind_res (finite_or_none (dict_get PNone m ''pct_change'')) (\<lambda>_.
          case dict_get PNone m ''is_anomaly'' of
            PBool anomaly \<Rightarrow>
              if nonblank_str (dict_get PNone m ''reason'') = None
              then Inl (ValueError ''reason must be a non-empty string'')
              else if anomaly \<and> dict_get PNone m ''pct_change'' = PNone
              then Inl (ValueError ''an anomalous tick must include pct_change'')
              else if \<not> natural_number (dict_get PNone m ''sequence_number'')
              then Inl (ValueError ''sequence_number must be a non-negative integer'')
              else
              bind_res (known_status (dict_get PNone m ''sequence_status'')) (\<lambda>known.
              if \<not> known then Inl (ValueError ''sequence_status is invalid'')
              else if nonblank_str (dict_get PNone m ''event_id'') = None
              then Inl (ValueError ''event_id must be a non-empty string'')
              else if nonblank_str (dict_get PNone m ''transport'') = None
              then Inl (ValueError ''transport must be a non-empty string'')
              else Inr m)
          | _ \<Rightarrow> Inl (ValueError ''is_anomaly must be boolean'')))
      | _ \<Rightarrow> Inl (ValueError ''annotated tick fields must be exactly''))"

subsection \<open>The scorer\<close>

record scorer =
  sc_threshold :: pyfloat
  sc_prices :: "string \<rightharpoonup> pyfloat"
  sc_number :: int
  sc_previous :: "int option"

definition new_scorer :: "runtime \<Rightarrow> pyval \<Rightarrow> scorer result" where
  "new_scorer rt threshold_pct = bind_res (validate_threshold rt threshold_pct) (\<lambda>t.
     Inr \<lparr>sc_threshold = t, sc_prices = Map.empty, sc_number = 0, sc_previous = None\<rparr>)"

definition score :: "runtime \<Rightarrow> scorer \<Rightarrow> pyval \<Rightarrow> (payload \<times> scorer) result" where
  "score rt sc tick =
     bind_res (validate_tick rt tick) (\<lambda>valid.
     let symb = py_str rt (dict_get PNone valid ''symbol'') in
     bind_res (score_tick rt (PDict valid) (sc_prices sc symb) (PFloat (sc_threshold sc))
                 (sc_number sc) (sc_previous sc) ''ZEROMQ'') (\<lambda>annotated.
     bind_res (numeric_value (TypeError ''price'') (dict_get PNone valid ''price'')) (\<lambda>price.
     Inr (annotated, sc\<lparr>sc_prices := (sc_prices sc)(symb \<mapsto> price),
                         sc_previous := Some (sc_number sc), sc_number := sc_number sc + 1\<rparr>))))"

text \<open>The flags of the library's isolation forest, whose predictions are an argument.\<close>

definition isolation_forest_flags :: "(pyfloat \<Rightarrow> int \<Rightarrow> pyfloat list \<Rightarrow> int list) \<Rightarrow> pyfloat list \<Rightarrow>
    pyfloat \<Rightarrow> int \<Rightarrow> bool list result" where
  "isolation_forest_flags fit_predict values contamination random_state =
     (if length values < 2
      then Inl (ValueError ''Isolation Forest requires at least two percentage changes'')
      else if list_ex (\<lambda>x. \<not> is_finite x) values
      then Inl (ValueError ''percentage changes must be finite'')
      else if \<not> (flt (Fin 0) contamination \<and> fle contamination (Fin (1 / 2)))
      then Inl (ValueError ''contamination must be greater than 0 and at most 0.5'')
      else Inr (map (\<lambda>p. p = -1) (fit_predict contamination random_state values)))"

subsection \<open>The service loop\<close>

record scoring =
  sg_scorer :: scorer
  sg_published :: "payload list"
  sg_collected :: "payload list"

text \<open>
  The result of the loop with what it published: \<open>spans n\<close> are the trace and span identifiers while
  the n-th tick is processed, \<open>journal\<close> says whether a journal path was given.
\<close>

type_synonym span_ids = "nat \<Rightarrow> string option \<times> string option"

fun score_loop :: "engine \<Rightarrow> runtime \<Rightarrow> span_ids \<Rightarrow> bool \<Rightarrow> nat option \<Rightarrow> nat \<Rightarrow> scoring \<Rightarrow>
    socket_event list \<Rightarrow> store \<Rightarrow> unit result \<times> scoring \<times> store" where
  "score_loop eng rt spans journal limit processed g events s =
     (if (case limit of None \<Rightarrow> False | Some c \<Rightarrow> processed \<ge> c) then (Inr (), g, s)
      else case events of
        [] \<Rightarrow> (Inl WouldBlock, g, s)
      | Interrupt # es \<Rightarrow> (Inr (), g, s)
      | Again # es \<Rightarrow> (Inl (TimeoutError ''Timed out waiting for a raw real-time tick''), g, s)
      | Message m # es \<Rightarrow>
          (case score rt (sg_scorer g) m of
             Inl e \<Rightarrow> (Inl e, g, s)
           | Inr (annotated, sc) \<Rightarrow>
               (case (if journal then persist_realtime_event eng False (fst (spans processed))
                                        (snd (spans processed)) annotated s
                      else (Inr True, s)) of
                  (Inl e, s') \<Rightarrow> (Inl e, g\<lparr>sg_scorer := sc\<rparr>, s')
                | (Inr b, s') \<Rightarrow>
                    score_loop eng rt spans journal limit (Suc processed)
                      (g\<lparr>sg_scorer := sc, sg_published := sg_published g @ [annotated],
                         sg_collected := (if limit = None then sg_collected g
                                          else sg_collected g @ [annotated])\<rparr>) es s')))"

declare score_loop.simps [simp del]

definition score_and_publish_ticks :: "engine \<Rightarrow> runtime \<Rightarrow> span_ids \<Rightarrow> string \<Rightarrow> string \<Rightarrow> pyval \<Rightarrow>
    int option \<Rightarrow> int option \<Rightarrow> pyfloat \<Rightarrow> bool \<Rightarrow> socket_event list \<Rightarrow> store \<Rightarrow>
    payload list result \<times> payload list \<times> store" where
  "score_and_publish_ticks eng rt spans input_endpoint output_endpoint threshold_pct limit timeout_ms
     startup journal events s =
     (case bind_res (validate_local_endpoint input_endpoint) (\<lambda>_.
           bind_res (validate_local_endpoint output_endpoint) (\<lambda>_.
           if input_endpoint = output_endpoint
           then Inl (ValueError ''input and output endpoints must be different'')
           else if (case limit of None \<Rightarrow> False | Some c \<Rightarrow> c < 0)
           then Inl (ValueError ''count must be non-negative or None'')
           else if (case timeout_ms of None \<Rightarrow> False | Some t \<Rightarrow> t < 0)
           then Inl (ValueError ''timeout_ms must be non-negative or None'')
           else if flt startup (Fin 0)
           then Inl (ValueError ''startup_delay_seconds must be non-negative'')
           else new_scorer rt threshold_pct)) of
        Inl e \<Rightarrow> (Inl e, [], s)
      | Inr sc \<Rightarrow>
          (case (if journal then initialize_database eng s else (Inr (), s)) of
             (Inl e, s') \<Rightarrow> (Inl e, [], s')
           | (Inr _, s') \<Rightarrow>
               (case score_loop eng rt spans journal (map_option nat limit) 0
                       \<lparr>sg_scorer = sc, sg_published = [], sg_collected = []\<rparr> events s' of
                  (r, g, s'') \<Rightarrow> (bind_res r (\<lambda>_. Inr (sg_collected g)), sg_published g, s''))))"


subsection \<open>Annotated ticks satisfy their contract\<close>

lemma validate_tick_Inr:
  assumes "validate_tick rt m = Inr v"
  shows "m = PDict v \<and> exact_fields tick_fields v \<and>
    (\<exists>x. numeric_value (TypeError ''price'') (dict_get PNone v ''price'') = Inr x \<and> is_finite x \<and> \<not> fle x (Fin 0))"
proof -
  have n: "numeric_value e w = Inr x \<Longrightarrow> numeric_value e' w = Inr x" for e e' w x by (cases w) auto
  from assms show ?thesis
    by (auto simp: validate_tick_def finite_number_def res_simps Let_def split: pyval.splits if_splits dest: n)
qed

lemma validate_tick_cong:
  assumes "exact_fields tick_fields m" and "exact_fields tick_fields m'"
    and "\<And>f. f \<in> set tick_fields \<Longrightarrow> dict_get PNone m f = dict_get PNone m' f"
  shows "(\<exists>v. validate_tick rt (PDict m) = Inr v) \<longleftrightarrow> (\<exists>v. validate_tick rt (PDict m') = Inr v)"
proof -
  have "dict_get PNone m f = dict_get PNone m' f" if "f \<in> {''symbol'', ''price'', ''exchange_timestamp'',
      ''received_timestamp'', ''latency_ms''}" for f
    using assms(3) that by (simp add: tick_fields_def)
  with assms(1,2) show ?thesis
    by (auto simp: validate_tick_def res_simps Let_def split: if_splits)
qed

lemma dict_get_append:
  "dict_get x (m @ n) k = (if k \<in> set (map fst m) then dict_get x m k else dict_get x n k)"
  by (induction m) (auto simp: dict_get_def split: option.splits)

definition annotations :: "runtime \<Rightarrow> payload \<Rightarrow> pyval \<Rightarrow> bool \<Rightarrow> string \<Rightarrow> string \<Rightarrow> int \<Rightarrow> seq_status \<Rightarrow> payload" where
  "annotations rt valid pct anomaly reason transport n st =
     [(''pct_change'', pct), (''is_anomaly'', PBool anomaly), (''reason'', PStr reason),
      (''event_id'', PStr (scored_id rt transport valid n)), (''sequence_number'', PInt n),
      (''sequence_status'', PStr (status_name st)), (''transport'', PStr transport)]"

lemma score_tick_Inr:
  assumes "score_tick rt tick previous threshold n pn transport = Inr a"
  obtains v t x pct anomaly reason where "validate_tick rt tick = Inr v" "tick = PDict v"
    "validate_threshold rt threshold = Inr t" "0 \<le> n" "norm_name transport \<noteq> []"
    "numeric_value (TypeError ''price'') (dict_get PNone v ''price'') = Inr x"
    "is_finite x" "\<not> fle x (Fin 0)"
    "judge rt x previous t = Inr (pct, anomaly, reason)"
    "a = v @ annotations rt v pct anomaly reason (norm_name transport) n (step_status pn n)"
proof -
  obtain v where v: "validate_tick rt tick = Inr v"
    using assms by (auto simp: score_tick_def res_simps)
  from validate_tick_Inr [OF v] obtain x where
    x: "numeric_value (TypeError ''price'') (dict_get PNone v ''price'') = Inr x" "is_finite x" "\<not> fle x (Fin 0)"
    and d: "tick = PDict v" by blast
  from assms obtain t pct anomaly reason where
    "validate_threshold rt threshold = Inr t" "0 \<le> n" "norm_name transport \<noteq> []"
    "judge rt x previous t = Inr (pct, anomaly, reason)"
    "a = v @ annotations rt v pct anomaly reason (norm_name transport) n (step_status pn n)"
    by (auto simp: score_tick_def v x(1) res_simps annotations_def not_less)
  with that v d x show thesis by blast
qed

lemma annotation_keys:
  assumes "exact_fields tick_fields v"
  shows "f \<in> set tick_fields \<Longrightarrow> dict_get PNone (v @ annotations rt v pct an re tr n st) f = dict_get PNone v f"
    and "f \<in> set annotation_fields \<Longrightarrow> dict_get PNone (v @ annotations rt v pct an re tr n st) f
      = dict_get PNone (annotations rt v pct an re tr n st) f"
    and "exact_fields annotated_fields (v @ annotations rt v pct an re tr n st)"
proof -
  have s: "fst ` set v = set tick_fields" using assms by (simp add: exact_fields_def)
  have disj: "set tick_fields \<inter> set annotation_fields = {}" by (simp add: tick_fields_def annotation_fields_def)
  show "f \<in> set tick_fields \<Longrightarrow> dict_get PNone (v @ annotations rt v pct an re tr n st) f = dict_get PNone v f"
    by (simp add: dict_get_append s)
  show "f \<in> set annotation_fields \<Longrightarrow> dict_get PNone (v @ annotations rt v pct an re tr n st) f
      = dict_get PNone (annotations rt v pct an re tr n st) f"
    using disj by (auto simp: dict_get_append s)
  have "fst ` set (annotations rt v pct an re tr n st) = set annotation_fields"
    by (simp add: annotations_def annotation_fields_def)
  with s show "exact_fields annotated_fields (v @ annotations rt v pct an re tr n st)"
    by (simp add: exact_fields_def annotated_fields_def image_Un)
qed

lemma judge_Inr:
  assumes "judge rt x previous t = Inr (pct, anomaly, reason)"
  shows "py_strip reason \<noteq> [] \<and> (anomaly \<longrightarrow> pct \<noteq> PNone) \<and> (pct = PNone \<or> (\<exists>y. pct = PFloat y))"
proof -
  have "py_strip (CHR ''A'' # r) \<noteq> []" for r
    by (auto simp: py_strip_def py_lstrip_def py_space_def dropWhile_eq_Nil_conv)
  moreover have "py_strip (CHR ''N'' # r) \<noteq> []" for r
    by (auto simp: py_strip_def py_lstrip_def py_space_def dropWhile_eq_Nil_conv)
  ultimately show ?thesis using assms
    by (auto simp: judge_def change_reason_def Let_def split: option.splits pyfloat.splits if_splits)
qed

lemma annotated_get:
  assumes "exact_fields tick_fields v"
  defines "a \<equiv> \<lambda>rt pct an re tr n st. v @ annotations rt v pct an re tr n st"
  shows "dict_get PNone (a rt pct an re tr n st) ''pct_change'' = pct"
    "dict_get PNone (a rt pct an re tr n st) ''is_anomaly'' = PBool an"
    "dict_get PNone (a rt pct an re tr n st) ''reason'' = PStr re"
    "dict_get PNone (a rt pct an re tr n st) ''event_id'' = PStr (scored_id rt tr v n)"
    "dict_get PNone (a rt pct an re tr n st) ''sequence_number'' = PInt n"
    "dict_get PNone (a rt pct an re tr n st) ''sequence_status'' = PStr (status_name st)"
    "dict_get PNone (a rt pct an re tr n st) ''transport'' = PStr tr"
  unfolding a_def
  by (subst annotation_keys(2) [OF assms(1)], simp add: annotation_fields_def,
      simp add: annotations_def dict_get_def)+

lemma annotated_valid_iff:
  assumes "score_tick rt tick previous threshold n pn transport = Inr a"
    and "\<And>z. py_strip (uuid5 rt z) \<noteq> []" and "py_strip (norm_name transport) \<noteq> []"
  shows "validate_annotated_tick rt (PDict a) =
    bind_res (finite_or_none (dict_get PNone a ''pct_change'')) (\<lambda>_. Inr a)"
proof -
  obtain v t x pct an re where s: "validate_tick rt tick = Inr v" "tick = PDict v"
    "judge rt x previous t = Inr (pct, an, re)" "0 \<le> n"
    and a: "a = v @ annotations rt v pct an re (norm_name transport) n (step_status pn n)"
    using assms(1) by (rule score_tick_Inr)
  have v: "exact_fields tick_fields v" using validate_tick_Inr [OF s(1)] by blast
  let ?m = "map (\<lambda>f. (f, dict_get PNone a f)) tick_fields"
  have "exact_fields tick_fields ?m" by (simp add: exact_fields_def o_def)
  moreover have "dict_get PNone ?m f = dict_get PNone v f" if "f \<in> set tick_fields" for f
  proof -
    have "dict_get PNone (map (\<lambda>f. (f, g f)) fs) f = g f" if "f \<in> set fs" for g :: "string \<Rightarrow> pyval" and fs
      using that by (simp add: dict_get_def map_of_map_restrict)
    with that annotation_keys(1) [OF v that] show ?thesis by (simp add: a)
  qed
  ultimately obtain w where w: "validate_tick rt (PDict ?m) = Inr w"
    using validate_tick_cong [of ?m v rt] v s(1,2) by blast
  have id: "py_strip (scored_id rt (norm_name transport) v n) \<noteq> []" using assms(2) by (simp add: scored_id_def)
  have ex: "exact_fields annotated_fields a" using annotation_keys(3) [OF v] by (simp add: a)
  note get = annotated_get [OF v, where rt = rt and pct = pct and an = an and re = re
    and tr = "norm_name transport" and n = n and st = "step_status pn n", folded a]
  have na: "(an \<and> pct = PNone) = False" using judge_Inr [OF s(3)] by blast
  show ?thesis
    using judge_Inr [OF s(3)] s(4) id assms(3) status_name_known [of "step_status pn n"]
    by (simp add: na validate_annotated_tick_def ex w get natural_number_def known_status_def)
qed

lemma zeromq_name: "norm_name ''ZEROMQ'' = ''ZEROMQ''" "py_strip ''ZEROMQ'' \<noteq> []"
  by code_simp+

lemma score_Inr:
  assumes "score rt sc tick = Inr (a, sc')"
  obtains v x where "validate_tick rt tick = Inr v" "tick = PDict v" "0 \<le> sc_number sc"
    "numeric_value (TypeError ''price'') (dict_get PNone v ''price'') = Inr x" "is_finite x" "\<not> fle x (Fin 0)"
    "score_tick rt tick (sc_prices sc (py_str rt (dict_get PNone v ''symbol'')))
       (PFloat (sc_threshold sc)) (sc_number sc) (sc_previous sc) ''ZEROMQ'' = Inr a"
    "sc' = sc\<lparr>sc_prices := (sc_prices sc)(py_str rt (dict_get PNone v ''symbol'') \<mapsto> x),
              sc_previous := Some (sc_number sc), sc_number := sc_number sc + 1\<rparr>"
proof -
  obtain v where v: "validate_tick rt tick = Inr v" using assms by (auto simp: score_def res_simps)
  from validate_tick_Inr [OF v] obtain x where
    x: "numeric_value (TypeError ''price'') (dict_get PNone v ''price'') = Inr x" "is_finite x" "\<not> fle x (Fin 0)"
    and d: "tick = PDict v" by blast
  have "score_tick rt (PDict v) (sc_prices sc (py_str rt (dict_get PNone v ''symbol'')))
       (PFloat (sc_threshold sc)) (sc_number sc) (sc_previous sc) ''ZEROMQ'' = Inr a \<and>
    sc' = sc\<lparr>sc_prices := (sc_prices sc)(py_str rt (dict_get PNone v ''symbol'') \<mapsto> x),
              sc_previous := Some (sc_number sc), sc_number := sc_number sc + 1\<rparr>"
    using assms v x(1) by (auto simp: score_def Let_def res_simps)
  then have 1: "score_tick rt tick (sc_prices sc (py_str rt (dict_get PNone v ''symbol'')))
       (PFloat (sc_threshold sc)) (sc_number sc) (sc_previous sc) ''ZEROMQ'' = Inr a"
    "sc' = sc\<lparr>sc_prices := (sc_prices sc)(py_str rt (dict_get PNone v ''symbol'') \<mapsto> x),
              sc_previous := Some (sc_number sc), sc_number := sc_number sc + 1\<rparr>"
    by (simp_all add: d)
  from 1(1) have "0 \<le> sc_number sc" by (rule score_tick_Inr)
  with that v d x 1 show thesis by blast
qed

lemma score_valid_iff:
  assumes "score rt sc tick = Inr (a, sc')" and "\<And>z. py_strip (uuid5 rt z) \<noteq> []"
  shows "validate_annotated_tick rt (PDict a) =
    bind_res (finite_or_none (dict_get PNone a ''pct_change'')) (\<lambda>_. Inr a)"
  using assms(1)
proof (rule score_Inr)
  fix v x
  assume "score_tick rt tick (sc_prices sc (py_str rt (dict_get PNone v ''symbol'')))
       (PFloat (sc_threshold sc)) (sc_number sc) (sc_previous sc) ''ZEROMQ'' = Inr a"
  from annotated_valid_iff [OF this assms(2)] zeromq_name show ?thesis by simp
qed

subsection \<open>A change that overflows\<close>

lemma fl_huge: "2 ^ 1024 \<le> x \<Longrightarrow> fl x = PInf"
proof -
  assume "2 ^ 1024 \<le> x"
  then have "fl_round (of_int (2 ^ 1024)) \<le> fl_round x" by (intro b64.mono) simp
  moreover have "fl_round (of_int (2 ^ 1024)) = (2 ^ 1024 :: rat)"
    using fl_round_exact [of 1 1024] by (simp add: power_int_def)
  ultimately show ?thesis by (simp add: fl_def Let_def)
qed

lemma huge_change:
  assumes "2 ^ 1000 \<le> q" and "0 < p" and "p \<le> 1 / 2 ^ 100"
  shows "pct_change (Fin q) p = PInf"
proof -
  have "(2 :: rat) ^ 999 \<le> 2 ^ 1000 - 1" by simp
  moreover have "p \<le> 1" using assms(3) by (rule order_trans) simp
  ultimately have d: "2 ^ 999 \<le> q - p" using assms(1) by linarith
  have e: "fl (2 ^ 999) = Fin (2 ^ 999)"
    using fl_round_exact [of 1 999] by (intro fl_small) (simp_all add: power_int_def)
  have "fle (Fin (2 ^ 999)) (fl (q - p))" using fl_mono [OF d] unfolding e .
  then consider "fl (q - p) = PInf" | r where "fl (q - p) = Fin r" "2 ^ 999 \<le> r"
    by (cases "fl (q - p)") auto
  then have "fdiv (fl (q - p)) p = PInf"
  proof cases
    case 2
    have "(2 :: rat) ^ 1024 * p \<le> 2 ^ 1024 * (1 / 2 ^ 100)" using assms(3) by (intro mult_left_mono) simp_all
    also have "\<dots> \<le> 2 ^ 999" by simp
    finally have "2 ^ 1024 \<le> r / p" using 2(2) assms(2) by (simp add: le_divide_eq)
    with 2(1) fl_huge show ?thesis by simp
  qed (simp add: assms(2) signed_inf_def)
  then show ?thesis by (simp add: pct_change_def fsub_def signed_inf_def)
qed

subsection \<open>The scorer against its history\<close>

fun score_all :: "runtime \<Rightarrow> scorer \<Rightarrow> pyval list \<Rightarrow> (payload list \<times> scorer) result" where
  "score_all rt sc [] = Inr ([], sc)"
| "score_all rt sc (t # ts) = bind_res (score rt sc t) (\<lambda>(a, sc1).
     bind_res (score_all rt sc1 ts) (\<lambda>(as, sc2). Inr (a # as, sc2)))"

fun tick_symbol :: "runtime \<Rightarrow> pyval \<Rightarrow> string" where
  "tick_symbol rt (PDict v) = py_str rt (dict_get PNone v ''symbol'')"
| "tick_symbol rt _ = []"

fun tick_value :: "pyval \<Rightarrow> pyfloat" where
  "tick_value (PDict v) = (case numeric_value (TypeError ''price'') (dict_get PNone v ''price'') of
     Inl e \<Rightarrow> NaN | Inr x \<Rightarrow> x)"
| "tick_value _ = NaN"

text \<open>The price of the latest tick of a symbol.\<close>

definition last_price :: "runtime \<Rightarrow> pyval list \<Rightarrow> string \<Rightarrow> pyfloat option" where
  "last_price rt ticks symb = (case filter (\<lambda>t. tick_symbol rt t = symb) (List.rev ticks) of
     [] \<Rightarrow> None | t # _ \<Rightarrow> Some (tick_value t))"

definition previous_number :: "nat \<Rightarrow> int option" where
  "previous_number i = (if i = 0 then None else Some (int i - 1))"

definition after_ticks :: "runtime \<Rightarrow> scorer \<Rightarrow> pyval list \<Rightarrow> bool" where
  "after_ticks rt sc ticks \<longleftrightarrow> sc_number sc = int (length ticks) \<and>
     sc_previous sc = previous_number (length ticks) \<and> sc_prices sc = last_price rt ticks"

lemma last_price_snoc: "last_price rt (ticks @ [t]) = (last_price rt ticks)(tick_symbol rt t \<mapsto> tick_value t)"
  by (auto simp: last_price_def fun_eq_iff)

lemma score_after:
  assumes "after_ticks rt sc ticks" and "score rt sc t = Inr (a, sc')"
  shows "after_ticks rt sc' (ticks @ [t]) \<and> sc_threshold sc' = sc_threshold sc \<and>
    score_tick rt t (last_price rt ticks (tick_symbol rt t)) (PFloat (sc_threshold sc))
      (int (length ticks)) (previous_number (length ticks)) ''ZEROMQ'' = Inr a"
  using assms(2)
proof (rule score_Inr)
  fix v x
  assume d: "t = PDict v" and x: "numeric_value (TypeError ''price'') (dict_get PNone v ''price'') = Inr x"
    and s: "score_tick rt t (sc_prices sc (py_str rt (dict_get PNone v ''symbol'')))
       (PFloat (sc_threshold sc)) (sc_number sc) (sc_previous sc) ''ZEROMQ'' = Inr a"
    and sc': "sc' = sc\<lparr>sc_prices := (sc_prices sc)(py_str rt (dict_get PNone v ''symbol'') \<mapsto> x),
              sc_previous := Some (sc_number sc), sc_number := sc_number sc + 1\<rparr>"
  have "after_ticks rt sc' (ticks @ [t])"
    using assms(1) d x by (simp add: after_ticks_def sc' last_price_snoc previous_number_def)
  with s assms(1) d show ?thesis by (simp add: after_ticks_def sc')
qed

lemma score_all_after:
  assumes "after_ticks rt sc hist" and "score_all rt sc ticks = Inr (as, sc')"
  shows "length as = length ticks \<and> (\<forall>i<length ticks.
    score_tick rt (ticks ! i) (last_price rt (hist @ take i ticks) (tick_symbol rt (ticks ! i)))
      (PFloat (sc_threshold sc)) (int (length hist + i)) (previous_number (length hist + i)) ''ZEROMQ''
      = Inr (as ! i))"
  using assms
proof (induction ticks arbitrary: sc hist as)
  case (Cons t ts)
  obtain a sc1 bs where a: "score rt sc t = Inr (a, sc1)" "score_all rt sc1 ts = Inr (bs, sc')" "as = a # bs"
    using Cons.prems(2) by (auto simp: res_simps)
  note st = score_after [OF Cons.prems(1) a(1)]
  note ih = Cons.IH [OF conjunct1 [OF st] a(2)]
  show ?case
  proof (intro conjI allI impI)
    show "length as = length (t # ts)" using ih a(3) by simp
    fix i assume "i < length (t # ts)"
    with ih st a(3) show "score_tick rt ((t # ts) ! i)
        (last_price rt (hist @ take i (t # ts)) (tick_symbol rt ((t # ts) ! i)))
        (PFloat (sc_threshold sc)) (int (length hist + i)) (previous_number (length hist + i)) ''ZEROMQ''
        = Inr (as ! i)"
      by (cases i) (simp_all add: add.assoc)
  qed
qed simp

lemma score_tick_status:
  "score_tick rt tick previous threshold n pn transport = Inr a \<Longrightarrow>
   dict_get PNone a ''sequence_status'' = PStr (status_name (step_status pn n)) \<and>
   map_of a ''event_id'' \<noteq> None"
proof (erule score_tick_Inr)
  fix v t x pct an re
  assume v: "validate_tick rt tick = Inr v"
    and a: "a = v @ annotations rt v pct an re (norm_name transport) n (step_status pn n)"
  from validate_tick_Inr [OF v] have e: "exact_fields tick_fields v" by blast
  show ?thesis using annotated_get(6) [OF e] by (simp add: a annotations_def map_add_def split: option.splits)
qed

subsection \<open>Published and journalled\<close>

lemma score_event_id: "score rt sc m = Inr (a, sc') \<Longrightarrow> \<exists>i. map_of a ''event_id'' = Some (PStr i)"
proof (erule score_Inr)
  fix v x
  assume s: "score_tick rt m (sc_prices sc (py_str rt (dict_get PNone v ''symbol'')))
      (PFloat (sc_threshold sc)) (sc_number sc) (sc_previous sc) ''ZEROMQ'' = Inr a"
  from s obtain w pct an re where w: "validate_tick rt m = Inr w"
    and a: "a = w @ annotations rt w pct an re (norm_name ''ZEROMQ'') (sc_number sc)
      (step_status (sc_previous sc) (sc_number sc))" by (rule score_tick_Inr)
  have e: "exact_fields tick_fields w" using validate_tick_Inr [OF w] by blast
  have "dict_get PNone a ''event_id'' = PStr (scored_id rt (norm_name ''ZEROMQ'') w (sc_number sc))"
    unfolding a by (rule annotated_get(4) [OF e])
  then show ?thesis by (cases "map_of a ''event_id''") auto
qed

lemma score_loop_recorded:
  assumes "score_loop eng rt spans True limit n g events s = (r, g', s')"
    and "keyed ''realtime_event_journal'' ''event_id'' (st_tables s)"
    and "\<forall>e\<in>set (sg_published g). recorded s e"
  shows "\<forall>e\<in>set (sg_published g'). recorded s' e"
  using assms
proof (induction events arbitrary: n g s)
  case Nil
  then show ?case by (subst (asm) score_loop.simps) (auto split: if_splits)
next
  case (Cons ev es)
  show ?case
  proof (cases "\<exists>m a sc. ev = Message m \<and> score rt (sg_scorer g) m = Inr (a, sc)
      \<and> \<not> (case limit of None \<Rightarrow> False | Some c \<Rightarrow> n \<ge> c)")
    case False
    then have "g' = g \<and> s' = s"
      using Cons.prems(1) by (subst (asm) score_loop.simps)
        (auto split: if_splits socket_event.splits sum.splits)
    with Cons.prems(3) show ?thesis by simp
  next
    case True
    then obtain m a sc where m: "ev = Message m" "score rt (sg_scorer g) m = Inr (a, sc)"
      "\<not> (case limit of None \<Rightarrow> False | Some c \<Rightarrow> n \<ge> c)" by blast
    obtain q s1 where q: "persist_realtime_event eng False (fst (spans n)) (snd (spans n)) a s = (q, s1)"
      by fastforce
    obtain i where i: "map_of a ''event_id'' = Some (PStr i)" using score_event_id [OF m(2)] by blast
    note rec = persist_records [OF q i Cons.prems(2)]
    let ?g = "g\<lparr>sg_scorer := sc, sg_published := sg_published g @ [a],
      sg_collected := (if limit = None then sg_collected g else sg_collected g @ [a])\<rparr>"
    have step: "(r, g', s') = (case q of Inl e \<Rightarrow> (Inl e, g\<lparr>sg_scorer := sc\<rparr>, s1)
        | Inr b \<Rightarrow> score_loop eng rt spans True limit (Suc n) ?g es s1)"
      using Cons.prems(1) m q by (subst (asm) score_loop.simps) (simp split: sum.splits)
    show ?thesis
    proof (cases q)
      case (Inl e)
      with step rec Cons.prems(3) show ?thesis by auto
    next
      case (Inr b)
      have "\<forall>e\<in>set (sg_published ?g). recorded s1 e"
        using rec Cons.prems(3) Inr persist_records [OF q i Cons.prems(2), of b] by auto
      with Cons.IH [of "Suc n" ?g s1] step Inr rec show ?thesis by auto
    qed
  qed
qed

subsection \<open>Properties\<close>

text \<open>The annotated tick of the scorer satisfies the contract its consumers
  check, provided the percentage change is a finite number and identifiers are not blank.\<close>

theorem scored_ticks_validate:
  assumes "score rt sc tick = Inr (a, sc')" and "\<And>z. py_strip (uuid5 rt z) \<noteq> []"
  shows "validate_annotated_tick rt (PDict a) =
    (if dict_get PNone a ''pct_change'' \<in> {PFloat PInf, PFloat NInf, PFloat NaN}
     then Inl (ValueError ''pct_change must be a finite number or None'') else Inr a)"
  using assms(1)
proof (rule score_Inr)
  fix v x
  assume v: "validate_tick rt tick = Inr v" and s: "score_tick rt tick
      (sc_prices sc (py_str rt (dict_get PNone v ''symbol''))) (PFloat (sc_threshold sc)) (sc_number sc)
      (sc_previous sc) ''ZEROMQ'' = Inr a"
  from s obtain w x t pct an re where w: "validate_tick rt tick = Inr w" "judge rt x
      (sc_prices sc (py_str rt (dict_get PNone v ''symbol''))) t = Inr (pct, an, re)"
    and a: "a = w @ annotations rt w pct an re (norm_name ''ZEROMQ'') (sc_number sc)
      (step_status (sc_previous sc) (sc_number sc))" by (rule score_tick_Inr)
  have e: "exact_fields tick_fields w" using validate_tick_Inr [OF w(1)] by blast
  have "dict_get PNone a ''pct_change'' = pct" unfolding a by (rule annotated_get(1) [OF e])
  moreover have "pct = PNone \<or> (\<exists>y. pct = PFloat y)" using judge_Inr [OF w(2)] by blast
  moreover have "finite_or_none (PFloat y) = (if y \<in> {PInf, NInf, NaN}
      then Inl (ValueError ''pct_change must be a finite number or None'') else Inr ())" for y
    by (cases y) (simp_all add: finite_or_none_def)
  ultimately show ?thesis using score_valid_iff [OF assms] by (auto simp: finite_or_none_def)
qed

definition plain_tick :: "string \<Rightarrow> pyval \<Rightarrow> pyval" where
  "plain_tick symb price = PDict [(''symbol'', PStr symb), (''price'', price), (''exchange_timestamp'', PStr ''5''),
     (''received_timestamp'', PStr ''5''), (''latency_ms'', PFloat (Fin 0))]"

definition plain_scorer :: "pyfloat option \<Rightarrow> scorer" where
  "plain_scorer price = \<lparr>sc_threshold = Fin 1, sc_prices = (\<lambda>s. price), sc_number = 0, sc_previous = None\<rparr>"

lemma plain_tick_valid:
  assumes "0 < p"
  shows "validate_tick iso_runtime (plain_tick ''AAPL'' (PFloat (Fin p)))
    = Inr [(''symbol'', PStr ''AAPL''), (''price'', PFloat (Fin p)), (''exchange_timestamp'', PStr ''5''),
     (''received_timestamp'', PStr ''5''), (''latency_ms'', PFloat (Fin 0))]"
proof -
  have "parse_utc_timestamp iso_runtime (PStr ''5'') f = Inr 5" for f
  proof -
    have "isoformat iso_runtime 5 = show_int 5" by (simp add: iso_runtime_def sample_runtime_def)
    also have "\<dots> = ''5''" by code_simp
    finally show ?thesis using parse_isoformat [OF iso_runtime_roundtrip, of 5 f] by simp
  qed
  moreover have "elapsed_ms 5 5 = Fin 0" by (simp add: elapsed_ms_def)
  moreover have "py_strip ''AAPL'' \<noteq> []" by code_simp
  ultimately show ?thesis using assms
    by (simp add: validate_tick_def plain_tick_def exact_fields_def tick_fields_def finite_number_def
        dict_get_def isclose_def insert_commute)
qed

lemma iso_runtime_ids: "py_strip (uuid5 iso_runtime z) \<noteq> []"
  by (simp add: iso_runtime_def sample_runtime_def py_strip_def py_lstrip_def py_space_def
      dropWhile_eq_Nil_conv)

lemma plain_score:
  assumes "0 < p" and "previous = None \<or> (\<exists>q. previous = Some (Fin q) \<and> 0 < q)"
  shows "\<exists>a sc'. score iso_runtime (plain_scorer previous) (plain_tick ''AAPL'' (PFloat (Fin p))) = Inr (a, sc')"
  using assms(2) plain_tick_valid [OF assms(1)] assms(1) zeromq_name
  by (auto simp: score_def score_tick_def plain_tick_def plain_scorer_def validate_threshold_def to_float_def
      judge_def Let_def dict_get_def)

lemma scored_ticks_validate_witness:
  "\<exists>a sc'. score iso_runtime (plain_scorer None) (plain_tick ''AAPL'' (PFloat (Fin 100))) = Inr (a, sc')
     \<and> validate_annotated_tick iso_runtime (PDict a) \<noteq> Inl (ValueError ''reason must be a non-empty string'')"
proof -
  obtain a sc' where s: "score iso_runtime (plain_scorer None) (plain_tick ''AAPL'' (PFloat (Fin 100))) = Inr (a, sc')"
    using plain_score [of 100 None] by auto
  from scored_ticks_validate [OF s iso_runtime_ids] s show ?thesis by auto
qed

text \<open>The percentage of two valid prices may leave the range of a
  float.  The scorer then publishes an infinite change, flagged as an anomaly, which the validator of
  its consumers rejects.\<close>

theorem overflowing_change_rejected:
  assumes "score rt sc (PDict v) = Inr (a, sc')" and "dict_get PNone v ''price'' = PFloat (Fin q)"
    and "sc_prices sc (py_str rt (dict_get PNone v ''symbol'')) = Some (Fin p)"
    and "2 ^ 1000 \<le> q" and "0 < p" and "p \<le> 1 / 2 ^ 100" and "\<And>z. py_strip (uuid5 rt z) \<noteq> []"
  shows "dict_get PNone a ''pct_change'' = PFloat PInf \<and> dict_get PNone a ''is_anomaly'' = PBool True \<and>
    validate_annotated_tick rt (PDict a) = Inl (ValueError ''pct_change must be a finite number or None'')"
proof -
  have pct: "dict_get PNone a ''pct_change'' = PFloat PInf \<and> dict_get PNone a ''is_anomaly'' = PBool True"
    using assms(1)
  proof (rule score_Inr)
    fix w x
    assume w: "validate_tick rt (PDict v) = Inr w" "PDict v = PDict w"
      and s: "score_tick rt (PDict v) (sc_prices sc (py_str rt (dict_get PNone w ''symbol'')))
        (PFloat (sc_threshold sc)) (sc_number sc) (sc_previous sc) ''ZEROMQ'' = Inr a"
    from s obtain u y t pct an re where u: "validate_tick rt (PDict v) = Inr u" "PDict v = PDict u"
      "validate_threshold rt (PFloat (sc_threshold sc)) = Inr t"
      "numeric_value (TypeError ''price'') (dict_get PNone u ''price'') = Inr y"
      "judge rt y (sc_prices sc (py_str rt (dict_get PNone w ''symbol''))) t = Inr (pct, an, re)"
      and a: "a = u @ annotations rt u pct an re (norm_name ''ZEROMQ'') (sc_number sc)
        (step_status (sc_previous sc) (sc_number sc))" by (rule score_tick_Inr)
    have e: "exact_fields tick_fields u" using validate_tick_Inr [OF u(1)] by blast
    have t: "is_finite t" using u(3) by (auto simp: validate_threshold_def Let_def res_simps)
    have eq: "w = v" "u = v" using w(2) u(2) by simp_all
    have "y = Fin q" using u(4) assms(2) eq by simp
    with u(5) eq assms(3,5) huge_change [OF assms(4,5,6)] t
    have "pct = PFloat PInf" "an" by (cases t; auto simp: judge_def Let_def)+
    with annotated_get(1,2) [OF e] show ?thesis by (simp add: a)
  qed
  with scored_ticks_validate [OF assms(1,7)] show ?thesis by simp
qed

lemma overflowing_change_rejected_witness:
  "\<exists>a sc'. score iso_runtime (plain_scorer (Some (Fin (1 / 2 ^ 200)))) (plain_tick ''AAPL'' (PFloat (Fin (2 ^ 1000))))
     = Inr (a, sc') \<and> dict_get PNone a ''pct_change'' = PFloat PInf"
proof -
  have pos: "(0 :: rat) < 1 / 2 ^ 200" by simp
  obtain a sc' where s: "score iso_runtime (plain_scorer (Some (Fin (1 / 2 ^ 200))))
      (plain_tick ''AAPL'' (PFloat (Fin (2 ^ 1000)))) = Inr (a, sc')"
    using plain_score [of "2 ^ 1000" "Some (Fin (1 / 2 ^ 200))"] pos zero_less_power [of 2 1000] by fastforce
  have "dict_get PNone a ''pct_change'' = PFloat PInf \<and> dict_get PNone a ''is_anomaly'' = PBool True \<and>
    validate_annotated_tick iso_runtime (PDict a) = Inl (ValueError ''pct_change must be a finite number or None'')"
    by (rule overflowing_change_rejected [OF s [unfolded plain_tick_def] _ _ _ pos _ iso_runtime_ids, of "2 ^ 1000"])
      (simp_all add: dict_get_def plain_scorer_def)
  with s show ?thesis by blast
qed

text \<open>C10 (scorer_matches_history): a run of the stateful scorer equals the stateless rule applied to the
  history: the i-th tick is scored against the latest earlier price of its symbol, with sequence
  number i; so its status is \<open>FIRST\<close> once and \<open>IN_ORDER\<close> ever after, whatever the feed lost.\<close>

theorem scorer_matches_history:
  assumes "new_scorer rt threshold = Inr sc" and "score_all rt sc ticks = Inr (as, sc')"
  shows "length as = length ticks \<and> (\<forall>i<length ticks.
    score_tick rt (ticks ! i) (last_price rt (take i ticks) (tick_symbol rt (ticks ! i)))
      (PFloat (sc_threshold sc)) (int i) (previous_number i) ''ZEROMQ'' = Inr (as ! i) \<and>
    dict_get PNone (as ! i) ''sequence_status'' = PStr (if i = 0 then ''FIRST'' else ''IN_ORDER''))"
proof -
  have "after_ticks rt sc []"
    using assms(1) by (auto simp: new_scorer_def res_simps after_ticks_def previous_number_def last_price_def fun_eq_iff)
  note r = score_all_after [OF this assms(2), simplified]
  have st: "status_name (step_status (previous_number i) (int i)) = (if i = 0 then ''FIRST'' else ''IN_ORDER'')" for i
    by (simp add: previous_number_def step_status_def)
  show ?thesis
  proof (intro conjI allI impI)
    fix i assume "i < length ticks"
    with r have s: "score_tick rt (ticks ! i) (last_price rt (take i ticks) (tick_symbol rt (ticks ! i)))
      (PFloat (sc_threshold sc)) (int i) (previous_number i) ''ZEROMQ'' = Inr (as ! i)" by blast
    then show "score_tick rt (ticks ! i) (last_price rt (take i ticks) (tick_symbol rt (ticks ! i)))
      (PFloat (sc_threshold sc)) (int i) (previous_number i) ''ZEROMQ'' = Inr (as ! i)" .
    from score_tick_status [OF s] st
    show "dict_get PNone (as ! i) ''sequence_status'' = PStr (if i = 0 then ''FIRST'' else ''IN_ORDER'')"
      by simp
  qed (use r in blast)
qed

lemma scorer_matches_history_witness:
  "\<exists>a sc'. score_all iso_runtime (plain_scorer None) [plain_tick ''AAPL'' (PFloat (Fin 100))] = Inr ([a], sc')
     \<and> dict_get PNone a ''sequence_status'' = PStr ''FIRST''"
proof -
  have n: "new_scorer iso_runtime (PFloat (Fin 1)) = Inr (plain_scorer None)"
    by (simp add: new_scorer_def validate_threshold_def to_float_def plain_scorer_def fun_eq_iff)
  obtain a sc' where "score iso_runtime (plain_scorer None) (plain_tick ''AAPL'' (PFloat (Fin 100))) = Inr (a, sc')"
    using plain_score [of 100 None] by auto
  then have a: "score_all iso_runtime (plain_scorer None) [plain_tick ''AAPL'' (PFloat (Fin 100))] = Inr ([a], sc')"
    by simp
  from scorer_matches_history [OF n a] a show ?thesis by auto
qed

text \<open>C29 (published_ticks_journalled): with a journal, whatever the feed delivers and wherever the engine
  fails, every tick that was published has its identifier in the journal: an event is written before
  it is sent.\<close>

theorem published_ticks_journalled:
  assumes "score_loop eng rt spans True limit 0 \<lparr>sg_scorer = sc, sg_published = [], sg_collected = []\<rparr> events s
      = (r, g, s')"
    and "keyed ''realtime_event_journal'' ''event_id'' (st_tables s)"
  shows "\<forall>e\<in>set (sg_published g). recorded s' e"
  using score_loop_recorded [OF assms(1,2)] by simp

definition warm_up_tick :: payload where
  "warm_up_tick = [(''symbol'', PStr ''AAPL''), (''price'', PFloat (Fin 100)), (''exchange_timestamp'', PStr ''5''),
     (''received_timestamp'', PStr ''5''), (''latency_ms'', PFloat (Fin 0)), (''pct_change'', PNone),
     (''is_anomaly'', PBool False), (''reason'', PStr ''No prior price for symbol; warm-up tick''),
     (''event_id'', PStr ''id:ZEROMQ|AAPL|5|0''), (''sequence_number'', PInt 0),
     (''sequence_status'', PStr ''FIRST''), (''transport'', PStr ''ZEROMQ'')]"

lemma warm_up_score: "\<exists>sc'. score iso_runtime (plain_scorer None) (plain_tick ''AAPL'' (PFloat (Fin 100)))
    = Inr (warm_up_tick, sc')"
proof -
  have z: "show_int 0 = ''0''" by code_simp
  have "uuid5 iso_runtime x = ''id:'' @ x" for x by (simp add: iso_runtime_def sample_runtime_def)
  with plain_tick_valid [of 100] zeromq_name z show ?thesis
    by (simp add: score_def score_tick_def plain_tick_def plain_scorer_def validate_threshold_def to_float_def
      judge_def Let_def dict_get_def warm_up_tick_def scored_id_def step_status_def)
qed

lemma warm_up_recorded: "fst (persist_realtime_event plain_engine False None None warm_up_tick fresh_store) = Inr True"
  by code_simp

lemma published_ticks_journalled_witness:
  "\<exists>g s'. score_loop plain_engine iso_runtime (\<lambda>n. (None, None)) True (Some 1) 0
       \<lparr>sg_scorer = plain_scorer None, sg_published = [], sg_collected = []\<rparr>
       [Message (plain_tick ''AAPL'' (PFloat (Fin 100)))] fresh_store = (Inr (), g, s')
     \<and> sg_published g = [warm_up_tick] \<and> recorded s' warm_up_tick"
proof -
  obtain sc' where sc: "score iso_runtime (plain_scorer None) (plain_tick ''AAPL'' (PFloat (Fin 100)))
    = Inr (warm_up_tick, sc')" using warm_up_score by blast
  obtain s' where p: "persist_realtime_event plain_engine False None None warm_up_tick fresh_store = (Inr True, s')"
    using warm_up_recorded by (cases "persist_realtime_event plain_engine False None None warm_up_tick fresh_store") simp
  let ?g = "\<lparr>sg_scorer = sc', sg_published = [warm_up_tick], sg_collected = [warm_up_tick]\<rparr>"
  have "score_loop plain_engine iso_runtime (\<lambda>n. (None, None)) True (Some 1) 1 ?g [] s' = (Inr (), ?g, s')"
    by (subst score_loop.simps) simp
  then have l: "score_loop plain_engine iso_runtime (\<lambda>n. (None, None)) True (Some 1) 0
       \<lparr>sg_scorer = plain_scorer None, sg_published = [], sg_collected = []\<rparr>
       [Message (plain_tick ''AAPL'' (PFloat (Fin 100)))] fresh_store = (Inr (), ?g, s')"
    by (subst score_loop.simps) (simp add: sc p)
  with published_ticks_journalled [OF l fresh_keyed(2)] show ?thesis by auto
qed

end
