(* ===== verification/Tcp_Transport.thy ===== *)
theory Tcp_Transport
  imports Market_Event
begin

section \<open>TCP/TLS framing, reconnection and delivery\<close>

text \<open>
  \<open>TCPTransport\<close> of \<open>realtime/network_transport.py\<close>.  The peer is a list of receive events
  (a chunk, of which one \<open>recv\<close> call returns at most the requested number of bytes, or a
  failure); an empty chunk is the orderly close.  Running off the end of the list is
  \<open>WouldBlock\<close>: the call waits for input the example does not hold.  Reading functions
  return the outcome with the remaining buffer and events, because a frame error leaves both
  in the transport.  The network is the list of outcomes of successive connection attempts.
\<close>

datatype recv_event = Data bytes | RecvFail

fun recv :: "nat \<Rightarrow> recv_event list \<Rightarrow> bytes result \<times> recv_event list" where
  "recv n [] = (Inl WouldBlock, [])"
| "recv n (RecvFail # es) = (Inl OSError, es)"
| "recv n (Data bs # es) =
     (if length bs \<le> n then (Inr bs, es) else (Inr (take n bs), Data (drop n bs) # es))"

definition chunk_limit :: "nat \<Rightarrow> nat" where
  "chunk_limit max_frame = min 65536 (max_frame + 1)"

definition recv_chunk :: "nat \<Rightarrow> recv_event list \<Rightarrow> bytes result \<times> recv_event list" where
  "recv_chunk m es =
     (let (r, es') = recv (chunk_limit m) es in
      (bind_res r (\<lambda>chunk. if chunk = [] then Inl ConnectionClosedError else Inr chunk), es'))"

fun weight :: "recv_event list \<Rightarrow> nat" where
  "weight [] = 0"
| "weight (RecvFail # es) = Suc (weight es)"
| "weight (Data bs # es) = Suc (length bs) + weight es"

lemma chunk_limit_pos [simp]: "0 < chunk_limit m"
  by (simp add: chunk_limit_def)

lemma recv_chunk_weight: "recv_chunk m es = (Inr c, es') \<Longrightarrow> weight es' < weight es"
  using chunk_limit_pos [of m]
  by (cases es rule: weight.cases) (auto simp: recv_chunk_def res_simps split: if_splits)

lemma recv_chunk_length: "recv_chunk m es = (Inr c, es') \<Longrightarrow> length c \<le> chunk_limit m"
  by (cases es rule: weight.cases) (auto simp: recv_chunk_def res_simps split: if_splits)

definition newline :: nat where "newline = 10"

definition find_byte :: "nat \<Rightarrow> bytes \<Rightarrow> nat option" where
  "find_byte b bs = (if b \<in> set bs then Some (length (takeWhile (\<lambda>x. x \<noteq> b) bs)) else None)"

definition blank_bytes :: "bytes \<Rightarrow> bool" where
  "blank_bytes bs = list_all (\<lambda>b. 9 \<le> b \<and> b \<le> 13 \<or> b = 32) bs"

definition newline_overflow :: exn where
  "newline_overflow = FrameError ''Newline-delimited frame exceeds max_frame_bytes''"

function read_newline_frame :: "nat \<Rightarrow> bytes \<Rightarrow> recv_event list \<Rightarrow>
    bytes result \<times> bytes \<times> recv_event list" where
  "read_newline_frame m buf es =
     (case find_byte newline buf of
        Some d \<Rightarrow>
          if d > m then (Inl newline_overflow, buf, es)
          else let frame = take d buf; buf' = drop (d + 1) buf in
            if blank_bytes frame
            then (Inl (FrameError ''Newline-delimited frame cannot be empty''), buf', es)
            else (Inr frame, buf', es)
      | None \<Rightarrow>
          if length buf > m then (Inl newline_overflow, buf, es)
          else (case recv_chunk m es of
                  (Inl e, es') \<Rightarrow> (Inl e, buf, es')
                | (Inr chunk, es') \<Rightarrow> read_newline_frame m (buf @ chunk) es'))"
  by pat_completeness auto
termination
  by (relation "measure (\<lambda>(m, buf, es). weight es)") (auto dest: recv_chunk_weight [OF sym])

declare read_newline_frame.simps [simp del]

function fill :: "nat \<Rightarrow> nat \<Rightarrow> bytes \<Rightarrow> recv_event list \<Rightarrow> unit result \<times> bytes \<times> recv_event list" where
  "fill m want buf es =
     (if length buf < want
      then (case recv_chunk m es of
              (Inl e, es') \<Rightarrow> (Inl e, buf, es')
            | (Inr chunk, es') \<Rightarrow> fill m want (buf @ chunk) es')
      else (Inr (), buf, es))"
  by pat_completeness auto
termination
  by (relation "measure (\<lambda>(m, want, buf, es). weight es)") (auto dest: recv_chunk_weight [OF sym])

declare fill.simps [simp del]

text \<open>\<open>struct.unpack("!I", ...)\<close>: four bytes, most significant first.\<close>

definition be32 :: "bytes \<Rightarrow> nat" where
  "be32 bs = foldl (\<lambda>n b. 256 * n + b) 0 bs"

definition read_length_prefixed_frame :: "nat \<Rightarrow> bytes \<Rightarrow> recv_event list \<Rightarrow>
    bytes result \<times> bytes \<times> recv_event list" where
  "read_length_prefixed_frame m buf es =
     (case fill m 4 buf es of
        (Inl e, buf1, es1) \<Rightarrow> (Inl e, buf1, es1)
      | (Inr _, buf1, es1) \<Rightarrow>
          let frame_length = be32 (take 4 buf1); buf2 = drop 4 buf1 in
          if frame_length \<le> 0
          then (Inl (FrameError ''Length-prefixed frame cannot be empty''), buf2, es1)
          else if frame_length > m
          then (Inl (FrameError ''Length-prefixed frame exceeds max_frame_bytes''), buf2, es1)
          else (case fill m frame_length buf2 es1 of
              (Inl e, buf3, es3) \<Rightarrow> (Inl e, buf3, es3)
            | (Inr _, buf3, es3) \<Rightarrow> (Inr (take frame_length buf3), drop frame_length buf3, es3)))"

subsection \<open>The transport object\<close>

datatype framing = Newline | LengthPrefixed

datatype connect_outcome = Refused | SetupFailed | Connected "recv_event list"

record tcp =
  tcp_framing :: framing
  tcp_tls :: bool
  tcp_reconnect_attempts :: nat
  tcp_backoff :: pyfloat
  tcp_max_frame :: nat
  tcp_socket :: "recv_event list option"
  tcp_buffer :: bytes
  tcp_network :: "connect_outcome list"
  tcp_sleeps :: "pyfloat list"

definition validate_port :: "pyval \<Rightarrow> int result" where
  "validate_port port =
     (case plain_int port of
        Some p \<Rightarrow> if 1 \<le> p \<and> p \<le> 65535 then Inr p
                  else Inl (ValueError ''port must be an integer between 1 and 65535'')
      | None \<Rightarrow> Inl (ValueError ''port must be an integer between 1 and 65535''))"

definition parse_framing :: "string \<Rightarrow> framing result" where
  "parse_framing s =
     (let f = py_lower (py_strip s) in
      if f = ''newline'' then Inr Newline
      else if f = ''length-prefixed'' then Inr LengthPrefixed
      else Inl (ValueError ''framing must be one of: length-prefixed, newline''))"

definition new_tcp :: "pyval \<Rightarrow> pyval \<Rightarrow> string \<Rightarrow> bool \<Rightarrow> pyfloat \<Rightarrow> pyfloat \<Rightarrow> int \<Rightarrow> pyfloat \<Rightarrow> int \<Rightarrow>
    connect_outcome list \<Rightarrow> tcp result" where
  "new_tcp host port framing tls connect_timeout read_timeout attempts backoff max_frame network =
     (if nonblank_str host = None then Inl (ValueError ''host must be non-empty'')
      else bind_res (validate_port port) (\<lambda>p.
      bind_res (parse_framing framing) (\<lambda>f.
      if fle connect_timeout (Fin 0) \<or> fle read_timeout (Fin 0)
      then Inl (ValueError ''TCP timeouts must be positive'')
      else if attempts < 0 \<or> flt backoff (Fin 0)
      then Inl (ValueError ''Reconnect settings must be non-negative'')
      else if max_frame \<le> 0 then Inl (ValueError ''max_frame_bytes must be positive'')
      else Inr \<lparr>tcp_framing = f, tcp_tls = tls, tcp_reconnect_attempts = nat attempts,
                tcp_backoff = backoff, tcp_max_frame = nat max_frame, tcp_socket = None,
                tcp_buffer = [], tcp_network = network, tcp_sleeps = []\<rparr>)))"

definition transport_name :: "tcp \<Rightarrow> string" where
  "transport_name t = (if tcp_tls t then ''TLS'' else ''TCP'')"

definition connect :: "tcp \<Rightarrow> unit result \<times> tcp" where
  "connect t =
     (case tcp_socket t of
        Some _ \<Rightarrow> (Inr (), t)
      | None \<Rightarrow> (case tcp_network t of
            [] \<Rightarrow> (Inl WouldBlock, t)
          | Refused # ns \<Rightarrow> (Inl OSError, t\<lparr>tcp_network := ns\<rparr>)
          | SetupFailed # ns \<Rightarrow> (Inl OSError, t\<lparr>tcp_network := ns\<rparr>)
          | Connected es # ns \<Rightarrow>
              (Inr (), t\<lparr>tcp_network := ns, tcp_socket := Some es, tcp_buffer := []\<rparr>)))"

definition read_frame :: "tcp \<Rightarrow> bytes result \<times> tcp" where
  "read_frame t =
     (let es = (case tcp_socket t of None \<Rightarrow> [] | Some es \<Rightarrow> es);
          (r, buf', es') =
            (if tcp_framing t = Newline then read_newline_frame (tcp_max_frame t) (tcp_buffer t) es
             else read_length_prefixed_frame (tcp_max_frame t) (tcp_buffer t) es)
      in (r, t\<lparr>tcp_buffer := buf', tcp_socket := Some es'\<rparr>))"

definition tcp_close :: "tcp \<Rightarrow> tcp" where
  "tcp_close t = t\<lparr>tcp_socket := None, tcp_buffer := []\<rparr>"

text \<open>The body of the \<open>try\<close> block: connect, read one frame, decode it.\<close>

definition receive_once :: "runtime \<Rightarrow> tcp \<Rightarrow> market_event result \<times> tcp" where
  "receive_once rt t =
     (case connect t of
        (Inl e, t1) \<Rightarrow> (Inl e, t1)
      | (Inr _, t1) \<Rightarrow> (case read_frame t1 of
            (Inl e, t2) \<Rightarrow> (Inl e, t2)
          | (Inr frame, t2) \<Rightarrow> (decode_event rt frame (transport_name t2), t2)))"

definition retryable :: "exn \<Rightarrow> bool" where
  "retryable e = (case e of ConnectionClosedError \<Rightarrow> True | OSError \<Rightarrow> True
                  | TimeoutError _ \<Rightarrow> True | _ \<Rightarrow> False)"

definition receive_failed :: "tcp \<Rightarrow> exn" where
  "receive_failed t = TransportError (''TCP receive failed after ''
     @ show_nat (tcp_reconnect_attempts t + 1) @ '' attempts'')"

text \<open>\<open>for attempt in range(self.reconnect_attempts + 1)\<close>, with the rounds left as fuel.\<close>

fun receive_loop :: "runtime \<Rightarrow> nat \<Rightarrow> nat \<Rightarrow> tcp \<Rightarrow> market_event result \<times> tcp" where
  "receive_loop rt attempt 0 t = (Inl (receive_failed t), t)"
| "receive_loop rt attempt (Suc left) t =
     (case receive_once rt t of
        (Inr ev, t1) \<Rightarrow> (Inr ev, t1)
      | (Inl e, t1) \<Rightarrow>
          if retryable e
          then (let t2 = tcp_close t1 in
            if attempt \<ge> tcp_reconnect_attempts t then (Inl (receive_failed t), t2)
            else (case float_of_int (2 ^ attempt) of
                Inl e' \<Rightarrow> (Inl e', t2)
              | Inr factor \<Rightarrow>
                  receive_loop rt (Suc attempt) left
                    (t2\<lparr>tcp_sleeps := tcp_sleeps t2 @ [fmul (tcp_backoff t2) factor]\<rparr>)))
          else (Inl e, t1))"

definition receive :: "runtime \<Rightarrow> tcp \<Rightarrow> market_event result \<times> tcp" where
  "receive rt t = receive_loop rt 0 (tcp_reconnect_attempts t + 1) t"

subsection \<open>What a stream of chunks carries\<close>

fun live :: "recv_event list \<Rightarrow> bool" where
  "live [] = True"
| "live (RecvFail # es) = False"
| "live (Data bs # es) = (bs \<noteq> [] \<and> live es)"

fun carried :: "recv_event list \<Rightarrow> bytes" where
  "carried [] = []"
| "carried (RecvFail # es) = []"
| "carried (Data bs # es) = bs @ carried es"

lemma recv_chunk_live:
  assumes "live es" and "carried es \<noteq> []"
  obtains c es' where "recv_chunk m es = (Inr c, es')" "c \<noteq> []" "live es'" "c @ carried es' = carried es"
proof (cases es rule: weight.cases)
  case (3 bs es2)
  then show ?thesis
    using assms that [of bs es2] that [of "take (chunk_limit m) bs" "Data (drop (chunk_limit m) bs) # es2"]
      chunk_limit_pos [of m]
    by (cases "length bs \<le> chunk_limit m") (auto simp: recv_chunk_def)
qed (use assms in auto)

lemma find_byte_None: "b \<notin> set bs \<Longrightarrow> find_byte b bs = None"
  by (simp add: find_byte_def)

lemma find_byte_first: "b \<notin> set f \<Longrightarrow> find_byte b (f @ b # r) = Some (length f)"
  by (induction f) (auto simp: find_byte_def)

lemma prefix_split:
  assumes "xs @ ys = p @ q" and "length p \<le> length xs"
  shows "take (length p) xs = p \<and> drop (length p) xs @ ys = q"
proof -
  have "take (length p) (xs @ ys) = p" "drop (length p) (xs @ ys) = q" by (simp_all add: assms(1))
  with assms(2) show ?thesis by simp
qed

lemma prefix_before_sep:
  assumes "xs @ ys = f @ c # q" and "c \<notin> set xs"
  shows "length xs \<le> length f"
proof (rule ccontr)
  assume "\<not> length xs \<le> length f"
  with prefix_split [of xs ys "f @ [c]" q] assms(1) have "take (length (f @ [c])) xs = f @ [c]" by simp
  then have "c \<in> set xs" by (metis in_set_conv_decomp in_set_takeD)
  with assms(2) show False ..
qed

lemma sep_split_unique:
  assumes "g @ c # h = f @ c # q" and "c \<notin> set g" and "c \<notin> set f"
  shows "g = f \<and> h = q"
  using assms by (induction g arbitrary: f) (auto simp: Cons_eq_append_conv)

text \<open>One newline frame is read whatever way it is cut into chunks.\<close>

lemma read_newline_delivers:
  assumes "newline \<notin> set f" and "\<not> blank_bytes f" and "length f \<le> m"
    and "live es" and "buf @ carried es = f @ newline # rest"
  shows "\<exists>buf' es'. read_newline_frame m buf es = (Inr f, buf', es') \<and> live es'
      \<and> buf' @ carried es' = rest"
  using assms
proof (induction "weight es" arbitrary: buf es rule: less_induct)
  case less
  show ?case
  proof (cases "newline \<in> set buf")
    case True
    then obtain g h where g: "buf = g @ newline # h" "newline \<notin> set g"
      by (meson split_list_first)
    from g(1) less.prems(5) have "g @ newline # (h @ carried es) = f @ newline # rest" by simp
    from sep_split_unique [OF this g(2) less.prems(1)] have "g = f" "h @ carried es = rest" by auto
    with g less.prems(1-4) show ?thesis
      by (subst read_newline_frame.simps) (simp add: find_byte_first Let_def)
  next
    case False
    from prefix_before_sep [OF less.prems(5) False] have short: "length buf \<le> length f" .
    have "carried es \<noteq> []" using False less.prems(5) by auto
    then obtain c es2 where c: "recv_chunk m es = (Inr c, es2)" "live es2" "c @ carried es2 = carried es"
      using recv_chunk_live less.prems(4) by metis
    have "weight es2 < weight es" using c(1) by (rule recv_chunk_weight)
    from less.hyps [OF this less.prems(1-3) c(2), of "buf @ c"] c(3) less.prems(5)
    have "\<exists>buf' es'. read_newline_frame m (buf @ c) es2 = (Inr f, buf', es') \<and> live es'
        \<and> buf' @ carried es' = rest" by simp
    moreover have "read_newline_frame m buf es = read_newline_frame m (buf @ c) es2"
      by (subst read_newline_frame.simps) (use c(1) False short less.prems(3) in \<open>simp add: find_byte_None\<close>)
    ultimately show ?thesis by simp
  qed
qed

lemma fill_delivers:
  assumes "live es" and "want \<le> length (buf @ carried es)"
  shows "\<exists>buf' es'. fill m want buf es = (Inr (), buf', es') \<and> live es' \<and> want \<le> length buf'
      \<and> buf' @ carried es' = buf @ carried es"
  using assms
proof (induction "weight es" arbitrary: buf es rule: less_induct)
  case less
  show ?case
  proof (cases "length buf < want")
    case True
    with less.prems(2) have "carried es \<noteq> []" by auto
    then obtain c es2 where c: "recv_chunk m es = (Inr c, es2)" "live es2" "c @ carried es2 = carried es"
      using recv_chunk_live less.prems(1) by metis
    have "weight es2 < weight es" using c(1) by (rule recv_chunk_weight)
    from less.hyps [OF this c(2), of "buf @ c"] c(3) less.prems(2)
    have "\<exists>buf' es'. fill m want (buf @ c) es2 = (Inr (), buf', es') \<and> live es' \<and> want \<le> length buf'
      \<and> buf' @ carried es' = buf @ carried es" by simp
    moreover have "fill m want buf es = fill m want (buf @ c) es2"
      by (subst fill.simps) (use c(1) True in simp)
    ultimately show ?thesis by simp
  next
    case False
    with less.prems show ?thesis by (subst fill.simps) auto
  qed
qed

definition to_be32 :: "nat \<Rightarrow> bytes" where
  "to_be32 n = [n div 16777216 mod 256, n div 65536 mod 256, n div 256 mod 256, n mod 256]"

lemma be32_to_be32: "n < 2 ^ 32 \<Longrightarrow> be32 (to_be32 n) = n"
proof -
  assume "n < 2 ^ 32"
  define a b c where "a = n div 256" and "b = a div 256" and "c = b div 256"
  have "n div 16777216 = c" "n div 65536 = b"
    by (simp_all add: a_def b_def c_def flip: div_mult2_eq)
  moreover have "c < 256" using \<open>n < 2 ^ 32\<close>
    by (simp add: a_def b_def c_def flip: div_mult2_eq)
  moreover have "256 * c + b mod 256 = b" by (simp add: c_def)
  moreover have "256 * b + a mod 256 = a" by (simp add: b_def)
  moreover have "256 * a + n mod 256 = n" by (simp add: a_def)
  ultimately show ?thesis by (simp add: be32_def to_be32_def a_def [symmetric])
qed

lemma read_prefixed_delivers:
  assumes "f \<noteq> []" and "length f \<le> m" and "length f < 2 ^ 32"
    and "live es" and "buf @ carried es = to_be32 (length f) @ f @ rest"
  shows "\<exists>buf' es'. read_length_prefixed_frame m buf es = (Inr f, buf', es') \<and> live es'
      \<and> buf' @ carried es' = rest"
proof -
  have "4 \<le> length (buf @ carried es)" by (simp add: assms(5) to_be32_def)
  from fill_delivers [OF assms(4) this, of m] obtain b1 es1 where
    f1: "fill m 4 buf es = (Inr (), b1, es1)" "live es1" "4 \<le> length b1"
      "b1 @ carried es1 = to_be32 (length f) @ f @ rest"
    using assms(5) by auto
  have len: "length (to_be32 (length f)) = 4" by (simp add: to_be32_def)
  from prefix_split [OF f1(4)] f1(3) len
  have t: "take 4 b1 = to_be32 (length f)" "drop 4 b1 @ carried es1 = f @ rest" by simp_all
  have "length f \<le> length (drop 4 b1 @ carried es1)" by (simp add: t(2))
  from fill_delivers [OF f1(2) this, of m] obtain b3 es3 where
    f3: "fill m (length f) (drop 4 b1) es1 = (Inr (), b3, es3)" "live es3" "length f \<le> length b3"
      "b3 @ carried es3 = f @ rest"
    using t(2) by auto
  with prefix_split [of b3 "carried es3" f rest]
  have "take (length f) b3 = f" "drop (length f) b3 @ carried es3 = rest" by simp_all
  with f1(1) f3(1,2) t(1) assms(1-3) show ?thesis
    by (simp add: read_length_prefixed_frame_def Let_def be32_to_be32)
qed


subsection \<open>Frames on the wire\<close>

fun encode_frame :: "framing \<Rightarrow> bytes \<Rightarrow> bytes" where
  "encode_frame Newline f = f @ [newline]"
| "encode_frame LengthPrefixed f = to_be32 (length f) @ f"

fun sendable :: "framing \<Rightarrow> nat \<Rightarrow> bytes \<Rightarrow> bool" where
  "sendable Newline m f \<longleftrightarrow> newline \<notin> set f \<and> \<not> blank_bytes f \<and> length f \<le> m"
| "sendable LengthPrefixed m f \<longleftrightarrow> f \<noteq> [] \<and> length f \<le> m \<and> length f < 2 ^ 32"

fun read_frames :: "nat \<Rightarrow> tcp \<Rightarrow> bytes result list \<times> tcp" where
  "read_frames 0 t = ([], t)"
| "read_frames (Suc n) t =
     (let (r, t1) = read_frame t; (rs, t2) = read_frames n t1 in (r # rs, t2))"

definition pending :: "tcp \<Rightarrow> bytes" where
  "pending t = tcp_buffer t @ (case tcp_socket t of None \<Rightarrow> [] | Some es \<Rightarrow> carried es)"

definition is_connected :: "tcp \<Rightarrow> bool" where
  "is_connected t = (case tcp_socket t of None \<Rightarrow> False | Some es \<Rightarrow> live es)"

lemma read_frame_delivers:
  assumes "sendable (tcp_framing t) (tcp_max_frame t) f" and "is_connected t"
    and "pending t = encode_frame (tcp_framing t) f @ rest"
  shows "\<exists>t'. read_frame t = (Inr f, t') \<and> is_connected t' \<and> pending t' = rest
      \<and> tcp_framing t' = tcp_framing t \<and> tcp_max_frame t' = tcp_max_frame t"
proof -
  obtain es where es: "tcp_socket t = Some es" "live es"
    using assms(2) by (auto simp: is_connected_def split: option.splits)
  show ?thesis
  proof (cases "tcp_framing t")
    case Newline
    with assms es have "newline \<notin> set f" "\<not> blank_bytes f" "length f \<le> tcp_max_frame t"
      "tcp_buffer t @ carried es = f @ newline # rest" by (auto simp: pending_def)
    from read_newline_delivers [OF this(1-3) es(2) this(4)] Newline es show ?thesis
      by (auto simp: read_frame_def pending_def is_connected_def)
  next
    case LengthPrefixed
    with assms es have "f \<noteq> []" "length f \<le> tcp_max_frame t" "length f < 2 ^ 32"
      "tcp_buffer t @ carried es = to_be32 (length f) @ f @ rest" by (auto simp: pending_def)
    from read_prefixed_delivers [OF this(1-3) es(2) this(4)] LengthPrefixed es show ?thesis
      by (auto simp: read_frame_def pending_def is_connected_def)
  qed
qed

subsection \<open>The size of the receive buffer\<close>

definition buffer_limit :: "nat \<Rightarrow> nat" where
  "buffer_limit m = max 4 m + chunk_limit m"

definition buffer_bounded :: "tcp \<Rightarrow> bool" where
  "buffer_bounded t \<longleftrightarrow> length (tcp_buffer t) \<le> buffer_limit (tcp_max_frame t)"

lemma newline_buffer:
  "read_newline_frame m buf es = (r, buf', es') \<Longrightarrow> length buf \<le> buffer_limit m \<Longrightarrow>
   length buf' \<le> buffer_limit m"
proof (induction m buf es rule: read_newline_frame.induct)
  case (1 m buf es)
  show ?case
  proof (cases "find_byte newline buf")
    case (Some d)
    with "1.prems" show ?thesis
      by (subst (asm) read_newline_frame.simps) (auto simp: Let_def split: if_splits)
  next
    case None
    show ?thesis
    proof (cases "length buf > m \<or> (\<exists>e es2. recv_chunk m es = (Inl e, es2))")
      case True
      with None "1.prems" show ?thesis
        by (subst (asm) read_newline_frame.simps) (auto split: if_splits)
    next
      case False
      then obtain c es2 where c: "recv_chunk m es = (Inr c, es2)" "length buf \<le> m"
        by (metis obj_sumE old.prod.exhaust linorder_not_less)
      then have "length (buf @ c) \<le> buffer_limit m"
        using recv_chunk_length [OF c(1)] by (simp add: buffer_limit_def)
      moreover have "read_newline_frame m (buf @ c) es2 = (r, buf', es')"
        using "1.prems"(1) None c by (subst (asm) read_newline_frame.simps) simp
      ultimately show ?thesis using "1.IH" [OF None _ c(1) [symmetric] refl] c(2) by simp
    qed
  qed
qed

lemma fill_buffer:
  "fill m want buf es = (r, buf', es') \<Longrightarrow> want \<le> max 4 m \<Longrightarrow> length buf \<le> buffer_limit m \<Longrightarrow>
   length buf' \<le> buffer_limit m"
proof (induction m want buf es rule: fill.induct)
  case (1 m want buf es)
  show ?case
  proof (cases "length buf \<ge> want \<or> (\<exists>e es2. recv_chunk m es = (Inl e, es2))")
    case True
    with "1.prems" show ?thesis
      by (subst (asm) fill.simps) (auto split: if_splits)
  next
    case False
    then obtain c es2 where c: "recv_chunk m es = (Inr c, es2)" "length buf < want"
      by (metis obj_sumE old.prod.exhaust linorder_not_less)
    then have "length (buf @ c) \<le> buffer_limit m"
      using recv_chunk_length [OF c(1)] "1.prems"(2) by (simp add: buffer_limit_def)
    moreover have "fill m want (buf @ c) es2 = (r, buf', es')"
      using "1.prems"(1) c by (subst (asm) fill.simps) simp
    ultimately show ?thesis using "1.IH" [OF c(2) c(1) [symmetric] refl] "1.prems"(2) by simp
  qed
qed

lemma prefixed_buffer:
  assumes "read_length_prefixed_frame m buf es = (r, buf', es')" and "length buf \<le> buffer_limit m"
  shows "length buf' \<le> buffer_limit m"
proof -
  obtain r1 b1 e1 where f1: "fill m 4 buf es = (r1, b1, e1)" by (cases "fill m 4 buf es")
  have b1: "length b1 \<le> buffer_limit m" using fill_buffer [OF f1] assms(2) by simp
  define n where "n = be32 (take 4 b1)"
  obtain r3 b3 e3 where f3: "fill m n (drop 4 b1) e1 = (r3, b3, e3)"
    by (cases "fill m n (drop 4 b1) e1")
  have "n \<le> m \<Longrightarrow> length b3 \<le> buffer_limit m" using fill_buffer [OF f3] b1 by simp
  with assms(1) f1 f3 b1 show ?thesis
    by (auto simp: read_length_prefixed_frame_def n_def Let_def split: sum.splits if_splits)
qed

lemma read_frame_buffer:
  "read_frame t = (r, t') \<Longrightarrow> buffer_bounded t \<Longrightarrow>
   buffer_bounded t' \<and> tcp_max_frame t' = tcp_max_frame t"
  by (auto simp: read_frame_def buffer_bounded_def Let_def split: if_splits prod.splits
      dest: newline_buffer prefixed_buffer)

lemma connect_buffer:
  "connect t = (r, t') \<Longrightarrow> buffer_bounded t \<Longrightarrow> buffer_bounded t' \<and> tcp_max_frame t' = tcp_max_frame t"
  by (auto simp: connect_def buffer_bounded_def split: option.splits list.splits connect_outcome.splits)

lemma receive_once_buffer:
  "receive_once rt t = (r, t') \<Longrightarrow> buffer_bounded t \<Longrightarrow>
   buffer_bounded t' \<and> tcp_max_frame t' = tcp_max_frame t"
  by (auto simp: receive_once_def split: prod.splits sum.splits
      dest!: connect_buffer dest: read_frame_buffer)

lemma close_buffer [simp]: "buffer_bounded (tcp_close t)"
  by (simp add: tcp_close_def buffer_bounded_def)

lemma sleeps_buffer [simp]: "buffer_bounded (t\<lparr>tcp_sleeps := x\<rparr>) = buffer_bounded t"
  by (simp add: buffer_bounded_def)

lemma receive_loop_buffer:
  "receive_loop rt k n t = (r, t') \<Longrightarrow> buffer_bounded t \<Longrightarrow> buffer_bounded t'"
proof (induction n arbitrary: k t)
  case (Suc n)
  obtain r1 t1 where o: "receive_once rt t = (r1, t1)" by (cases "receive_once rt t")
  with receive_once_buffer [OF o] Suc.prems Suc.IH show ?case
    by (auto simp: Let_def split: sum.splits if_splits)
qed simp

subsection \<open>Retries\<close>

definition settings :: "tcp \<Rightarrow> framing \<times> bool \<times> nat \<times> pyfloat \<times> nat" where
  "settings t = (tcp_framing t, tcp_tls t, tcp_reconnect_attempts t, tcp_backoff t, tcp_max_frame t)"

lemma receive_once_frame:
  "receive_once rt t = (r, t') \<Longrightarrow> settings t' = settings t \<and> tcp_sleeps t' = tcp_sleeps t"
  by (auto simp: receive_once_def connect_def read_frame_def settings_def Let_def
      split: prod.splits sum.splits option.splits list.splits connect_outcome.splits if_splits)

definition delay :: "pyfloat \<Rightarrow> nat \<Rightarrow> pyfloat" where
  "delay b i = fmul b (fl (2 ^ i))"

lemma float_of_int_delay: "float_of_int (2 ^ i) = Inr f \<Longrightarrow> fmul b f = delay b i"
  by (auto simp: float_of_int_def delay_def split: pyfloat.splits)

lemma upt_step: "[k ..< k + Suc j] = k # [Suc k ..< Suc k + j]"
  by (subst upt_conv_Cons) simp_all

lemma float_of_int_power2: "k < 1024 \<Longrightarrow> float_of_int (2 ^ k) = Inr (Fin (2 ^ k))"
proof -
  assume "k < 1024"
  have "fl_round (2 ^ k) = 2 ^ k" using fl_round_exact [of 1 "int k"] by (simp add: power_int_def)
  moreover have "(2::rat) ^ k < 2 ^ 1024" using \<open>k < 1024\<close> by (rule power_strict_increasing) simp
  moreover have "- ((2::rat) ^ 1024) < 2 ^ k" by (rule less_le_trans [of _ 0]) simp_all
  ultimately have "fl (2 ^ k) = Fin (2 ^ k)" by (rule fl_small)
  then show ?thesis by (simp add: float_of_int_def)
qed

lemma receive_loop_sleeps:
  assumes "receive_loop rt k n t = (r, t')" and "k + n = Suc (tcp_reconnect_attempts t)"
  shows "settings t' = settings t \<and> (\<exists>j. j \<le> tcp_reconnect_attempts t - k \<and>
    tcp_sleeps t' = tcp_sleeps t @ map (delay (tcp_backoff t)) [k ..< k + j])
    \<and> (\<forall>e. r = Inl e \<longrightarrow> \<not> retryable e)"
  using assms
proof (induction n arbitrary: k t)
  case 0
  then show ?case by (auto simp: receive_failed_def retryable_def intro: exI [of _ 0])
next
  case (Suc n)
  obtain r1 t1 where o: "receive_once rt t = (r1, t1)" by (cases "receive_once rt t")
  note fr = receive_once_frame [OF o]
  show ?case
  proof (cases "\<exists>e f. r1 = Inl e \<and> retryable e \<and> k < tcp_reconnect_attempts t1
      \<and> float_of_int (2 ^ k) = Inr f")
    case True
    then obtain e f where e: "r1 = Inl e" "retryable e" "k < tcp_reconnect_attempts t1"
      "float_of_int (2 ^ k) = Inr f" by blast
    define t2 where "t2 = tcp_close t1\<lparr>tcp_sleeps := tcp_sleeps t1 @ [fmul (tcp_backoff t1) f]\<rparr>"
    have s2: "settings t2 = settings t" "tcp_sleeps t2 = tcp_sleeps t @ [delay (tcp_backoff t) k]"
      using fr float_of_int_delay [OF e(4)] by (simp_all add: t2_def tcp_close_def settings_def)
    have lt: "k < tcp_reconnect_attempts t" using e(3) fr by (simp add: settings_def)
    with Suc.prems(1) o e fr have "receive_loop rt (Suc k) n t2 = (r, t')"
      by (simp add: Let_def t2_def tcp_close_def settings_def)
    from Suc.IH [OF this] Suc.prems(2) s2 obtain j where
      j: "settings t' = settings t" "j \<le> tcp_reconnect_attempts t - Suc k"
        "tcp_sleeps t' = tcp_sleeps t @ delay (tcp_backoff t) k # map (delay (tcp_backoff t)) [Suc k ..< Suc k + j]"
        "\<forall>e. r = Inl e \<longrightarrow> \<not> retryable e"
      by (auto simp: settings_def)
    then have "tcp_sleeps t' = tcp_sleeps t @ map (delay (tcp_backoff t)) [k ..< k + Suc j]"
      by (simp only: upt_step list.map)
    with j lt show ?thesis by (metis Suc_diff_Suc Suc_le_mono)
  next
    case False
    with Suc.prems o fr show ?thesis
      by (auto simp: Let_def tcp_close_def settings_def float_of_int_def retryable_def receive_failed_def
          split: sum.splits if_splits pyfloat.splits intro!: exI [of _ 0])
  qed
qed


subsection \<open>Properties\<close>

text \<open>C8 (framing_roundtrip): any sequence of sendable frames, encoded in the transport's framing and
  cut into chunks in any way, part of it possibly in the buffer already, is read back as exactly
  these frames in order, and what follows them is left for the next read.\<close>

theorem framing_roundtrip:
  assumes "\<forall>f\<in>set fs. sendable (tcp_framing t) (tcp_max_frame t) f" and "is_connected t"
    and "pending t = concat (map (encode_frame (tcp_framing t)) fs) @ rest"
  shows "\<exists>t'. read_frames (length fs) t = (map Inr fs, t') \<and> is_connected t' \<and> pending t' = rest"
  using assms
proof (induction fs arbitrary: t)
  case (Cons f fs)
  from Cons.prems have "sendable (tcp_framing t) (tcp_max_frame t) f"
    "pending t = encode_frame (tcp_framing t) f @ concat (map (encode_frame (tcp_framing t)) fs) @ rest"
    by simp_all
  with read_frame_delivers Cons.prems(2) obtain t1 where t1: "read_frame t = (Inr f, t1)" "is_connected t1"
    "pending t1 = concat (map (encode_frame (tcp_framing t)) fs) @ rest"
    "tcp_framing t1 = tcp_framing t" "tcp_max_frame t1 = tcp_max_frame t" by metis
  from Cons.IH [of t1] Cons.prems(1) t1 show ?case by auto
qed simp

definition sample_tcp :: "framing \<Rightarrow> recv_event list \<Rightarrow> bytes \<Rightarrow> tcp" where
  "sample_tcp f es buf = \<lparr>tcp_framing = f, tcp_tls = False, tcp_reconnect_attempts = 2,
     tcp_backoff = fl (1 / 4), tcp_max_frame = 5, tcp_socket = Some es, tcp_buffer = buf,
     tcp_network = [], tcp_sleeps = []\<rparr>"

lemma framing_roundtrip_witness:
  "\<exists>t'. read_frames (length [[65, 66], [67 :: nat]])
      (sample_tcp LengthPrefixed [Data [0, 0, 2, 65], Data [66, 0, 0], Data [0, 1, 67, 9]] [0])
     = (map Inr [[65, 66], [67]], t') \<and> is_connected t' \<and> pending t' = [9]"
  by (rule framing_roundtrip) (simp_all add: sample_tcp_def is_connected_def pending_def to_be32_def)

text \<open>Whatever the peer sends, in whatever chunks, and however often the
  transport reconnects, a call of \<open>receive\<close> keeps at most \<open>max(4, max_frame_bytes)\<close> bytes plus one
  chunk in the buffer.\<close>

theorem receive_buffer_bounded:
  assumes "length (tcp_buffer t) \<le> max 4 (tcp_max_frame t) + min 65536 (tcp_max_frame t + 1)"
  shows "length (tcp_buffer (snd (receive rt t)))
    \<le> max 4 (tcp_max_frame t) + min 65536 (tcp_max_frame t + 1)"
proof -
  obtain r t' where r: "receive rt t = (r, t')" by (cases "receive rt t")
  have "buffer_bounded t" using assms by (simp add: buffer_bounded_def buffer_limit_def chunk_limit_def)
  with r receive_loop_buffer have "buffer_bounded t'" unfolding receive_def by blast
  moreover have "settings t' = settings t"
    using r receive_loop_sleeps [of rt 0 "tcp_reconnect_attempts t + 1" t r t']
    by (simp add: receive_def del: receive_loop.simps)
  ultimately show ?thesis
    using r by (simp add: buffer_bounded_def buffer_limit_def chunk_limit_def settings_def)
qed

lemma receive_buffer_bounded_witness:
  "length (tcp_buffer (snd (receive sample_runtime (sample_tcp Newline [Data [1, 2, 3]] [7])))) \<le> 11"
  using receive_buffer_bounded [of "sample_tcp Newline [Data [1, 2, 3]] [7]" sample_runtime]
  by (simp add: sample_tcp_def)

text \<open>A call of \<open>receive\<close> sleeps at most \<open>reconnect_attempts\<close> times, the delays
  being the backoff doubled each time, never lets a connection error escape, and leaves the
  settings of the transport as they were.\<close>

theorem receive_retries:
  "\<exists>j \<le> tcp_reconnect_attempts t.
     tcp_sleeps (snd (receive rt t)) = tcp_sleeps t @ map (delay (tcp_backoff t)) [0 ..< j]
     \<and> \<not> (case fst (receive rt t) of Inl e \<Rightarrow> retryable e | Inr _ \<Rightarrow> False)
     \<and> settings (snd (receive rt t)) = settings t"
proof -
  obtain r t' where r: "receive rt t = (r, t')" by (cases "receive rt t")
  with receive_loop_sleeps [of rt 0 "tcp_reconnect_attempts t + 1" t r t'] show ?thesis
    by (auto simp: receive_def simp del: receive_loop.simps split: sum.splits)
qed

lemma receive_loop_refused:
  assumes "tcp_socket t = None" and "tcp_network t = replicate n Refused @ ns"
    and "k + n = Suc (tcp_reconnect_attempts t)" and "tcp_reconnect_attempts t \<le> 1000" and "0 < n"
  shows "receive_loop rt k n t = (Inl (receive_failed t),
    t\<lparr>tcp_network := ns, tcp_socket := None, tcp_buffer := [],
      tcp_sleeps := tcp_sleeps t @ map (delay (tcp_backoff t)) [k ..< k + n - 1]\<rparr>)"
  using assms
proof (induction n arbitrary: k t)
  case (Suc n)
  have o: "receive_once rt t = (Inl OSError, t\<lparr>tcp_network := replicate n Refused @ ns\<rparr>)"
    using Suc.prems(1,2) by (simp add: receive_once_def connect_def)
  show ?case
  proof (cases n)
    case 0
    with Suc.prems o show ?thesis
      by (simp add: retryable_def Let_def tcp_close_def receive_failed_def)
  next
    case (Suc m)
    have "\<exists>f. float_of_int (2 ^ k) = Inr f"
      using float_of_int_power2 [of k] Suc.prems(3,4) by simp
    then obtain f where f: "float_of_int (2 ^ k) = Inr f" ..
    define t2 where "t2 = t\<lparr>tcp_network := replicate n Refused @ ns, tcp_socket := None, tcp_buffer := [],
      tcp_sleeps := tcp_sleeps t @ [delay (tcp_backoff t) k]\<rparr>"
    have "receive_loop rt k (Suc n) t = receive_loop rt (Suc k) n t2"
      unfolding receive_loop.simps(2) o using Suc.prems Suc f float_of_int_delay [OF f]
      by (simp add: retryable_def Let_def tcp_close_def t2_def del: receive_loop.simps replicate_Suc)
    also have "\<dots> = (Inl (receive_failed t2), t2\<lparr>tcp_network := ns, tcp_socket := None, tcp_buffer := [],
      tcp_sleeps := tcp_sleeps t2 @ map (delay (tcp_backoff t2)) [Suc k ..< Suc k + n - 1]\<rparr>)"
      using Suc.prems Suc by (intro Suc.IH) (simp_all add: t2_def)
    finally show ?thesis
      using Suc upt_step [of k m]
      by (simp add: t2_def receive_failed_def del: upt_Suc)
  qed
qed simp

text \<open>When every connection attempt is refused, \<open>receive\<close> makes exactly
  \<open>reconnect_attempts + 1\<close> of them, sleeps the doubling delays between them, and fails with the
  transport error; the transport is left closed and empty.\<close>

theorem receive_gives_up:
  assumes "tcp_socket t = None" and "tcp_reconnect_attempts t \<le> 1000"
    and "tcp_network t = replicate (tcp_reconnect_attempts t + 1) Refused @ ns"
  shows "receive rt t = (Inl (receive_failed t),
    t\<lparr>tcp_network := ns, tcp_socket := None, tcp_buffer := [],
      tcp_sleeps := tcp_sleeps t @ map (\<lambda>i. fmul (tcp_backoff t) (Fin (2 ^ i)))
        [0 ..< tcp_reconnect_attempts t]\<rparr>)"
proof -
  have "delay (tcp_backoff t) i = fmul (tcp_backoff t) (Fin (2 ^ i))" if "i < 1024" for i
    using float_of_int_delay [OF float_of_int_power2 [OF that]] by simp
  then have "map (delay (tcp_backoff t)) [0 ..< tcp_reconnect_attempts t]
    = map (\<lambda>i. fmul (tcp_backoff t) (Fin (2 ^ i))) [0 ..< tcp_reconnect_attempts t]"
    using assms(2) by simp
  with receive_loop_refused [OF assms(1), of "tcp_reconnect_attempts t + 1" ns 0 rt] assms(2,3)
  show ?thesis by (simp add: receive_def del: receive_loop.simps replicate_Suc)
qed

lemma replicate_eq_3: "replicate 3 x = [x, x, x]"
  by (simp add: numeral_3_eq_3)

lemma show_nat_3: "show_nat 3 = ''3''"
  by code_simp

definition refusing_tcp :: tcp where
  "refusing_tcp = (sample_tcp Newline [] [7])\<lparr>tcp_socket := None, tcp_network := [Refused, Refused, Refused]\<rparr>"

lemma receive_gives_up_witness:
  "fst (receive sample_runtime refusing_tcp) = Inl (TransportError ''TCP receive failed after 3 attempts'')"
  using receive_gives_up [of refusing_tcp "[]" sample_runtime]
  by (simp add: refusing_tcp_def sample_tcp_def receive_failed_def replicate_eq_3 show_nat_3)

text \<open>Once more than \<open>max_frame_bytes\<close> bytes without a newline are
  buffered, every call of \<open>receive\<close> fails with the same frame error and changes nothing: the
  error is not retried, the buffer is not skipped and the connection is never replaced, so the
  transport delivers no further event until it is closed.\<close>

theorem oversized_newline_sticky:
  assumes "tcp_framing t = Newline" and "tcp_socket t = Some es"
    and "newline \<notin> set (tcp_buffer t)" and "tcp_max_frame t < length (tcp_buffer t)"
  shows "((\<lambda>s. snd (receive rt s)) ^^ n) t = t \<and> fst (receive rt t) = Inl newline_overflow"
proof -
  have "read_newline_frame (tcp_max_frame t) (tcp_buffer t) es = (Inl newline_overflow, tcp_buffer t, es)"
    using assms(3,4) by (subst read_newline_frame.simps) (simp add: find_byte_None)
  then have "receive_once rt t = (Inl newline_overflow, t)"
    using assms(1,2) by (simp add: receive_once_def connect_def read_frame_def)
  then have r: "receive rt t = (Inl newline_overflow, t)"
    by (simp add: receive_def retryable_def newline_overflow_def)
  then have "((\<lambda>s. snd (receive rt s)) ^^ n) t = t" by (induction n) simp_all
  with r show ?thesis by simp
qed

lemma oversized_newline_sticky_witness:
  "fst (receive sample_runtime (sample_tcp Newline [Data [65, 10]] [1, 2, 3, 4, 5, 6]))
    = Inl newline_overflow"
  using oversized_newline_sticky [of "sample_tcp Newline [Data [65, 10]] [1, 2, 3, 4, 5, 6]"]
  by (simp add: sample_tcp_def newline_def del: receive_loop.simps)

text \<open>A length-prefixed frame over the limit is rejected, but its payload
  stays in the stream and is read as frames: whatever sendable frame the payload begins with is
  returned by the next read although it was never sent as a frame.\<close>

theorem oversized_prefix_desync:
  assumes "tcp_framing t = LengthPrefixed" and "is_connected t" and "sendable LengthPrefixed (tcp_max_frame t) g"
    and "tcp_max_frame t < length payload" and "length payload < 2 ^ 32"
    and "payload = encode_frame LengthPrefixed g @ tail"
    and "pending t = encode_frame LengthPrefixed payload @ rest"
  shows "\<exists>t'. read_frames 2 t =
     ([Inl (FrameError ''Length-prefixed frame exceeds max_frame_bytes''), Inr g], t')
     \<and> pending t' = tail @ rest"
proof -
  obtain es where es: "tcp_socket t = Some es" "live es"
    using assms(2) by (auto simp: is_connected_def split: option.splits)
  let ?h = "to_be32 (length payload)"
  have len: "length ?h = 4" by (simp add: to_be32_def)
  have p: "tcp_buffer t @ carried es = ?h @ payload @ rest" using assms(7) es by (simp add: pending_def)
  have "4 \<le> length (tcp_buffer t @ carried es)" by (simp add: p len)
  from fill_delivers [OF es(2) this, of "tcp_max_frame t"] obtain b1 es1 where
    f1: "fill (tcp_max_frame t) 4 (tcp_buffer t) es = (Inr (), b1, es1)" "live es1" "4 \<le> length b1"
      "b1 @ carried es1 = ?h @ payload @ rest" using p by auto
  from prefix_split [OF f1(4)] f1(3) len
  have h: "take 4 b1 = ?h" "drop 4 b1 @ carried es1 = payload @ rest" by simp_all
  define t1 where "t1 = t\<lparr>tcp_buffer := drop 4 b1, tcp_socket := Some es1\<rparr>"
  have "payload \<noteq> []" using assms(4) by auto
  then have r1: "read_frame t = (Inl (FrameError ''Length-prefixed frame exceeds max_frame_bytes''), t1)"
    using assms(1,4,5) es f1(1) h(1)
    by (simp add: read_frame_def read_length_prefixed_frame_def Let_def be32_to_be32 t1_def)
  have "is_connected t1" "pending t1 = encode_frame (tcp_framing t1) g @ (tail @ rest)"
    "sendable (tcp_framing t1) (tcp_max_frame t1) g"
    using assms f1(2) h(2) by (simp_all add: t1_def is_connected_def pending_def)
  from read_frame_delivers [OF this(3,1,2)] r1 show ?thesis
    by (auto simp: numeral_2_eq_2)
qed

lemma oversized_prefix_desync_witness:
  "\<exists>t'. read_frames 2 (sample_tcp LengthPrefixed [Data [0, 0, 0, 6, 0, 0], Data [0, 1, 65, 0, 9]] []) =
     ([Inl (FrameError ''Length-prefixed frame exceeds max_frame_bytes''), Inr [65]], t')
     \<and> pending t' = [0] @ [9]"
  by (rule oversized_prefix_desync [of _ _ "[0, 0, 0, 1, 65, 0]"])
    (simp_all add: sample_tcp_def is_connected_def pending_def to_be32_def)

end
