(* ===== verification/Multicast.thy ===== *)
theory Multicast
  imports Tcp_Transport
begin

section \<open>Multicast datagrams and capture filters\<close>

text \<open>
  \<open>MulticastTransport\<close>, \<open>build_capture_filter\<close> and \<open>build_tcpdump_command\<close> of
  \<open>realtime/network_transport.py\<close>.  The socket's environment is the list of outcomes of the set-up
  calls of successive \<open>open\<close> attempts and the list of what \<open>recvfrom\<close> delivers.
\<close>

subsection \<open>IPv4 addresses\<close>

definition parse_octet :: "string \<Rightarrow> nat option" where
  "parse_octet s =
     (if length s > 3 \<or> (length s > 1 \<and> hd s = CHR ''0'') then None
      else case parse_digits s of None \<Rightarrow> None | Some n \<Rightarrow> if n > 255 then None else Some n)"

definition parse_ipv4 :: "string \<Rightarrow> nat list option" where
  "parse_ipv4 s =
     (let ps = split_on CHR ''.'' s in
      if length ps = 4 \<and> list_all (\<lambda>p. parse_octet p \<noteq> None) ps then Some (map (the \<circ> parse_octet) ps)
      else None)"

definition show_ipv4 :: "nat list \<Rightarrow> string" where
  "show_ipv4 octets = join_with ''.'' (map show_nat octets)"

definition is_multicast :: "nat list \<Rightarrow> bool" where
  "is_multicast octets = (octets \<noteq> [] \<and> 224 \<le> hd octets \<and> hd octets \<le> 239)"

subsection \<open>The transport\<close>

datatype datagram_event = Datagram bytes | ReceiveFailure

record multicast =
  mc_group :: "nat list"
  mc_port :: int
  mc_interface :: "nat list"
  mc_max :: nat
  mc_open :: bool
  mc_created :: nat
  mc_closed :: nat
  mc_setup :: "bool list"
  mc_inbox :: "datagram_event list"

text \<open>\<open>struct.pack("=4s4s", group, interface)\<close>\<close>

definition membership :: "multicast \<Rightarrow> bytes" where
  "membership t = mc_group t @ mc_interface t"

definition new_multicast :: "string \<Rightarrow> pyval \<Rightarrow> string \<Rightarrow> pyfloat \<Rightarrow> int \<Rightarrow> bool list \<Rightarrow>
    datagram_event list \<Rightarrow> multicast result" where
  "new_multicast group_name port interface read_timeout max_datagram setup inbox =
     (case (parse_ipv4 group_name, parse_ipv4 interface) of
        (Some g, Some i) \<Rightarrow>
          if \<not> is_multicast g then Inl (ValueError ''group must be an IPv4 multicast address'')
          else bind_res (validate_port port) (\<lambda>p.
            if fle read_timeout (Fin 0) then Inl (ValueError ''read_timeout must be positive'')
            else if \<not> (1 \<le> max_datagram \<and> max_datagram \<le> 65507)
            then Inl (ValueError ''max_datagram_bytes must be between 1 and 65507'')
            else Inr \<lparr>mc_group = g, mc_port = p, mc_interface = i, mc_max = nat max_datagram,
                      mc_open = False, mc_created = 0, mc_closed = 0, mc_setup = setup, mc_inbox = inbox\<rparr>)
      | _ \<Rightarrow> Inl (ValueError ''group and interface must be valid IPv4 addresses''))"

text \<open>A failing set-up call closes the new socket and raises; the object stays closed.\<close>

definition mc_open_socket :: "multicast \<Rightarrow> unit result \<times> multicast" where
  "mc_open_socket t =
     (if mc_open t then (Inr (), t)
      else case mc_setup t of
        [] \<Rightarrow> (Inl WouldBlock, t)
      | ok # later \<Rightarrow>
          let t1 = t\<lparr>mc_setup := later, mc_created := mc_created t + 1\<rparr> in
          if ok then (Inr (), t1\<lparr>mc_open := True\<rparr>)
          else (Inl OSError, t1\<lparr>mc_closed := mc_closed t1 + 1\<rparr>))"

definition mc_receive :: "runtime \<Rightarrow> multicast \<Rightarrow> market_event result \<times> multicast" where
  "mc_receive rt t =
     (case mc_open_socket t of
        (Inl e, t1) \<Rightarrow> (Inl e, t1)
      | (Inr _, t1) \<Rightarrow> (case mc_inbox t1 of
            [] \<Rightarrow> (Inl WouldBlock, t1)
          | ReceiveFailure # later \<Rightarrow> (Inl OSError, t1\<lparr>mc_inbox := later\<rparr>)
          | Datagram bs # later \<Rightarrow>
              let payload = take (mc_max t1 + 1) bs; t2 = t1\<lparr>mc_inbox := later\<rparr> in
              if length payload > mc_max t1
              then (Inl (FrameError ''Multicast datagram exceeds max_datagram_bytes''), t2)
              else (decode_event rt payload ''MULTICAST'', t2)))"

definition mc_close :: "multicast \<Rightarrow> multicast" where
  "mc_close t = (if mc_open t then t\<lparr>mc_open := False, mc_closed := mc_closed t + 1\<rparr> else t)"

subsection \<open>Capture filters\<close>

text \<open>
  \<open>ipaddress.ip_address\<close>: an IPv4 address, or an IPv6 address, whose part before a \<open>%\<close> must be
  well-formed (the argument \<open>ipv6\<close>) and whose scope after it may be any text without a further \<open>%\<close>.
\<close>

definition valid_address :: "(string \<Rightarrow> bool) \<Rightarrow> string \<Rightarrow> bool" where
  "valid_address ipv6 s =
     (parse_ipv4 s \<noteq> None \<or>
      (CHR ''/'' \<notin> set s \<and>
       (case split_on CHR ''%'' s of
          [a] \<Rightarrow> ipv6 a
        | [a, scope] \<Rightarrow> scope \<noteq> [] \<and> ipv6 a
        | _ \<Rightarrow> False)))"

definition build_capture_filter :: "(string \<Rightarrow> bool) \<Rightarrow> string \<Rightarrow> string \<Rightarrow> pyval \<Rightarrow> string result" where
  "build_capture_filter ipv6 transport host_or_group port =
     bind_res (validate_port port) (\<lambda>p.
     let normalized = py_lower (py_strip transport) in
     if normalized \<in> {''tcp'', ''tls''} then
       (if \<not> valid_address ipv6 host_or_group then Inl (ValueError ''TCP capture host must be an IP address'')
        else Inr (''tcp and host '' @ host_or_group @ '' and port '' @ show_int p))
     else if normalized = ''multicast'' then
       (case parse_ipv4 host_or_group of
          None \<Rightarrow> Inl (ValueError ''Multicast capture group must be an IPv4 address'')
        | Some a \<Rightarrow>
            if \<not> is_multicast a then Inl (ValueError ''Multicast capture group must be multicast'')
            else Inr (''udp and dst host '' @ show_ipv4 a @ '' and dst port '' @ show_int p))
     else Inl (ValueError ''transport must be tcp, tls, or multicast''))"

text \<open>\<open>str(Path(p))\<close>, and the suffix of the final component: what follows its last dot, unless that dot is
  its first or last character.\<close>

definition path_parts :: "string \<Rightarrow> string list" where
  "path_parts p = filter (\<lambda>c. c \<notin> {[], ''.''}) (split_on CHR ''/'' p)"

definition path_str :: "string \<Rightarrow> string" where
  "path_str p =
     (let root = (if starts_with ''//'' p \<and> \<not> starts_with ''///'' p then ''//''
                  else if starts_with ''/'' p then ''/'' else []) in
      if root = [] \<and> path_parts p = [] then ''.'' else root @ join_with ''/'' (path_parts p))"

definition path_name :: "string \<Rightarrow> string" where
  "path_name p = (if path_parts p = [] then [] else List.last (path_parts p))"

definition path_suffix :: "string \<Rightarrow> string" where
  "path_suffix p =
     (let name = path_name p; tail = takeWhile (\<lambda>c. c \<noteq> CHR ''.'') (List.rev name);
          i = length name - length tail in
      if tail \<noteq> [] \<and> 1 < i then CHR ''.'' # List.rev tail else [])"

definition build_tcpdump_command :: "string \<Rightarrow> string \<Rightarrow> string \<Rightarrow> string list result" where
  "build_tcpdump_command interface output_path capture_filter =
     (if py_strip interface = [] then Inl (ValueError ''interface must be non-empty'')
      else if py_lower (path_suffix output_path) \<noteq> ''.pcap''
      then Inl (ValueError ''packet capture output must use the .pcap suffix'')
      else if py_strip capture_filter = [] then Inl (ValueError ''capture_filter must be non-empty'')
      else Inr [''tcpdump'', ''-i'', py_strip interface, ''-nn'', ''-s'', ''0'', ''-w'', path_str output_path,
                py_strip capture_filter])"

subsection \<open>Addresses are printed as they are read\<close>

lemma digits_pos: "list_all is_digit s \<Longrightarrow> s \<noteq> [] \<Longrightarrow> hd s \<noteq> CHR ''0'' \<Longrightarrow> 0 < digits_val s"
proof (induction s rule: rev_induct)
  case (snoc c s)
  show ?case
  proof (cases "s = []")
    case True
    have "of_char CHR ''0'' = (48 :: nat)" by simp
    with snoc.prems True have "of_char c \<noteq> (48 :: nat)" using of_char_eq_iff [of c "CHR ''0''", where ?'a = nat] by simp
    with snoc.prems True show ?thesis by (simp add: digits_val_snoc is_digit_def digits_val_def Let_def)
  qed (use snoc in \<open>simp add: digits_val_snoc\<close>)
qed simp

lemma show_digits:
  "list_all is_digit s \<Longrightarrow> s \<noteq> [] \<Longrightarrow> (1 < length s \<longrightarrow> hd s \<noteq> CHR ''0'') \<Longrightarrow> show_nat (digits_val s) = s"
proof (induction s rule: rev_induct)
  case (snoc c s)
  have d: "48 \<le> (of_char c :: nat)" "(of_char c :: nat) \<le> 57" using snoc.prems(1) by (simp_all add: is_digit_def Let_def)
  define k where "k = (of_char c :: nat) - 48"
  have k: "k < 10" "char_of (48 + k) = c" using d by (simp_all add: k_def)
  show ?case
  proof (cases "s = []")
    case True
    with k show ?thesis by (subst show_nat.simps) (simp add: digits_val_def k_def [symmetric])
  next
    case False
    with snoc.prems have s: "list_all is_digit s" "hd s \<noteq> CHR ''0''" by auto
    from digits_pos [OF s(1) False s(2)] have "10 \<le> 10 * digits_val s + k" by simp
    moreover have "show_nat (digits_val s) = s" using snoc.IH s False by simp
    ultimately show ?thesis using k
      by (subst show_nat.simps) (simp add: digits_val_snoc k_def [symmetric])
  qed
qed simp

lemma parse_octet_Some: "parse_octet s = Some n \<Longrightarrow> show_nat n = s \<and> n \<le> 255"
  using show_digits [of s] by (auto simp: parse_octet_def parse_digits_def split: if_splits option.splits)

lemma show_nat_hd: "0 < n \<Longrightarrow> hd (show_nat n) \<noteq> CHR ''0''"
proof (induction n rule: show_nat.induct)
  case (1 n)
  show ?case
  proof (cases "n < 10")
    case True
    have "(of_char CHR ''0'' :: nat) = 48" by simp
    moreover have "(of_char (char_of (48 + n) :: char) :: nat) = 48 + n" using True by simp
    ultimately have "char_of (48 + n) \<noteq> CHR ''0''" using 1(2) by (metis add_cancel_right_right not_gr_zero)
    with True show ?thesis by (subst show_nat.simps) simp
  next
    case False
    then have "0 < n div 10" by simp
    with 1(1) False show ?thesis by (subst show_nat.simps) simp
  qed
qed

lemma show_nat_short:
  shows "n < 10 \<Longrightarrow> length (show_nat n) = 1" and "n < 100 \<Longrightarrow> length (show_nat n) \<le> 2"
    and "n < 1000 \<Longrightarrow> length (show_nat n) \<le> 3"
proof -
  have 1: "length (show_nat n) = 1" if "n < 10" for n using that by (subst show_nat.simps) simp
  have 2: "length (show_nat n) \<le> 2" if "n < 100" for n
    using that 1 [of "n div 10"] by (subst show_nat.simps) (simp add: less_mult_imp_div_less)
  show "n < 10 \<Longrightarrow> length (show_nat n) = 1" by (rule 1)
  show "n < 100 \<Longrightarrow> length (show_nat n) \<le> 2" by (rule 2)
  show "n < 1000 \<Longrightarrow> length (show_nat n) \<le> 3"
    using 2 [of "n div 10"] by (subst show_nat.simps) (simp add: less_mult_imp_div_less)
qed

lemma parse_octet_show:
  assumes "n \<le> 255"
  shows "parse_octet (show_nat n) = Some n"
proof -
  have "length (show_nat n) \<le> 3" using assms by (intro show_nat_short) simp
  moreover have "\<not> (1 < length (show_nat n) \<and> hd (show_nat n) = CHR ''0'')"
    using show_nat_hd [of n] show_nat_short(1) [of n] by (cases "n = 0") auto
  ultimately show ?thesis using assms by (auto simp: parse_octet_def)
qed

lemma parse_ipv4_Some:
  "parse_ipv4 s = Some a \<longleftrightarrow> length a = 4 \<and> (\<forall>n\<in>set a. n \<le> 255) \<and> s = show_ipv4 a"
proof
  assume p: "parse_ipv4 s = Some a"
  let ?ps = "split_on CHR ''.'' s"
  have l: "length ?ps = 4" "\<forall>p\<in>set ?ps. parse_octet p \<noteq> None" and a: "a = map (the \<circ> parse_octet) ?ps"
    using p by (auto simp: parse_ipv4_def Let_def list_all_iff split: if_splits)
  have o: "show_nat (the (parse_octet q)) = q \<and> the (parse_octet q) \<le> 255" if "q \<in> set ?ps" for q
    using l(2) that parse_octet_Some by fastforce
  then have "map show_nat a = ?ps" unfolding a by (simp add: map_idI)
  then have "show_ipv4 a = join_with ''.'' ?ps" by (simp add: show_ipv4_def)
  with l a o join_split_on [of "CHR ''.''" s] show "length a = 4 \<and> (\<forall>n\<in>set a. n \<le> 255) \<and> s = show_ipv4 a"
    by auto
next
  assume a: "length a = 4 \<and> (\<forall>n\<in>set a. n \<le> 255) \<and> s = show_ipv4 a"
  have "CHR ''.'' \<notin> set (show_nat n)" for n
    using show_nat_digits [of n] by (auto simp: list_all_iff is_digit_def)
  then have "split_on CHR ''.'' s = map show_nat a"
    using a split_join [of "map show_nat a" "CHR ''.''"] by (cases a) (auto simp: show_ipv4_def)
  then show "parse_ipv4 s = Some a"
    using a parse_octet_show by (auto simp: parse_ipv4_def list_all_iff map_idI)
qed

subsection \<open>The life of a socket\<close>

text \<open>The public operations in any order.\<close>

inductive mc_step :: "runtime \<Rightarrow> multicast \<Rightarrow> multicast \<Rightarrow> bool" for rt where
  open_step: "mc_open_socket t = (r, t') \<Longrightarrow> mc_step rt t t'"
| receive_step: "mc_receive rt t = (r, t') \<Longrightarrow> mc_step rt t t'"
| close_step: "mc_step rt t (mc_close t)"

inductive_cases mc_stepE: "mc_step rt t t'"

definition sockets_ok :: "multicast \<Rightarrow> bool" where
  "sockets_ok t \<longleftrightarrow> mc_created t = mc_closed t + (if mc_open t then 1 else 0)"

lemma open_ok: "mc_open_socket t = (r, t') \<Longrightarrow> sockets_ok t \<Longrightarrow> sockets_ok t' \<and> (r = Inr u \<longrightarrow> mc_open t')"
  by (auto simp: mc_open_socket_def sockets_ok_def Let_def split: if_splits list.splits)

lemma receive_sockets:
  assumes "mc_receive rt t = (r, t')"
  shows "\<exists>q t1. mc_open_socket t = (q, t1) \<and> mc_open t' = mc_open t1 \<and> mc_created t' = mc_created t1
    \<and> mc_closed t' = mc_closed t1"
  using assms by (auto simp: mc_receive_def Let_def split: prod.splits sum.splits list.splits
      datagram_event.splits if_splits)

lemma mc_step_ok: "mc_step rt t t' \<Longrightarrow> sockets_ok t \<Longrightarrow> sockets_ok t'"
proof (erule mc_stepE)
  fix r assume "mc_receive rt t = (r, t')" "sockets_ok t"
  with receive_sockets obtain q t1 where "mc_open_socket t = (q, t1)" "mc_open t' = mc_open t1"
    "mc_created t' = mc_created t1" "mc_closed t' = mc_closed t1" by blast
  with open_ok [of t q t1] \<open>sockets_ok t\<close> show "sockets_ok t'" by (simp add: sockets_ok_def)
qed (auto dest: open_ok simp: mc_close_def sockets_ok_def)

lemma mc_steps_ok: "(mc_step rt)\<^sup>*\<^sup>* t t' \<Longrightarrow> sockets_ok t \<Longrightarrow> sockets_ok t'"
  by (induction rule: rtranclp_induct) (auto intro: mc_step_ok)

subsection \<open>Datagrams\<close>

fun mc_receive_n :: "runtime \<Rightarrow> nat \<Rightarrow> multicast \<Rightarrow> market_event result list \<times> multicast" where
  "mc_receive_n rt 0 t = ([], t)"
| "mc_receive_n rt (Suc n) t =
     (let (r, t1) = mc_receive rt t; (rs, t2) = mc_receive_n rt n t1 in (r # rs, t2))"

definition datagram_result :: "runtime \<Rightarrow> nat \<Rightarrow> bytes \<Rightarrow> market_event result" where
  "datagram_result rt m bs =
     (if length bs > m then Inl (FrameError ''Multicast datagram exceeds max_datagram_bytes'')
      else decode_event rt bs ''MULTICAST'')"

lemma mc_receive_datagram:
  assumes "mc_open t" and "mc_inbox t = Datagram bs # later"
  shows "mc_receive rt t = (datagram_result rt (mc_max t) bs, t\<lparr>mc_inbox := later\<rparr>)"
  using assms by (auto simp: mc_receive_def mc_open_socket_def datagram_result_def Let_def min_def)

lemma mc_receive_n_datagrams:
  "mc_open t \<Longrightarrow> mc_inbox t = map Datagram ds @ later \<Longrightarrow>
   mc_receive_n rt (length ds) t = (map (datagram_result rt (mc_max t)) ds, t\<lparr>mc_inbox := later\<rparr>)"
  by (induction ds arbitrary: t) (simp_all add: mc_receive_datagram)

subsection \<open>Properties\<close>

text \<open>An open multicast transport answers every datagram on its own, in order:
  whatever malformed or oversized datagrams come before, a well-formed one is delivered.\<close>

theorem datagrams_independent:
  assumes "mc_open t" and "mc_inbox t = map Datagram ds"
  shows "mc_receive_n rt (length ds) t = (map (datagram_result rt (mc_max t)) ds, t\<lparr>mc_inbox := []\<rparr>)"
  using mc_receive_n_datagrams [of t ds "[]" rt] assms by simp

definition sample_multicast :: multicast where
  "sample_multicast = \<lparr>mc_group = [239, 1, 1, 1], mc_port = 5000, mc_interface = [0, 0, 0, 0], mc_max = 4,
     mc_open = True, mc_created = 1, mc_closed = 0, mc_setup = [], mc_inbox = [Datagram [1, 2, 3, 4, 5], Datagram [1]]\<rparr>"

lemma datagrams_independent_witness:
  "fst (mc_receive_n sample_runtime 2 sample_multicast)
     = [Inl (FrameError ''Multicast datagram exceeds max_datagram_bytes''),
        Inl (FrameError ''Network frame must contain one UTF-8 JSON object'')]"
  using datagrams_independent [of sample_multicast "[[1, 2, 3, 4, 5], [1]]" sample_runtime]
  by (simp add: sample_multicast_def datagram_result_def decode_event_def sample_runtime_def numeral_2_eq_2)

text \<open>From a new multicast transport, in every order of opening, receiving and
  closing, with set-up calls and receives failing anywhere, every socket that was created has been
  closed, except the open one; so after \<open>close\<close> none is left.\<close>

theorem no_socket_leak:
  assumes "new_multicast g p i timeout m setup inbox = Inr t" and "(mc_step rt)\<^sup>*\<^sup>* t t'"
  shows "mc_created t' = mc_closed t' + (if mc_open t' then 1 else 0) \<and>
    mc_created (mc_close t') = mc_closed (mc_close t')"
proof -
  have "sockets_ok t" using assms(1)
    by (auto simp: new_multicast_def sockets_ok_def res_simps split: option.splits if_splits)
  from mc_steps_ok [OF assms(2) this] show ?thesis by (auto simp: sockets_ok_def mc_close_def)
qed

lemma no_socket_leak_witness:
  "mc_created (mc_close (projr (new_multicast ''239.1.1.1'' (PInt 5000) ''0.0.0.0'' (Fin 30) 4 [False, True] [])))
     = mc_closed (mc_close (projr (new_multicast ''239.1.1.1'' (PInt 5000) ''0.0.0.0'' (Fin 30) 4 [False, True] [])))"
proof -
  have "is_ok (new_multicast ''239.1.1.1'' (PInt 5000) ''0.0.0.0'' (Fin 30) 4 [False, True] [])" by code_simp
  then have n: "new_multicast ''239.1.1.1'' (PInt 5000) ''0.0.0.0'' (Fin 30) 4 [False, True] []
      = Inr (projr (new_multicast ''239.1.1.1'' (PInt 5000) ''0.0.0.0'' (Fin 30) 4 [False, True] []))"
    by (auto simp: is_ok_iff)
  from no_socket_leak [OF n rtranclp.rtrancl_refl] show ?thesis by blast
qed

text \<open>A filter for a multicast group, or for a TCP host given as an IPv4 address,
  holds exactly that address and port: the address is printed back as it was read.\<close>

theorem ipv4_filter_exact:
  assumes "build_capture_filter ipv6 transport host (PInt port) = Inr f" and "parse_ipv4 host = Some a"
  shows "1 \<le> port \<and> port \<le> 65535 \<and> host = show_ipv4 a \<and> length a = 4 \<and> (\<forall>n\<in>set a. n \<le> 255) \<and>
    (f = ''tcp and host '' @ show_ipv4 a @ '' and port '' @ show_int port \<or>
     is_multicast a \<and> f = ''udp and dst host '' @ show_ipv4 a @ '' and dst port '' @ show_int port)"
proof -
  have v: "valid_address ipv6 host" using assms(2) by (simp add: valid_address_def)
  define A where "A = ''tcp and host '' @ host @ '' and port '' @ show_int port"
  define B where "B = ''udp and dst host '' @ show_ipv4 a @ '' and dst port '' @ show_int port"
  have "\<exists>q. validate_port (PInt port) = Inr q"
    using assms(1) unfolding build_capture_filter_def bind_res_Inr_iff by blast
  then have p: "1 \<le> port \<and> port \<le> 65535" by (simp add: validate_port_def split: if_splits)
  then have vp: "validate_port (PInt port) = Inr port" by (simp add: validate_port_def)
  have split: "(if b then Inr A else if c then if \<not> d then Inl x else Inr B else Inl y) = Inr f
      \<Longrightarrow> f = A \<or> d \<and> f = B" for b c d x y
    by (auto split: if_splits)
  have ab: "f = A \<or> is_multicast a \<and> f = B"
    by (rule split, rule assms(1) [unfolded build_capture_filter_def vp bind_res.simps Let_def assms(2) option.case,
          folded A_def B_def, simplified v not_True_eq_False if_False])
  have h: "host = show_ipv4 a" "length a = 4" "\<forall>n\<in>set a. n \<le> 255"
    using assms(2) parse_ipv4_Some [of host a] by simp_all
  from ab p h(2,3) show ?thesis unfolding A_def B_def h(1) by (simp only: simp_thms)
qed

lemma ipv4_filter_exact_witness:
  "is_ok (build_capture_filter (\<lambda>s. False) ''multicast'' ''239.1.1.1'' (PInt 5000)) \<and>
   ''239.1.1.1'' = show_ipv4 [239, 1, 1, 1]"
proof -
  have a: "parse_ipv4 ''239.1.1.1'' = Some [239, 1, 1, 1]" by code_simp
  have "py_lower (py_strip ''multicast'') = ''multicast''" by code_simp
  with a have ok: "is_ok (build_capture_filter (\<lambda>s. False) ''multicast'' ''239.1.1.1'' (PInt 5000))"
    by (simp add: build_capture_filter_def validate_port_def is_multicast_def)
  then obtain f where f: "build_capture_filter (\<lambda>s. False) ''multicast'' ''239.1.1.1'' (PInt 5000) = Inr f"
    by (auto simp only: is_ok_iff)
  have "''239.1.1.1'' = show_ipv4 [239, 1, 1, 1]"
    by (rule ipv4_filter_exact [OF f a, THEN conjunct2, THEN conjunct2, THEN conjunct1])
  with ok show ?thesis by (rule conjI)
qed

text \<open>The scope of an IPv6 address is copied into the filter unchecked, so
  a host that validation accepts can widen the filter to any other traffic.\<close>

theorem scoped_host_widens_filter:
  assumes "ipv6 address" and "CHR ''/'' \<notin> set (address @ scope)" and "CHR ''%'' \<notin> set (address @ scope)"
    and "scope \<noteq> []" and "1 \<le> port" and "port \<le> 65535"
  shows "build_capture_filter ipv6 ''tcp'' (address @ ''%'' @ scope @ '' or tcp'') (PInt port)
    = Inr (''tcp and host '' @ address @ ''%'' @ scope @ '' or tcp and port '' @ show_int port)"
proof -
  have "split_on CHR ''%'' (address @ CHR ''%'' # (scope @ '' or tcp'')) = [address, scope @ '' or tcp'']"
    using assms(3) by (simp add: split_on_append split_on_single)
  then have v: "valid_address ipv6 (address @ ''%'' @ scope @ '' or tcp'')"
    using assms(1,2) by (simp add: valid_address_def)
  have t: "py_lower (py_strip ''tcp'') = ''tcp''" by code_simp
  show ?thesis using assms(5,6) v by (simp add: build_capture_filter_def validate_port_def t)
qed

lemma scoped_host_widens_filter_witness:
  "build_capture_filter (\<lambda>s. s = ''fe80::1'') ''tcp'' ''fe80::1%eth0 or tcp'' (PInt 443)
     = Inr ''tcp and host fe80::1%eth0 or tcp and port 443''"
proof -
  have "show_int 443 = ''443''" by code_simp
  with scoped_host_widens_filter [of "\<lambda>s. s = ''fe80::1''" "''fe80::1''" "''eth0''" 443] show ?thesis by simp
qed

end
