(* ===== verification/Monitor.thy ===== *)
theory Monitor
  imports Multicast Persistence
begin

section \<open>The feed monitor\<close>

text \<open>
  \<open>monitor_transport\<close>, the abstract \<open>MarketEventTransport\<close> and \<open>EventTableOutput\<close> of
  \<open>realtime/network_transport.py\<close>.  The monitor works on any transport: the locale \<open>event_feed\<close>
  states what it relies on, and both transports are interpretations of it.  A monitor without a
  count may run for ever, so its loop is a partial function; with a count it is shown to return.
\<close>

definition process_event :: "engine \<Rightarrow> runtime \<Rightarrow> string option \<times> string option \<Rightarrow> bool \<Rightarrow> market_event \<Rightarrow>
    tracker \<Rightarrow> store \<Rightarrow> observation result \<times> tracker \<times> store" where
  "process_event eng rt ids journal ev tr s =
     (case observe tr (PStr (ev_source ev)) (PStr (ev_stream_id ev)) (PInt (ev_sequence_number ev)) of
        Inl e \<Rightarrow> (Inl e, tr, s)
      | Inr (ob, tr') \<Rightarrow>
          if \<not> journal then (Inr ob, tr', s)
          else (case as_journal_event rt ev (status_name (status ob)) (sequence_reason ev ob)
                       (expected_sequence ob) (missing_count ob) of
             Inl e \<Rightarrow> (Inl e, tr', s)
           | Inr payload \<Rightarrow>
               (case persist_realtime_event eng False (fst ids) (snd ids) payload s of
                  (Inl e, s') \<Rightarrow> (Inl e, tr', s')
                | (Inr _, s') \<Rightarrow> (Inr ob, tr', s'))))"

text \<open>The dictionary the monitor prints.\<close>

definition rendered_event :: "runtime \<Rightarrow> market_event \<Rightarrow> observation \<Rightarrow> payload" where
  "rendered_event rt ev ob = as_dict rt ev @
     [(''sequence_status'', PStr (status_name (status ob))),
      (''expected_sequence'', (case expected_sequence ob of None \<Rightarrow> PNone | Some n \<Rightarrow> PInt n)),
      (''missing_count'', PInt (missing_count ob))]"

record 'x monitoring =
  mo_transport :: 'x
  mo_tracker :: tracker
  mo_observed :: "market_event list"
  mo_output :: "payload list"

definition limit_reached :: "nat option \<Rightarrow> nat \<Rightarrow> bool" where
  "limit_reached limit n = (case limit of None \<Rightarrow> False | Some c \<Rightarrow> c \<le> n)"

definition monitored :: "runtime \<Rightarrow> bool \<Rightarrow> 'x \<Rightarrow> tracker \<Rightarrow> market_event \<Rightarrow> observation \<Rightarrow> 'x monitoring \<Rightarrow>
    'x monitoring" where
  "monitored rt collect x tr ev ob g =
     g\<lparr>mo_transport := x, mo_tracker := tr,
       mo_observed := (if collect then mo_observed g @ [ev] else mo_observed g),
       mo_output := mo_output g @ [rendered_event rt ev ob]\<rparr>"

partial_function (option) monitor_loop :: "engine \<Rightarrow> runtime \<Rightarrow> ('x \<Rightarrow> market_event result \<times> 'x) \<Rightarrow>
    (nat \<Rightarrow> string option \<times> string option) \<Rightarrow> bool \<Rightarrow> bool \<Rightarrow> nat option \<Rightarrow> nat \<Rightarrow> 'x monitoring \<Rightarrow> store \<Rightarrow>
    (unit result \<times> 'x monitoring \<times> store) option" where
  "monitor_loop eng rt feed spans journal collect limit n g s =
     (if limit_reached limit n then Some (Inr (), g, s)
      else case feed (mo_transport g) of
        (Inl e, x) \<Rightarrow> Some (Inl e, g\<lparr>mo_transport := x\<rparr>, s)
      | (Inr ev, x) \<Rightarrow>
          (case process_event eng rt (spans n) journal ev (mo_tracker g) s of
             (Inl e, tr, s') \<Rightarrow> Some (Inl e, g\<lparr>mo_transport := x, mo_tracker := tr\<rparr>, s')
           | (Inr ob, tr, s') \<Rightarrow>
               monitor_loop eng rt feed spans journal collect limit (Suc n)
                 (monitored rt collect x tr ev ob g) s'))"

declare monitor_loop.simps [code]

definition monitor_transport :: "engine \<Rightarrow> runtime \<Rightarrow> ('x \<Rightarrow> market_event result \<times> 'x) \<Rightarrow>
    (nat \<Rightarrow> string option \<times> string option) \<Rightarrow> 'x \<Rightarrow> int option \<Rightarrow> bool \<Rightarrow> bool option \<Rightarrow> store \<Rightarrow>
    (market_event list result \<times> payload list \<times> store) option" where
  "monitor_transport eng rt feed spans x limit journal collect_events s =
     (if (case limit of None \<Rightarrow> False | Some c \<Rightarrow> c < 0)
      then Some (Inl (ValueError ''count must be non-negative or None''), [], s)
      else case (if journal then initialize_database eng s else (Inr (), s)) of
        (Inl e, s1) \<Rightarrow> Some (Inl e, [], s1)
      | (Inr _, s1) \<Rightarrow>
          (case new_tracker 4096 of
             Inl e \<Rightarrow> Some (Inl e, [], s1)
           | Inr tr \<Rightarrow>
               map_option (\<lambda>(r, g, s2). (bind_res r (\<lambda>_. Inr (mo_observed g)), mo_output g, s2))
                 (monitor_loop eng rt feed spans journal
                    (case collect_events of None \<Rightarrow> limit \<noteq> None | Some b \<Rightarrow> b) (map_option nat limit) 0
                    \<lparr>mo_transport = x, mo_tracker = tr, mo_observed = [], mo_output = []\<rparr> s1)))"

subsection \<open>The table of recent events\<close>

record table_output =
  to_max :: nat
  to_rows :: "payload list"
  to_total :: nat

definition new_table_output :: "int \<Rightarrow> table_output result" where
  "new_table_output max_rows =
     (if max_rows \<le> 0 then Inl (ValueError ''max_rows must be positive'')
      else Inr \<lparr>to_max = nat max_rows, to_rows = [], to_total = 0\<rparr>)"

text \<open>\<open>deque(maxlen=max_rows).append\<close> drops from the left.\<close>

definition observe_json :: "runtime \<Rightarrow> table_output \<Rightarrow> bytes \<Rightarrow> table_output result" where
  "observe_json rt t message =
     (case json_loads rt message of
        None \<Rightarrow> Inl (ValueError ''Expecting value'')
      | Some (PDict payload) \<Rightarrow>
          Inr (t\<lparr>to_rows := last_n (to_max t) (to_rows t @ [payload]), to_total := to_total t + 1\<rparr>)
      | Some _ \<Rightarrow> Inl (ValueError ''Rendered event must be a JSON object''))"

definition status_style :: "string \<Rightarrow> string" where
  "status_style st =
     (if st = ''FIRST'' then ''cyan'' else if st = ''IN_ORDER'' then ''green''
      else if st = ''GAP'' then ''bold red'' else if st = ''DUPLICATE'' then ''yellow''
      else if st = ''REORDERED'' then ''magenta'' else ''white'')"

definition table_number :: "runtime \<Rightarrow> (pyfloat \<Rightarrow> string) \<Rightarrow> pyval \<Rightarrow> string result" where
  "table_number rt grouped v =
     (case v of
        PInt n \<Rightarrow> bind_res (float_of_int n) (\<lambda>x. Inr (grouped x))
      | PFloat x \<Rightarrow> Inr (grouped x)
      | PNone \<Rightarrow> Inr []
      | _ \<Rightarrow> Inr (py_str rt v))"

text \<open>\<open>received.split("T", 1)[1].replace("+00:00", "Z")\<close>\<close>

fun utc_suffix :: "string \<Rightarrow> string" where
  "utc_suffix [] = []"
| "utc_suffix (c # s) =
     (if starts_with ''+00:00'' (c # s) then CHR ''Z'' # utc_suffix (drop 5 s) else c # utc_suffix s)"

definition received_time :: "string \<Rightarrow> string" where
  "received_time s =
     (if CHR ''T'' \<in> set s then utc_suffix (tl (dropWhile (\<lambda>c. c \<noteq> CHR ''T'') s)) else s)"

definition table_row :: "runtime \<Rightarrow> (pyfloat \<Rightarrow> string) \<Rightarrow> payload \<Rightarrow> (string \<times> string list) result" where
  "table_row rt grouped event =
     (let text = (\<lambda>k. py_str rt (dict_get (PStr []) event k)); st = text ''sequence_status'' in
      bind_res (table_number rt grouped (dict_get PNone event ''price'')) (\<lambda>price.
      bind_res (table_number rt grouped (dict_get PNone event ''quantity'')) (\<lambda>quantity.
      bind_res (table_number rt grouped (dict_get PNone event ''latency_ms'')) (\<lambda>latency.
      Inr (status_style st,
        [received_time (text ''received_timestamp''), text ''transport'',
         text ''source'' @ '' / '' @ text ''stream_id'', text ''sequence_number'', st, text ''symbol'',
         text ''event_type'', price, quantity, latency,
         py_str rt (dict_get (PInt 0) event ''missing_count'')])))))"

definition waiting_row :: "string \<times> string list" where
  "waiting_row = (''white'', ''Waiting for events...'' # replicate 10 [])"

definition render_table :: "runtime \<Rightarrow> (pyfloat \<Rightarrow> string) \<Rightarrow> table_output \<Rightarrow>
    (nat \<times> nat \<times> (string \<times> string list) list) result" where
  "render_table rt grouped t =
     (if to_rows t = [] then Inr (to_total t, 0, [waiting_row])
      else bind_res (map_res (table_row rt grouped) (to_rows t)) (\<lambda>rows.
        Inr (to_total t, min (length (to_rows t)) (to_max t), rows)))"

subsection \<open>Processing valid events\<close>

definition event_key :: "market_event \<Rightarrow> stream_key \<times> int" where
  "event_key ev = ((ev_source ev, ev_stream_id ev), ev_sequence_number ev)"

definition journalled :: "store \<Rightarrow> string \<Rightarrow> bool" where
  "journalled s i \<longleftrightarrow> PStr i \<in> set (ids_of ''realtime_event_journal'' ''event_id'' (st_tables s))"

abbreviation journal_ready :: "store \<Rightarrow> bool" where
  "journal_ready s \<equiv> keyed ''realtime_event_journal'' ''event_id'' (st_tables s)"

lemma event_ok_key:
  assumes "event_ok ev"
  shows "stream_of (fst (event_key ev)) = fst (event_key ev)" and "valid_event (event_key ev)"
proof -
  have n: "named (ev_source ev)" "named (ev_stream_id ev)" "0 \<le> ev_sequence_number ev"
    using assms by (simp_all add: event_ok_def)
  have "py_strip s \<noteq> [] \<and> norm_name s = s" if "named s" for s
    using that norm_name_Nil_iff [of s] by (simp add: named_def)
  with n show "stream_of (fst (event_key ev)) = fst (event_key ev)" "valid_event (event_key ev)"
    by (simp_all add: event_key_def stream_of_def valid_event_def)
qed

lemma observe_event:
  assumes "event_ok ev"
  shows "observe tr (PStr (ev_source ev)) (PStr (ev_stream_id ev)) (PInt (ev_sequence_number ev))
    = observe_key tr (fst (event_key ev)) (ev_sequence_number ev)"
  using observe_raw_valid [OF event_ok_key(2) [OF assms], of tr] event_ok_key(1) [OF assms]
  by (simp add: observe_raw_def event_key_def)

lemma persist_journal:
  assumes "persist_realtime_event eng False t p e s = (r, s')" and "map_of e ''event_id'' = Some (PStr i)"
    and "journal_ready s"
  shows "journal_ready s' \<and> (r = Inr b \<longrightarrow> journalled s' i) \<and> (\<forall>j. journalled s j \<longrightarrow> journalled s' j)"
proof -
  have rec: "journal_ready s'" "r = Inr b \<Longrightarrow> recorded s' e" "\<And>x. recorded s x \<Longrightarrow> recorded s' x"
    using persist_records [OF assms, of b] by blast+
  have one: "recorded z [(''event_id'', PStr j)] \<longleftrightarrow> journalled z j" for z j
    by (simp add: recorded_def journalled_def)
  have "journalled s' i" if "r = Inr b"
    using rec(2) [OF that] assms(2) by (simp add: recorded_def journalled_def)
  with rec(1) rec(3) [of "[(''event_id'', PStr j)]" for j] show ?thesis by (simp add: one)
qed

lemma process_event_valid:
  assumes "event_ok ev" and "refines tr h" and "journal \<longrightarrow> journal_ready s"
    and "process_event eng rt ids journal ev tr s = (r, tr', s')"
  shows "refines tr' (h(fst (event_key ev) := h (fst (event_key ev)) @ [ev_sequence_number ev]))
    \<and> duplicate_window tr' = duplicate_window tr
    \<and> (r = Inr ob \<longrightarrow> ob = spec_observe (nat (duplicate_window tr)) (h (fst (event_key ev))) (ev_sequence_number ev))
    \<and> (if journal then journal_ready s' \<and> (r = Inr ob \<longrightarrow> journalled s' (ev_event_id ev)) \<and>
          (\<forall>i. journalled s i \<longrightarrow> journalled s' i)
       else s' = s)"
proof -
  let ?k = "fst (event_key ev)" and ?n = "ev_sequence_number ev"
  obtain tr1 where t: "observe_key tr ?k ?n = Inr (spec_observe (nat (duplicate_window tr)) (h ?k) ?n, tr1)"
    "refines tr1 (h(?k := h ?k @ [?n]))" "duplicate_window tr1 = duplicate_window tr"
    using observe_key_refines [OF assms(2)] by blast
  let ?ob = "spec_observe (nat (duplicate_window tr)) (h ?k) ?n"
  obtain p where p: "as_journal_event rt ev (status_name (status ?ob)) (sequence_reason ev ?ob)
      (expected_sequence ?ob) (missing_count ?ob) = Inr p" and i: "map_of p ''event_id'' = Some (PStr (ev_event_id ev))"
    by (simp add: as_journal_event_def status_name_known)
  obtain q s1 where q: "persist_realtime_event eng False (fst ids) (snd ids) p s = (q, s1)" by fastforce
  have e: "process_event eng rt ids journal ev tr s =
    (if \<not> journal then (Inr ?ob, tr1, s) else case q of Inl e \<Rightarrow> (Inl e, tr1, s1) | Inr b \<Rightarrow> (Inr ?ob, tr1, s1))"
    by (simp add: process_event_def observe_event [OF assms(1)] t(1) p q split: sum.splits)
  show ?thesis
  proof (cases journal)
    case False
    with e assms(4) t show ?thesis by auto
  next
    case True
    with assms(3) have "journal_ready s" by simp
    from persist_journal [OF q i this] e assms(4) t True show ?thesis
      by (cases q) auto
  qed
qed

lemma rendered_status:
  "dict_get PNone (rendered_event rt ev ob) ''sequence_status'' = PStr (status_name (status ob))"
  by (simp add: rendered_event_def as_dict_def dict_get_def)

definition shown_statuses :: "payload list \<Rightarrow> pyval list" where
  "shown_statuses out = map (\<lambda>p. dict_get PNone p ''sequence_status'') out"

definition status_text :: "observation \<Rightarrow> pyval" where
  "status_text ob = PStr (status_name (status ob))"

text \<open>What one run of the loop adds to its state, whatever its end.\<close>

definition monitored_run :: "bool \<Rightarrow> bool \<Rightarrow> nat option \<Rightarrow> nat \<Rightarrow> (stream_key \<Rightarrow> int list) \<Rightarrow> 'x monitoring \<Rightarrow>
    store \<Rightarrow> unit result \<Rightarrow> 'x monitoring \<Rightarrow> store \<Rightarrow> market_event list \<Rightarrow> bool" where
  "monitored_run journal collect limit n h g s r g' s' evs \<longleftrightarrow>
     mo_observed g' = mo_observed g @ (if collect then evs else []) \<and>
     shown_statuses (mo_output g') = shown_statuses (mo_output g)
        @ map status_text (spec_run (nat (duplicate_window (mo_tracker g))) h (map event_key evs)) \<and>
     list_all event_ok evs \<and>
     (journal \<longrightarrow> list_all (\<lambda>ev. journalled s' (ev_event_id ev)) evs \<and> (\<forall>i. journalled s i \<longrightarrow> journalled s' i)) \<and>
     (case limit of None \<Rightarrow> r \<noteq> Inr ()
      | Some c \<Rightarrow> length evs \<le> c - n \<and> (r = Inr () \<longrightarrow> length evs = c - n))"

lemma monitored_run_end:
  assumes "r \<noteq> Inr () \<or> limit_reached limit n" and "mo_observed g' = mo_observed g"
    and "mo_output g' = mo_output g" and "journal \<longrightarrow> (\<forall>i. journalled s i \<longrightarrow> journalled s' i)"
  shows "monitored_run journal collect limit n h g s r g' s' []"
  using assms by (auto simp: monitored_run_def limit_reached_def split: option.splits)

lemma monitored_run_step:
  assumes "monitored_run journal collect limit (Suc n)
      (h(fst (event_key ev) := h (fst (event_key ev)) @ [ev_sequence_number ev])) (monitored rt collect x tr ev ob g) s1 r g' s' evs"
    and "event_ok ev" and "\<not> limit_reached limit n" and "duplicate_window tr = duplicate_window (mo_tracker g)"
    and "ob = spec_observe (nat (duplicate_window (mo_tracker g))) (h (fst (event_key ev))) (ev_sequence_number ev)"
    and "journal \<longrightarrow> journalled s1 (ev_event_id ev) \<and> (\<forall>i. journalled s i \<longrightarrow> journalled s1 i)"
  shows "monitored_run journal collect limit n h g s r g' s' (ev # evs)"
proof -
  have "snd (event_key ev) = ev_sequence_number ev" by (simp add: event_key_def)
  with assms event_ok_key(1) [OF assms(2)] show ?thesis
    by (auto simp: monitored_run_def monitored_def limit_reached_def shown_statuses_def rendered_status
        status_text_def Let_def split: option.splits)
qed

lemma monitor_loop_run:
  assumes "monitor_loop eng rt feed spans journal collect limit n g s = Some res"
    and "\<forall>x ev x'. feed x = (Inr ev, x') \<longrightarrow> event_ok ev"
    and "refines (mo_tracker g) h" and "journal \<longrightarrow> journal_ready s"
  shows "\<exists>evs. monitored_run journal collect limit n h g s (fst res) (fst (snd res)) (snd (snd res)) evs"
  using assms
proof (induction eng rt feed spans journal collect limit n g s res arbitrary: h
    rule: monitor_loop.raw_induct [rotated, consumes 1, case_names step])
  case (step loop eng rt feed spans journal collect limit n g s res)
  note ih = step.IH and valid = step.prems(1) and tr = step.prems(2) and ready = step.prems(3)
  note body = step.hyps
  show ?case
  proof (cases "limit_reached limit n")
    case True
    with body show ?thesis by (auto intro!: exI [of _ "[]"] monitored_run_end)
  next
    case False
    obtain q x where q: "feed (mo_transport g) = (q, x)" by fastforce
    show ?thesis
    proof (cases q)
      case (Inl e)
      with body q False show ?thesis by (auto intro!: exI [of _ "[]"] monitored_run_end)
    next
      case (Inr ev)
      with valid q have ok: "event_ok ev" by blast
      obtain p tr1 s1 where p: "process_event eng rt (spans n) journal ev (mo_tracker g) s = (p, tr1, s1)"
        by (metis prod_cases3)
      note pv = process_event_valid [OF ok tr ready p]
      show ?thesis
      proof (cases p)
        case (Inl e)
        with body q False \<open>q = Inr ev\<close> p pv [of undefined] show ?thesis
          by (auto intro!: exI [of _ "[]"] monitored_run_end)
      next
        case (Inr ob)
        let ?h = "h(fst (event_key ev) := h (fst (event_key ev)) @ [ev_sequence_number ev])"
        let ?g = "monitored rt collect x tr1 ev ob g"
        have l: "loop eng rt feed spans journal collect limit (Suc n) ?g s1 = Some res"
          using body q False \<open>q = Inr ev\<close> p Inr by simp
        have r: "refines (mo_tracker ?g) ?h" "journal \<longrightarrow> journal_ready s1"
          using pv [of ob] by (auto simp: monitored_def)
        from ih [OF l valid r] obtain evs where
          "monitored_run journal collect limit (Suc n) ?h ?g s1 (fst res) (fst (snd res)) (snd (snd res)) evs" ..
        with monitored_run_step [OF this ok False] pv [of ob] Inr show ?thesis by (metis (full_types))
      qed
    qed
  qed
qed

text \<open>With a count the loop returns, whatever the transport does.\<close>

lemma monitor_loop_total:
  "n \<le> c \<Longrightarrow> \<exists>res. monitor_loop eng rt feed spans journal collect (Some c) n g s = Some res"
proof (induction "c - n" arbitrary: n g s)
  case 0
  then show ?case by (subst monitor_loop.simps) (simp add: limit_reached_def)
next
  case (Suc k)
  obtain q x where q: "feed (mo_transport g) = (q, x)" by fastforce
  show ?case
  proof (cases q)
    case (Inl e)
    with q Suc.hyps(2) show ?thesis by (subst monitor_loop.simps) simp
  next
    case (Inr ev)
    obtain p tr1 s1 where p: "process_event eng rt (spans n) journal ev (mo_tracker g) s = (p, tr1, s1)"
      by (metis prod_cases3)
    show ?thesis
    proof (cases p)
      case (Inl e)
      with q \<open>q = Inr ev\<close> p show ?thesis by (subst monitor_loop.simps) simp
    next
      case (Inr ob)
      have "k = c - Suc n" "Suc n \<le> c" using Suc.hyps(2) by auto
      from Suc.hyps(1) [OF this] q \<open>q = Inr ev\<close> p Inr show ?thesis
        by (subst monitor_loop.simps) simp
    qed
  qed
qed

subsection \<open>The interface of a transport\<close>

text \<open>What the monitor asks of \<open>MarketEventTransport\<close>: an event it delivers has been validated.\<close>

locale event_feed =
  fixes feed :: "'x \<Rightarrow> market_event result \<times> 'x"
  assumes feed_valid: "feed x = (Inr ev, x') \<Longrightarrow> event_ok ev"
begin

lemma run_adds:
  assumes "monitor_loop eng rt feed spans journal collect limit n g s = Some (r, g', s')"
    and "refines (mo_tracker g) h" and "journal \<longrightarrow> journal_ready s"
  obtains evs where "monitored_run journal collect limit n h g s r g' s' evs"
  using monitor_loop_run [OF assms(1) _ assms(2,3)] feed_valid by auto

text \<open>A bounded monitor that collects: its events, what it printed and what it journalled.\<close>

lemma finite_run:
  assumes "new_tracker w = Inr tr" and "journal_ready s"
    and "monitor_loop eng rt feed spans True True (Some c) 0
      \<lparr>mo_transport = x, mo_tracker = tr, mo_observed = [], mo_output = []\<rparr> s = Some (r, g, s')"
  shows "list_all (\<lambda>ev. event_ok ev \<and> journalled s' (ev_event_id ev)) (mo_observed g) \<and>
    shown_statuses (mo_output g)
      = map status_text (spec_run (nat w) (\<lambda>_. []) (map event_key (mo_observed g))) \<and>
    length (mo_observed g) \<le> c \<and> (r = Inr () \<longrightarrow> length (mo_observed g) = c)"
proof -
  let ?g = "\<lparr>mo_transport = x, mo_tracker = tr, mo_observed = [], mo_output = []\<rparr>"
  have w: "duplicate_window tr = w" using assms(1) by (auto simp: new_tracker_def split: if_splits)
  obtain evs where "monitored_run True True (Some c) 0 (\<lambda>_. []) ?g s r g s' evs"
    using run_adds [OF assms(3), of "\<lambda>_. []"] new_tracker_refines [OF assms(1)] assms(2) by auto
  with w show ?thesis by (auto simp: monitored_run_def shown_statuses_def list_all_iff)
qed

end

lemma receive_loop_valid: "receive_loop rt a n t = (Inr ev, t') \<Longrightarrow> event_ok ev"
proof (induction n arbitrary: a t)
  case (Suc n)
  obtain q t1 where q: "receive_once rt t = (q, t1)" by fastforce
  show ?case
  proof (cases q)
    case (Inl e)
    with Suc q show ?thesis by (auto simp: Let_def split: if_splits sum.splits)
  next
    case (Inr ev1)
    with Suc.prems q have "receive_once rt t = (Inr ev, t1)" by simp
    then show ?thesis by (auto simp: receive_once_def dest: decode_event_valid split: prod.splits sum.splits)
  qed
qed simp

interpretation tcp_feed: event_feed "receive rt" for rt
  by unfold_locales (unfold receive_def, rule receive_loop_valid)

interpretation multicast_feed: event_feed "mc_receive rt" for rt
  by unfold_locales (auto simp: mc_receive_def Let_def dest: decode_event_valid
      split: prod.splits sum.splits list.splits datagram_event.splits if_splits)

subsection \<open>The bounded table\<close>

fun observe_all :: "runtime \<Rightarrow> table_output \<Rightarrow> bytes list \<Rightarrow> table_output result" where
  "observe_all rt t [] = Inr t"
| "observe_all rt t (m # ms) = bind_res (observe_json rt t m) (\<lambda>t'. observe_all rt t' ms)"

lemma observe_all_rows:
  "observe_all rt t ms = Inr t' \<Longrightarrow> to_rows t = last_n (to_max t) hist \<Longrightarrow>
   \<exists>ps. map (json_loads rt) ms = map (Some \<circ> PDict) ps \<and> to_max t' = to_max t \<and>
     to_rows t' = last_n (to_max t) (hist @ ps) \<and> to_total t' = to_total t + length ms"
proof (induction ms arbitrary: t hist)
  case (Cons m ms)
  obtain t1 where t1: "observe_json rt t m = Inr t1" "observe_all rt t1 ms = Inr t'"
    using Cons.prems(1) by (auto simp: res_simps)
  then obtain p where p: "json_loads rt m = Some (PDict p)"
    "t1 = t\<lparr>to_rows := last_n (to_max t) (to_rows t @ [p]), to_total := to_total t + 1\<rparr>"
    by (auto simp: observe_json_def split: option.splits pyval.splits)
  have "to_rows t1 = last_n (to_max t1) (hist @ [p])" using p(2) Cons.prems(2) by (simp add: last_n_append_last_n)
  from Cons.IH [OF t1(2) this] obtain ps where "map (json_loads rt) ms = map (Some \<circ> PDict) ps"
    "to_max t' = to_max t1" "to_rows t' = last_n (to_max t1) ((hist @ [p]) @ ps)"
    "to_total t' = to_total t1 + length ms" by blast
  with p show ?case by (intro exI [of _ "p # ps"]) simp
qed simp

subsection \<open>Properties\<close>

text \<open>A monitor with a count returns, whatever the transport, the store and the
  run-time library do: it never loops without consuming its count.\<close>

theorem monitor_terminates:
  "monitor_transport eng rt feed spans x (Some c) journal collect s \<noteq> None"
proof -
  obtain q s1 where i: "(if journal then initialize_database eng s else (Inr (), s)) = (q, s1)" by fastforce
  have "monitor_loop eng rt feed spans journal b (Some (nat c)) 0 g s1 \<noteq> None" for b g
    using monitor_loop_total [of 0 "nat c"] by fastforce
  then show ?thesis
    by (simp add: monitor_transport_def i del: not_None_eq split: sum.split)
qed

text \<open>C9 (monitor_reports_history): a bounded monitor of a TCP or TLS feed. Whatever the peer sends and
  wherever the database fails, every event it collected is valid and in the journal, and the statuses
  it printed are those of the full history of each stream; it ends normally only with exactly
  \<open>count\<close> events.\<close>

theorem monitor_reports_history:
  assumes "new_tracker w = Inr tr" and "journal_ready s"
    and "monitor_loop eng rt (receive rt) spans True True (Some c) 0
      \<lparr>mo_transport = x, mo_tracker = tr, mo_observed = [], mo_output = []\<rparr> s = Some (r, g, s')"
  shows "list_all (\<lambda>ev. event_ok ev \<and> journalled s' (ev_event_id ev)) (mo_observed g) \<and>
    shown_statuses (mo_output g)
      = map status_text (spec_run (nat w) (\<lambda>_. []) (map event_key (mo_observed g))) \<and>
    length (mo_observed g) \<le> c \<and> (r = Inr () \<longrightarrow> length (mo_observed g) = c)"
  by (rule tcp_feed.finite_run [OF assms])

text \<open>The same for a multicast feed.\<close>

theorem multicast_monitor_reports_history:
  assumes "new_tracker w = Inr tr" and "journal_ready s"
    and "monitor_loop eng rt (mc_receive rt) spans True True (Some c) 0
      \<lparr>mo_transport = x, mo_tracker = tr, mo_observed = [], mo_output = []\<rparr> s = Some (r, g, s')"
  shows "list_all (\<lambda>ev. event_ok ev \<and> journalled s' (ev_event_id ev)) (mo_observed g) \<and>
    shown_statuses (mo_output g)
      = map status_text (spec_run (nat w) (\<lambda>_. []) (map event_key (mo_observed g))) \<and>
    length (mo_observed g) \<le> c \<and> (r = Inr () \<longrightarrow> length (mo_observed g) = c)"
  by (rule multicast_feed.finite_run [OF assms])

text \<open>The table of a monitor that runs for ever stays bounded: after any messages
  it holds exactly the latest \<open>max_rows\<close> events, and the count of all.\<close>

theorem table_keeps_latest:
  assumes "new_table_output m = Inr t" and "observe_all rt t ms = Inr t'"
  shows "to_rows t' = last_n (nat m) (map (\<lambda>b. case json_loads rt b of Some (PDict p) \<Rightarrow> p | _ \<Rightarrow> []) ms) \<and>
    length (to_rows t') \<le> nat m \<and> to_total t' = length ms"
proof -
  have t: "to_max t = nat m" "to_rows t = []" "to_total t = 0"
    using assms(1) by (auto simp: new_table_output_def split: if_splits)
  obtain ps where ps: "map (json_loads rt) ms = map (Some \<circ> PDict) ps" "to_rows t' = last_n (nat m) ps"
    "to_total t' = length ms"
    using observe_all_rows [OF assms(2), of "[]"] t by (auto simp: last_n_def)
  have "map (\<lambda>b. case json_loads rt b of Some (PDict p) \<Rightarrow> p | _ \<Rightarrow> []) ms
      = map (\<lambda>v. case v of Some (PDict p) \<Rightarrow> p | _ \<Rightarrow> []) (map (json_loads rt) ms)" by simp
  also have "\<dots> = ps" unfolding ps(1) by (simp add: o_def)
  finally show ?thesis using ps(2,3) by simp
qed

lemma table_keeps_latest_witness:
  "\<exists>t'. observe_all (sample_runtime\<lparr>json_loads := (\<lambda>b. Some (PDict [(''n'', PInt (int (length b)))]))\<rparr>)
       \<lparr>to_max = 2, to_rows = [], to_total = 0\<rparr> [[], [1], [1, 2]] = Inr t' \<and>
     to_rows t' = [[(''n'', PInt 1)], [(''n'', PInt 2)]]"
proof -
  let ?rt = "sample_runtime\<lparr>json_loads := (\<lambda>b. Some (PDict [(''n'', PInt (int (length b)))]))\<rparr>"
  have n: "new_table_output 2 = Inr \<lparr>to_max = 2, to_rows = [], to_total = 0\<rparr>" by (simp add: new_table_output_def)
  obtain t' where t: "observe_all ?rt \<lparr>to_max = 2, to_rows = [], to_total = 0\<rparr> [[], [1], [1, 2]] = Inr t'"
    by (simp add: observe_json_def)
  from table_keeps_latest [OF n t] t show ?thesis by (simp add: last_n_def)
qed

text \<open>A run-time library that decodes every frame to the sample payload.\<close>

definition feed_runtime :: runtime where
  "feed_runtime = sample_runtime\<lparr>json_loads := (\<lambda>b. Some (PDict sample_payload)), now_us := 1000\<rparr>"

definition start_monitor :: "'x \<Rightarrow> 'x monitoring" where
  "start_monitor x = \<lparr>mo_transport = x, mo_tracker = projr (new_tracker 4), mo_observed = [], mo_output = []\<rparr>"

lemma start_tracker: "new_tracker 4 = Inr (projr (new_tracker 4))"
  by (simp add: new_tracker_def)

lemma monitor_reports_history_witness:
  "\<exists>r g s'. monitor_loop plain_engine feed_runtime (receive feed_runtime) (\<lambda>n. (None, None)) True True (Some 2) 0
       (start_monitor (sample_tcp Newline [Data [65, 10], Data [66, 10]] [])) fresh_store = Some (r, g, s') \<and> length (mo_observed g) \<le> 2"
proof -
  obtain r g s' where m: "monitor_loop plain_engine feed_runtime (receive feed_runtime) (\<lambda>n. (None, None))
      True True (Some 2) 0 (start_monitor (sample_tcp Newline [Data [65, 10], Data [66, 10]] [])) fresh_store = Some (r, g, s')"
    using monitor_loop_total [of 0 2] by (metis zero_le prod_cases3)
  from monitor_reports_history [OF start_tracker fresh_keyed(2) m [unfolded start_monitor_def]] m
  show ?thesis by blast
qed

lemma multicast_monitor_reports_history_witness:
  "\<exists>r g s'. monitor_loop plain_engine feed_runtime (mc_receive feed_runtime) (\<lambda>n. (None, None)) True True (Some 2) 0
       (start_monitor sample_multicast) fresh_store = Some (r, g, s') \<and> length (mo_observed g) \<le> 2"
proof -
  obtain r g s' where m: "monitor_loop plain_engine feed_runtime (mc_receive feed_runtime) (\<lambda>n. (None, None))
      True True (Some 2) 0 (start_monitor sample_multicast) fresh_store = Some (r, g, s')"
    using monitor_loop_total [of 0 2] by (metis zero_le prod_cases3)
  from multicast_monitor_reports_history [OF start_tracker fresh_keyed(2) m [unfolded start_monitor_def]] m
  show ?thesis by blast
qed

end
