(* ===== verification/Joins.thy ===== *)
theory Joins
  imports Frames
begin

section \<open>Full outer joins\<close>

text \<open>
  The reconcilers hand two keyed lists to the data-frame library's outer merge.  The library is an
  argument of their definitions; what they rely on is the locale \<open>outer_join\<close>, its documented law for
  unique keys: one row per key of either side, with the values of the sides that have it.  A
  concrete merge is shown to satisfy it.
\<close>

type_synonym ('k, 'a, 'b) joined = "('k \<times> 'a option \<times> 'b option) list"

type_synonym ('k, 'a, 'b) merge = "('k \<times> 'a) list \<Rightarrow> ('k \<times> 'b) list \<Rightarrow> ('k, 'a, 'b) joined"

definition unique_keys :: "('k \<times> 'a) list \<Rightarrow> bool" where
  "unique_keys xs \<longleftrightarrow> distinct (map fst xs)"

definition join_spec :: "('k \<times> 'a) list \<Rightarrow> ('k \<times> 'b) list \<Rightarrow> ('k \<times> 'a option \<times> 'b option) set" where
  "join_spec xs ys = (\<lambda>k. (k, map_of xs k, map_of ys k)) ` (fst ` set xs \<union> fst ` set ys)"

locale outer_join =
  fixes merge :: "('k, 'a, 'b) merge"
  assumes merge_rows: "unique_keys xs \<Longrightarrow> unique_keys ys \<Longrightarrow> set (merge xs ys) = join_spec xs ys"
    and merge_keys: "unique_keys xs \<Longrightarrow> unique_keys ys \<Longrightarrow> distinct (map fst (merge xs ys))"
begin

lemma mem_merge:
  assumes "unique_keys xs" and "unique_keys ys"
  shows "(k, a, b) \<in> set (merge xs ys) \<longleftrightarrow> a = map_of xs k \<and> b = map_of ys k \<and> (a \<noteq> None \<or> b \<noteq> None)"
proof -
  have "k \<in> fst ` set xs \<union> fst ` set ys \<longleftrightarrow> map_of xs k \<noteq> None \<or> map_of ys k \<noteq> None"
    by (simp add: map_of_eq_None_iff)
  then show ?thesis unfolding merge_rows [OF assms] join_spec_def by (simp add: image_iff) blast
qed

lemma keys_merge:
  assumes "unique_keys xs" and "unique_keys ys"
  shows "fst ` set (merge xs ys) = fst ` set xs \<union> fst ` set ys"
  unfolding merge_rows [OF assms] join_spec_def by (simp add: image_image)

lemma length_merge:
  assumes "unique_keys xs" and "unique_keys ys"
  shows "length (merge xs ys) = card (fst ` set xs \<union> fst ` set ys)"
  using distinct_card [OF merge_keys [OF assms]] keys_merge [OF assms] by simp

text \<open>A comparison of the joined rows that keeps the key reports every key of either side exactly once, and
  each of its rows is the comparison of what the two sides have under that key.\<close>

lemma compared_rows:
  assumes "unique_keys xs" and "unique_keys ys" and "rows = map compare (merge xs ys)"
    and "\<And>j. key (compare j) = fst j"
  shows "distinct (map key rows)" and "set (map key rows) = fst ` set xs \<union> fst ` set ys"
    and "r \<in> set rows \<Longrightarrow> r = compare (key r, map_of xs (key r), map_of ys (key r))"
proof -
  have keys: "map key rows = map fst (merge xs ys)" by (simp add: assms(3,4) o_def)
  show "distinct (map key rows)" unfolding keys by (rule merge_keys [OF assms(1,2)])
  show "set (map key rows) = fst ` set xs \<union> fst ` set ys"
    unfolding keys using keys_merge [OF assms(1,2)] by simp
  show "r = compare (key r, map_of xs (key r), map_of ys (key r))" if "r \<in> set rows"
  proof -
    from that obtain k a b where j: "(k, a, b) \<in> set (merge xs ys)" "r = compare (k, a, b)" by (auto simp: assms(3))
    with mem_merge [OF assms(1,2)] show ?thesis by (simp add: assms(4))
  qed
qed

end

text \<open>Two merges with the sides swapped hold the same rows.\<close>

lemma swapped_merge:
  assumes "outer_join m" and "outer_join m'" and "unique_keys xs" and "unique_keys ys"
  shows "set (m' ys xs) = (\<lambda>(k, a, b). (k, b, a)) ` set (m xs ys)"
  unfolding outer_join.merge_rows [OF assms(1,3,4)] outer_join.merge_rows [OF assms(2,4,3)] join_spec_def
  by (auto simp: image_image)

definition merge_by_key :: "('k, 'a, 'b) merge" where
  "merge_by_key xs ys = map (\<lambda>k. (k, map_of xs k, map_of ys k)) (uniq (map fst xs @ map fst ys))"

interpretation by_key: outer_join merge_by_key
  by unfold_locales (auto simp: merge_by_key_def join_spec_def o_def)

text \<open>The data-frame functions that read one cell: a UTC date, missing when the cell is (or a failure),
  and a number.\<close>

record cell_parsers =
  pd_date :: "pyval \<Rightarrow> int option result"
  pd_number :: "pyval \<Rightarrow> pyfloat result"

definition coerced_date :: "cell_parsers \<Rightarrow> pyval \<Rightarrow> int option" where
  "coerced_date pd v = (case pd_date pd v of Inl e \<Rightarrow> None | Inr d \<Rightarrow> d)"

definition text_cell :: "runtime \<Rightarrow> pyval \<Rightarrow> string option" where
  "text_cell rt v = (if isna v then None else Some (py_str rt v))"

text \<open>A cell of a numeric column, as a 64-bit float.\<close>

fun number_cell :: "pyval \<Rightarrow> pyfloat" where
  "number_cell (PInt n) = fl (of_int n)"
| "number_cell (PFloat x) = x"
| "number_cell (PBool b) = (if b then Fin 1 else Fin 0)"
| "number_cell v = NaN"

definition table_frame :: "string list \<Rightarrow> string list \<Rightarrow> ('r \<Rightarrow> pyval list) \<Rightarrow> 'r list \<Rightarrow> frame" where
  "table_frame cols numeric cells_of rows = \<lparr>fr_columns = cols, fr_numeric = numeric, fr_rows = map cells_of rows\<rparr>"

text \<open>\<open>itertools.combinations(items, 2)\<close>\<close>

fun pairs_of :: "'a list \<Rightarrow> ('a \<times> 'a) list" where
  "pairs_of [] = []"
| "pairs_of (x # xs) = map (Pair x) xs @ pairs_of xs"

lemma length_pairs_of: "length (pairs_of xs) = length xs * (length xs - 1) div 2"
proof (induction xs)
  case (Cons x xs)
  have "even (length xs * (length xs - 1))" by (cases "length xs") auto
  then have "length xs + length xs * (length xs - 1) div 2 = (2 * length xs + length xs * (length xs - 1)) div 2"
    by simp
  also have "2 * length xs + length xs * (length xs - 1) = length (x # xs) * (length (x # xs) - 1)"
    by (cases "length xs") (simp_all add: algebra_simps)
  finally show ?case using Cons by simp
qed simp

lemma set_pairs_of: "p \<in> set (pairs_of xs) \<Longrightarrow> fst p \<in> set xs \<and> snd p \<in> set xs"
  by (induction xs) auto

lemma distinct_pairs_of: "distinct (map f xs) \<Longrightarrow> distinct (map (map_prod f f) (pairs_of xs))"
proof (induction xs)
  case (Cons x xs)
  have left: "map (map_prod f f) (map (Pair x) xs) = map (Pair (f x)) (map f xs)" by simp
  have "fst p \<noteq> f x" if "p \<in> set (map (map_prod f f) (pairs_of xs))" for p
    using Cons.prems that set_pairs_of [of _ xs] by (fastforce simp: image_iff)
  then have "set (map (Pair (f x)) (map f xs)) \<inter> set (map (map_prod f f) (pairs_of xs)) = {}" by fastforce
  moreover have "distinct (map (Pair (f x)) (map f xs))"
    using Cons.prems by (simp add: distinct_map [of "Pair (f x)"] inj_on_def del: map_map)
  ultimately show ?case using Cons by (simp only: pairs_of.simps map_append left distinct_append) simp
qed simp

text \<open>Blocks with distinct labels, each distinct inside, are distinct together.\<close>

lemma distinct_blocks:
  "list_all2 (\<lambda>x ys. (\<forall>y\<in>set ys. h y = g x) \<and> distinct (map k ys)) xs yss \<Longrightarrow> distinct (map g xs) \<Longrightarrow>
   distinct (map (\<lambda>y. (h y, k y)) (concat yss))"
proof (induction rule: list_all2_induct)
  case (Cons x xs ys yss)
  have "\<exists>z\<in>set xs. h y = g z" if "y \<in> set (concat yss)" for y
  proof -
    from that obtain zs where "zs \<in> set yss" "y \<in> set zs" by auto
    with Cons.hyps(2) show ?thesis by (auto simp: list_all2_conv_all_nth in_set_conv_nth, metis nth_mem)
  qed
  moreover have "g x \<notin> g ` set xs" using Cons.prems by simp
  ultimately have "(\<lambda>y. (h y, k y)) ` set ys \<inter> (\<lambda>y. (h y, k y)) ` set (concat yss) = {}"
    using Cons.hyps(1) by fastforce
  moreover have "distinct (map (\<lambda>y. (h y, k y)) ys)" using Cons.hyps(1) by (auto simp: distinct_map inj_on_def)
  ultimately show ?case using Cons by simp
qed simp

definition fmin :: "pyfloat \<Rightarrow> pyfloat \<Rightarrow> pyfloat" where
  "fmin a b = fneg (fmax (fneg a) (fneg b))"

end
