(* ===== verification/Equities.thy ===== *)
theory Equities
  imports Joins
begin

section \<open>Reconciling daily equity bars\<close>

text \<open>
  \<open>reconciliation/equities.py\<close>: validation of the bars, the outer join of two providers on symbol
  and date, the statuses, and the reconciliation of every pair of providers.  The rows of the result
  are records, turned into the columns of the data frame by \<open>reconciliation_frame\<close> and
  \<open>pairwise_frame\<close>.  Numeric cells are 64-bit floats.
\<close>

subsection \<open>Validation\<close>

definition equity_columns :: "string list" where
  "equity_columns = [''symbol'', ''trade_date'', ''open'', ''high'', ''low'', ''close'', ''volume'']"

definition numeric_columns :: "string list" where
  "numeric_columns = [''open'', ''high'', ''low'', ''close'', ''volume'']"

definition cell_symbol :: "runtime \<Rightarrow> frame \<Rightarrow> pyval list \<Rightarrow> string" where
  "cell_symbol rt f r = norm_name (py_str rt (cell f r ''symbol''))"

definition num :: "frame \<Rightarrow> pyval list \<Rightarrow> string \<Rightarrow> pyfloat" where
  "num f r c = number_cell (cell f r c)"

definition check_numeric :: "frame \<Rightarrow> string \<Rightarrow> unit result" where
  "check_numeric f c =
     (if c \<notin> set (fr_numeric f) then Inl (ValueError (''Equity column '' @ c @ '' must have a numeric dtype''))
      else if list_ex (\<lambda>r. \<not> is_finite (num f r c)) (fr_rows f)
      then Inl (ValueError (''Equity column '' @ c @ '' contains a non-finite value''))
      else Inr ())"

definition ohlc_violation :: "frame \<Rightarrow> pyval list \<Rightarrow> bool" where
  "ohlc_violation f r =
     (flt (num f r ''high'') (fmax (num f r ''open'') (fmax (num f r ''close'') (num f r ''low''))) \<or>
      flt (fmin (num f r ''open'') (fmin (num f r ''close'') (num f r ''high''))) (num f r ''low''))"

definition business_key :: "runtime \<Rightarrow> cell_parsers \<Rightarrow> frame \<Rightarrow> pyval list \<Rightarrow> string \<times> int" where
  "business_key rt pd f r = (cell_symbol rt f r, the (coerced_date pd (cell f r ''trade_date'')))"

definition validate_equity_bars :: "runtime \<Rightarrow> cell_parsers \<Rightarrow> frame \<Rightarrow> unit result" where
  "validate_equity_bars rt pd f =
     (if absent_columns f equity_columns \<noteq> []
      then Inl (ValueError ''Equity data is missing required columns'')
      else if list_ex (\<lambda>r. list_ex (\<lambda>c. isna (cell f r c)) equity_columns) (fr_rows f)
      then Inl (ValueError ''Equity data contains null values'')
      else if list_ex (\<lambda>r. py_strip (py_str rt (cell f r ''symbol'')) = []) (fr_rows f)
      then Inl (ValueError ''Equity data contains an empty symbol'')
      else if list_ex (\<lambda>r. coerced_date pd (cell f r ''trade_date'') = None) (fr_rows f)
      then Inl (ValueError ''Equity data contains an invalid trade_date'')
      else bind_res (map_res (check_numeric f) numeric_columns) (\<lambda>_.
        if list_ex (\<lambda>r. list_ex (\<lambda>c. flt (num f r c) (Fin 0)) [''open'', ''high'', ''low'', ''close'']) (fr_rows f)
        then Inl (ValueError ''Equity OHLC values must be non-negative'')
        else if list_ex (\<lambda>r. flt (num f r ''volume'') (Fin 0)) (fr_rows f)
        then Inl (ValueError ''Equity volume must be non-negative'')
        else if list_ex (ohlc_violation f) (fr_rows f)
        then Inl (ValueError ''Equity data violates OHLC high/low consistency'')
        else if \<not> distinct (map (business_key rt pd f) (fr_rows f))
        then Inl (ValueError ''Equity data contains duplicate symbol/trade_date keys'')
        else Inr ()))"

subsection \<open>Two providers\<close>

record tolerances =
  tol_close :: pyfloat
  tol_warn :: "pyfloat option"
  tol_break_pct :: "pyfloat option"
  tol_warn_pct :: "pyfloat option"

definition negative_option :: "pyfloat option \<Rightarrow> bool" where
  "negative_option t = (case t of None \<Rightarrow> False | Some x \<Rightarrow> flt x (Fin 0))"

definition check_tolerances :: "tolerances \<Rightarrow> unit result" where
  "check_tolerances t =
     (if flt (tol_close t) (Fin 0) then Inl (ValueError ''close_tolerance must be non-negative'')
      else if (case tol_warn t of None \<Rightarrow> False
               | Some w \<Rightarrow> \<not> (fle (Fin 0) w \<and> fle w (tol_close t)))
      then Inl (ValueError ''warn_tolerance must be non-negative and no greater than close_tolerance'')
      else if negative_option (tol_break_pct t)
      then Inl (ValueError ''break_pct_tolerance must be non-negative'')
      else if negative_option (tol_warn_pct t)
      then Inl (ValueError ''warn_pct_tolerance must be non-negative'')
      else if (case (tol_warn_pct t, tol_break_pct t) of (Some w, Some b) \<Rightarrow> flt b w | _ \<Rightarrow> False)
      then Inl (ValueError ''warn_pct_tolerance must be no greater than break_pct_tolerance'')
      else Inr ())"

record bar =
  bar_close :: pyfloat
  bar_volume :: pyfloat

type_synonym equity_key = "string \<times> int"

definition keyed_bar :: "runtime \<Rightarrow> cell_parsers \<Rightarrow> frame \<Rightarrow> pyval list \<Rightarrow> (equity_key \<times> bar) result" where
  "keyed_bar rt pd f r = bind_res (pd_date pd (cell f r ''trade_date'')) (\<lambda>d.
     case d of None \<Rightarrow> Inl (ValueError ''NaT'')
     | Some day \<Rightarrow> Inr ((cell_symbol rt f r, day),
         \<lparr>bar_close = num f r ''close'', bar_volume = num f r ''volume''\<rparr>))"

definition keyed_bars :: "runtime \<Rightarrow> cell_parsers \<Rightarrow> frame \<Rightarrow> (equity_key \<times> bar) list result" where
  "keyed_bars rt pd f = map_res (keyed_bar rt pd f) (fr_rows f)"

datatype verdict = MATCH | WARN | BREAK

record equity_row =
  er_symbol :: string
  er_date :: int
  er_close_a :: pyfloat
  er_close_b :: pyfloat
  er_close_difference :: pyfloat
  er_volume_a :: pyfloat
  er_volume_b :: pyfloat
  er_volume_difference :: pyfloat
  er_status :: verdict

text \<open>The larger of an absolute limit and a percentage of the larger close.\<close>

definition price_limit :: "pyfloat \<Rightarrow> pyfloat option \<Rightarrow> pyfloat \<Rightarrow> pyfloat \<Rightarrow> pyfloat" where
  "price_limit absolute pct a b =
     (case pct of None \<Rightarrow> absolute
      | Some p \<Rightarrow> fmax absolute (fmul (fmax (fabs a) (fabs b)) p))"

definition price_status :: "tolerances \<Rightarrow> pyfloat \<Rightarrow> pyfloat \<Rightarrow> verdict" where
  "price_status t a b =
     (let d = fsub a b; limit = price_limit (tol_close t) (tol_break_pct t) a b in
      if flt limit (fabs d) \<or> is_nan d then BREAK
      else case tol_warn t of
        None \<Rightarrow> MATCH
      | Some w \<Rightarrow>
          if flt (price_limit w (tol_warn_pct t) a b) (fabs d) \<and> fle (fabs d) limit then WARN else MATCH)"

definition side :: "(bar \<Rightarrow> pyfloat) \<Rightarrow> bar option \<Rightarrow> pyfloat" where
  "side get b = (case b of None \<Rightarrow> NaN | Some x \<Rightarrow> get x)"

definition compare_bars :: "tolerances \<Rightarrow> equity_key \<times> bar option \<times> bar option \<Rightarrow> equity_row" where
  "compare_bars t j = (case j of ((symb, day), a, b) \<Rightarrow>
     \<lparr>er_symbol = symb, er_date = day, er_close_a = side bar_close a, er_close_b = side bar_close b,
      er_close_difference = fsub (side bar_close a) (side bar_close b),
      er_volume_a = side bar_volume a, er_volume_b = side bar_volume b,
      er_volume_difference = fsub (side bar_volume a) (side bar_volume b),
      er_status = price_status t (side bar_close a) (side bar_close b)\<rparr>)"

definition reconcile_equity_bars :: "runtime \<Rightarrow> cell_parsers \<Rightarrow> (equity_key, bar, bar) merge \<Rightarrow> tolerances \<Rightarrow>
    frame \<Rightarrow> frame \<Rightarrow> equity_row list result" where
  "reconcile_equity_bars rt pd merge t yahoo alpaca =
     bind_res (check_tolerances t) (\<lambda>_.
     bind_res (validate_equity_bars rt pd yahoo) (\<lambda>_.
     bind_res (validate_equity_bars rt pd alpaca) (\<lambda>_.
     bind_res (keyed_bars rt pd yahoo) (\<lambda>ya.
     bind_res (keyed_bars rt pd alpaca) (\<lambda>al.
     Inr (map (compare_bars t) (merge ya al)))))))"

fun verdict_name :: "verdict \<Rightarrow> string" where
  "verdict_name MATCH = ''MATCH''"
| "verdict_name WARN = ''WARN''"
| "verdict_name BREAK = ''BREAK''"

definition reconciliation_columns :: "string list" where
  "reconciliation_columns = [''symbol'', ''trade_date'', ''yahoo_close'', ''alpaca_close'',
     ''close_difference'', ''yahoo_volume'', ''alpaca_volume'', ''volume_difference'', ''status'']"

definition equity_cells :: "equity_row \<Rightarrow> pyval list" where
  "equity_cells r = [PStr (er_symbol r), PDate (er_date r), PFloat (er_close_a r), PFloat (er_close_b r),
     PFloat (er_close_difference r), PFloat (er_volume_a r), PFloat (er_volume_b r),
     PFloat (er_volume_difference r), PStr (verdict_name (er_status r))]"

definition reconciliation_frame :: "equity_row list \<Rightarrow> frame" where
  "reconciliation_frame = table_frame reconciliation_columns
     [''yahoo_close'', ''alpaca_close'', ''close_difference'', ''yahoo_volume'', ''alpaca_volume'',
      ''volume_difference''] equity_cells"

subsection \<open>Every pair of providers\<close>

record pair_row =
  pr_row :: equity_row
  pr_source_a :: string
  pr_source_b :: string
  pr_reason :: "string option"

text \<open>A missing second observation overrides a missing first one; both override the price difference.\<close>

definition pair_reason :: "string \<Rightarrow> string \<Rightarrow> equity_row \<Rightarrow> string option" where
  "pair_reason a b r =
     (let missing_a = is_nan (er_close_a r); missing_b = is_nan (er_close_b r) in
      if missing_b then Some (''MISSING_'' @ py_upper b @ ''_OBSERVATION'')
      else if missing_a then Some (''MISSING_'' @ py_upper a @ ''_OBSERVATION'')
      else if er_status r = BREAK then Some ''PRICE_DIFFERENCE'' else None)"

definition pair_rows :: "string \<Rightarrow> string \<Rightarrow> equity_row list \<Rightarrow> pair_row list" where
  "pair_rows a b rows = map (\<lambda>r. \<lparr>pr_row = r, pr_source_a = py_upper a, pr_source_b = py_upper b,
     pr_reason = pair_reason a b r\<rparr>) rows"

definition reconcile_equity_sources :: "runtime \<Rightarrow> cell_parsers \<Rightarrow> (equity_key, bar, bar) merge \<Rightarrow>
    tolerances \<Rightarrow> (string \<times> frame) list \<Rightarrow> pair_row list result" where
  "reconcile_equity_sources rt pd merge t providers =
     (if length providers < 2 then Inl (ValueError ''At least two equity providers are required'')
      else bind_res (map_res (\<lambda>((a, fa), (b, fb)).
             bind_res (reconcile_equity_bars rt pd merge t fa fb) (\<lambda>rows. Inr (pair_rows a b rows)))
           (pairs_of providers)) (\<lambda>rss. Inr (concat rss)))"

definition pairwise_columns :: "string list" where
  "pairwise_columns = [''symbol'', ''trade_date'', ''source_a'', ''source_b'', ''source_a_close'',
     ''source_b_close'', ''close_difference'', ''source_a_volume'', ''source_b_volume'',
     ''volume_difference'', ''status'', ''break_reason'']"

definition pair_cells :: "pair_row \<Rightarrow> pyval list" where
  "pair_cells p = (let r = pr_row p in
     [PStr (er_symbol r), PDate (er_date r), PStr (pr_source_a p), PStr (pr_source_b p),
      PFloat (er_close_a r), PFloat (er_close_b r), PFloat (er_close_difference r),
      PFloat (er_volume_a r), PFloat (er_volume_b r), PFloat (er_volume_difference r),
      PStr (verdict_name (er_status r)), (case pr_reason p of None \<Rightarrow> PNone | Some s \<Rightarrow> PStr s)])"

definition pairwise_frame :: "pair_row list \<Rightarrow> frame" where
  "pairwise_frame = table_frame pairwise_columns
     [''source_a_close'', ''source_b_close'', ''close_difference'', ''source_a_volume'',
      ''source_b_volume'', ''volume_difference''] pair_cells"

subsection \<open>Validated bars\<close>

definition equity_map :: "runtime \<Rightarrow> cell_parsers \<Rightarrow> frame \<Rightarrow> (equity_key \<times> bar) list" where
  "equity_map rt pd f = map (\<lambda>r. (business_key rt pd f r,
     \<lparr>bar_close = num f r ''close'', bar_volume = num f r ''volume''\<rparr>)) (fr_rows f)"

lemma map_res_check: "map_res g xs = Inr ys \<Longrightarrow> x \<in> set xs \<Longrightarrow> \<exists>y. g x = Inr y"
  by (induction xs arbitrary: ys) (auto simp: res_simps)

lemma validate_Inr:
  assumes "validate_equity_bars rt pd f = Inr u"
  shows "unique_keys (equity_map rt pd f)"
    and "r \<in> set (fr_rows f) \<Longrightarrow> \<exists>d. pd_date pd (cell f r ''trade_date'') = Inr (Some d)"
    and "r \<in> set (fr_rows f) \<Longrightarrow> is_finite (num f r ''close'') \<and> is_finite (num f r ''volume'')"
    and "r \<in> set (fr_rows f) \<Longrightarrow> cell_symbol rt f r \<noteq> []"
proof -
  from assms obtain us where us: "map_res (check_numeric f) numeric_columns = Inr us"
    by (auto simp: validate_equity_bars_def res_simps split: if_splits)
  have "distinct (map (business_key rt pd f) (fr_rows f))"
    using assms by (auto simp: validate_equity_bars_def res_simps split: if_splits)
  then show "unique_keys (equity_map rt pd f)" by (simp add: unique_keys_def equity_map_def o_def)
  have d: "\<not> list_ex (\<lambda>r. coerced_date pd (cell f r ''trade_date'') = None) (fr_rows f)"
    and s: "\<not> list_ex (\<lambda>r. py_strip (py_str rt (cell f r ''symbol'')) = []) (fr_rows f)"
    using assms by (auto simp: validate_equity_bars_def res_simps split: if_splits)
  show "\<exists>d. pd_date pd (cell f r ''trade_date'') = Inr (Some d)" if "r \<in> set (fr_rows f)"
  proof -
    have "coerced_date pd (cell f r ''trade_date'') \<noteq> None" using d that by (auto simp: list_ex_iff)
    then show ?thesis by (auto simp: coerced_date_def split: sum.splits option.splits)
  qed
  show "cell_symbol rt f r \<noteq> []" if "r \<in> set (fr_rows f)"
    using s that by (simp add: list_ex_iff cell_symbol_def)
  have check: "check_numeric f c = Inr () \<or> c \<notin> set numeric_columns" for c
    using map_res_check [OF us, of c] by auto
  have "list_all (\<lambda>r. is_finite (num f r c)) (fr_rows f)" if "c \<in> set numeric_columns" for c
  proof -
    from that check [of c] have "check_numeric f c = Inr ()" by blast
    then show ?thesis by (auto simp: check_numeric_def list_ex_iff list_all_iff split: if_splits)
  qed
  moreover have "''close'' \<in> set numeric_columns" "''volume'' \<in> set numeric_columns"
    by (simp_all add: numeric_columns_def)
  ultimately show "is_finite (num f r ''close'') \<and> is_finite (num f r ''volume'')" if "r \<in> set (fr_rows f)"
    using that by (simp add: list_all_iff)
qed

lemma keyed_bars_valid:
  assumes "validate_equity_bars rt pd f = Inr u"
  shows "keyed_bars rt pd f = Inr (equity_map rt pd f)"
proof -
  have "map_res (keyed_bar rt pd f) rows = Inr (map (\<lambda>r. (business_key rt pd f r,
      \<lparr>bar_close = num f r ''close'', bar_volume = num f r ''volume''\<rparr>)) rows)" if "set rows \<subseteq> set (fr_rows f)" for rows
    using that
  proof (induction rows)
    case (Cons r rows)
    from validate_Inr(2) [OF assms] Cons.prems obtain d where "pd_date pd (cell f r ''trade_date'') = Inr (Some d)"
      by auto
    with Cons show ?case by (simp add: keyed_bar_def business_key_def coerced_date_def)
  qed simp
  then show ?thesis by (simp add: keyed_bars_def equity_map_def)
qed

lemma equity_map_finite:
  "validate_equity_bars rt pd f = Inr u \<Longrightarrow> map_of (equity_map rt pd f) k = Some b \<Longrightarrow>
   is_finite (bar_close b) \<and> is_finite (bar_volume b)"
  using validate_Inr(3) by (force simp: equity_map_def dest!: map_of_SomeD)

lemma reconcile_bars_Inr:
  "reconcile_equity_bars rt pd merge t f g = Inr rows \<longleftrightarrow>
   (check_tolerances t = Inr () \<and> validate_equity_bars rt pd f = Inr () \<and> validate_equity_bars rt pd g = Inr () \<and>
    rows = map (compare_bars t) (merge (equity_map rt pd f) (equity_map rt pd g)))"
  by (auto simp: reconcile_equity_bars_def res_simps keyed_bars_valid)

definition row_key :: "equity_row \<Rightarrow> equity_key" where
  "row_key r = (er_symbol r, er_date r)"

lemma row_key_compare [simp]: "row_key (compare_bars t j) = fst j"
  by (auto simp: row_key_def compare_bars_def split: prod.splits)

subsection \<open>Statuses\<close>

lemma fsub_finite: "is_finite a \<Longrightarrow> is_finite b \<Longrightarrow> \<not> is_nan (fsub a b)"
  by (cases a; cases b) (auto simp: fsub_def fl_def Let_def)

lemma is_nan_fsub: "is_nan a \<or> is_nan b \<Longrightarrow> is_nan (fsub a b)"
  by (cases a; cases b) (auto simp: fsub_def)

lemma price_status_BREAK:
  "price_status t a b = BREAK \<longleftrightarrow>
   is_nan (fsub a b) \<or> flt (price_limit (tol_close t) (tol_break_pct t) a b) (fabs (fsub a b))"
  by (auto simp: price_status_def Let_def split: option.splits)

lemma price_limit_commute: "price_limit x p a b = price_limit x p b a"
  by (simp add: price_limit_def fmax_comm [of "fabs a"] split: option.split)

lemma price_status_commute: "price_status t a b = price_status t b a"
proof -
  have "is_nan (fsub a b) = is_nan (fsub b a)" using fsub_swap [of b a] by (cases "fsub a b") auto
  then show ?thesis
    unfolding price_status_def Let_def price_limit_commute [of _ _ a b] fabs_fsub_swap [of b a] by simp
qed

lemma price_limit_mono: "fle x y \<Longrightarrow> fle (price_limit x p a b) (price_limit y p a b)"
proof (cases p)
  case (Some q)
  assume xy: "fle x y"
  let ?z = "fmul (fmax (fabs a) (fabs b)) q"
  show ?thesis
  proof (cases "is_nan ?z")
    case True
    then have "?z = NaN" by (cases ?z) auto
    with Some xy show ?thesis by (simp add: price_limit_def)
  next
    case False
    with fmax_mono [OF xy, of ?z ?z] Some show ?thesis by (simp add: price_limit_def)
  qed
qed (simp add: price_limit_def)

lemma break_sides:
  assumes "\<And>x. a = Some x \<Longrightarrow> is_finite (bar_close x)" and "\<And>x. b = Some x \<Longrightarrow> is_finite (bar_close x)"
  shows "er_status (compare_bars t (k, a, b)) \<noteq> BREAK \<longleftrightarrow>
    (\<exists>x y. a = Some x \<and> b = Some y \<and>
       \<not> flt (price_limit (tol_close t) (tol_break_pct t) (bar_close x) (bar_close y))
           (fabs (fsub (bar_close x) (bar_close y))))"
  using assms fsub_finite
  by (cases k; cases a; cases b) (auto simp: compare_bars_def side_def price_status_BREAK)

text \<open>The row with the two providers exchanged.\<close>

definition swap_row :: "equity_row \<Rightarrow> equity_row" where
  "swap_row r = r\<lparr>er_close_a := er_close_b r, er_close_b := er_close_a r,
     er_close_difference := fneg (er_close_difference r), er_volume_a := er_volume_b r,
     er_volume_b := er_volume_a r, er_volume_difference := fneg (er_volume_difference r)\<rparr>"

lemma compare_bars_swap: "compare_bars t (k, b, a) = swap_row (compare_bars t (k, a, b))"
  using fsub_swap [of "side bar_close b" "side bar_close a"] fsub_swap [of "side bar_volume b" "side bar_volume a"]
    price_status_commute [of t "side bar_close b" "side bar_close a"]
  by (cases k) (simp add: compare_bars_def swap_row_def)

subsection \<open>Pairs of providers\<close>

lemma pair_reason_BREAK:
  assumes "r = compare_bars t (k, a, b)"
  shows "er_status r = BREAK \<Longrightarrow> \<exists>s. pair_reason p q r = Some s \<and> s \<noteq> []"
    and "pair_reason p q r \<noteq> None \<Longrightarrow> er_status r = BREAK"
proof -
  show "er_status r = BREAK \<Longrightarrow> \<exists>s. pair_reason p q r = Some s \<and> s \<noteq> []"
    by (simp add: pair_reason_def Let_def)
  have "is_nan (er_close_a r) \<or> is_nan (er_close_b r) \<Longrightarrow> er_status r = BREAK"
    unfolding assms by (cases k) (auto simp: compare_bars_def price_status_BREAK is_nan_fsub)
  then show "pair_reason p q r \<noteq> None \<Longrightarrow> er_status r = BREAK"
    by (auto simp: pair_reason_def Let_def split: if_splits)
qed

subsection \<open>Sample data\<close>

definition sample_parsers :: cell_parsers where
  "sample_parsers = \<lparr>pd_date = (\<lambda>v. case v of PDate d \<Rightarrow> Inr (Some d) | PNone \<Rightarrow> Inr None | _ \<Rightarrow> Inl (ValueError ''date'')),
     pd_number = (\<lambda>v. Inr (number_cell v))\<rparr>"

definition sample_bars :: "(string \<times> int \<times> rat) list \<Rightarrow> frame" where
  "sample_bars bs = \<lparr>fr_columns = equity_columns, fr_numeric = numeric_columns,
     fr_rows = map (\<lambda>(s, d, p). [PStr s, PDate d, PFloat (Fin p), PFloat (Fin p), PFloat (Fin p), PFloat (Fin p),
       PFloat (Fin 1000)]) bs\<rparr>"

definition sample_tolerances :: "rat \<Rightarrow> tolerances" where
  "sample_tolerances x = \<lparr>tol_close = Fin x, tol_warn = None, tol_break_pct = None, tol_warn_pct = None\<rparr>"

definition bars_one :: frame where
  "bars_one = sample_bars [('' aapl'', 5, 100), (''MSFT'', 5, 200)]"

definition bars_two :: frame where
  "bars_two = sample_bars [(''AAPL'', 5, 101)]"

lemma sample_valid:
  "validate_equity_bars sample_runtime sample_parsers bars_one = Inr ()"
  "validate_equity_bars sample_runtime sample_parsers bars_two = Inr ()"
  by code_simp+

lemma sample_reconciled:
  assumes "0 \<le> x"
  shows "\<exists>rows. reconcile_equity_bars sample_runtime sample_parsers merge_by_key (sample_tolerances x) bars_one bars_two
    = Inr rows \<and> map row_key rows = [(''AAPL'', 5), (''MSFT'', 5)]"
proof -
  have "check_tolerances (sample_tolerances x) = Inr ()"
    using assms by (simp add: check_tolerances_def sample_tolerances_def negative_option_def)
  moreover have "map fst (merge_by_key (equity_map sample_runtime sample_parsers bars_one)
      (equity_map sample_runtime sample_parsers bars_two)) = [(''AAPL'', 5), (''MSFT'', 5)]" by code_simp
  ultimately show ?thesis using sample_valid by (simp add: reconcile_bars_Inr o_def)
qed

subsection \<open>Properties\<close>

text \<open>C2 (equity_reconciliation_covers): the result of reconciling two providers has exactly one row for
  every symbol and date that either of them has, and a row is not a \<open>BREAK\<close> exactly when both have the
  observation and the closes differ by at most the limit: a one-sided observation never disappears and
  never passes.\<close>

theorem equity_reconciliation_covers:
  assumes "outer_join merge" and "reconcile_equity_bars rt pd merge t f g = Inr rows"
  shows "distinct (map row_key rows) \<and>
    set (map row_key rows) = fst ` set (equity_map rt pd f) \<union> fst ` set (equity_map rt pd g) \<and>
    (\<forall>r\<in>set rows. er_status r \<noteq> BREAK \<longleftrightarrow>
      (\<exists>x y. map_of (equity_map rt pd f) (row_key r) = Some x \<and> map_of (equity_map rt pd g) (row_key r) = Some y \<and>
         \<not> flt (price_limit (tol_close t) (tol_break_pct t) (bar_close x) (bar_close y))
             (fabs (fsub (bar_close x) (bar_close y)))))"
proof -
  let ?f = "equity_map rt pd f" and ?g = "equity_map rt pd g"
  have v: "validate_equity_bars rt pd f = Inr ()" "validate_equity_bars rt pd g = Inr ()"
    and rows: "rows = map (compare_bars t) (merge ?f ?g)"
    using assms(2) by (simp_all add: reconcile_bars_Inr)
  note c = outer_join.compared_rows [OF assms(1) validate_Inr(1) [OF v(1)] validate_Inr(1) [OF v(2)] rows,
      of row_key, OF row_key_compare]
  have "er_status r \<noteq> BREAK \<longleftrightarrow>
      (\<exists>x y. map_of ?f (row_key r) = Some x \<and> map_of ?g (row_key r) = Some y \<and>
         \<not> flt (price_limit (tol_close t) (tol_break_pct t) (bar_close x) (bar_close y))
             (fabs (fsub (bar_close x) (bar_close y))))" if "r \<in> set rows" for r
    using break_sides [of "map_of ?f (row_key r)" "map_of ?g (row_key r)" t "row_key r"]
      equity_map_finite [OF v(1), of "row_key r"] equity_map_finite [OF v(2), of "row_key r"]
    by (simp add: c(3) [OF that, symmetric])
  with c(1,2) show ?thesis by blast
qed

lemma equity_reconciliation_covers_witness:
  "\<exists>rows. reconcile_equity_bars sample_runtime sample_parsers merge_by_key (sample_tolerances 1) bars_one bars_two
     = Inr rows \<and> (\<exists>r\<in>set rows. row_key r = (''MSFT'', 5) \<and> er_status r = BREAK)"
proof -
  obtain rows where r: "reconcile_equity_bars sample_runtime sample_parsers merge_by_key (sample_tolerances 1)
      bars_one bars_two = Inr rows" "map row_key rows = [(''AAPL'', 5), (''MSFT'', 5)]"
    using sample_reconciled [of 1] by auto
  have "(''MSFT'', 5) \<in> set (map row_key rows)" unfolding r(2) by simp
  then obtain x where x: "x \<in> set rows" "row_key x = (''MSFT'', 5)" by auto
  have "map_of (equity_map sample_runtime sample_parsers bars_two) (''MSFT'', 5) = None" by code_simp
  with equity_reconciliation_covers [OF by_key.outer_join_axioms r(1)] x have "er_status x = BREAK" by auto
  with r(1) x show ?thesis by auto
qed

text \<open>C25 (equity_reconciliation_symmetric): the order of the two providers does not matter: exchanging them
  gives the same rows with the sides exchanged and the differences negated, and the same status for
  every symbol and date.\<close>

theorem equity_reconciliation_symmetric:
  assumes "outer_join merge" and "reconcile_equity_bars rt pd merge t f g = Inr rows"
  shows "\<exists>rows'. reconcile_equity_bars rt pd merge t g f = Inr rows' \<and> set rows' = swap_row ` set rows"
proof -
  let ?f = "equity_map rt pd f" and ?g = "equity_map rt pd g"
  have v: "check_tolerances t = Inr ()" "validate_equity_bars rt pd f = Inr ()" "validate_equity_bars rt pd g = Inr ()"
    and rows: "rows = map (compare_bars t) (merge ?f ?g)"
    using assms(2) by (simp_all add: reconcile_bars_Inr)
  note u = validate_Inr(1) [OF v(2)] validate_Inr(1) [OF v(3)]
  have "set (map (compare_bars t) (merge ?g ?f)) = swap_row ` set rows"
    unfolding rows set_map swapped_merge [OF assms(1,1) u] image_image
    by (rule image_cong [OF refl]) (simp only: split_paired_all prod.case, rule compare_bars_swap)
  with v show ?thesis by (simp add: reconcile_bars_Inr)
qed

lemma equity_reconciliation_symmetric_witness:
  "\<exists>rows'. reconcile_equity_bars sample_runtime sample_parsers merge_by_key (sample_tolerances 1) bars_two bars_one
     = Inr rows' \<and> row_key ` set rows' = {(''AAPL'', 5), (''MSFT'', 5)}"
proof -
  obtain rows where r: "reconcile_equity_bars sample_runtime sample_parsers merge_by_key (sample_tolerances 1)
      bars_one bars_two = Inr rows" "map row_key rows = [(''AAPL'', 5), (''MSFT'', 5)]"
    using sample_reconciled [of 1] by auto
  have "row_key (swap_row x) = row_key x" for x by (simp add: row_key_def swap_row_def)
  moreover have "row_key ` set rows = {(''AAPL'', 5), (''MSFT'', 5)}" using arg_cong [OF r(2), of set] by simp
  ultimately show ?thesis
    using equity_reconciliation_symmetric [OF by_key.outer_join_axioms r(1)] by (auto simp: image_image)
qed

text \<open>With a larger closing-price tolerance every \<open>BREAK\<close> was a
  \<open>BREAK\<close> before: no row starts to break.\<close>

theorem wider_tolerance_fewer_breaks:
  assumes "fle (tol_close t) (tol_close t')" and "tol_break_pct t' = tol_break_pct t"
    and "reconcile_equity_bars rt pd merge t f g = Inr rows"
    and "reconcile_equity_bars rt pd merge t' f g = Inr rows'"
  shows "list_all2 (\<lambda>r r'. row_key r = row_key r' \<and> (er_status r' = BREAK \<longrightarrow> er_status r = BREAK)) rows rows'"
proof -
  have "er_status (compare_bars t' j) = BREAK \<Longrightarrow> er_status (compare_bars t j) = BREAK" for j
  proof (cases j)
    case (fields k a b)
    have "fle (price_limit (tol_close t) (tol_break_pct t) x y) (price_limit (tol_close t') (tol_break_pct t') x y)" for x y
      using price_limit_mono [OF assms(1)] by (simp add: assms(2))
    then show "er_status (compare_bars t' j) = BREAK \<Longrightarrow> er_status (compare_bars t j) = BREAK"
      by (cases k) (auto simp: compare_bars_def fields price_status_BREAK intro: fle_flt_trans)
  qed
  with assms(3,4) show ?thesis by (auto simp: reconcile_bars_Inr list_all2_map1 list_all2_map2 list_all2_same)
qed

lemma wider_tolerance_fewer_breaks_witness:
  "\<exists>rows rows'. reconcile_equity_bars sample_runtime sample_parsers merge_by_key (sample_tolerances 0) bars_one bars_two
       = Inr rows \<and> reconcile_equity_bars sample_runtime sample_parsers merge_by_key (sample_tolerances 2) bars_one
       bars_two = Inr rows' \<and> list_all2 (\<lambda>r r'. row_key r = row_key r') rows rows'"
proof -
  obtain rows where r: "reconcile_equity_bars sample_runtime sample_parsers merge_by_key (sample_tolerances 0)
      bars_one bars_two = Inr rows" using sample_reconciled [of 0] by auto
  obtain rows' where r': "reconcile_equity_bars sample_runtime sample_parsers merge_by_key (sample_tolerances 2)
      bars_one bars_two = Inr rows'" using sample_reconciled [of 2] by auto
  have "fle (tol_close (sample_tolerances 0)) (tol_close (sample_tolerances 2))"
    "tol_break_pct (sample_tolerances 2) = tol_break_pct (sample_tolerances 0)" by (simp_all add: sample_tolerances_def)
  from wider_tolerance_fewer_breaks [OF this r r'] r r' show ?thesis by (blast intro: list_all2_mono)
qed

end
