(* ===== verification/Exceptions.thy ===== *)
theory Exceptions
  imports Equities Persistence
begin

section \<open>Exceptions from reconciliation breaks\<close>

text \<open>
  \<open>reconciliation/exceptions.py\<close>, and how the results of \<open>reconcile_equity_sources\<close> pass through it
  and through the row builders of the store.  The clock gives the time of the n-th record.  A
  missing \<open>break_reason\<close> is \<open>pd.NA\<close>, whose truth value raises a \<open>TypeError\<close>.
\<close>

definition exception_columns :: "string list" where
  "exception_columns = [''exception_id'', ''run_id'', ''instrument_type'', ''symbol'', ''trade_date'',
     ''source_a'', ''source_b'', ''source_a_close'', ''source_b_close'', ''close_difference'',
     ''severity'', ''priority'', ''status'', ''owner'', ''reason_code'', ''due_at'', ''resolved_at'',
     ''created_at'']"

definition row_attribute :: "frame \<Rightarrow> pyval list \<Rightarrow> string \<Rightarrow> pyval result" where
  "row_attribute f r c = (if c \<in> set (fr_columns f) then Inr (cell f r c) else Inl (AttributeError c))"

text \<open>\<open>getattr(row, "break_reason", None) or "PRICE_DIFFERENCE"\<close>\<close>

definition exception_reason :: "frame \<Rightarrow> pyval list \<Rightarrow> pyval result" where
  "exception_reason f r =
     (if ''break_reason'' \<notin> set (fr_columns f) then Inr (PStr ''PRICE_DIFFERENCE'')
      else case cell f r ''break_reason'' of
        PNone \<Rightarrow> Inl (TypeError ''boolean value of NA is ambiguous'')
      | PStr [] \<Rightarrow> Inr (PStr ''PRICE_DIFFERENCE'')
      | v \<Rightarrow> Inr v)"

definition exception_identity :: "runtime \<Rightarrow> string \<Rightarrow> pyval \<Rightarrow> pyval \<Rightarrow> pyval \<Rightarrow> pyval \<Rightarrow> string" where
  "exception_identity rt run_id symb day a b =
     join_with ''|'' [run_id, ''EQUITY'', py_str rt symb, py_str rt day, py_str rt a, py_str rt b]"

definition exception_record :: "runtime \<Rightarrow> string \<Rightarrow> frame \<Rightarrow> int \<Rightarrow> pyval list \<Rightarrow> pyval list result" where
  "exception_record rt run_id f now r =
     (let pairwise = ''source_a'' \<in> set (fr_columns f) in
      bind_res (if pairwise then row_attribute f r ''source_a'' else Inr (PStr ''YAHOO'')) (\<lambda>a.
      bind_res (if pairwise then row_attribute f r ''source_b'' else Inr (PStr ''ALPACA'')) (\<lambda>b.
      bind_res (row_attribute f r (if pairwise then ''source_a_close'' else ''yahoo_close'')) (\<lambda>ca.
      bind_res (row_attribute f r (if pairwise then ''source_b_close'' else ''alpaca_close'')) (\<lambda>cb.
      bind_res (exception_reason f r) (\<lambda>reason.
      bind_res (row_attribute f r ''symbol'') (\<lambda>symb.
      bind_res (row_attribute f r ''trade_date'') (\<lambda>day.
      bind_res (row_attribute f r ''close_difference'') (\<lambda>diff.
      Inr [PStr (uuid5 rt (exception_identity rt run_id symb day a b)), PStr run_id, PStr ''EQUITY'', symb, day,
           a, b, ca, cb, diff, PStr ''BREAK'', PStr ''HIGH'', PStr ''OPEN'', PStr ''UNASSIGNED'', reason,
           PStr (isoformat rt (now + 24 * 3600 * 1000000)), PNone, PStr (isoformat rt now)])))))))))"

definition break_rows :: "frame \<Rightarrow> pyval list list" where
  "break_rows f = filter (\<lambda>r. cell f r ''status'' = PStr ''BREAK'') (fr_rows f)"

definition create_equity_exceptions :: "runtime \<Rightarrow> (nat \<Rightarrow> int) \<Rightarrow> frame \<Rightarrow> string \<Rightarrow> frame result" where
  "create_equity_exceptions rt nows f run_id =
     (if ''status'' \<notin> set (fr_columns f) then Inl (KeyError ''status'')
      else if break_rows f = [] then Inr \<lparr>fr_columns = exception_columns, fr_numeric = [], fr_rows = []\<rparr>
      else bind_res (map_res (\<lambda>(i, r). exception_record rt run_id f (nows i) r)
                      (zip [0 ..< length (break_rows f)] (break_rows f))) (\<lambda>records.
        Inr \<lparr>fr_columns = exception_columns,
             fr_numeric = [''source_a_close'', ''source_b_close'', ''close_difference''], fr_rows = records\<rparr>))"

subsection \<open>The frame of all pairs\<close>

lemma pairwise_frame_simps [simp]:
  "fr_columns (pairwise_frame ps) = pairwise_columns" "fr_rows (pairwise_frame ps) = map pair_cells ps"
  by (simp_all add: pairwise_frame_def table_frame_def)

lemma pair_cell [simp]:
  "cell (pairwise_frame ps) (pair_cells p) ''symbol'' = PStr (er_symbol (pr_row p))"
  "cell (pairwise_frame ps) (pair_cells p) ''trade_date'' = PDate (er_date (pr_row p))"
  "cell (pairwise_frame ps) (pair_cells p) ''source_a'' = PStr (pr_source_a p)"
  "cell (pairwise_frame ps) (pair_cells p) ''source_b'' = PStr (pr_source_b p)"
  "cell (pairwise_frame ps) (pair_cells p) ''source_a_close'' = PFloat (er_close_a (pr_row p))"
  "cell (pairwise_frame ps) (pair_cells p) ''source_b_close'' = PFloat (er_close_b (pr_row p))"
  "cell (pairwise_frame ps) (pair_cells p) ''close_difference'' = PFloat (er_close_difference (pr_row p))"
  "cell (pairwise_frame ps) (pair_cells p) ''status'' = PStr (verdict_name (er_status (pr_row p)))"
  "cell (pairwise_frame ps) (pair_cells p) ''break_reason'' = (case pr_reason p of None \<Rightarrow> PNone | Some s \<Rightarrow> PStr s)"
  by (simp_all add: cell_def pairwise_columns_def pair_cells_def Let_def dict_get_def)

lemma pairwise_has [simp]:
  "''symbol'' \<in> set pairwise_columns" "''trade_date'' \<in> set pairwise_columns" "''source_a'' \<in> set pairwise_columns"
  "''source_b'' \<in> set pairwise_columns" "''source_a_close'' \<in> set pairwise_columns"
  "''source_b_close'' \<in> set pairwise_columns" "''close_difference'' \<in> set pairwise_columns"
  "''source_a_volume'' \<in> set pairwise_columns" "''source_b_volume'' \<in> set pairwise_columns"
  "''volume_difference'' \<in> set pairwise_columns" "''status'' \<in> set pairwise_columns"
  "''break_reason'' \<in> set pairwise_columns"
  by (simp_all add: pairwise_columns_def)

lemma verdict_name_BREAK [simp]: "verdict_name v = ''BREAK'' \<longleftrightarrow> v = BREAK"
  by (cases v) simp_all

definition pair_break :: "pair_row \<Rightarrow> bool" where
  "pair_break p \<longleftrightarrow> er_status (pr_row p) = BREAK"

lemma break_rows_pairwise: "break_rows (pairwise_frame ps) = map pair_cells (filter pair_break ps)"
  by (induction ps) (auto simp: break_rows_def pair_break_def filter_map o_def)

definition reasoned :: "pair_row \<Rightarrow> bool" where
  "reasoned p \<longleftrightarrow> (pair_break p \<longrightarrow> (\<exists>s. pr_reason p = Some s \<and> s \<noteq> []))"

definition pair_exception :: "runtime \<Rightarrow> string \<Rightarrow> int \<Rightarrow> pair_row \<Rightarrow> pyval list" where
  "pair_exception rt run_id now p = (let r = pr_row p in
     [PStr (uuid5 rt (exception_identity rt run_id (PStr (er_symbol r)) (PDate (er_date r)) (PStr (pr_source_a p))
        (PStr (pr_source_b p)))), PStr run_id, PStr ''EQUITY'', PStr (er_symbol r), PDate (er_date r),
      PStr (pr_source_a p), PStr (pr_source_b p), PFloat (er_close_a r), PFloat (er_close_b r),
      PFloat (er_close_difference r), PStr ''BREAK'', PStr ''HIGH'', PStr ''OPEN'', PStr ''UNASSIGNED'',
      PStr (the (pr_reason p)), PStr (isoformat rt (now + 24 * 3600 * 1000000)), PNone, PStr (isoformat rt now)])"

lemma exception_record_pair:
  assumes "reasoned p" and "pair_break p"
  shows "exception_record rt run_id (pairwise_frame ps) now (pair_cells p) = Inr (pair_exception rt run_id now p)"
proof -
  obtain c s where "pr_reason p = Some (c # s)" using assms by (auto simp: reasoned_def neq_Nil_conv)
  then show ?thesis
    by (simp add: exception_record_def exception_reason_def row_attribute_def pair_exception_def Let_def)
qed

lemma create_exceptions_pairs:
  assumes "\<forall>p\<in>set ps. reasoned p"
  shows "\<exists>e. create_equity_exceptions rt nows (pairwise_frame ps) run_id = Inr e \<and>
    fr_rows e = map (\<lambda>(i, p). pair_exception rt run_id (nows i) p)
      (zip [0 ..< length (filter pair_break ps)] (filter pair_break ps))"
proof -
  let ?bs = "filter pair_break ps"
  have "map_res (\<lambda>(i, r). exception_record rt run_id (pairwise_frame ps) (nows i) r) (zip ns (map pair_cells bs))
      = Inr (map (\<lambda>(i, p). pair_exception rt run_id (nows i) p) (zip ns bs))"
    if "set bs \<subseteq> set ?bs" for ns bs
    using that
  proof (induction bs arbitrary: ns)
    case (Cons b bs)
    with assms exception_record_pair show ?case by (cases ns) auto
  qed simp
  then show ?thesis
    by (cases "?bs = []") (simp_all add: create_equity_exceptions_def break_rows_pairwise)
qed

lemma status_column:
  "column (pairwise_frame ps) ''status'' = map (\<lambda>p. PStr (verdict_name (er_status (pr_row p)))) ps"
  by (simp add: column_def)

lemma count_breaks: "count_status (pairwise_frame ps) ''BREAK'' = int (length (filter pair_break ps))"
  by (simp add: count_status_def status_column filter_map o_def pair_break_def [abs_def])

text \<open>Every pair of a reconciliation comes from \<open>compare_bars\<close>, so a break has its reason.\<close>

lemma reconciled_pairs:
  assumes "reconcile_equity_sources rt pd merge t providers = Inr ps" and "p \<in> set ps"
  obtains a b j where "pr_row p = compare_bars t j" and "pr_source_a p = py_upper a" and "pr_source_b p = py_upper b"
    and "pr_reason p = pair_reason a b (pr_row p)"
proof -
  from assms(1) obtain rss where m: "map_res (\<lambda>((a, fa), (b, fb)).
      bind_res (reconcile_equity_bars rt pd merge t fa fb) (\<lambda>rows. Inr (pair_rows a b rows)))
      (pairs_of providers) = Inr rss" and ps: "ps = concat rss"
    by (auto simp: reconcile_equity_sources_def res_simps split: if_splits)
  from assms(2) ps obtain rs where "rs \<in> set rss" and p: "p \<in> set rs" by auto
  from map_res_set [OF m this(1)] obtain a fa b fb rows
    where "reconcile_equity_bars rt pd merge t fa fb = Inr rows" and "rs = pair_rows a b rows"
    by (auto simp: res_simps)
  with p that show thesis by (auto simp: pair_rows_def reconcile_bars_Inr)
qed

lemma reconciled_reasoned:
  assumes "reconcile_equity_sources rt pd merge t providers = Inr ps" and "p \<in> set ps"
  shows "reasoned p"
proof -
  from assms obtain a b j where "pr_row p = compare_bars t j" "pr_reason p = pair_reason a b (pr_row p)"
    by (rule reconciled_pairs)
  with pair_reason_BREAK(1) [of "pr_row p" t "fst j" "fst (snd j)" "snd (snd j)"] show ?thesis
    by (simp add: reasoned_def pair_break_def)
qed

lemma reconciliation_row_pair:
  "\<exists>rs. reconciliation_row (pairwise_frame ps) run_id (pair_cells p) = Inr rs"
  by (simp add: reconciliation_row_def cell_at_def Let_def)

lemma reconciliation_rows_pairs:
  "\<exists>rows. reconciliation_rows (pairwise_frame ps) run_id = Inr rows \<and> length rows = 2 * length ps"
proof -
  have "\<exists>rss. map_res (reconciliation_row (pairwise_frame ps) run_id) (map pair_cells qs) = Inr rss" for qs
    using reconciliation_row_pair by (induction qs) (auto simp: res_simps)
  then obtain rss where "map_res (reconciliation_row (pairwise_frame ps) run_id) (map pair_cells ps) = Inr rss" by blast
  then have "reconciliation_rows (pairwise_frame ps) run_id = Inr (concat rss)" by (simp add: reconciliation_rows_def)
  with reconciliation_rows_length [OF this] show ?thesis by simp
qed

text \<open>C5 (every_break_has_exception): the rows of \<open>reconcile_equity_sources\<close> go through the later stages
  without an error: one exception is created for every \<open>BREAK\<close> and for nothing else, as many as the
  stored run will count, each named after its own symbol, date and providers and with a reason; and the
  store gets two result rows, price and volume, for every reconciled row.\<close>

theorem every_break_has_exception:
  assumes "reconcile_equity_sources rt pd merge t providers = Inr ps"
  shows "\<exists>e results. create_equity_exceptions rt nows (pairwise_frame ps) run_id = Inr e \<and>
    int (length (fr_rows e)) = count_status (pairwise_frame ps) ''BREAK'' \<and>
    map (\<lambda>r. cell e r ''exception_id'') (fr_rows e) =
      map (\<lambda>p. PStr (uuid5 rt (exception_identity rt run_id (PStr (er_symbol (pr_row p))) (PDate (er_date (pr_row p)))
        (PStr (pr_source_a p)) (PStr (pr_source_b p))))) (filter (\<lambda>p. er_status (pr_row p) = BREAK) ps) \<and>
    (\<forall>r\<in>set (fr_rows e). \<exists>s. s \<noteq> [] \<and> cell e r ''reason_code'' = PStr s) \<and>
    reconciliation_rows (pairwise_frame ps) run_id = Inr results \<and> length results = 2 * length ps"
proof -
  let ?bs = "filter pair_break ps"
  have ok: "\<forall>p\<in>set ps. reasoned p" using reconciled_reasoned [OF assms] by blast
  from create_exceptions_pairs [OF this, of rt nows run_id] obtain e
    where e: "create_equity_exceptions rt nows (pairwise_frame ps) run_id = Inr e"
      and rows: "fr_rows e = map (\<lambda>(i, p). pair_exception rt run_id (nows i) p) (zip [0 ..< length ?bs] ?bs)" by blast
  have cols: "fr_columns e = exception_columns"
    using e by (auto simp: create_equity_exceptions_def res_simps split: if_splits)
  have id: "cell e (pair_exception rt run_id n p) ''exception_id'' = PStr (uuid5 rt (exception_identity rt run_id
      (PStr (er_symbol (pr_row p))) (PDate (er_date (pr_row p))) (PStr (pr_source_a p)) (PStr (pr_source_b p))))" for n p
    by (simp add: cell_def cols exception_columns_def pair_exception_def Let_def dict_get_def)
  have reason: "cell e (pair_exception rt run_id n p) ''reason_code'' = PStr (the (pr_reason p))" for n p
    by (simp add: cell_def cols exception_columns_def pair_exception_def Let_def dict_get_def)
  have "\<exists>s. s \<noteq> [] \<and> cell e r ''reason_code'' = PStr s" if "r \<in> set (fr_rows e)" for r
  proof -
    from that rows obtain n p where "r = pair_exception rt run_id n p" "p \<in> set ?bs" by (auto dest: set_zip_rightD)
    with ok reason show ?thesis by (auto simp: reasoned_def)
  qed
  moreover have "map (\<lambda>r. cell e r ''exception_id'') (fr_rows e) = map (\<lambda>p. PStr (uuid5 rt (exception_identity rt run_id
      (PStr (er_symbol (pr_row p))) (PDate (er_date (pr_row p))) (PStr (pr_source_a p)) (PStr (pr_source_b p))))) ?bs"
    by (rule nth_equalityI) (simp_all add: rows id)
  moreover have "(\<lambda>p. er_status (pr_row p) = BREAK) = pair_break" by (simp add: pair_break_def fun_eq_iff)
  ultimately show ?thesis using e reconciliation_rows_pairs [of ps run_id]
    by (simp add: rows count_breaks)
qed

lemma sample_pairs:
  "\<exists>ps. reconcile_equity_sources sample_runtime sample_parsers merge_by_key (sample_tolerances 1)
     [(''yahoo'', bars_one), (''alpaca'', bars_two)] = Inr ps \<and> length ps = 2"
proof -
  obtain rows where "reconcile_equity_bars sample_runtime sample_parsers merge_by_key (sample_tolerances 1)
      bars_one bars_two = Inr rows" "length (map row_key rows) = 2"
    using sample_reconciled [of 1] by auto
  then show ?thesis by (simp add: reconcile_equity_sources_def pair_rows_def)
qed

lemma every_break_has_exception_witness:
  "\<exists>ps e. reconcile_equity_sources sample_runtime sample_parsers merge_by_key (sample_tolerances 1)
     [(''yahoo'', bars_one), (''alpaca'', bars_two)] = Inr ps \<and>
   create_equity_exceptions sample_runtime (\<lambda>n. 7) (pairwise_frame ps) ''r1'' = Inr e"
proof -
  obtain ps where ps: "reconcile_equity_sources sample_runtime sample_parsers merge_by_key (sample_tolerances 1)
     [(''yahoo'', bars_one), (''alpaca'', bars_two)] = Inr ps" using sample_pairs by blast
  with every_break_has_exception [OF ps, of "\<lambda>n. 7" "''r1''"] show ?thesis by blast
qed

text \<open>No two rows of the result share the symbol, the date and the pair of providers.\<close>

definition pair_key :: "pair_row \<Rightarrow> (string \<times> string) \<times> equity_key" where
  "pair_key p = ((pr_source_a p, pr_source_b p), row_key (pr_row p))"

lemma reconcile_bars_distinct:
  assumes "outer_join merge" and "reconcile_equity_bars rt pd merge t f g = Inr rows"
  shows "distinct (map row_key rows)"
  using assms outer_join.merge_keys [OF assms(1)] validate_Inr(1)
  by (auto simp: reconcile_bars_Inr o_def)

lemma reconciled_distinct:
  assumes "outer_join merge" and "distinct (map (\<lambda>p. py_upper (fst p)) providers)"
    and "reconcile_equity_sources rt pd merge t providers = Inr ps"
  shows "distinct (map pair_key ps)"
proof -
  let ?g = "map_prod (\<lambda>p. py_upper (fst p)) (\<lambda>p. py_upper (fst p)) :: (string \<times> frame) \<times> (string \<times> frame) \<Rightarrow> _"
  let ?run = "\<lambda>((a, fa), (b, fb)). bind_res (reconcile_equity_bars rt pd merge t fa fb) (\<lambda>rows. Inr (pair_rows a b rows))"
  from assms(3) obtain rss where m: "map_res ?run (pairs_of providers) = Inr rss" and ps: "ps = concat rss"
    by (auto simp: reconcile_equity_sources_def res_simps split: if_splits)
  have block: "(\<forall>y\<in>set rs. (pr_source_a y, pr_source_b y) = ?g x) \<and> distinct (map (\<lambda>p. row_key (pr_row p)) rs)"
    if "?run x = Inr rs" for x rs
    using that reconcile_bars_distinct [OF assms(1)] by (cases x) (auto simp: res_simps pair_rows_def o_def)
  have "list_all2 (\<lambda>x rs. (\<forall>y\<in>set rs. (pr_source_a y, pr_source_b y) = ?g x) \<and>
      distinct (map (\<lambda>p. row_key (pr_row p)) rs)) (pairs_of providers) rss"
    by (rule list_all2_all_nthI, simp add: map_res_length [OF m], rule block [OF map_res_nth [OF m]])
  from distinct_blocks [OF this distinct_pairs_of [OF assms(2)]] show ?thesis by (simp add: ps pair_key_def [abs_def])
qed

definition result_key_of :: "pyval list \<Rightarrow> pyval list" where
  "result_key_of r = map (dict_get PNone (zip result_insert r)) result_key"

lemma result_key_rows:
  "\<exists>rs. reconciliation_row (pairwise_frame ps) run_id (pair_cells p) = Inr rs \<and> map result_key_of rs =
     map (\<lambda>m. [PStr run_id, PStr (er_symbol (pr_row p)), PDate (er_date (pr_row p)), PStr m, PStr (pr_source_a p),
       PStr (pr_source_b p)]) [''close'', ''volume'']"
  by (simp add: reconciliation_row_def cell_at_def Let_def result_key_of_def result_insert_def result_key_def
    dict_get_def)

lemma result_keys:
  assumes "reconciliation_rows (pairwise_frame ps) run_id = Inr rows"
  shows "map result_key_of rows = concat (map (\<lambda>p. map (\<lambda>m. [PStr run_id, PStr (er_symbol (pr_row p)),
    PDate (er_date (pr_row p)), PStr m, PStr (pr_source_a p), PStr (pr_source_b p)]) [''close'', ''volume'']) ps)"
proof -
  have "map_res (reconciliation_row (pairwise_frame ps) run_id) (map pair_cells qs) = Inr rss \<Longrightarrow>
    map result_key_of (concat rss) = concat (map (\<lambda>p. map (\<lambda>m. [PStr run_id, PStr (er_symbol (pr_row p)),
      PDate (er_date (pr_row p)), PStr m, PStr (pr_source_a p), PStr (pr_source_b p)]) [''close'', ''volume'']) qs)"
    for qs rss
  proof (induction qs arbitrary: rss)
    case (Cons q qs)
    from result_key_rows [of ps run_id q] Cons show ?case by (auto simp: res_simps)
  qed simp
  with assms show ?thesis by (auto simp: reconciliation_rows_def res_simps)
qed

text \<open>Reconciling providers whose names differ, upper-cased, never produces two
  result rows with the same primary key of \<open>equity_reconciliation_results\<close>, so the insert of a run
  cannot fail on its own rows.\<close>

theorem results_respect_key:
  assumes "outer_join merge" and "distinct (map (\<lambda>p. py_upper (fst p)) providers)"
    and "reconcile_equity_sources rt pd merge t providers = Inr ps"
  shows "\<exists>rows. reconciliation_rows (pairwise_frame ps) run_id = Inr rows \<and>
    distinct (map (\<lambda>r. map (dict_get PNone (zip result_insert r)) result_key) rows)"
proof -
  obtain rows where rows: "reconciliation_rows (pairwise_frame ps) run_id = Inr rows"
    using reconciliation_rows_pairs by blast
  have "distinct (map pair_key ps)" by (rule reconciled_distinct [OF assms])
  then have "distinct (concat (map (\<lambda>p. map (\<lambda>m. [PStr run_id, PStr (er_symbol (pr_row p)), PDate (er_date (pr_row p)),
      PStr m, PStr (pr_source_a p), PStr (pr_source_b p)]) [''close'', ''volume'']) ps))"
    by (induction ps) (auto simp: pair_key_def row_key_def)
  then have "distinct (map result_key_of rows)" by (simp only: result_keys [OF rows])
  with rows show ?thesis by (auto simp: result_key_of_def [abs_def])
qed

lemma results_respect_key_witness:
  "\<exists>ps rows. reconcile_equity_sources sample_runtime sample_parsers merge_by_key (sample_tolerances 1)
     [(''yahoo'', bars_one), (''alpaca'', bars_two)] = Inr ps \<and>
   reconciliation_rows (pairwise_frame ps) ''r1'' = Inr rows \<and> distinct (map result_key_of rows)"
proof -
  obtain ps where ps: "reconcile_equity_sources sample_runtime sample_parsers merge_by_key (sample_tolerances 1)
     [(''yahoo'', bars_one), (''alpaca'', bars_two)] = Inr ps" using sample_pairs by blast
  have "py_upper ''yahoo'' \<noteq> py_upper ''alpaca''" by code_simp
  then have "distinct (map (\<lambda>p. py_upper (fst p)) [(''yahoo'', bars_one), (''alpaca'', bars_two)])" by simp
  from results_respect_key [OF by_key.outer_join_axioms this ps, of "''r1''"] ps show ?thesis
    by (auto simp: result_key_of_def [abs_def])
qed

end
