(* ===== verification/Options.thy ===== *)
theory Options
  imports Equities
begin

section \<open>Reconciling option chains\<close>

text \<open>
  \<open>reconciliation/options.py\<close>: the preparation of a chain, the outer join of two providers on the
  five parts of a contract's identity, the statuses and reasons, and every pair of providers.  Close
  prices are 64-bit floats; bids, asks and contract symbols are carried along as they are.  A cell
  parser answers one cell at a time.
\<close>

definition match_columns :: "string list" where
  "match_columns = [''underlying'', ''expiry'', ''strike'', ''option_type'', ''trade_date'']"

definition chain_columns :: "string list" where
  "chain_columns = match_columns @ [''contract_symbol'', ''close'', ''bid'', ''ask'']"

record option_key =
  ok_underlying :: string
  ok_expiry :: int
  ok_strike :: pyfloat
  ok_type :: string
  ok_trade_date :: int

record quote =
  q_contract :: pyval
  q_close :: pyfloat
  q_bid :: pyval
  q_ask :: pyval

definition upper_cell :: "runtime \<Rightarrow> pyval \<Rightarrow> string option" where
  "upper_cell rt v = map_option py_upper (text_cell rt v)"

text \<open>A key is missing when any of its parts is.\<close>

definition option_key_of :: "string option \<Rightarrow> int option \<Rightarrow> int option \<Rightarrow> pyfloat \<Rightarrow> string option \<Rightarrow>
    option_key option" where
  "option_key_of underlying expiry day strike kind =
     (case (underlying, expiry, day, kind) of
        (Some u, Some e, Some d, Some k) \<Rightarrow>
          if is_nan strike then None
          else Some \<lparr>ok_underlying = u, ok_expiry = e, ok_strike = strike, ok_type = k, ok_trade_date = d\<rparr>
      | _ \<Rightarrow> None)"

definition quote_of :: "frame \<Rightarrow> pyval list \<Rightarrow> quote" where
  "quote_of f r = \<lparr>q_contract = cell f r ''contract_symbol'', q_close = num f r ''close'',
     q_bid = cell f r ''bid'', q_ask = cell f r ''ask''\<rparr>"

definition chain_keys :: "runtime \<Rightarrow> frame \<Rightarrow> int option list \<Rightarrow> int option list \<Rightarrow> pyfloat list \<Rightarrow>
    option_key option list" where
  "chain_keys rt f expiries days strikes =
     map (\<lambda>(r, e, d, s). option_key_of (upper_cell rt (cell f r ''underlying'')) e d s
            (upper_cell rt (cell f r ''option_type'')))
       (zip (fr_rows f) (zip expiries (zip days strikes)))"

definition prepare_options :: "runtime \<Rightarrow> cell_parsers \<Rightarrow> frame \<Rightarrow> string \<Rightarrow> (option_key \<times> quote) list result" where
  "prepare_options rt pd f provider =
     (if absent_columns f chain_columns \<noteq> []
      then Inl (ValueError (provider @ '' option data is missing columns''))
      else bind_res (map_res (pd_date pd) (column f ''expiry'')) (\<lambda>expiries.
           bind_res (map_res (pd_date pd) (column f ''trade_date'')) (\<lambda>days.
           bind_res (map_res (pd_number pd) (column f ''strike'')) (\<lambda>strikes.
           let keys = chain_keys rt f expiries days strikes in
           if None \<in> set keys
           then Inl (ValueError (provider @ '' option data contains a null contract key''))
           else if \<not> distinct keys
           then Inl (ValueError (provider @ '' option data contains duplicate contract keys''))
           else Inr (zip (map the keys) (map (quote_of f) (fr_rows f)))))))"

subsection \<open>Two providers\<close>

record option_row =
  or_key :: option_key
  or_contract :: pyval
  or_close_a :: pyfloat
  or_close_b :: pyfloat
  or_difference :: pyfloat
  or_bid_a :: pyval
  or_ask_a :: pyval
  or_bid_b :: pyval
  or_ask_b :: pyval
  or_status :: verdict
  or_reason :: "string option"

definition quote_close :: "quote option \<Rightarrow> pyfloat" where
  "quote_close q = (case q of None \<Rightarrow> NaN | Some x \<Rightarrow> q_close x)"

definition quote_cell :: "(quote \<Rightarrow> pyval) \<Rightarrow> quote option \<Rightarrow> pyval" where
  "quote_cell get q = (case q of None \<Rightarrow> PNone | Some x \<Rightarrow> get x)"

definition combine_first :: "pyval \<Rightarrow> pyval \<Rightarrow> pyval" where
  "combine_first a b = (if isna a then b else a)"

definition option_judgement :: "pyfloat \<Rightarrow> quote option \<Rightarrow> quote option \<Rightarrow> verdict \<times> string option" where
  "option_judgement tol a b =
     (case (a, b) of
        (Some _, None) \<Rightarrow> (BREAK, Some ''MISSING_ALPACA_CONTRACT'')
      | (None, Some _) \<Rightarrow> (BREAK, Some ''MISSING_YAHOO_CONTRACT'')
      | (Some x, Some y) \<Rightarrow>
          if is_nan (q_close x) \<or> is_nan (q_close y) then (BREAK, Some ''MISSING_COMPARISON_PRICE'')
          else if flt tol (fabs (fsub (q_close x) (q_close y))) then (BREAK, Some ''PRICE_DIFFERENCE'')
          else (MATCH, None)
      | (None, None) \<Rightarrow> (MATCH, None))"

definition compare_quotes :: "pyfloat \<Rightarrow> option_key \<times> quote option \<times> quote option \<Rightarrow> option_row" where
  "compare_quotes tol j = (case j of (k, a, b) \<Rightarrow>
     \<lparr>or_key = k, or_contract = combine_first (quote_cell q_contract a) (quote_cell q_contract b),
      or_close_a = quote_close a, or_close_b = quote_close b, or_difference = fsub (quote_close a) (quote_close b),
      or_bid_a = quote_cell q_bid a, or_ask_a = quote_cell q_ask a,
      or_bid_b = quote_cell q_bid b, or_ask_b = quote_cell q_ask b,
      or_status = fst (option_judgement tol a b), or_reason = snd (option_judgement tol a b)\<rparr>)"

definition frame_empty :: "frame \<Rightarrow> bool" where
  "frame_empty f \<longleftrightarrow> fr_rows f = [] \<or> fr_columns f = []"

definition reconcile_option_chain :: "runtime \<Rightarrow> cell_parsers \<Rightarrow> (option_key, quote, quote) merge \<Rightarrow> pyfloat \<Rightarrow>
    frame \<Rightarrow> frame \<Rightarrow> option_row list result" where
  "reconcile_option_chain rt pd merge tol yahoo alpaca =
     (if flt tol (Fin 0) then Inl (ValueError ''close_tolerance must be non-negative'')
      else if frame_empty yahoo \<and> frame_empty alpaca then Inr []
      else bind_res (prepare_options rt pd yahoo ''yahoo'') (\<lambda>ya.
           bind_res (prepare_options rt pd alpaca ''alpaca'') (\<lambda>al.
           Inr (map (compare_quotes tol) (merge ya al)))))"

subsection \<open>Every pair of providers\<close>

text \<open>The two replacements of the reason run one after the other over the whole column.\<close>

definition missing_contract :: "string \<Rightarrow> string" where
  "missing_contract provider = ''MISSING_'' @ py_upper provider @ ''_CONTRACT''"

definition replace_reason :: "string \<Rightarrow> string \<Rightarrow> string option \<Rightarrow> string option" where
  "replace_reason old new reason = (if reason = Some old then Some new else reason)"

definition option_pair_reason :: "string \<Rightarrow> string \<Rightarrow> string option \<Rightarrow> string option" where
  "option_pair_reason a b reason =
     replace_reason ''MISSING_YAHOO_CONTRACT'' (missing_contract a)
       (replace_reason ''MISSING_ALPACA_CONTRACT'' (missing_contract b) reason)"

record option_pair =
  op_row :: option_row
  op_source_a :: string
  op_source_b :: string

definition option_pair_rows :: "string \<Rightarrow> string \<Rightarrow> option_row list \<Rightarrow> option_pair list" where
  "option_pair_rows a b rows = map (\<lambda>r. \<lparr>op_row = r\<lparr>or_reason := option_pair_reason a b (or_reason r)\<rparr>,
     op_source_a = py_upper a, op_source_b = py_upper b\<rparr>) rows"

definition reconcile_option_sources :: "runtime \<Rightarrow> cell_parsers \<Rightarrow> (option_key, quote, quote) merge \<Rightarrow>
    pyfloat \<Rightarrow> (string \<times> frame) list \<Rightarrow> option_pair list result" where
  "reconcile_option_sources rt pd merge tol providers =
     (if length providers < 2 then Inl (ValueError ''At least two option providers are required'')
      else bind_res (map_res (\<lambda>((a, fa), (b, fb)).
             bind_res (reconcile_option_chain rt pd merge tol fa fb) (\<lambda>rows. Inr (option_pair_rows a b rows)))
           (pairs_of providers)) (\<lambda>rss. Inr (concat rss)))"

definition option_pair_columns :: "string list" where
  "option_pair_columns = [''underlying'', ''expiry'', ''strike'', ''option_type'', ''contract_symbol'',
     ''trade_date'', ''source_a'', ''source_b'', ''source_a_close'', ''source_b_close'', ''close_difference'',
     ''source_a_bid'', ''source_a_ask'', ''source_b_bid'', ''source_b_ask'', ''status'', ''break_reason'']"

definition option_pair_cells :: "option_pair \<Rightarrow> pyval list" where
  "option_pair_cells p = (let r = op_row p; k = or_key r in
     [PStr (ok_underlying k), PDate (ok_expiry k), PFloat (ok_strike k), PStr (ok_type k), or_contract r,
      PDate (ok_trade_date k), PStr (op_source_a p), PStr (op_source_b p), PFloat (or_close_a r),
      PFloat (or_close_b r), PFloat (or_difference r), or_bid_a r, or_ask_a r, or_bid_b r, or_ask_b r,
      PStr (verdict_name (or_status r)), (case or_reason r of None \<Rightarrow> PNone | Some s \<Rightarrow> PStr s)])"

definition option_pair_frame :: "option_pair list \<Rightarrow> frame" where
  "option_pair_frame = table_frame option_pair_columns
     [''strike'', ''source_a_close'', ''source_b_close'', ''close_difference''] option_pair_cells"

subsection \<open>Prepared chains\<close>

lemma prepare_unique:
  assumes "prepare_options rt pd f p = Inr xs"
  shows "unique_keys xs" and "length xs = length (fr_rows f)" and "map snd xs = map (quote_of f) (fr_rows f)"
proof -
  from assms obtain es ds ss where m: "map_res (pd_date pd) (column f ''expiry'') = Inr es"
      "map_res (pd_date pd) (column f ''trade_date'') = Inr ds" "map_res (pd_number pd) (column f ''strike'') = Inr ss"
    and ok: "None \<notin> set (chain_keys rt f es ds ss)" "distinct (chain_keys rt f es ds ss)"
    and xs: "xs = zip (map the (chain_keys rt f es ds ss)) (map (quote_of f) (fr_rows f))"
    by (auto simp: prepare_options_def res_simps Let_def split: if_splits)
  have l: "length (chain_keys rt f es ds ss) = length (fr_rows f)"
    using map_res_length [OF m(1)] map_res_length [OF m(2)] map_res_length [OF m(3)]
    by (simp add: chain_keys_def column_def)
  have "inj_on the (set (chain_keys rt f es ds ss))" using ok(1) by (intro inj_onI) (metis option.expand)
  with ok(2) l show "unique_keys xs" by (simp add: unique_keys_def xs distinct_map)
  from l show "length xs = length (fr_rows f)" "map snd xs = map (quote_of f) (fr_rows f)" by (simp_all add: xs)
qed

lemma reconcile_chain_Inr:
  assumes "reconcile_option_chain rt pd merge tol f g = Inr rows" and "\<not> (frame_empty f \<and> frame_empty g)"
  obtains xs ys where "prepare_options rt pd f ''yahoo'' = Inr xs" and "prepare_options rt pd g ''alpaca'' = Inr ys"
    and "rows = map (compare_quotes tol) (merge xs ys)"
  using assms by (auto simp: reconcile_option_chain_def res_simps split: if_splits)

lemma compare_quotes_simps [simp]:
  "or_key (compare_quotes tol j) = fst j"
  "or_status (compare_quotes tol (k, a, b)) = fst (option_judgement tol a b)"
  "or_reason (compare_quotes tol (k, a, b)) = snd (option_judgement tol a b)"
  by (auto simp: compare_quotes_def split: prod.splits)

lemma judgement_MATCH:
  "a \<noteq> None \<or> b \<noteq> None \<Longrightarrow> fst (option_judgement tol a b) \<noteq> BREAK \<longleftrightarrow>
   (\<exists>x y. a = Some x \<and> b = Some y \<and> \<not> is_nan (q_close x) \<and> \<not> is_nan (q_close y) \<and>
      \<not> flt tol (fabs (fsub (q_close x) (q_close y))))"
  by (cases a; cases b) (auto simp: option_judgement_def)

lemma judgement_reason: "fst (option_judgement tol a b) = BREAK \<longleftrightarrow> snd (option_judgement tol a b) \<noteq> None"
  by (cases a; cases b) (auto simp: option_judgement_def)

lemma option_pair_row:
  assumes "outer_join merge" and "reconcile_option_sources rt pd merge tol [(a, f), (b, g)] = Inr ps"
    and "\<not> (frame_empty f \<and> frame_empty g)"
  obtains xs ys where "prepare_options rt pd f ''yahoo'' = Inr xs" and "prepare_options rt pd g ''alpaca'' = Inr ys"
    and "or_key ` op_row ` set ps = fst ` set xs \<union> fst ` set ys"
    and "\<forall>p\<in>set ps. let k = or_key (op_row p) in or_reason (op_row p) =
      option_pair_reason a b (snd (option_judgement tol (map_of xs k) (map_of ys k)))"
proof -
  from assms(2) obtain rows where rows: "reconcile_option_chain rt pd merge tol f g = Inr rows"
    and ps: "ps = option_pair_rows a b rows"
    by (auto simp: reconcile_option_sources_def res_simps)
  from reconcile_chain_Inr [OF rows assms(3)] obtain xs ys where p: "prepare_options rt pd f ''yahoo'' = Inr xs"
    "prepare_options rt pd g ''alpaca'' = Inr ys" and r: "rows = map (compare_quotes tol) (merge xs ys)" .
  note c = outer_join.compared_rows [OF assms(1) prepare_unique(1) [OF p(1)] prepare_unique(1) [OF p(2)] r,
      of or_key, OF compare_quotes_simps(1)]
  have keys: "or_key ` op_row ` set ps = or_key ` set rows" by (auto simp: ps option_pair_rows_def image_image)
  have "or_key ` op_row ` set ps = fst ` set xs \<union> fst ` set ys" using c(2) keys by simp
  moreover have "\<forall>p\<in>set ps. let k = or_key (op_row p) in or_reason (op_row p) =
      option_pair_reason a b (snd (option_judgement tol (map_of xs k) (map_of ys k)))"
  proof
    fix q assume "q \<in> set ps"
    then obtain r where "r \<in> set rows" and q: "or_reason (op_row q) = option_pair_reason a b (or_reason r)"
        "or_key (op_row q) = or_key r"
      by (auto simp: ps option_pair_rows_def)
    from c(3) [OF this(1)] have "or_reason r = snd (option_judgement tol (map_of xs (or_key r)) (map_of ys (or_key r)))"
      by (metis compare_quotes_simps(3))
    with q show "let k = or_key (op_row q) in or_reason (op_row q) =
      option_pair_reason a b (snd (option_judgement tol (map_of xs k) (map_of ys k)))" by (simp add: Let_def)
  qed
  ultimately show thesis by (rule that [OF p])
qed

lemma missing_contract_inject [simp]: "missing_contract p = missing_contract q \<longleftrightarrow> py_upper p = py_upper q"
  by (simp add: missing_contract_def)

lemma missing_contract_yahoo: "missing_contract b = ''MISSING_YAHOO_CONTRACT'' \<longleftrightarrow> py_upper b = ''YAHOO''"
proof -
  have "''MISSING_YAHOO_CONTRACT'' = ''MISSING_'' @ ''YAHOO'' @ ''_CONTRACT''" by simp
  then show ?thesis unfolding missing_contract_def by (metis append_same_eq same_append_eq)
qed

lemma option_pair_reason_missing:
  "option_pair_reason a b (Some ''MISSING_YAHOO_CONTRACT'') = Some (missing_contract a)"
  "option_pair_reason a b (Some ''MISSING_ALPACA_CONTRACT'') =
     Some (missing_contract (if py_upper b = ''YAHOO'' then a else b))"
  using missing_contract_yahoo [of b] by (simp_all add: option_pair_reason_def replace_reason_def)

lemma judgement_missing:
  "snd (option_judgement tol (Some x) None) = Some ''MISSING_ALPACA_CONTRACT''"
  "snd (option_judgement tol None (Some y)) = Some ''MISSING_YAHOO_CONTRACT''"
  by (simp_all add: option_judgement_def)

subsection \<open>Properties\<close>

text \<open>C26 (option_reconciliation_covers): unless both chains are empty, reconciling two option chains gives
  exactly one row per contract identity of either chain; a row passes exactly when both chains list
  the contract with a close price and the prices differ by at most the tolerance, and exactly the
  rows that do not pass have a reason.\<close>

theorem option_reconciliation_covers:
  assumes "outer_join merge" and "reconcile_option_chain rt pd merge tol f g = Inr rows"
    and "\<not> (frame_empty f \<and> frame_empty g)"
  shows "\<exists>xs ys. prepare_options rt pd f ''yahoo'' = Inr xs \<and> prepare_options rt pd g ''alpaca'' = Inr ys \<and>
    distinct (map or_key rows) \<and> set (map or_key rows) = fst ` set xs \<union> fst ` set ys \<and>
    (\<forall>r\<in>set rows. (or_status r \<noteq> BREAK \<longleftrightarrow>
        (\<exists>x y. map_of xs (or_key r) = Some x \<and> map_of ys (or_key r) = Some y \<and> \<not> is_nan (q_close x) \<and>
           \<not> is_nan (q_close y) \<and> \<not> flt tol (fabs (fsub (q_close x) (q_close y))))) \<and>
      (or_status r = BREAK \<longleftrightarrow> or_reason r \<noteq> None))"
proof -
  from reconcile_chain_Inr [OF assms(2,3)] obtain xs ys where p: "prepare_options rt pd f ''yahoo'' = Inr xs"
    "prepare_options rt pd g ''alpaca'' = Inr ys" and rows: "rows = map (compare_quotes tol) (merge xs ys)" .
  note c = outer_join.compared_rows [OF assms(1) prepare_unique(1) [OF p(1)] prepare_unique(1) [OF p(2)] rows,
      of or_key, OF compare_quotes_simps(1)]
  have "(or_status r \<noteq> BREAK \<longleftrightarrow>
        (\<exists>x y. map_of xs (or_key r) = Some x \<and> map_of ys (or_key r) = Some y \<and> \<not> is_nan (q_close x) \<and>
           \<not> is_nan (q_close y) \<and> \<not> flt tol (fabs (fsub (q_close x) (q_close y))))) \<and>
      (or_status r = BREAK \<longleftrightarrow> or_reason r \<noteq> None)" if r: "r \<in> set rows" for r
  proof -
    let ?a = "map_of xs (or_key r)" and ?b = "map_of ys (or_key r)"
    have eq: "r = compare_quotes tol (or_key r, ?a, ?b)" by (rule c(3) [OF r])
    have "or_key r \<in> fst ` set xs \<union> fst ` set ys" using r c(2) by auto
    then have "?a \<noteq> None \<or> ?b \<noteq> None" by (auto simp: map_of_eq_None_iff)
    moreover have "or_status r = fst (option_judgement tol ?a ?b)" "or_reason r = snd (option_judgement tol ?a ?b)"
      by (subst eq, simp)+
    ultimately show ?thesis by (metis judgement_MATCH judgement_reason)
  qed
  with p c(1,2) show ?thesis by blast
qed

text \<open>In the reconciliation of two named providers of which the
  second is not Yahoo, a contract that only one chain lists has a reason that names the provider that
  lacks it.\<close>

theorem option_reason_names_absent_side:
  assumes "outer_join merge" and "reconcile_option_sources rt pd merge tol [(a, f), (b, g)] = Inr ps"
    and "\<not> (frame_empty f \<and> frame_empty g)" and "py_upper b \<noteq> ''YAHOO''"
  shows "\<exists>xs ys. prepare_options rt pd f ''yahoo'' = Inr xs \<and> prepare_options rt pd g ''alpaca'' = Inr ys \<and>
    or_key ` op_row ` set ps = fst ` set xs \<union> fst ` set ys \<and>
    (\<forall>p\<in>set ps.
       (or_key (op_row p) \<notin> fst ` set ys \<longrightarrow> or_reason (op_row p) = Some (missing_contract b)) \<and>
       (or_key (op_row p) \<notin> fst ` set xs \<longrightarrow> or_reason (op_row p) = Some (missing_contract a)))"
proof -
  from option_pair_row [OF assms(1-3)] obtain xs ys where p: "prepare_options rt pd f ''yahoo'' = Inr xs"
      "prepare_options rt pd g ''alpaca'' = Inr ys" "or_key ` op_row ` set ps = fst ` set xs \<union> fst ` set ys"
    and r: "\<forall>p\<in>set ps. let k = or_key (op_row p) in or_reason (op_row p) =
      option_pair_reason a b (snd (option_judgement tol (map_of xs k) (map_of ys k)))" .
  have "(or_key (op_row q) \<notin> fst ` set ys \<longrightarrow> or_reason (op_row q) = Some (missing_contract b)) \<and>
       (or_key (op_row q) \<notin> fst ` set xs \<longrightarrow> or_reason (op_row q) = Some (missing_contract a))" if "q \<in> set ps" for q
  proof -
    let ?k = "or_key (op_row q)"
    have "?k \<in> fst ` set xs \<union> fst ` set ys" using that p(3) by blast
    then have "map_of xs ?k \<noteq> None \<or> map_of ys ?k \<noteq> None" by (auto simp: map_of_eq_None_iff)
    with bspec [OF r that] assms(4) show ?thesis
      unfolding map_of_eq_None_iff [symmetric]
      by (cases "map_of xs ?k"; cases "map_of ys ?k") (simp_all add: Let_def judgement_missing option_pair_reason_missing)
  qed
  with p show ?thesis by blast
qed

text \<open>When the second provider is Yahoo, the second replacement also catches
  what the first has just written: a contract that Yahoo lacks is reported as missing at the first
  provider, the very one that lists it.\<close>

theorem yahoo_second_mislabels:
  assumes "outer_join merge" and "reconcile_option_sources rt pd merge tol [(a, f), (b, g)] = Inr ps"
    and "prepare_options rt pd f ''yahoo'' = Inr xs" and "prepare_options rt pd g ''alpaca'' = Inr ys"
    and "py_upper b = ''YAHOO''" and "p \<in> set ps" and "or_key (op_row p) \<notin> fst ` set ys"
    and "\<not> (frame_empty f \<and> frame_empty g)"
  shows "or_reason (op_row p) = Some (missing_contract a)"
proof -
  let ?k = "or_key (op_row p)"
  from option_pair_row [OF assms(1,2,8)] assms(3,4) have k: "or_key ` op_row ` set ps = fst ` set xs \<union> fst ` set ys"
    and r: "let k = ?k in or_reason (op_row p) =
      option_pair_reason a b (snd (option_judgement tol (map_of xs k) (map_of ys k)))"
    using assms(6) by (metis Inr_inject)+
  have "?k \<in> fst ` set xs" using k assms(6,7) by blast
  then obtain x where "map_of xs ?k = Some x" by (metis map_of_eq_None_iff not_None_eq)
  moreover have "map_of ys ?k = None" using assms(7) by (simp add: map_of_eq_None_iff)
  ultimately show ?thesis using r assms(5) by (simp add: judgement_missing option_pair_reason_missing)
qed

subsection \<open>Sample data\<close>

definition sample_chain :: "(string \<times> rat) list \<Rightarrow> frame" where
  "sample_chain qs = \<lparr>fr_columns = chain_columns, fr_numeric = [''strike'', ''close'', ''bid'', ''ask''],
     fr_rows = map (\<lambda>(c, p). [PStr ''spy'', PDate 9, PFloat (Fin 500), PStr c, PDate 5, PStr (''SPY '' @ c),
       PFloat (Fin p), PFloat (Fin p), PFloat (Fin p)]) qs\<rparr>"

definition chain_one :: frame where "chain_one = sample_chain [(''c'', 2), (''p'', 3)]"
definition chain_two :: frame where "chain_two = sample_chain [(''C'', 2)]"

definition call_key :: "string \<Rightarrow> option_key" where
  "call_key c = \<lparr>ok_underlying = ''SPY'', ok_expiry = 9, ok_strike = Fin 500, ok_type = c, ok_trade_date = 5\<rparr>"

lemma sample_prepared:
  "prepare_options sample_runtime sample_parsers chain_one p =
     Inr [(call_key ''C'', \<lparr>q_contract = PStr ''SPY c'', q_close = Fin 2, q_bid = PFloat (Fin 2), q_ask = PFloat (Fin 2)\<rparr>),
       (call_key ''P'', \<lparr>q_contract = PStr ''SPY p'', q_close = Fin 3, q_bid = PFloat (Fin 3), q_ask = PFloat (Fin 3)\<rparr>)]"
  "prepare_options sample_runtime sample_parsers chain_two p =
     Inr [(call_key ''C'', \<lparr>q_contract = PStr ''SPY C'', q_close = Fin 2, q_bid = PFloat (Fin 2), q_ask = PFloat (Fin 2)\<rparr>)]"
  by code_simp+

lemma sample_not_empty [simp]: "\<not> frame_empty chain_one" "\<not> frame_empty chain_two"
  by code_simp+

lemma sample_chains:
  "\<exists>ps. reconcile_option_sources sample_runtime sample_parsers merge_by_key (Fin 0) [(a, chain_one), (b, chain_two)]
     = Inr ps"
  by (simp add: reconcile_option_sources_def reconcile_option_chain_def sample_prepared)

lemma sample_missing_put:
  assumes "reconcile_option_sources sample_runtime sample_parsers merge_by_key (Fin 0)
    [(a, chain_one), (b, chain_two)] = Inr ps"
  shows "\<exists>p\<in>set ps. or_key (op_row p) = call_key ''P''"
proof -
  have "\<not> (frame_empty chain_one \<and> frame_empty chain_two)" by simp
  with by_key.outer_join_axioms assms obtain xs ys where
      "prepare_options sample_runtime sample_parsers chain_one ''yahoo'' = Inr xs"
      "prepare_options sample_runtime sample_parsers chain_two ''alpaca'' = Inr ys"
      "or_key ` op_row ` set ps = fst ` set xs \<union> fst ` set ys"
    by (rule option_pair_row)
  then have "call_key ''P'' \<in> or_key ` op_row ` set ps" by (auto simp: sample_prepared)
  then show ?thesis by auto
qed

lemma option_reconciliation_covers_witness:
  "\<exists>rows. reconcile_option_chain sample_runtime sample_parsers merge_by_key (Fin 0) chain_one chain_two = Inr rows \<and>
     set (map or_key rows) = {call_key ''C'', call_key ''P''}"
proof -
  obtain rows where r: "reconcile_option_chain sample_runtime sample_parsers merge_by_key (Fin 0) chain_one chain_two
    = Inr rows" by (simp add: reconcile_option_chain_def sample_prepared)
  have "\<not> (frame_empty chain_one \<and> frame_empty chain_two)" by simp
  from option_reconciliation_covers [OF by_key.outer_join_axioms r this] r show ?thesis
    by (auto simp: sample_prepared)
qed

lemma option_reason_names_absent_side_witness:
  "\<exists>ps. reconcile_option_sources sample_runtime sample_parsers merge_by_key (Fin 0)
       [(''yahoo'', chain_one), (''alpaca'', chain_two)] = Inr ps \<and>
     (\<exists>p\<in>set ps. or_key (op_row p) = call_key ''P'' \<and> or_reason (op_row p) = Some (missing_contract ''alpaca''))"
proof -
  obtain ps where ps: "reconcile_option_sources sample_runtime sample_parsers merge_by_key (Fin 0)
       [(''yahoo'', chain_one), (''alpaca'', chain_two)] = Inr ps" using sample_chains by blast
  have "\<not> (frame_empty chain_one \<and> frame_empty chain_two)" "py_upper ''alpaca'' \<noteq> ''YAHOO''" by (simp, code_simp)
  from option_reason_names_absent_side [OF by_key.outer_join_axioms ps this] obtain
      k: "or_key ` op_row ` set ps = {call_key ''C'', call_key ''P''}" and
      m: "\<forall>p\<in>set ps. or_key (op_row p) \<notin> {call_key ''C''} \<longrightarrow> or_reason (op_row p) = Some (missing_contract ''alpaca'')"
    by (auto simp: sample_prepared)
  have "call_key ''P'' \<in> or_key ` op_row ` set ps" by (simp add: k)
  then obtain p where "p \<in> set ps" "or_key (op_row p) = call_key ''P''" by auto
  moreover have "call_key ''P'' \<noteq> call_key ''C''" by (simp add: call_key_def)
  ultimately show ?thesis using ps m by auto
qed

lemma yahoo_second_mislabels_witness:
  "\<exists>ps. reconcile_option_sources sample_runtime sample_parsers merge_by_key (Fin 0)
       [(''alpaca'', chain_one), (''Yahoo'', chain_two)] = Inr ps \<and>
     (\<exists>p\<in>set ps. or_key (op_row p) = call_key ''P'' \<and> or_reason (op_row p) = Some ''MISSING_ALPACA_CONTRACT'')"
proof -
  obtain ps where ps: "reconcile_option_sources sample_runtime sample_parsers merge_by_key (Fin 0)
       [(''alpaca'', chain_one), (''Yahoo'', chain_two)] = Inr ps" using sample_chains by blast
  have e: "\<not> (frame_empty chain_one \<and> frame_empty chain_two)" by simp
  have y: "py_upper ''Yahoo'' = ''YAHOO''" "missing_contract ''alpaca'' = ''MISSING_ALPACA_CONTRACT''" by code_simp+
  obtain p where p: "p \<in> set ps" "or_key (op_row p) = call_key ''P''" using sample_missing_put [OF ps] by blast
  have "call_key ''P'' \<noteq> call_key ''C''" by (simp add: call_key_def)
  with p have "or_key (op_row p) \<notin> fst ` set [(call_key ''C'', \<lparr>q_contract = PStr ''SPY C'', q_close = Fin 2,
      q_bid = PFloat (Fin 2), q_ask = PFloat (Fin 2)\<rparr>)]" by simp
  from yahoo_second_mislabels [OF by_key.outer_join_axioms ps sample_prepared y(1) p(1) this e]
  have "or_reason (op_row p) = Some ''MISSING_ALPACA_CONTRACT''" unfolding y(2) .
  with ps p show ?thesis by blast
qed

end
