(* ===== verification/Futures.thy ===== *)
theory Futures
  imports Equities
begin

section \<open>Reconciling futures bars\<close>

text \<open>
  \<open>reconciliation/futures.py\<close>: Yahoo's continuous symbols are mapped to Massive contracts by an explicit
  map, the two sides joined on contract and session date, and the closes compared.  The map is a
  dictionary; a later entry overrides an earlier one that is equal after upper-casing.  A key part
  that a cell does not have stays missing, and missing parts are equal to each other in the join.
\<close>

type_synonym contract_map = "(string \<times> string) list"
type_synonym session_key = "string option \<times> int option"

definition invalid_close :: "cell_parsers \<Rightarrow> pyval \<Rightarrow> bool" where
  "invalid_close pd v = (case pd_number pd v of
     Inl _ \<Rightarrow> False
   | Inr x \<Rightarrow> \<not> is_nan x \<and> \<not> (is_finite x \<and> fle (Fin 0) x))"

definition validate_prices :: "cell_parsers \<Rightarrow> frame \<Rightarrow> string list \<Rightarrow> string \<Rightarrow> unit result" where
  "validate_prices pd f cols provider =
     (if absent_columns f cols \<noteq> []
      then Inl (ValueError (provider @ '' futures data is missing columns''))
      else if list_ex (invalid_close pd) (column f ''close'')
      then Inl (ValueError (provider @ '' futures close contains invalid values''))
      else Inr ())"

definition upper_text :: "runtime \<Rightarrow> pyval \<Rightarrow> string option" where
  "upper_text rt v = map_option py_upper (text_cell rt v)"

definition upper_map :: "contract_map \<Rightarrow> contract_map" where
  "upper_map m = fold (\<lambda>(k, v) d. AList.update (py_upper k) (py_upper v) d) m []"

definition reverse_map :: "contract_map \<Rightarrow> contract_map" where
  "reverse_map m = fold (\<lambda>(k, v) d. AList.update (py_upper v) (py_upper k) d) m []"

definition map_symbol :: "contract_map \<Rightarrow> string option \<Rightarrow> string option" where
  "map_symbol d s = (case s of None \<Rightarrow> None | Some x \<Rightarrow> map_of d x)"

record yahoo_bar =
  yb_symbol :: string
  yb_close :: pyfloat

record massive_bar =
  mb_close :: pyfloat
  mb_settlement :: pyval

text \<open>Dates are parsed before the bars without a contract are dropped.\<close>

definition mapped_yahoo :: "runtime \<Rightarrow> cell_parsers \<Rightarrow> contract_map \<Rightarrow> frame \<Rightarrow> (session_key \<times> yahoo_bar) list result" where
  "mapped_yahoo rt pd m f =
     bind_res (map_res (pd_date pd) (column f ''trade_date'')) (\<lambda>days.
     Inr (concat (map (\<lambda>(r, day). case upper_text rt (cell f r ''symbol'') of
         None \<Rightarrow> []
       | Some s \<Rightarrow> (case map_of (upper_map m) s of
           None \<Rightarrow> []
         | Some c \<Rightarrow> [((Some c, day), \<lparr>yb_symbol = s, yb_close = num f r ''close''\<rparr>)]))
       (zip (fr_rows f) days))))"

definition keyed_massive :: "runtime \<Rightarrow> cell_parsers \<Rightarrow> frame \<Rightarrow> (session_key \<times> massive_bar) list result" where
  "keyed_massive rt pd f =
     bind_res (map_res (pd_date pd) (column f ''session_date'')) (\<lambda>days.
     Inr (map (\<lambda>(r, day). ((upper_text rt (cell f r ''symbol''), day),
         \<lparr>mb_close = num f r ''close'', mb_settlement = cell f r ''settlement_price''\<rparr>))
       (zip (fr_rows f) days)))"

record futures_row =
  fu_symbol :: "string option"
  fu_key :: session_key
  fu_close_yahoo :: pyfloat
  fu_close_massive :: pyfloat
  fu_settlement :: pyval
  fu_difference :: pyfloat
  fu_status :: verdict
  fu_reason :: "string option"

definition futures_limit :: "pyfloat \<Rightarrow> pyfloat \<Rightarrow> pyfloat \<Rightarrow> pyfloat \<Rightarrow> pyfloat" where
  "futures_limit tol pct a b = fmax tol (fmul (fmax (fabs a) (fabs b)) pct)"

definition futures_judgement :: "pyfloat \<Rightarrow> pyfloat \<Rightarrow> pyfloat \<Rightarrow> pyfloat \<Rightarrow> verdict \<times> string option" where
  "futures_judgement tol pct a b =
     (if is_nan b then (BREAK, Some ''MISSING_MASSIVE_OBSERVATION'')
      else if is_nan a then (BREAK, Some ''MISSING_YAHOO_OBSERVATION'')
      else if flt (futures_limit tol pct a b) (fabs (fsub a b)) then (BREAK, Some ''PRICE_DIFFERENCE'')
      else (MATCH, None))"

definition compare_futures :: "contract_map \<Rightarrow> pyfloat \<Rightarrow> pyfloat \<Rightarrow>
    session_key \<times> yahoo_bar option \<times> massive_bar option \<Rightarrow> futures_row" where
  "compare_futures m tol pct j = (case j of (k, y, x) \<Rightarrow>
     let a = (case y of None \<Rightarrow> NaN | Some v \<Rightarrow> yb_close v);
         b = (case x of None \<Rightarrow> NaN | Some v \<Rightarrow> mb_close v) in
     \<lparr>fu_symbol = (case y of Some v \<Rightarrow> Some (yb_symbol v) | None \<Rightarrow> map_symbol (reverse_map m) (fst k)),
      fu_key = k, fu_close_yahoo = a, fu_close_massive = b,
      fu_settlement = (case x of None \<Rightarrow> PNone | Some v \<Rightarrow> mb_settlement v),
      fu_difference = fsub a b, fu_status = fst (futures_judgement tol pct a b),
      fu_reason = snd (futures_judgement tol pct a b)\<rparr>)"

definition reconcile_futures_bars :: "runtime \<Rightarrow> cell_parsers \<Rightarrow> (session_key, yahoo_bar, massive_bar) merge \<Rightarrow>
    contract_map \<Rightarrow> pyfloat \<Rightarrow> pyfloat \<Rightarrow> frame \<Rightarrow> frame \<Rightarrow> futures_row list result" where
  "reconcile_futures_bars rt pd merge m tol pct yahoo massive =
     (if m = [] then Inl (ValueError ''A Yahoo-to-Massive futures contract mapping is required'')
      else if flt tol (Fin 0) \<or> flt pct (Fin 0)
      then Inl (ValueError ''Futures tolerances must be non-negative'')
      else bind_res (validate_prices pd yahoo [''symbol'', ''trade_date'', ''close''] ''Yahoo'') (\<lambda>_.
           bind_res (validate_prices pd massive [''symbol'', ''session_date'', ''close'', ''settlement_price''] ''Massive'') (\<lambda>_.
           bind_res (mapped_yahoo rt pd m yahoo) (\<lambda>ys.
           bind_res (keyed_massive rt pd massive) (\<lambda>ms.
           if \<not> distinct (map fst ys)
           then Inl (ValueError ''Yahoo futures data contains duplicate mapped session keys'')
           else if \<not> distinct (map fst ms)
           then Inl (ValueError ''Massive futures data contains duplicate contract/session keys'')
           else Inr (map (compare_futures m tol pct) (merge ys ms)))))))"

definition futures_columns :: "string list" where
  "futures_columns = [''yahoo_symbol'', ''massive_contract'', ''session_date'', ''yahoo_close'', ''massive_close'',
     ''massive_settlement_price'', ''close_difference'', ''status'', ''break_reason'']"

definition futures_cells :: "futures_row \<Rightarrow> pyval list" where
  "futures_cells r =
     [(case fu_symbol r of None \<Rightarrow> PNone | Some s \<Rightarrow> PStr s),
      (case fst (fu_key r) of None \<Rightarrow> PNone | Some c \<Rightarrow> PStr c),
      (case snd (fu_key r) of None \<Rightarrow> PNone | Some d \<Rightarrow> PDate d),
      PFloat (fu_close_yahoo r), PFloat (fu_close_massive r), fu_settlement r, PFloat (fu_difference r),
      PStr (verdict_name (fu_status r)), (case fu_reason r of None \<Rightarrow> PNone | Some s \<Rightarrow> PStr s)]"

definition futures_frame :: "futures_row list \<Rightarrow> frame" where
  "futures_frame = table_frame futures_columns [''yahoo_close'', ''massive_close'', ''close_difference''] futures_cells"

subsection \<open>The contract map\<close>

lemma map_of_fold_update:
  "map_of (fold (\<lambda>(k, v) d. AList.update (f k v) (g k v) d) m d0) x = Some y \<Longrightarrow>
   map_of d0 x = Some y \<or> (\<exists>k v. (k, v) \<in> set m \<and> f k v = x \<and> g k v = y)"
proof (induction m arbitrary: d0)
  case (Cons p m)
  obtain k v where p: "p = (k, v)" by (cases p)
  with Cons.IH [of "AList.update (f k v) (g k v) d0"] Cons.prems show ?case
    by (auto simp: update_conv' split: if_splits)
qed simp

lemma upper_map_Some: "map_of (upper_map m) s = Some c \<Longrightarrow> \<exists>k v. (k, v) \<in> set m \<and> py_upper k = s \<and> py_upper v = c"
  using map_of_fold_update [of "\<lambda>k v. py_upper k" "\<lambda>k v. py_upper v" m "[]" s c]
  by (auto simp: upper_map_def)

lemma reverse_map_Some: "map_of (reverse_map m) c = Some s \<Longrightarrow> \<exists>k v. (k, v) \<in> set m \<and> py_upper k = s \<and> py_upper v = c"
  using map_of_fold_update [of "\<lambda>k v. py_upper v" "\<lambda>k v. py_upper k" m "[]" c s]
  by (auto simp: reverse_map_def)

lemma mapped_yahoo_entry:
  assumes "mapped_yahoo rt pd m f = Inr ys" and "((c, d), y) \<in> set ys"
  shows "\<exists>k v. (k, v) \<in> set m \<and> py_upper k = yb_symbol y \<and> c = Some (py_upper v)"
proof -
  from assms have "map_of (upper_map m) (yb_symbol y) = c \<and> c \<noteq> None"
    by (auto simp: mapped_yahoo_def res_simps split: option.splits)
  then obtain e where "map_of (upper_map m) (yb_symbol y) = Some e" "c = Some e" by (cases c) auto
  with upper_map_Some show ?thesis by blast
qed

subsection \<open>The joined rows\<close>

lemma reconcile_futures_Inr:
  assumes "reconcile_futures_bars rt pd merge m tol pct f g = Inr rows"
  obtains ys ms where "mapped_yahoo rt pd m f = Inr ys" and "keyed_massive rt pd g = Inr ms"
    and "unique_keys ys" and "unique_keys ms" and "rows = map (compare_futures m tol pct) (merge ys ms)"
  using assms by (auto simp: reconcile_futures_bars_def res_simps unique_keys_def split: if_splits)

lemma compare_futures_key [simp]: "fu_key (compare_futures m tol pct j) = fst j"
  by (auto simp: compare_futures_def Let_def split: prod.splits)

lemma futures_passes:
  "fu_status (compare_futures m tol pct (k, a, b)) \<noteq> BREAK \<longleftrightarrow>
   (\<exists>x y. a = Some x \<and> b = Some y \<and> \<not> is_nan (yb_close x) \<and> \<not> is_nan (mb_close y) \<and>
     \<not> flt (futures_limit tol pct (yb_close x) (mb_close y)) (fabs (fsub (yb_close x) (mb_close y))))"
  by (cases a; cases b) (auto simp: compare_futures_def futures_judgement_def Let_def)

subsection \<open>Properties\<close>

text \<open>C27 (futures_reconciliation_covers): the result has exactly one row for every contract and session of
  Massive or of a mapped Yahoo symbol; a row passes exactly when both have a close and the closes
  differ by at most the larger of the absolute and the percentage limit.\<close>

theorem futures_reconciliation_covers:
  assumes "outer_join merge" and "reconcile_futures_bars rt pd merge m tol pct f g = Inr rows"
  shows "\<exists>ys ms. mapped_yahoo rt pd m f = Inr ys \<and> keyed_massive rt pd g = Inr ms \<and>
    distinct (map fu_key rows) \<and> set (map fu_key rows) = fst ` set ys \<union> fst ` set ms \<and>
    (\<forall>r\<in>set rows. fu_status r \<noteq> BREAK \<longleftrightarrow>
      (\<exists>x y. map_of ys (fu_key r) = Some x \<and> map_of ms (fu_key r) = Some y \<and> \<not> is_nan (yb_close x) \<and>
        \<not> is_nan (mb_close y) \<and>
        \<not> flt (futures_limit tol pct (yb_close x) (mb_close y)) (fabs (fsub (yb_close x) (mb_close y)))))"
proof -
  from reconcile_futures_Inr [OF assms(2)] obtain ys ms where p: "mapped_yahoo rt pd m f = Inr ys"
    "keyed_massive rt pd g = Inr ms" and u: "unique_keys ys" "unique_keys ms"
    and rows: "rows = map (compare_futures m tol pct) (merge ys ms)" .
  note c = outer_join.compared_rows [OF assms(1) u rows, of fu_key, OF compare_futures_key]
  have "fu_status r \<noteq> BREAK \<longleftrightarrow>
      (\<exists>x y. map_of ys (fu_key r) = Some x \<and> map_of ms (fu_key r) = Some y \<and> \<not> is_nan (yb_close x) \<and>
        \<not> is_nan (mb_close y) \<and>
        \<not> flt (futures_limit tol pct (yb_close x) (mb_close y)) (fabs (fsub (yb_close x) (mb_close y))))"
    if "r \<in> set rows" for r
    by (subst c(3) [OF that]) (rule futures_passes)
  with p c(1,2) show ?thesis by blast
qed

text \<open>A reported pair of Yahoo symbol and Massive contract is always an entry
  of the contract map, upper-cased: neither the lookup nor the reversed lookup invents a pairing.\<close>

theorem futures_rows_follow_map:
  assumes "outer_join merge" and "reconcile_futures_bars rt pd merge m tol pct f g = Inr rows"
    and "r \<in> set rows" and "fu_symbol r = Some s" and "fst (fu_key r) = Some c"
  shows "\<exists>k v. (k, v) \<in> set m \<and> py_upper k = s \<and> py_upper v = c"
proof -
  from reconcile_futures_Inr [OF assms(2)] obtain ys ms where p: "mapped_yahoo rt pd m f = Inr ys"
    and u: "unique_keys ys" "unique_keys ms" and rows: "rows = map (compare_futures m tol pct) (merge ys ms)" .
  have r: "r = compare_futures m tol pct (fu_key r, map_of ys (fu_key r), map_of ms (fu_key r))"
    by (rule outer_join.compared_rows(3) [OF assms(1) u rows compare_futures_key assms(3)])
  show ?thesis
  proof (cases "map_of ys (fu_key r)")
    case None
    then have "map_of (reverse_map m) c = Some s"
      using assms(4,5) by (subst (asm) (1) r) (simp add: compare_futures_def Let_def map_symbol_def)
    then show ?thesis by (rule reverse_map_Some)
  next
    case (Some y)
    then have "yb_symbol y = s" using assms(4) by (subst (asm) (1) r) (simp add: compare_futures_def Let_def)
    moreover have "((fst (fu_key r), snd (fu_key r)), y) \<in> set ys" using map_of_SomeD [OF Some] by simp
    ultimately show ?thesis using mapped_yahoo_entry [OF p] assms(5) by fastforce
  qed
qed

subsection \<open>Sample data\<close>

definition sample_yahoo :: frame where
  "sample_yahoo = \<lparr>fr_columns = [''symbol'', ''trade_date'', ''close''], fr_numeric = [''close''],
     fr_rows = [[PStr ''es=f'', PDate 5, PFloat (Fin 100)], [PStr ''CL=F'', PDate 5, PFloat (Fin 70)]]\<rparr>"

definition sample_massive :: frame where
  "sample_massive = \<lparr>fr_columns = [''symbol'', ''session_date'', ''close'', ''settlement_price''],
     fr_numeric = [''close''], fr_rows = [[PStr ''ESZ4'', PDate 5, PFloat (Fin 100), PFloat (Fin 100)],
       [PStr ''ESZ4'', PDate 6, PFloat (Fin 101), PNone]]\<rparr>"

definition sample_map :: contract_map where
  "sample_map = [(''ES=F'', ''esz4'')]"

lemma sample_futures_keys:
  "mapped_yahoo sample_runtime sample_parsers sample_map sample_yahoo =
     Inr [((Some ''ESZ4'', Some 5), \<lparr>yb_symbol = ''ES=F'', yb_close = Fin 100\<rparr>)]"
  "keyed_massive sample_runtime sample_parsers sample_massive =
     Inr [((Some ''ESZ4'', Some 5), \<lparr>mb_close = Fin 100, mb_settlement = PFloat (Fin 100)\<rparr>),
       ((Some ''ESZ4'', Some 6), \<lparr>mb_close = Fin 101, mb_settlement = PNone\<rparr>)]"
  "validate_prices sample_parsers sample_yahoo [''symbol'', ''trade_date'', ''close''] ''Yahoo'' = Inr ()"
  "validate_prices sample_parsers sample_massive [''symbol'', ''session_date'', ''close'', ''settlement_price''] ''Massive''
    = Inr ()"
  by code_simp+

lemma sample_futures:
  "\<exists>rows. reconcile_futures_bars sample_runtime sample_parsers merge_by_key sample_map (Fin 0) (Fin 0)
     sample_yahoo sample_massive = Inr rows"
  by (simp add: reconcile_futures_bars_def sample_futures_keys) (simp add: sample_map_def)

lemma futures_reconciliation_covers_witness:
  "\<exists>rows. reconcile_futures_bars sample_runtime sample_parsers merge_by_key sample_map (Fin 0) (Fin 0)
     sample_yahoo sample_massive = Inr rows \<and>
   set (map fu_key rows) = {(Some ''ESZ4'', Some 5), (Some ''ESZ4'', Some 6)}"
proof -
  obtain rows where r: "reconcile_futures_bars sample_runtime sample_parsers merge_by_key sample_map (Fin 0) (Fin 0)
     sample_yahoo sample_massive = Inr rows" using sample_futures by blast
  from futures_reconciliation_covers [OF by_key.outer_join_axioms r] r show ?thesis
    by (auto simp: sample_futures_keys)
qed

lemma futures_rows_follow_map_witness:
  "\<exists>rows. reconcile_futures_bars sample_runtime sample_parsers merge_by_key sample_map (Fin 0) (Fin 0)
     sample_yahoo sample_massive = Inr rows \<and>
   (\<exists>r\<in>set rows. \<exists>s. fu_symbol r = Some s \<and> (\<exists>k v. (k, v) \<in> set sample_map \<and> py_upper k = s))"
proof -
  let ?r = "compare_futures sample_map (Fin 0) (Fin 0)
    ((Some ''ESZ4'', Some 5), Some \<lparr>yb_symbol = ''ES=F'', yb_close = Fin 100\<rparr>,
     Some \<lparr>mb_close = Fin 100, mb_settlement = PFloat (Fin 100)\<rparr>)"
  obtain rows where r: "reconcile_futures_bars sample_runtime sample_parsers merge_by_key sample_map (Fin 0) (Fin 0)
     sample_yahoo sample_massive = Inr rows" using sample_futures by blast
  moreover have "sample_map \<noteq> []" by (simp add: sample_map_def)
  ultimately have "?r \<in> set rows"
    by (auto simp: reconcile_futures_bars_def sample_futures_keys merge_by_key_def)
  moreover have s: "fu_symbol ?r = Some ''ES=F''" "fst (fu_key ?r) = Some ''ESZ4''"
    by (simp_all add: compare_futures_def Let_def)
  ultimately show ?thesis using futures_rows_follow_map [OF by_key.outer_join_axioms r _ s] r by blast
qed

end
