(* ===== verification/Lake.thy ===== *)
theory Lake
  imports Joins Partitions
begin

section \<open>The archive of provider data\<close>

text \<open>
  \<open>storage/data_lake.py\<close> and \<open>storage/partitioned_data_lake.py\<close>: Parquet files that are written once,
  addressed by layer, source, instrument and run, or by work partition.  A path is the list of its
  components below the data root.  The disk decides what a write leaves behind: the whole file, the
  whole file and then an error of the permission change, nothing, or a part of it; and whether a read
  fails.  What is read back from a whole file is the codec's answer for what was written.
\<close>

type_synonym path = "string list"

datatype archive_file = Whole frame | Part

datatype write_outcome = Written | Unprotected exn | Refused exn | Cut exn

record disk =
  on_write :: "nat \<Rightarrow> write_outcome"
  on_read :: "nat \<Rightarrow> exn option"
  parquet :: "frame \<Rightarrow> frame"

record lake =
  lk_files :: "path \<rightharpoonup> archive_file"
  lk_steps :: nat

type_synonym 'a io = "(lake, 'a) prog"

subsection \<open>Paths\<close>

definition partition_char :: "char \<Rightarrow> bool" where
  "partition_char c \<longleftrightarrow> is_alpha c \<or> is_digit c \<or> c \<in> {CHR ''.'', CHR ''_'', CHR ''-''}"

definition validate_partition_value :: "string \<Rightarrow> string \<Rightarrow> string result" where
  "validate_partition_value name v =
     (if v = [] \<or> \<not> list_all partition_char v
      then Inl (ValueError (name @ '' must contain only letters, numbers, dots, underscores, or hyphens''))
      else Inr v)"

text \<open>\<open>Path(root) / a / b\<close>: a part may hold several components, and a component that is a single dot is
  dropped.\<close>

definition components :: "string \<Rightarrow> string list" where
  "components p = filter (\<lambda>c. c \<noteq> [] \<and> c \<noteq> ''.'') (split_on CHR ''/'' p)"

definition below :: "path \<Rightarrow> string list \<Rightarrow> path" where
  "below base parts = base @ concat (map components parts)"

definition layer_file :: "string \<Rightarrow> string" where
  "layer_file layer = (if layer = ''raw'' then ''payload.parquet'' else ''data.parquet'')"

definition archive_path :: "string \<Rightarrow> string \<Rightarrow> string \<Rightarrow> string \<Rightarrow> path \<Rightarrow> path result" where
  "archive_path layer source instrument run_id base =
     (let lay = py_lower layer; src = py_upper source; ins = py_lower instrument in
      if lay \<notin> {''raw'', ''normalized''} then Inl (ValueError ''layer must be one of ['normalized', 'raw']'')
      else if src \<notin> {''YAHOO'', ''ALPACA'', ''MASSIVE''}
      then Inl (ValueError ''source must be one of ['ALPACA', 'MASSIVE', 'YAHOO']'')
      else bind_res (validate_partition_value ''instrument_type'' ins) (\<lambda>_.
           bind_res (validate_partition_value ''run_id'' run_id) (\<lambda>_.
           Inr (below base [lay, src, ins, ''run_id='' @ run_id, layer_file lay]))))"

definition reconciliation_path :: "string \<Rightarrow> path \<Rightarrow> path result" where
  "reconciliation_path run_id base =
     bind_res (validate_partition_value ''run_id'' run_id) (\<lambda>r.
     Inr (below base [''reconciliation'', ''equities'', ''run_id='' @ r, ''results.parquet'']))"

definition partition_archive_path :: "runtime \<Rightarrow> work_partition \<Rightarrow> string \<Rightarrow> path \<Rightarrow> path result" where
  "partition_archive_path rt p layer base =
     (if layer \<notin> {''raw'', ''normalized''} then Inl (ValueError ''layer must be raw or normalized'')
      else Inr (below base [''partitions'', layer, ''control_date='' @ iso_date rt (wp_date p),
         ''instrument_type='' @ wp_instrument p, ''symbol_bucket='' @ zero_pad 5 (wp_bucket p),
         ''provider='' @ wp_provider p, ''partition_id='' @ wp_id p, layer_file layer]))"

subsection \<open>Writing and reading\<close>

definition existing_ids :: "runtime \<Rightarrow> frame \<Rightarrow> string list" where
  "existing_ids rt f = map (py_str rt) (filter (\<lambda>v. \<not> isna v) (column f ''run_id''))"

definition with_run_id :: "runtime \<Rightarrow> frame \<Rightarrow> string \<Rightarrow> frame result" where
  "with_run_id rt f run_id =
     (if ''run_id'' \<in> set (fr_columns f) \<and> existing_ids rt f \<noteq> [] \<and> set (existing_ids rt f) \<noteq> {run_id}
      then Inl (ValueError ''DataFrame run_id values do not match the archive path'')
      else Inr (set_column f ''run_id'' (PStr run_id)))"

definition file_exists :: "path \<Rightarrow> lake \<Rightarrow> bool" where
  "file_exists p s \<longleftrightarrow> lk_files s p \<noteq> None"

definition write_parquet_once :: "disk \<Rightarrow> frame \<Rightarrow> path \<Rightarrow> path io" where
  "write_parquet_once d f p s =
     (if file_exists p s then (Inl FileExistsError, s)
      else let s' = s\<lparr>lk_steps := lk_steps s + 1\<rparr> in
        case on_write d (lk_steps s) of
          Written \<Rightarrow> (Inr p, s'\<lparr>lk_files := (lk_files s)(p \<mapsto> Whole f)\<rparr>)
        | Unprotected e \<Rightarrow> (Inl e, s'\<lparr>lk_files := (lk_files s)(p \<mapsto> Whole f)\<rparr>)
        | Refused e \<Rightarrow> (Inl e, s')
        | Cut e \<Rightarrow> (Inl e, s'\<lparr>lk_files := (lk_files s)(p \<mapsto> Part)\<rparr>))"

definition read_parquet :: "disk \<Rightarrow> path \<Rightarrow> frame io" where
  "read_parquet d p s =
     (let s' = s\<lparr>lk_steps := lk_steps s + 1\<rparr> in
      case on_read d (lk_steps s) of
        Some e \<Rightarrow> (Inl e, s')
      | None \<Rightarrow> (case lk_files s p of
          Some (Whole f) \<Rightarrow> (Inr (parquet d f), s')
        | Some Part \<Rightarrow> (Inl DatabaseError, s')
        | None \<Rightarrow> (Inl DatabaseError, s')))"

definition write_dataframe :: "disk \<Rightarrow> runtime \<Rightarrow> path \<Rightarrow> frame \<Rightarrow> string \<Rightarrow> string \<Rightarrow> string \<Rightarrow> string \<Rightarrow> path io" where
  "write_dataframe d rt base f source instrument run_id layer =
     bind_st (lift_res (validate_partition_value ''run_id'' run_id)) (\<lambda>r.
     bind_st (lift_res (archive_path layer (py_upper source) (py_lower instrument) r base)) (\<lambda>p.
     bind_st (lift_res (with_run_id rt f r)) (\<lambda>g. write_parquet_once d g p)))"

definition archive_columns :: "string list" where
  "archive_columns = [''symbol'', ''trade_date'', ''open'', ''high'', ''low'', ''close'', ''volume'', ''run_id'']"

definition default_columns :: "string \<Rightarrow> string \<Rightarrow> string list" where
  "default_columns layer instrument =
     (if py_lower layer \<in> {''raw'', ''normalized''} \<and> py_lower instrument = ''equities'' then archive_columns
      else [''run_id''])"

definition empty_frame :: "string list \<Rightarrow> frame" where
  "empty_frame cols = \<lparr>fr_columns = cols, fr_numeric = [], fr_rows = []\<rparr>"

text \<open>\<open>restored["trade_date"] = pd.to_datetime(...).dt.date\<close>\<close>

definition date_cell :: "int option \<Rightarrow> pyval" where
  "date_cell d = (case d of None \<Rightarrow> PNone | Some n \<Rightarrow> PDate n)"

definition replace_column :: "frame \<Rightarrow> string \<Rightarrow> pyval list \<Rightarrow> frame" where
  "replace_column f c vs = f\<lparr>fr_rows := map (\<lambda>(r, v). map (\<lambda>(k, x). if k = c then v else x) (zip (fr_columns f) r))
     (zip (fr_rows f) vs)\<rparr>"

definition parse_dates :: "cell_parsers \<Rightarrow> frame \<Rightarrow> frame result" where
  "parse_dates pd f = bind_res (map_res (pd_date pd) (column f ''trade_date'')) (\<lambda>ds.
     Inr (replace_column f ''trade_date'' (map date_cell ds)))"

definition read_dataframe :: "disk \<Rightarrow> cell_parsers \<Rightarrow> path \<Rightarrow> string \<Rightarrow> string \<Rightarrow> string \<Rightarrow> string \<Rightarrow>
    string list option \<Rightarrow> frame io" where
  "read_dataframe d pd base source instrument run_id layer expected =
     bind_st (lift_res (archive_path layer source instrument run_id base)) (\<lambda>p s.
       let columns = (case expected of Some (c # cs) \<Rightarrow> c # cs | _ \<Rightarrow> default_columns layer instrument) in
       if \<not> file_exists p s then (Inr (empty_frame columns), s)
       else bind_st (read_parquet d p) (\<lambda>f.
         if py_lower layer = ''normalized'' \<and> py_lower instrument = ''equities'' \<and>
            ''trade_date'' \<in> set (fr_columns f)
         then lift_res (parse_dates pd f) else return_st f) s)"

definition dataframe_archive_exists :: "path \<Rightarrow> string \<Rightarrow> string \<Rightarrow> string \<Rightarrow> string \<Rightarrow> bool io" where
  "dataframe_archive_exists base source instrument run_id layer =
     bind_st (lift_res (archive_path layer source instrument run_id base)) (\<lambda>p s. (Inr (file_exists p s), s))"

subsection \<open>The canonical form of bars\<close>

definition lake_columns :: "string list" where
  "lake_columns = [''symbol'', ''trade_date'', ''open'', ''high'', ''low'', ''close'', ''volume'']"

definition lake_numbers :: "string list" where
  "lake_numbers = [''open'', ''high'', ''low'', ''close'', ''volume'']"

definition coerced_number :: "cell_parsers \<Rightarrow> pyval \<Rightarrow> pyval" where
  "coerced_number pd v = (case pd_number pd v of Inl _ \<Rightarrow> PFloat NaN | Inr x \<Rightarrow> PFloat x)"

definition normalized_row :: "runtime \<Rightarrow> cell_parsers \<Rightarrow> frame \<Rightarrow> pyval list \<Rightarrow> pyval list" where
  "normalized_row rt pd f r =
     (case text_cell rt (cell f r ''symbol'') of None \<Rightarrow> PNone | Some s \<Rightarrow> PStr (norm_name s)) #
     date_cell (coerced_date pd (cell f r ''trade_date'')) #
     map (\<lambda>c. coerced_number pd (cell f r c)) lake_numbers"

definition normalize_equity_dataframe :: "runtime \<Rightarrow> cell_parsers \<Rightarrow> frame \<Rightarrow> frame result" where
  "normalize_equity_dataframe rt pd f =
     (if absent_columns f lake_columns \<noteq> []
      then Inl (ValueError ''Equity data is missing required columns'')
      else Inr \<lparr>fr_columns = lake_columns, fr_numeric = lake_numbers,
                fr_rows = map (normalized_row rt pd f) (fr_rows f)\<rparr>)"

definition without_run_id :: "frame \<Rightarrow> frame" where
  "without_run_id f = drop_column f ''run_id''"

definition archive_equity_source :: "disk \<Rightarrow> runtime \<Rightarrow> cell_parsers \<Rightarrow> path \<Rightarrow> frame \<Rightarrow> string \<Rightarrow> string \<Rightarrow>
    bool \<Rightarrow> frame io" where
  "archive_equity_source d rt pd base f source run_id idempotent =
     bind_st (lift_res (archive_path ''raw'' source ''equities'' run_id base)) (\<lambda>raw_path.
     bind_st (\<lambda>s. if idempotent \<and> file_exists raw_path s
        then bind_st (read_dataframe d pd base source ''equities'' run_id ''raw'' None)
               (\<lambda>g. return_st (without_run_id g)) s
        else bind_st (write_dataframe d rt base f source ''equities'' run_id ''raw'') (\<lambda>_. return_st f) s) (\<lambda>raw.
     bind_st (lift_res (archive_path ''normalized'' source ''equities'' run_id base)) (\<lambda>norm_path s.
        if idempotent \<and> file_exists norm_path s
        then bind_st (read_dataframe d pd base source ''equities'' run_id ''normalized'' None)
               (\<lambda>g. return_st (without_run_id g)) s
        else bind_st (lift_res (normalize_equity_dataframe rt pd raw)) (\<lambda>n.
             bind_st (write_dataframe d rt base n source ''equities'' run_id ''normalized'') (\<lambda>_. return_st n)) s)))"

subsection \<open>Results\<close>

definition result_columns :: "string list" where
  "result_columns = [''symbol'', ''trade_date'', ''source_a'', ''source_b'', ''source_a_close'', ''source_b_close'',
     ''close_difference'', ''source_a_volume'', ''source_b_volume'', ''volume_difference'', ''status'',
     ''break_reason'']"

definition archive_reconciliation_results :: "disk \<Rightarrow> runtime \<Rightarrow> path \<Rightarrow> frame \<Rightarrow> string \<Rightarrow> bool \<Rightarrow> path io" where
  "archive_reconciliation_results d rt base f run_id idempotent =
     (if absent_columns f result_columns \<noteq> []
      then fail_st (ValueError ''Reconciliation data is missing required columns'')
      else bind_st (lift_res (reconciliation_path run_id base)) (\<lambda>p s.
           if idempotent \<and> file_exists p s then (Inr p, s)
           else bind_st (lift_res (bind_res (select_columns f result_columns) (\<lambda>g. with_run_id rt g run_id)))
                  (\<lambda>g. write_parquet_once d g p) s))"

definition read_reconciliation_results :: "disk \<Rightarrow> cell_parsers \<Rightarrow> path \<Rightarrow> string \<Rightarrow> frame io" where
  "read_reconciliation_results d pd base run_id =
     bind_st (lift_res (reconciliation_path run_id base)) (\<lambda>p s.
       if \<not> file_exists p s then (Inr (empty_frame (result_columns @ [''run_id''])), s)
       else bind_st (read_parquet d p) (\<lambda>f.
              if ''trade_date'' \<in> set (fr_columns f) then lift_res (parse_dates pd f)
              else fail_st (KeyError ''trade_date'')) s)"

subsection \<open>Work partitions\<close>

definition partition_frame :: "frame \<Rightarrow> work_partition \<Rightarrow> frame" where
  "partition_frame f p = set_column (set_column (set_column (set_column f
     ''run_id'' (PStr (wp_run_id p))) ''partition_id'' (PStr (wp_id p))) ''provider'' (PStr (wp_provider p)))
     ''symbol_bucket'' (PInt (int (wp_bucket p)))"

definition write_partition_once :: "disk \<Rightarrow> runtime \<Rightarrow> path \<Rightarrow> frame \<Rightarrow> work_partition \<Rightarrow> string \<Rightarrow> path io" where
  "write_partition_once d rt base f p layer =
     bind_st (lift_res (partition_archive_path rt p layer base)) (write_parquet_once d (partition_frame f p))"

definition read_partition :: "disk \<Rightarrow> runtime \<Rightarrow> path \<Rightarrow> work_partition \<Rightarrow> string \<Rightarrow> frame option io" where
  "read_partition d rt base p layer =
     bind_st (lift_res (partition_archive_path rt p layer base)) (\<lambda>q s.
       if \<not> file_exists q s then (Inr None, s)
       else bind_st (read_parquet d q) (\<lambda>f. return_st (Some f)) s)"

subsection \<open>Files are never replaced\<close>

datatype lake_op =
    WriteFrame frame string string string string
  | ReadFrame string string string string "string list option"
  | FrameExists string string string string
  | ArchiveSource frame string string bool
  | ArchiveResults frame string bool
  | ReadResults string
  | WritePartition frame work_partition string
  | ReadPartition work_partition string

definition void :: "('s, 'a) prog \<Rightarrow> ('s, unit) prog" where
  "void m = bind_st m (\<lambda>_. return_st ())"

fun run_op :: "disk \<Rightarrow> runtime \<Rightarrow> cell_parsers \<Rightarrow> path \<Rightarrow> lake_op \<Rightarrow> unit io" where
  "run_op d rt pd base (WriteFrame f src ins run_id layer) = void (write_dataframe d rt base f src ins run_id layer)"
| "run_op d rt pd base (ReadFrame src ins run_id layer cs) = void (read_dataframe d pd base src ins run_id layer cs)"
| "run_op d rt pd base (FrameExists src ins run_id layer) = void (dataframe_archive_exists base src ins run_id layer)"
| "run_op d rt pd base (ArchiveSource f src run_id i) = void (archive_equity_source d rt pd base f src run_id i)"
| "run_op d rt pd base (ArchiveResults f run_id i) = void (archive_reconciliation_results d rt base f run_id i)"
| "run_op d rt pd base (ReadResults run_id) = void (read_reconciliation_results d pd base run_id)"
| "run_op d rt pd base (WritePartition f p layer) = void (write_partition_once d rt base f p layer)"
| "run_op d rt pd base (ReadPartition p layer) = void (read_partition d rt base p layer)"

text \<open>A sequence of operations of independent callers: the next one runs whether or not one has raised.\<close>

definition run_ops :: "disk \<Rightarrow> runtime \<Rightarrow> cell_parsers \<Rightarrow> path \<Rightarrow> lake_op list \<Rightarrow> lake \<Rightarrow> lake" where
  "run_ops d rt pd base ops s = fold (\<lambda>op s. snd (run_op d rt pd base op s)) ops s"

definition grows :: "lake \<Rightarrow> lake \<Rightarrow> bool" where
  "grows s s' \<longleftrightarrow> lk_files s \<subseteq>\<^sub>m lk_files s'"

lemma grows_order [simp]: "reflp grows" "transp grows"
  by (auto simp: grows_def reflp_def transp_def intro: map_le_trans)

lemmas grows_steps = steps_by_bind [OF grows_order(2)] steps_by_pure [OF grows_order(1)]

lemma grows_write: "steps_by grows (write_parquet_once d f p)"
  by (rule steps_byI)
     (auto simp: write_parquet_once_def grows_def file_exists_def map_le_def Let_def
       split: if_splits write_outcome.splits)

lemma grows_read: "steps_by grows (read_parquet d p)"
  by (rule steps_byI)
     (auto simp: read_parquet_def grows_def Let_def split: option.splits archive_file.splits)

lemma grows_if:
  "(\<And>s. b s \<Longrightarrow> steps_by grows m) \<Longrightarrow> (\<And>s. \<not> b s \<Longrightarrow> steps_by grows n) \<Longrightarrow>
   steps_by grows (\<lambda>s. if b s then m s else n s)"
  by (rule steps_byI) (metis steps_byD)

lemma grows_same: "steps_by grows (\<lambda>s. (f s, s))"
  by (rule steps_byI) (simp add: grows_def)

lemmas grows_intros = grows_steps grows_write grows_read grows_if grows_same

lemma grows_write_dataframe: "steps_by grows (write_dataframe d rt base f src ins run_id layer)"
  unfolding write_dataframe_def by (intro grows_intros)

lemma grows_read_dataframe: "steps_by grows (read_dataframe d pd base src ins run_id layer cs)"
  unfolding read_dataframe_def Let_def by (intro grows_intros) (simp_all add: grows_intros)

lemma grows_archive_source: "steps_by grows (archive_equity_source d rt pd base f src run_id i)"
  unfolding archive_equity_source_def by (intro grows_intros grows_write_dataframe grows_read_dataframe)

lemma grows_other_ops:
  "steps_by grows (dataframe_archive_exists base src ins run_id layer)"
  "steps_by grows (archive_reconciliation_results d rt base f run_id i)"
  "steps_by grows (read_reconciliation_results d pd base run_id)"
  "steps_by grows (write_partition_once d rt base f p layer)"
  "steps_by grows (read_partition d rt base p layer)"
  by (simp_all add: dataframe_archive_exists_def archive_reconciliation_results_def read_reconciliation_results_def
        write_partition_once_def read_partition_def grows_intros)

lemma grows_op: "steps_by grows (run_op d rt pd base op)"
  by (cases op) (simp_all add: void_def grows_intros grows_write_dataframe grows_read_dataframe
    grows_archive_source grows_other_ops)

lemma grows_ops: "grows s (run_ops d rt pd base ops s)"
  unfolding run_ops_def
proof (induction ops arbitrary: s)
  case Nil
  then show ?case by (simp add: grows_def)
next
  case (Cons op ops)
  have "grows s (snd (run_op d rt pd base op s))" by (rule steps_byD [OF grows_op]) (rule prod.collapse [symmetric])
  with Cons.IH show ?case by (auto intro: transpD [OF grows_order(2)])
qed

text \<open>C4 (archives_immutable): whatever sequence of writes, reads and archive calls runs, and whatever the
  disk does to each of them, a file that is in the archive stays there with its content: nothing is
  overwritten and nothing is deleted.\<close>

theorem archives_immutable:
  "lk_files s \<subseteq>\<^sub>m lk_files (run_ops d rt pd base ops s)"
  using grows_ops by (simp add: grows_def)

subsection \<open>Paths do not collide\<close>

lemma archive_path_Inr:
  assumes "archive_path layer src ins run_id base = Inr p"
  shows "p = below base [py_lower layer, py_upper src, py_lower ins, ''run_id='' @ run_id, layer_file (py_lower layer)]"
    and "py_lower layer \<in> {''raw'', ''normalized''}" and "py_upper src \<in> {''YAHOO'', ''ALPACA'', ''MASSIVE''}"
    and "py_lower ins \<noteq> []" and "run_id \<noteq> []" and "list_all partition_char run_id"
    and "list_all partition_char (py_lower ins)"
  using assms by (simp_all add: archive_path_def validate_partition_value_def Let_def res_simps split: if_splits)

lemma partition_text: "list_all partition_char s \<Longrightarrow> CHR ''/'' \<notin> set s"
proof -
  have "\<not> partition_char CHR ''/''" by code_simp
  then show "list_all partition_char s \<Longrightarrow> CHR ''/'' \<notin> set s" by (auto simp: list_all_iff)
qed

text \<open>Two archives of the same data root have the same path only when their
  layer, source, instrument (up to case) and run are the same, so no provider or run can find the
  archive of another one at its place.\<close>

theorem archive_paths_injective:
  assumes "archive_path layer src ins run_id base = Inr p" and "archive_path layer' src' ins' run_id' base = Inr p"
  shows "py_lower layer = py_lower layer' \<and> py_upper src = py_upper src' \<and> py_lower ins = py_lower ins' \<and>
    run_id = run_id'"
proof -
  note a = archive_path_Inr [OF assms(1)] and b = archive_path_Inr [OF assms(2)]
  have keep: "concat (map components [l, u, i, ''run_id='' @ r, layer_file l]) =
      [l, u] @ components i @ [''run_id='' @ r, layer_file l]"
    if "l \<in> {''raw'', ''normalized''}" "u \<in> {''YAHOO'', ''ALPACA'', ''MASSIVE''}" "list_all partition_char r" for l u i r
  proof -
    have "components (''run_id='' @ r) = [''run_id='' @ r]"
      using partition_text [OF that(3)] by (simp add: components_def split_on_single)
    with that(1,2) show ?thesis by (auto simp: layer_file_def components_def split_on_single)
  qed
  have "[py_lower layer, py_upper src] @ components (py_lower ins) @ [''run_id='' @ run_id, layer_file (py_lower layer)] =
     [py_lower layer', py_upper src'] @ components (py_lower ins') @ [''run_id='' @ run_id', layer_file (py_lower layer')]"
    using a(1) b(1) unfolding below_def keep [OF a(2,3,6)] keep [OF b(2,3,6)] by simp
  then have "py_lower layer = py_lower layer'" "py_upper src = py_upper src'" "components (py_lower ins) = components (py_lower ins')"
      "run_id = run_id'"
    by auto
  moreover from this(3) a(4,7) b(4,7) have "py_lower ins = py_lower ins'"
    using partition_text by (auto simp: components_def split_on_single split: if_splits)
  ultimately show ?thesis by blast
qed

lemma archive_paths_injective_witness:
  "\<exists>p. archive_path ''RAW'' ''yahoo'' ''equities'' ''r1'' [''data''] = Inr p \<and>
     archive_path ''raw'' ''Yahoo'' ''equities'' ''r1'' [''data''] = Inr p \<and> py_upper ''yahoo'' = py_upper ''Yahoo''"
proof -
  have p: "archive_path ''RAW'' ''yahoo'' ''equities'' ''r1'' [''data''] =
      Inr [''data'', ''raw'', ''YAHOO'', ''equities'', ''run_id=r1'', ''payload.parquet'']"
    "archive_path ''raw'' ''Yahoo'' ''equities'' ''r1'' [''data''] =
      Inr [''data'', ''raw'', ''YAHOO'', ''equities'', ''run_id=r1'', ''payload.parquet'']" by code_simp+
  from archive_paths_injective [OF p] p show ?thesis by blast
qed

subsection \<open>Reading back what was written\<close>

text \<open>
  What the code relies on when it archives canonical bars: the codec keeps columns, rows and every cell
  that is text, a number or missing, and returns a date as a value that the date parser reads as
  that date.
\<close>

fun plain_cell :: "pyval \<Rightarrow> bool" where
  "plain_cell PNone = True"
| "plain_cell (PStr s) = True"
| "plain_cell (PFloat x) = True"
| "plain_cell v = False"

locale codec =
  fixes unload :: "pyval \<Rightarrow> pyval" and codec :: "frame \<Rightarrow> frame" and parse :: "pyval \<Rightarrow> int option result"
  assumes codec_cells: "codec f = f\<lparr>fr_rows := map (map unload) (fr_rows f)\<rparr>"
    and unload_plain: "plain_cell v \<Longrightarrow> unload v = v"
    and parse_unload: "parse (unload (PDate n)) = Inr (Some n)"
    and parse_date: "parse (PDate n) = Inr (Some n)"
    and parse_missing: "parse PNone = Inr None"
begin

lemma parse_date_cell: "parse (unload (date_cell d)) = Inr d"
  using unload_plain [of PNone] by (cases d) (simp_all add: date_cell_def parse_unload parse_missing)

lemma restored_row:
  assumes "distinct cols" and "length r = length cols"
    and "\<And>k x. (k, x) \<in> set (zip cols r) \<Longrightarrow> k \<noteq> c \<Longrightarrow> plain_cell x"
  shows "map (\<lambda>(k, x). if k = c then dict_get PNone (zip cols r) c else x) (zip cols (map unload r)) = r"
proof (rule nth_equalityI)
  show "length (map (\<lambda>(k, x). if k = c then dict_get PNone (zip cols r) c else x) (zip cols (map unload r))) = length r"
    using assms(2) by simp
  fix i assume "i < length (map (\<lambda>(k, x). if k = c then dict_get PNone (zip cols r) c else x) (zip cols (map unload r)))"
  then have i: "i < length cols" "i < length r" using assms(2) by simp_all
  then have "(cols ! i, r ! i) \<in> set (zip cols r)" using assms(2) by (auto simp: set_zip)
  then have "cols ! i \<noteq> c \<Longrightarrow> unload (r ! i) = r ! i" using assms(3) unload_plain by blast
  moreover have "cols ! i = c \<Longrightarrow> dict_get PNone (zip cols r) c = r ! i"
    using map_of_zip_nth [OF assms(2) [symmetric] assms(1) i(2)] by simp
  ultimately show "map (\<lambda>(k, x). if k = c then dict_get PNone (zip cols r) c else x) (zip cols (map unload r)) ! i = r ! i"
    using i by simp
qed

lemma parse_dates_codec:
  assumes "frame_ok f" and "\<And>r. r \<in> set (fr_rows f) \<Longrightarrow> \<exists>d. cell f r ''trade_date'' = date_cell d"
    and "\<And>r k x. r \<in> set (fr_rows f) \<Longrightarrow> (k, x) \<in> set (zip (fr_columns f) r) \<Longrightarrow> k \<noteq> ''trade_date'' \<Longrightarrow> plain_cell x"
    and "''trade_date'' \<in> set (fr_columns f)"
  shows "bind_res (map_res parse (column (codec f) ''trade_date'')) (\<lambda>ds.
    Inr (replace_column (codec f) ''trade_date'' (map date_cell ds))) = Inr f"
proof -
  let ?c = "''trade_date''"
  have cols: "fr_columns (codec f) = fr_columns f" "fr_rows (codec f) = map (map unload) (fr_rows f)"
    by (simp_all add: codec_cells)
  have stored: "cell (codec f) (map unload r) ?c = unload (cell f r ?c)" if "r \<in> set (fr_rows f)" for r
  proof -
    obtain i where i: "i < length (fr_columns f)" "fr_columns f ! i = ?c" using assms(4) by (auto simp: in_set_conv_nth)
    have l: "length (fr_columns f) = length r" "distinct (fr_columns f)" using assms(1) that by (simp_all add: frame_ok_def)
    then show ?thesis
      using map_of_zip_nth [OF l, of i] map_of_zip_nth [of "fr_columns f" "map unload r" i] i
      by (simp add: cell_def cols)
  qed
  have "\<exists>ds. map_res parse (map (\<lambda>r. cell (codec f) r ?c) (map (map unload) rs)) = Inr ds \<and>
      map date_cell ds = map (\<lambda>r. cell f r ?c) rs" if "set rs \<subseteq> set (fr_rows f)" for rs
    using that
  proof (induction rs)
    case (Cons r rs)
    then obtain ds where ds: "map_res parse (map (\<lambda>r. cell (codec f) r ?c) (map (map unload) rs)) = Inr ds"
      "map date_cell ds = map (\<lambda>r. cell f r ?c) rs" by auto
    from Cons.prems have r: "r \<in> set (fr_rows f)" by simp
    with assms(2) obtain d where "cell f r ?c = date_cell d" by blast
    with ds stored [OF r] show ?case by (auto simp: parse_date_cell res_simps intro!: exI [of _ "d # ds"])
  qed simp
  from this [OF subset_refl] obtain ds where
    ds: "map_res parse (column (codec f) ?c) = Inr ds" "map date_cell ds = map (\<lambda>r. cell f r ?c) (fr_rows f)"
    by (auto simp: column_def cols)
  have "map (\<lambda>(r, v). map (\<lambda>(k, x). if k = ?c then v else x) (zip (fr_columns f) r))
      (zip (map (map unload) rs) (map (\<lambda>r. cell f r ?c) rs)) = rs" if "set rs \<subseteq> set (fr_rows f)" for rs
    using that
  proof (induction rs)
    case (Cons r rs)
    have "map (\<lambda>(k, x). if k = ?c then cell f r ?c else x) (zip (fr_columns f) (map unload r)) = r"
      unfolding cell_def
      by (rule restored_row) (use assms(1,3) Cons.prems in \<open>auto simp: frame_ok_def\<close>)
    with Cons show ?case by simp
  qed simp
  from this [OF subset_refl] have "replace_column (codec f) ?c (map date_cell ds) = f"
    unfolding ds(2) replace_column_def cols by (simp add: codec_cells)
  with ds(1) show ?thesis by simp
qed

end

text \<open>A concrete codec: a date comes back as the datetime of its midnight.\<close>

definition midnight :: "pyval \<Rightarrow> pyval" where
  "midnight v = (case v of PDate n \<Rightarrow> PTime (Datetime (n * 86400000000) None) | _ \<Rightarrow> v)"

definition midnight_codec :: "frame \<Rightarrow> frame" where
  "midnight_codec f = f\<lparr>fr_rows := map (map midnight) (fr_rows f)\<rparr>"

definition midnight_parse :: "pyval \<Rightarrow> int option result" where
  "midnight_parse v = (case v of
     PTime t \<Rightarrow> Inr (Some ((clock_us t - (case offset_us t of None \<Rightarrow> 0 | Some off \<Rightarrow> off)) div 86400000000))
   | PDate n \<Rightarrow> Inr (Some n) | PNone \<Rightarrow> Inr None | _ \<Rightarrow> Inl (ValueError ''date''))"

interpretation midnight: codec midnight midnight_codec midnight_parse
  by unfold_locales (auto simp: midnight_codec_def midnight_def midnight_parse_def elim: plain_cell.elims)

subsection \<open>Archiving again\<close>

lemma py_lower_idem [simp]: "py_lower (py_lower s) = py_lower s"
proof -
  have "low_char (low_char c) = low_char c" for c by (auto simp: low_char_def Let_def)
  then show ?thesis by (simp add: py_lower_def)
qed

lemma archive_path_folded [simp]:
  "archive_path layer (py_upper src) (py_lower ins) run_id base = archive_path layer src ins run_id base"
  by (simp add: archive_path_def)

definition loaded :: "disk \<Rightarrow> cell_parsers \<Rightarrow> string \<Rightarrow> string \<Rightarrow> frame \<Rightarrow> frame result" where
  "loaded d pd layer ins x =
     (if py_lower layer = ''normalized'' \<and> py_lower ins = ''equities'' \<and> ''trade_date'' \<in> set (fr_columns (parquet d x))
      then parse_dates pd (parquet d x) else Inr (parquet d x))"

lemma read_dataframe_Inr:
  assumes "archive_path layer src ins run_id base = Inr p" and "file_exists p s"
    and "read_dataframe d pd base src ins run_id layer cs s = (Inr h, s')"
  shows "\<exists>x. lk_files s p = Some (Whole x) \<and> lk_files s' = lk_files s \<and> loaded d pd layer ins x = Inr h"
  using assms
  by (auto simp: read_dataframe_def Let_def bind_st_def st_simps read_parquet_def loaded_def
      split: option.splits archive_file.splits if_splits prod.splits sum.splits)

lemma read_dataframe_Whole:
  assumes "archive_path layer src ins run_id base = Inr p" and "lk_files s p = Some (Whole x)"
    and "loaded d pd layer ins x = Inr h" and "on_read d (lk_steps s) = None"
  shows "read_dataframe d pd base src ins run_id layer cs s = (Inr h, s\<lparr>lk_steps := lk_steps s + 1\<rparr>)"
  using assms
  by (auto simp: read_dataframe_def Let_def bind_st_def st_simps read_parquet_def loaded_def file_exists_def
      split: if_splits)

lemma write_dataframe_Inr:
  assumes "write_dataframe d rt base f src ins run_id layer s = (Inr q, s')"
    and "archive_path layer src ins run_id base = Inr p"
  shows "\<exists>g. with_run_id rt f run_id = Inr g \<and> lk_files s' = (lk_files s)(p \<mapsto> Whole g)"
proof -
  have "validate_partition_value ''run_id'' run_id = Inr run_id"
    using archive_path_Inr(5,6) [OF assms(2)] by (simp add: validate_partition_value_def)
  with assms show ?thesis
    by (auto simp: write_dataframe_def bind_st_def st_simps write_parquet_once_def Let_def
        split: if_splits write_outcome.splits sum.splits)
qed

lemma normalize_canonical:
  assumes "normalize_equity_dataframe rt pd f = Inr n"
  shows "frame_ok n" and "fr_columns n = lake_columns" and "fr_numeric n = lake_numbers"
    and "r \<in> set (fr_rows n) \<Longrightarrow> \<exists>s dt x h l c v. r = [s, date_cell dt, PFloat x, PFloat h, PFloat l, PFloat c, PFloat v]
      \<and> plain_cell s"
proof -
  have n: "n = \<lparr>fr_columns = lake_columns, fr_numeric = lake_numbers, fr_rows = map (normalized_row rt pd f) (fr_rows f)\<rparr>"
    using assms by (simp add: normalize_equity_dataframe_def split: if_splits)
  then show "fr_columns n = lake_columns" "fr_numeric n = lake_numbers" by simp_all
  have num: "\<exists>x. coerced_number pd v = PFloat x" for v by (simp add: coerced_number_def split: sum.split)
  have "\<exists>s dt x h l c v. normalized_row rt pd f r = [s, date_cell dt, PFloat x, PFloat h, PFloat l, PFloat c, PFloat v]
      \<and> plain_cell s" for r
    using num [of "cell f r ''open''"] num [of "cell f r ''high''"] num [of "cell f r ''low''"]
      num [of "cell f r ''close''"] num [of "cell f r ''volume''"]
    by (auto simp: normalized_row_def lake_numbers_def split: option.split)
  then show "r \<in> set (fr_rows n) \<Longrightarrow> \<exists>s dt x h l c v. r = [s, date_cell dt, PFloat x, PFloat h, PFloat l, PFloat c, PFloat v]
      \<and> plain_cell s" by (auto simp: n)
  show "frame_ok n" by (auto simp: n frame_ok_def lake_columns_def normalized_row_def lake_numbers_def)
qed

lemma canonical_reads_back:
  assumes "codec unload (parquet d) (pd_date pd)" and "normalize_equity_dataframe rt pd f = Inr n"
    and "with_run_id rt n run_id = Inr g"
  shows "loaded d pd ''normalized'' ''equities'' g = Inr g" and "without_run_id g = n"
proof -
  note n = normalize_canonical [OF assms(2)]
  have fresh: "''run_id'' \<notin> set (fr_columns n)" "''run_id'' \<notin> set (fr_numeric n)"
    by (simp_all add: n(2,3) lake_columns_def lake_numbers_def)
  then have g: "g = set_column n ''run_id'' (PStr run_id)" using assms(3) by (simp add: with_run_id_def)
  show "without_run_id g = n" unfolding g without_run_id_def by (rule drop_set_column [OF n(1) fresh])
  have cols: "fr_columns g = lake_columns @ [''run_id'']" "fr_rows g = map (\<lambda>r. r @ [PStr run_id]) (fr_rows n)"
    using fresh by (simp_all add: g set_column_def n(2))
  have row: "\<exists>s dt x h l c v. r = [s, date_cell dt, PFloat x, PFloat h, PFloat l, PFloat c, PFloat v, PStr run_id]
      \<and> plain_cell s" if "r \<in> set (fr_rows g)" for r
    using that n(4) by (fastforce simp: cols)
  have "bind_res (map_res (pd_date pd) (column (parquet d g) ''trade_date'')) (\<lambda>ds.
    Inr (replace_column (parquet d g) ''trade_date'' (map date_cell ds))) = Inr g"
  proof (rule codec.parse_dates_codec [OF assms(1)])
    show "frame_ok g" using row by (fastforce simp: frame_ok_def cols lake_columns_def)
    show "\<exists>d. cell g r ''trade_date'' = date_cell d" if "r \<in> set (fr_rows g)" for r
      using row [OF that] by (auto simp: cell_def cols lake_columns_def dict_get_def)
    show "plain_cell x" if "r \<in> set (fr_rows g)" "(k, x) \<in> set (zip (fr_columns g) r)" "k \<noteq> ''trade_date''" for r k x
      using row [OF that(1)] that(2,3) by (auto simp: cols lake_columns_def)
    show "''trade_date'' \<in> set (fr_columns g)" by (simp add: cols lake_columns_def)
  qed
  moreover have "''trade_date'' \<in> set (fr_columns (parquet d g))"
    using codec.codec_cells [OF assms(1)] by (simp add: cols lake_columns_def)
  moreover have "py_lower ''normalized'' = ''normalized''" "py_lower ''equities'' = ''equities''" by code_simp+
  ultimately show "loaded d pd ''normalized'' ''equities'' g = Inr g" by (simp add: loaded_def parse_dates_def)
qed

text \<open>What a successful call leaves in the archive.\<close>

definition archived_as :: "disk \<Rightarrow> cell_parsers \<Rightarrow> path \<Rightarrow> string \<Rightarrow> string \<Rightarrow> frame \<Rightarrow> lake \<Rightarrow> bool" where
  "archived_as d pd base src run_id n s \<longleftrightarrow>
     (\<exists>p q x y h. archive_path ''raw'' src ''equities'' run_id base = Inr p \<and>
        archive_path ''normalized'' src ''equities'' run_id base = Inr q \<and>
        lk_files s p = Some (Whole x) \<and> lk_files s q = Some (Whole y) \<and>
        loaded d pd ''normalized'' ''equities'' y = Inr h \<and> without_run_id h = n)"

lemma archive_source_Inr:
  assumes "codec unload (parquet d) (pd_date pd)"
    and "archive_equity_source d rt pd base f src run_id i s = (Inr n, s')"
  shows "archived_as d pd base src run_id n s'"
proof -
  from assms(2) obtain p q raw s1 where p: "archive_path ''raw'' src ''equities'' run_id base = Inr p"
    and q: "archive_path ''normalized'' src ''equities'' run_id base = Inr q"
    and 1: "(if i \<and> file_exists p s
        then bind_st (read_dataframe d pd base src ''equities'' run_id ''raw'' None) (\<lambda>g. return_st (without_run_id g)) s
        else bind_st (write_dataframe d rt base f src ''equities'' run_id ''raw'') (\<lambda>_. return_st f) s) = (Inr raw, s1)"
    and 2: "(if i \<and> file_exists q s1
        then bind_st (read_dataframe d pd base src ''equities'' run_id ''normalized'' None)
               (\<lambda>g. return_st (without_run_id g)) s1
        else bind_st (lift_res (normalize_equity_dataframe rt pd raw)) (\<lambda>n.
             bind_st (write_dataframe d rt base n src ''equities'' run_id ''normalized'') (\<lambda>_. return_st n)) s1)
        = (Inr n, s')"
    unfolding archive_equity_source_def
    by (auto simp: bind_st_def st_simps split: sum.splits prod.splits)
  have "\<exists>x. lk_files s1 p = Some (Whole x)"
  proof (cases "i \<and> file_exists p s")
    case True
    with 1 obtain h where "read_dataframe d pd base src ''equities'' run_id ''raw'' None s = (Inr h, s1)"
      by (auto simp: bind_st_def st_simps split: sum.splits prod.splits)
    with True read_dataframe_Inr [OF p] show ?thesis by fastforce
  next
    case False
    with 1 obtain r where "write_dataframe d rt base f src ''equities'' run_id ''raw'' s = (Inr r, s1)"
      by (auto simp: bind_st_def st_simps split: sum.splits prod.splits)
    with write_dataframe_Inr [OF _ p] show ?thesis by fastforce
  qed
  then obtain x where x: "lk_files s1 p = Some (Whole x)" by blast
  have "grows s1 s'"
    using 2 grows_write_dataframe grows_read_dataframe
    by (auto simp: bind_st_def st_simps steps_by_def split: sum.splits prod.splits if_splits)
  with x have "lk_files s' p = Some (Whole x)" by (auto simp: grows_def map_le_def dom_def)
  moreover have "\<exists>y h. lk_files s' q = Some (Whole y) \<and> loaded d pd ''normalized'' ''equities'' y = Inr h \<and>
      without_run_id h = n"
  proof (cases "i \<and> file_exists q s1")
    case True
    with 2 obtain h where "read_dataframe d pd base src ''equities'' run_id ''normalized'' None s1 = (Inr h, s')"
      "without_run_id h = n" by (auto simp: bind_st_def st_simps split: sum.splits prod.splits)
    with True read_dataframe_Inr [OF q] show ?thesis by fastforce
  next
    case False
    with 2 obtain r where "normalize_equity_dataframe rt pd raw = Inr n"
      "write_dataframe d rt base n src ''equities'' run_id ''normalized'' s1 = (Inr r, s')"
      by (auto simp: bind_st_def st_simps split: sum.splits prod.splits)
    with write_dataframe_Inr [OF _ q] canonical_reads_back [OF assms(1)] show ?thesis by fastforce
  qed
  ultimately show ?thesis using p q by (auto simp: archived_as_def)
qed

lemma archived_as_again:
  assumes "archived_as d pd base src run_id n s" and "\<And>k. on_read d k = None"
  shows "\<exists>s'. archive_equity_source d rt pd base f src run_id True s = (Inr n, s') \<and> lk_files s' = lk_files s"
proof -
  from assms(1) obtain p q x y h where p: "archive_path ''raw'' src ''equities'' run_id base = Inr p"
    and q: "archive_path ''normalized'' src ''equities'' run_id base = Inr q"
    and x: "lk_files s p = Some (Whole x)" and y: "lk_files s q = Some (Whole y)"
    and h: "loaded d pd ''normalized'' ''equities'' y = Inr h" "without_run_id h = n"
    by (auto simp: archived_as_def)
  have "py_lower ''raw'' \<noteq> ''normalized''" by code_simp
  then have l: "loaded d pd ''raw'' ''equities'' x = Inr (parquet d x)" by (simp add: loaded_def)
  let ?s = "s\<lparr>lk_steps := lk_steps s + 1\<rparr>"
  note r1 = read_dataframe_Whole [OF p x l assms(2), of None]
  have "lk_files ?s q = Some (Whole y)" using y by simp
  note r2 = read_dataframe_Whole [OF q this h(1) assms(2), of None]
  show ?thesis using p q x y h r1 r2
    by (simp add: archive_equity_source_def bind_st_def st_simps file_exists_def)
qed

text \<open>Once a provider's bars are archived, calling the idempotent archive step
  again for the same run, with any other data and after any other archive activity, returns exactly the
  canonical bars of the first time and leaves the archive as it is.\<close>

theorem rearchive_idempotent:
  assumes "codec unload (parquet d) (pd_date pd)" and "\<And>k. on_read d k = None"
    and "archive_equity_source d rt pd base f src run_id i s = (Inr n, s1)"
  shows "\<exists>s3. archive_equity_source d rt pd base g src run_id True (run_ops d rt pd base ops s1) = (Inr n, s3) \<and>
    lk_files s3 = lk_files (run_ops d rt pd base ops s1)"
proof -
  have "archived_as d pd base src run_id n s1" by (rule archive_source_Inr [OF assms(1,3)])
  moreover have "grows s1 (run_ops d rt pd base ops s1)" by (rule grows_ops)
  ultimately have "archived_as d pd base src run_id n (run_ops d rt pd base ops s1)"
    by (fastforce simp: archived_as_def grows_def map_le_def dom_def)
  then show ?thesis by (rule archived_as_again) (rule assms(2))
qed

text \<open>If the write of the raw file is cut off, the part that stays behind
  counts as an archive: every later call for this run and provider, idempotent or not, with whatever
  data, fails.  The archive step alone cannot recover.\<close>

theorem interrupted_archive_blocks:
  assumes "archive_path ''raw'' src ''equities'' run_id base = Inr p" and "\<not> file_exists p s"
    and "with_run_id rt f run_id = Inr g" and "on_write d (lk_steps s) = Cut e"
  shows "\<exists>s1. archive_equity_source d rt pd base f src run_id i s = (Inl e, s1) \<and>
    (\<forall>ops h j. \<exists>e'. fst (archive_equity_source d rt pd base h src run_id j (run_ops d rt pd base ops s1)) = Inl e')"
proof -
  have v: "validate_partition_value ''run_id'' run_id = Inr run_id"
    using archive_path_Inr(5,6) [OF assms(1)] by (simp add: validate_partition_value_def)
  let ?s = "s\<lparr>lk_steps := lk_steps s + 1, lk_files := (lk_files s)(p \<mapsto> Part)\<rparr>"
  have first: "archive_equity_source d rt pd base f src run_id i s = (Inl e, ?s)"
    using assms v by (simp add: archive_equity_source_def write_dataframe_def write_parquet_once_def bind_st_def
      st_simps Let_def)
  have "\<exists>e'. fst (archive_equity_source d rt pd base h src run_id j t) = Inl e'" if "grows ?s t" for h j t
  proof -
    have part: "lk_files t p = Some Part" using that by (auto simp: grows_def map_le_def dom_def)
    have "\<nexists>g u. read_dataframe d pd base src ''equities'' run_id ''raw'' None t = (Inr g, u)"
      using read_dataframe_Inr [OF assms(1)] part by (fastforce simp: file_exists_def)
    then have r: "\<exists>e' u. read_dataframe d pd base src ''equities'' run_id ''raw'' None t = (Inl e', u)"
      by (metis obj_sumE surj_pair)
    have "\<nexists>q u. write_dataframe d rt base h src ''equities'' run_id ''raw'' t = (Inr q, u)"
      using part v assms(1)
      by (auto simp: write_dataframe_def bind_st_def st_simps write_parquet_once_def file_exists_def split: sum.splits)
    then have w: "\<exists>e' u. write_dataframe d rt base h src ''equities'' run_id ''raw'' t = (Inl e', u)"
      by (metis obj_sumE surj_pair)
    show ?thesis using assms(1) part r w
      by (auto simp: archive_equity_source_def bind_st_def st_simps file_exists_def)
  qed
  with first grows_ops show ?thesis by blast
qed

subsection \<open>Sample data\<close>

definition sample_disk :: disk where
  "sample_disk = \<lparr>on_write = (\<lambda>n. Written), on_read = (\<lambda>n. None), parquet = midnight_codec\<rparr>"

definition cut_disk :: disk where
  "cut_disk = sample_disk\<lparr>on_write := (\<lambda>n. if n = 0 then Cut OSError else Written)\<rparr>"

definition midnight_parsers :: cell_parsers where
  "midnight_parsers = \<lparr>pd_date = midnight_parse, pd_number = (\<lambda>v. Inr (number_cell v))\<rparr>"

definition lake_bars :: frame where
  "lake_bars = \<lparr>fr_columns = lake_columns, fr_numeric = lake_numbers,
     fr_rows = [[PStr '' aapl'', PDate 5, PFloat (Fin 1), PFloat (Fin 2), PFloat (Fin 1), PFloat (Fin 2), PFloat (Fin 9)]]\<rparr>"

definition empty_lake :: lake where
  "empty_lake = \<lparr>lk_files = (\<lambda>p. None), lk_steps = 0\<rparr>"

lemma rearchive_idempotent_witness:
  "\<exists>n s1 s3. archive_equity_source sample_disk sample_runtime midnight_parsers [''data''] lake_bars ''yahoo'' ''r1''
      False empty_lake = (Inr n, s1) \<and>
    archive_equity_source sample_disk sample_runtime midnight_parsers [''data''] (empty_frame []) ''yahoo'' ''r1'' True
      (run_ops sample_disk sample_runtime midnight_parsers [''data''] [ReadResults ''r1''] s1) = (Inr n, s3)"
proof -
  have "is_ok (fst (archive_equity_source sample_disk sample_runtime midnight_parsers [''data''] lake_bars ''yahoo'' ''r1''
      False empty_lake))" by code_simp
  then obtain n s1 where n: "archive_equity_source sample_disk sample_runtime midnight_parsers [''data''] lake_bars
      ''yahoo'' ''r1'' False empty_lake = (Inr n, s1)" by (metis is_ok_iff surj_pair fst_conv)
  have "codec midnight (parquet sample_disk) (pd_date midnight_parsers)" "\<And>k. on_read sample_disk k = None"
    using midnight.codec_axioms by (simp_all add: sample_disk_def midnight_parsers_def)
  from rearchive_idempotent [OF this n] n show ?thesis by blast
qed

lemma interrupted_archive_blocks_witness:
  "\<exists>s1. archive_equity_source cut_disk sample_runtime midnight_parsers [''data''] lake_bars ''yahoo'' ''r1'' True empty_lake
      = (Inl OSError, s1) \<and>
    (\<exists>e. fst (archive_equity_source cut_disk sample_runtime midnight_parsers [''data''] lake_bars ''yahoo'' ''r1'' True
      (run_ops cut_disk sample_runtime midnight_parsers [''data''] [] s1)) = Inl e)"
proof -
  have p: "archive_path ''raw'' ''yahoo'' ''equities'' ''r1'' [''data''] =
      Inr [''data'', ''raw'', ''YAHOO'', ''equities'', ''run_id=r1'', ''payload.parquet'']" by code_simp
  have e: "\<not> file_exists q empty_lake" for q by (simp add: file_exists_def empty_lake_def)
  have w: "with_run_id sample_runtime lake_bars ''r1'' = Inr (set_column lake_bars ''run_id'' (PStr ''r1''))"
    by (simp add: with_run_id_def lake_bars_def lake_columns_def)
  have c: "on_write cut_disk (lk_steps empty_lake) = Cut OSError" by (simp add: cut_disk_def empty_lake_def)
  from interrupted_archive_blocks [OF p e w c] show ?thesis by blast
qed

end
