(* ===== verification/Ingestion.thy ===== *)
theory Ingestion
  imports Lake Equities Persistence
begin

section \<open>Checkpointed ingestion of equity partitions\<close>

text \<open>
  \<open>scaling/equity_ingestion.py\<close> over the archive and the store: a partition is fetched, archived raw,
  normalized, validated and archived normalized, and any of these steps may fail; a partition with a
  normalized archive is not fetched again.  The threads of the pool work on partitions one after the
  other in the order in which they complete, an argument of the model; spans, metrics of the telemetry
  and log lines are left out.  \<open>providers.py\<close> gives the adapter that fetches symbol by symbol.
\<close>

text \<open>\<open>pd.concat(frames, ignore_index=True)\<close>: the columns in order of appearance, missing cells empty.\<close>

definition concat_frames :: "frame list \<Rightarrow> frame result" where
  "concat_frames fs =
     (if fs = [] then Inl (ValueError ''No objects to concatenate'')
      else let cols = uniq (concat (map fr_columns fs)) in
        Inr \<lparr>fr_columns = cols,
          fr_numeric = filter (\<lambda>c. list_all (\<lambda>f. c \<in> set (fr_columns f) \<longrightarrow> c \<in> set (fr_numeric f)) fs) cols,
          fr_rows = concat (map (\<lambda>f. map (\<lambda>r. map (cell f r) cols) (fr_rows f)) fs)\<rparr>)"

type_synonym fetcher = "string list \<Rightarrow> int \<Rightarrow> int \<Rightarrow> frame result"

definition adapter_fetch :: "(string \<Rightarrow> int \<Rightarrow> int \<Rightarrow> frame result) \<Rightarrow> fetcher" where
  "adapter_fetch fetch_symbol symbols start stop =
     bind_res (map_res (\<lambda>s. fetch_symbol s start stop) symbols) (\<lambda>frames.
     if frames = [] then Inr (empty_frame []) else concat_frames frames)"

subsection \<open>One partition\<close>

record partition_outcome =
  po_partition :: work_partition
  po_frame :: "frame option"
  po_latency :: pyfloat
  po_reused :: bool
  po_error :: "exn option"
  po_raw_path :: "path option"

record job =
  jb_disk :: disk
  jb_runtime :: runtime
  jb_parsers :: cell_parsers
  jb_base :: path
  jb_start :: int
  jb_stop :: int
  jb_elapsed :: "work_partition \<Rightarrow> pyfloat"

definition canonical_from_archive :: "frame \<Rightarrow> frame result" where
  "canonical_from_archive f = select_columns f lake_columns"

text \<open>The body of the \<open>try\<close>.\<close>

definition attempt_partition :: "job \<Rightarrow> fetcher \<Rightarrow> work_partition \<Rightarrow> frame io" where
  "attempt_partition j fetch p =
     bind_st (read_partition (jb_disk j) (jb_runtime j) (jb_base j) p ''raw'') (\<lambda>stored.
     bind_st (case stored of
         Some raw \<Rightarrow> return_st raw
       | None \<Rightarrow> bind_st (lift_res (fetch (wp_symbols p) (jb_start j) (jb_stop j))) (\<lambda>raw.
           bind_st (write_partition_once (jb_disk j) (jb_runtime j) (jb_base j) raw p ''raw'') (\<lambda>_. return_st raw))) (\<lambda>raw.
     bind_st (lift_res (normalize_equity_dataframe (jb_runtime j) (jb_parsers j) raw)) (\<lambda>canonical.
     bind_st (lift_res (validate_equity_bars (jb_runtime j) (jb_parsers j) canonical)) (\<lambda>_.
     bind_st (write_partition_once (jb_disk j) (jb_runtime j) (jb_base j) canonical p ''normalized'') (\<lambda>_.
     return_st canonical)))))"

definition execute_partition :: "job \<Rightarrow> fetcher \<Rightarrow> work_partition \<Rightarrow> partition_outcome io" where
  "execute_partition j fetch p =
     bind_st (read_partition (jb_disk j) (jb_runtime j) (jb_base j) p ''normalized'') (\<lambda>norm.
     case norm of
       Some f \<Rightarrow> bind_st (lift_res (canonical_from_archive f)) (\<lambda>g. return_st
         \<lparr>po_partition = p, po_frame = Some g, po_latency = Fin 0, po_reused = True, po_error = None,
          po_raw_path = None\<rparr>)
     | None \<Rightarrow> bind_st (lift_res (partition_archive_path (jb_runtime j) p ''raw'' (jb_base j))) (\<lambda>raw_path s.
         let stored = file_exists raw_path s; latency = (if stored then Fin 0 else jb_elapsed j p) in
         case attempt_partition j fetch p s of
           (Inr f, s') \<Rightarrow> (Inr \<lparr>po_partition = p, po_frame = Some f, po_latency = latency, po_reused = stored,
              po_error = None, po_raw_path = Some raw_path\<rparr>, s')
         | (Inl e, s') \<Rightarrow> (Inr \<lparr>po_partition = p, po_frame = None, po_latency = latency,
              po_reused = file_exists raw_path s', po_error = Some e,
              po_raw_path = (if file_exists raw_path s' then Some raw_path else None)\<rparr>, s')))"

subsection \<open>The pool\<close>

type_synonym adapters = "(string \<times> fetcher) list"

text \<open>Every submitted partition runs, also after another one has raised; the exceptions that escape a
  worker are raised when its result is asked for.\<close>

fun execute_all :: "job \<Rightarrow> adapters \<Rightarrow> work_partition list \<Rightarrow> lake \<Rightarrow> partition_outcome result list \<times> lake" where
  "execute_all j ads [] s = ([], s)"
| "execute_all j ads (p # ps) s =
     (case execute_partition j (the (map_of ads (wp_provider p))) p s of
        (r, s1) \<Rightarrow> (case execute_all j ads ps s1 of (rs, s2) \<Rightarrow> (r # rs, s2)))"

definition adapted :: "adapters \<Rightarrow> work_partition \<Rightarrow> bool" where
  "adapted ads p \<longleftrightarrow> map_of ads (wp_provider p) \<noteq> None"

text \<open>\<open>adapters[partition.provider]\<close> is evaluated while the partitions are submitted.\<close>

definition run_pool :: "job \<Rightarrow> adapters \<Rightarrow> (work_partition list \<Rightarrow> work_partition list) \<Rightarrow> work_partition list \<Rightarrow>
    partition_outcome list io" where
  "run_pool j ads completed ps s =
     (case dropWhile (adapted ads) ps of
        [] \<Rightarrow> (case execute_all j ads (completed ps) s of (rs, s') \<Rightarrow> (map_res (\<lambda>r. r) rs, s'))
      | p # _ \<Rightarrow> (case execute_all j ads (completed (takeWhile (adapted ads) ps)) s of
          (rs, s') \<Rightarrow> (Inl (KeyError (wp_provider p)), s')))"

subsection \<open>Recording the outcomes\<close>

definition path_text :: "path \<Rightarrow> string" where
  "path_text p = join_with ''/'' p"

definition failed_outcome :: "partition_outcome \<Rightarrow> bool" where
  "failed_outcome oc \<longleftrightarrow> po_error oc \<noteq> None \<or> po_frame oc = None"

definition outcome_rows :: "partition_outcome \<Rightarrow> int" where
  "outcome_rows oc = (case po_frame oc of None \<Rightarrow> 0 | Some f \<Rightarrow> int (length (fr_rows f)))"

definition record_outcome :: "engine \<Rightarrow> runtime \<Rightarrow> partition_outcome \<Rightarrow> unit db" where
  "record_outcome eng rt oc =
     (let p = po_partition oc in
      if failed_outcome oc
      then bind_st (finish_work_partition eng rt (wp_id p) ''FAILED'' 0 (po_error oc)) (\<lambda>_.
           bind_st (record_provider_metric eng p 0 (po_latency oc) (po_reused oc) ''FAILED''
             (Some (case po_error oc of None \<Rightarrow> ''NoneType'' | Some e \<Rightarrow> exn_name e))) (\<lambda>_.
           record_quarantine eng rt p (case po_error oc of None \<Rightarrow> ''None'' | Some e \<Rightarrow> str_exn rt e)
             (map_option path_text (po_raw_path oc))))
      else bind_st (finish_work_partition eng rt (wp_id p) ''SUCCESS'' (outcome_rows oc) None) (\<lambda>_.
           record_provider_metric eng p (outcome_rows oc) (po_latency oc) (po_reused oc) ''SUCCESS'' None))"

definition provider_frame :: "partition_outcome list \<Rightarrow> string \<Rightarrow> frame result" where
  "provider_frame ocs provider =
     (let fs = map (\<lambda>oc. the (po_frame oc)) (filter (\<lambda>oc. \<not> failed_outcome oc \<and> wp_provider (po_partition oc) = provider) ocs) in
      if fs = [] then Inr (empty_frame lake_columns) else concat_frames fs)"

definition provider_frames :: "adapters \<Rightarrow> partition_outcome list \<Rightarrow> (string \<times> frame) list result" where
  "provider_frames ads ocs =
     map_res (\<lambda>(k, _). bind_res (provider_frame ocs k) (\<lambda>f. Inr (k, f))) ads"

record world =
  w_lake :: lake
  w_store :: store

definition in_lake :: "'a io \<Rightarrow> (world, 'a) prog" where
  "in_lake m w = (case m (w_lake w) of (r, l) \<Rightarrow> (r, w\<lparr>w_lake := l\<rparr>))"

definition in_store :: "'a db \<Rightarrow> (world, 'a) prog" where
  "in_store m w = (case m (w_store w) of (r, s) \<Rightarrow> (r, w\<lparr>w_store := s\<rparr>))"

definition mark_all :: "engine \<Rightarrow> work_partition list \<Rightarrow> unit db" where
  "mark_all eng ps = for_st (\<lambda>p. mark_partition_running eng (wp_id p)) ps"

definition finish_ingestion :: "engine \<Rightarrow> runtime \<Rightarrow> adapters \<Rightarrow> partition_outcome list \<Rightarrow> (world, (string \<times> frame) list) prog" where
  "finish_ingestion eng rt ads ocs =
     bind_st (in_store (for_st (record_outcome eng rt) ocs)) (\<lambda>_.
     let failures = filter failed_outcome ocs in
     if failures \<noteq> [] then fail_st (PartitionExecutionError (map (\<lambda>oc. wp_id (po_partition oc)) failures))
     else lift_res (provider_frames ads ocs))"

definition ingest_equity_partitions :: "engine \<Rightarrow> job \<Rightarrow> (work_partition list \<Rightarrow> work_partition list) \<Rightarrow> string \<Rightarrow> int \<Rightarrow>
    string list \<Rightarrow> adapters \<Rightarrow> int \<Rightarrow> int \<Rightarrow> (world, (string \<times> frame) list) prog" where
  "ingest_equity_partitions eng j completed run_id day symbols ads bucket_count max_workers =
     (if \<not> (1 \<le> max_workers \<and> max_workers \<le> 64) then fail_st (ValueError ''max_workers must be between 1 and 64'')
      else bind_st (lift_res (build_work_partitions (jb_runtime j) run_id day ''EQUITY'' symbols (map fst ads) bucket_count)) (\<lambda>ps.
           bind_st (in_store (register_work_partitions eng (jb_runtime j) ps)) (\<lambda>_.
           bind_st (in_store (mark_all eng ps)) (\<lambda>_.
           bind_st (in_lake (run_pool j ads completed ps)) (\<lambda>ocs.
           finish_ingestion eng (jb_runtime j) ads ocs)))))"

subsection \<open>What an execution leaves in the archive\<close>

lemma grows_partition_io: "steps_by grows (write_partition_once d rt base f p layer)"
    "steps_by grows (read_partition d rt base p layer)"
  by (rule grows_other_ops)+

lemma grows_attempt: "steps_by grows (attempt_partition j fetch p)"
  unfolding attempt_partition_def
  by (intro grows_intros grows_partition_io) (simp split: option.split, simp add: grows_intros grows_partition_io)

lemma grows_execute: "steps_by grows (execute_partition j fetch p)"
proof -
  have "steps_by grows (\<lambda>s. let stored = file_exists q s; latency = (if stored then Fin 0 else jb_elapsed j p) in
         case attempt_partition j fetch p s of
           (Inr f, s') \<Rightarrow> (Inr \<lparr>po_partition = p, po_frame = Some f, po_latency = latency, po_reused = stored,
              po_error = None, po_raw_path = Some q\<rparr>, s')
         | (Inl e, s') \<Rightarrow> (Inr \<lparr>po_partition = p, po_frame = None, po_latency = latency,
              po_reused = file_exists q s', po_error = Some e,
              po_raw_path = (if file_exists q s' then Some q else None)\<rparr>, s'))" for q
    by (rule steps_byI) (auto simp: Let_def split: prod.splits sum.splits dest: steps_byD [OF grows_attempt])
  then show ?thesis
    unfolding execute_partition_def
    by (intro grows_intros grows_partition_io) (simp split: option.split, simp add: grows_intros)
qed

lemma execute_all_grows: "grows s (snd (execute_all j ads ps s))"
proof (induction ps arbitrary: s)
  case Nil
  then show ?case by (simp add: grows_def)
next
  case (Cons p ps)
  obtain r s1 where 1: "execute_partition j (the (map_of ads (wp_provider p))) p s = (r, s1)" by fastforce
  with Cons.IH [of s1] steps_byD [OF grows_execute 1] show ?case
    by (auto split: prod.split intro: transpD [OF grows_order(2)])
qed

lemma execute_all_outcomes:
  "execute_all j ads ps s = (rs, s') \<Longrightarrow>
   list_all2 (\<lambda>p r. \<exists>t u. grows s t \<and> execute_partition j (the (map_of ads (wp_provider p))) p t = (r, u) \<and>
     grows u s') ps rs"
proof (induction ps arbitrary: s rs)
  case (Cons p ps)
  then obtain r s1 rs' where 1: "execute_partition j (the (map_of ads (wp_provider p))) p s = (r, s1)"
    and 2: "execute_all j ads ps s1 = (rs', s')" and rs: "rs = r # rs'" by (auto split: prod.splits)
  have g: "grows s s" "grows s s1" "grows s1 s'"
    using steps_byD [OF grows_execute 1] execute_all_grows [of s1 j ads ps] 2 by (simp_all add: grows_def)
  have "list_all2 (\<lambda>p r. \<exists>t u. grows s t \<and> execute_partition j (the (map_of ads (wp_provider p))) p t = (r, u) \<and>
     grows u s') ps rs'"
    by (rule list_all2_mono [OF Cons.IH [OF 2]]) (use g(2) in \<open>blast intro: transpD [OF grows_order(2)]\<close>)
  with 1 g show ?case by (auto simp: rs)
qed simp

lemma list_all2_left: "list_all2 P xs ys \<Longrightarrow> x \<in> set xs \<Longrightarrow> \<exists>y\<in>set ys. P x y"
  by (induction rule: list_all2_induct) auto

lemma execute_all_member:
  assumes "execute_all j ads ps s = (rs, s')" and "p \<in> set ps"
  obtains r t u where "r \<in> set rs" and "grows s t" and "grows u s'"
    and "execute_partition j (the (map_of ads (wp_provider p))) p t = (r, u)"
  using list_all2_left [OF execute_all_outcomes [OF assms(1)] assms(2)] by blast

lemma read_partition_Some:
  assumes "read_partition d rt base p layer s = (Inr (Some f), s')"
  shows "\<exists>q x. partition_archive_path rt p layer base = Inr q \<and> lk_files s' q = Some (Whole x) \<and> f = parquet d x"
  using assms
  by (auto simp: read_partition_def bind_st_def st_simps read_parquet_def Let_def
      split: sum.splits option.splits archive_file.splits if_splits)

lemma write_partition_Inr:
  assumes "write_partition_once d rt base f p layer s = (Inr r, s')"
  shows "\<exists>q. partition_archive_path rt p layer base = Inr q \<and> lk_files s' q = Some (Whole (partition_frame f p))"
  using assms
  by (auto simp: write_partition_once_def bind_st_def st_simps write_parquet_once_def Let_def
      split: sum.splits if_splits write_outcome.splits)

lemma attempt_partition_Inr:
  assumes "attempt_partition j fetch p s = (Inr f, s')"
  shows "\<exists>raw q. normalize_equity_dataframe (jb_runtime j) (jb_parsers j) raw = Inr f \<and>
    validate_equity_bars (jb_runtime j) (jb_parsers j) f = Inr () \<and>
    partition_archive_path (jb_runtime j) p ''normalized'' (jb_base j) = Inr q \<and>
    lk_files s' q = Some (Whole (partition_frame f p))"
proof -
  from assms obtain raw r s1 where "normalize_equity_dataframe (jb_runtime j) (jb_parsers j) raw = Inr f"
    "validate_equity_bars (jb_runtime j) (jb_parsers j) f = Inr ()"
    "write_partition_once (jb_disk j) (jb_runtime j) (jb_base j) f p ''normalized'' s1 = (Inr r, s')"
    unfolding attempt_partition_def by (elim bind_st_cases) (auto simp: st_simps elim!: bind_st_cases)
  with write_partition_Inr show ?thesis by blast
qed

lemma execute_partition_cases:
  assumes "execute_partition j fetch p s = (Inr oc, s')"
  obtains (reused) f g where "oc = \<lparr>po_partition = p, po_frame = Some g, po_latency = Fin 0, po_reused = True,
        po_error = None, po_raw_path = None\<rparr>" "canonical_from_archive f = Inr g"
      "read_partition (jb_disk j) (jb_runtime j) (jb_base j) p ''normalized'' s = (Inr (Some f), s')"
    | (executed) f s1 where "attempt_partition j fetch p s1 = (Inr f, s')" "po_frame oc = Some f" "po_error oc = None"
      "po_partition oc = p" "po_raw_path oc \<noteq> None"
    | (failed) e where "po_frame oc = None" "po_error oc = Some e" "po_partition oc = p"
proof -
  from assms obtain norm s1 where n: "read_partition (jb_disk j) (jb_runtime j) (jb_base j) p ''normalized'' s = (Inr norm, s1)"
    unfolding execute_partition_def by (auto elim: bind_st_cases)
  show thesis
  proof (cases norm)
    case (Some f)
    with assms n reused show thesis
      by (auto simp: execute_partition_def bind_st_def st_simps split: sum.splits)
  next
    case None
    obtain r u where a: "attempt_partition j fetch p s1 = (r, u)" by fastforce
    show thesis
    proof (cases r)
      case (Inl e)
      with assms n None a have "po_frame oc = None" "po_error oc = Some e" "po_partition oc = p"
        by (auto simp: execute_partition_def bind_st_def st_simps Let_def split: sum.splits)
      then show thesis by (rule failed)
    next
      case (Inr f)
      with assms n None a have "attempt_partition j fetch p s1 = (Inr f, s')" "po_frame oc = Some f" "po_error oc = None"
          "po_partition oc = p" "po_raw_path oc \<noteq> None"
        by (auto simp: execute_partition_def bind_st_def st_simps Let_def split: sum.splits)
      then show thesis by (rule executed)
    qed
  qed
qed

lemma execute_checkpoint:
  assumes "execute_partition j fetch p s = (Inr oc, s')" and "\<not> failed_outcome oc"
  shows "\<exists>q x. partition_archive_path (jb_runtime j) p ''normalized'' (jb_base j) = Inr q \<and>
    lk_files s' q = Some (Whole x)"
  using assms(1)
proof (cases rule: execute_partition_cases)
  case (reused f g)
  then show ?thesis using read_partition_Some by blast
next
  case (executed f s1)
  then show ?thesis using attempt_partition_Inr by blast
next
  case (failed e)
  with assms(2) show ?thesis by (simp add: failed_outcome_def)
qed

lemma grows_Whole: "grows s s' \<Longrightarrow> lk_files s q = Some x \<Longrightarrow> lk_files s' q = Some x"
  by (auto simp: grows_def map_le_def dom_def)

lemma in_store_Inr: "in_store m w = (r, w') \<Longrightarrow> \<exists>s'. m (w_store w) = (r, s') \<and> w' = w\<lparr>w_store := s'\<rparr>"
  by (auto simp: in_store_def split: prod.splits)

lemma in_lake_Inr: "in_lake m w = (r, w') \<Longrightarrow> \<exists>l. m (w_lake w) = (r, l) \<and> w' = w\<lparr>w_lake := l\<rparr>"
  by (auto simp: in_lake_def split: prod.splits)

lemma map_res_id: "map_res (\<lambda>r. r) rs = Inr xs \<longleftrightarrow> rs = map Inr xs"
  by (induction rs arbitrary: xs) (auto simp: res_simps map_eq_Cons_conv)

lemma run_pool_Inr:
  assumes "run_pool j ads completed ps s = (Inr ocs, s')"
  shows "execute_all j ads (completed ps) s = (map Inr ocs, s')" and "\<forall>p\<in>set ps. adapted ads p"
  using assms
  by (auto simp: run_pool_def map_res_id dropWhile_eq_Nil_conv split: list.splits prod.splits)

lemma finish_Inr:
  assumes "finish_ingestion eng rt ads ocs w = (Inr frames, w')"
  shows "\<forall>oc\<in>set ocs. \<not> failed_outcome oc" and "provider_frames ads ocs = Inr frames" and "w_lake w' = w_lake w"
    and "for_st (record_outcome eng rt) ocs (w_store w) = (Inr (), w_store w')"
proof -
  from assms obtain w1 where 1: "in_store (for_st (record_outcome eng rt) ocs) w = (Inr (), w1)"
    and 2: "(if filter failed_outcome ocs \<noteq> [] then fail_st (PartitionExecutionError
        (map (\<lambda>oc. wp_id (po_partition oc)) (filter failed_outcome ocs))) else lift_res (provider_frames ads ocs)) w1
      = (Inr frames, w')"
    unfolding finish_ingestion_def Let_def by (auto elim: bind_st_cases)
  from 2 have 3: "filter failed_outcome ocs = []" "provider_frames ads ocs = Inr frames" "w' = w1"
    by (auto simp: st_simps split: if_splits)
  then show "\<forall>oc\<in>set ocs. \<not> failed_outcome oc" "provider_frames ads ocs = Inr frames"
    by (simp_all add: filter_empty_conv)
  show "w_lake w' = w_lake w" "for_st (record_outcome eng rt) ocs (w_store w) = (Inr (), w_store w')"
    using in_store_Inr [OF 1] 3(3) by auto
qed

lemma provider_frames_keys: "provider_frames ads ocs = Inr frames \<Longrightarrow> map fst frames = map fst ads"
  unfolding provider_frames_def
  by (induction ads arbitrary: frames) (auto simp: res_simps)

lemma ingest_Inr:
  assumes "ingest_equity_partitions eng j completed run_id day symbols ads buckets workers w = (Inr frames, w')"
  obtains ps ocs l where "build_work_partitions (jb_runtime j) run_id day ''EQUITY'' symbols (map fst ads) buckets = Inr ps"
    and "run_pool j ads completed ps (w_lake w) = (Inr ocs, l)" and "w_lake w' = l"
    and "\<forall>oc\<in>set ocs. \<not> failed_outcome oc" and "provider_frames ads ocs = Inr frames"
proof -
  from assms obtain ps w1 w2 w3 ocs where ps: "build_work_partitions (jb_runtime j) run_id day ''EQUITY'' symbols (map fst ads) buckets = Inr ps"
    and w: "in_store (register_work_partitions eng (jb_runtime j) ps) w = (Inr (), w1)"
      "in_store (mark_all eng ps) w1 = (Inr (), w2)" "in_lake (run_pool j ads completed ps) w2 = (Inr ocs, w3)"
      "finish_ingestion eng (jb_runtime j) ads ocs w3 = (Inr frames, w')"
    unfolding ingest_equity_partitions_def
    by (auto simp: st_simps split: if_splits elim!: bind_st_cases)
  have "w_lake w2 = w_lake w" using in_store_Inr [OF w(1)] in_store_Inr [OF w(2)] by auto
  with in_lake_Inr [OF w(3)] obtain l where l: "run_pool j ads completed ps (w_lake w) = (Inr ocs, l)" "w_lake w3 = l"
    by auto
  show thesis
    by (rule that [OF ps l(1)]) (use finish_Inr [OF w(4)] l(2) in simp_all)
qed

subsection \<open>Where the returned bars come from\<close>

text \<open>
  The bars of a partition that succeeded, by the files of the archive: they are what the codec reads from the
  normalized archive of this partition, or the normalized archive holds exactly them, they passed the validation,
  and they are the canonical form of the raw archive of this partition, which was read or holds what the adapter
  has just fetched.
\<close>

definition raw_bars :: "job \<Rightarrow> fetcher \<Rightarrow> lake \<Rightarrow> work_partition \<Rightarrow> frame \<Rightarrow> bool" where
  "raw_bars j fetch l p raw \<longleftrightarrow> (\<exists>q x. partition_archive_path (jb_runtime j) p ''raw'' (jb_base j) = Inr q \<and>
     lk_files l q = Some (Whole x) \<and> (raw = parquet (jb_disk j) x \<or>
       fetch (wp_symbols p) (jb_start j) (jb_stop j) = Inr raw \<and> x = partition_frame raw p))"

definition checkpoint_bars :: "job \<Rightarrow> fetcher \<Rightarrow> lake \<Rightarrow> work_partition \<Rightarrow> frame \<Rightarrow> bool" where
  "checkpoint_bars j fetch l p f \<longleftrightarrow> (\<exists>q x. partition_archive_path (jb_runtime j) p ''normalized'' (jb_base j) = Inr q \<and>
     lk_files l q = Some (Whole x) \<and> (canonical_from_archive (parquet (jb_disk j) x) = Inr f \<or>
       x = partition_frame f p \<and> validate_equity_bars (jb_runtime j) (jb_parsers j) f = Inr () \<and>
       (\<exists>raw. raw_bars j fetch l p raw \<and> normalize_equity_dataframe (jb_runtime j) (jb_parsers j) raw = Inr f)))"

lemma raw_bars_grows: "raw_bars j fetch l p raw \<Longrightarrow> grows l l' \<Longrightarrow> raw_bars j fetch l' p raw"
  unfolding raw_bars_def using grows_Whole by blast

lemma checkpoint_bars_grows: "checkpoint_bars j fetch l p f \<Longrightarrow> grows l l' \<Longrightarrow> checkpoint_bars j fetch l' p f"
  unfolding checkpoint_bars_def using grows_Whole raw_bars_grows by blast

lemma checkpoint_bars_shape:
  assumes "checkpoint_bars j fetch l p f"
  shows "fr_columns f = lake_columns" and "r \<in> set (fr_rows f) \<Longrightarrow> length r = 7"
proof -
  have "fr_columns f = lake_columns \<and> (\<forall>r\<in>set (fr_rows f). length r = 7)"
    if "canonical_from_archive x = Inr f" for x
    using that by (auto simp: canonical_from_archive_def select_columns_def lake_columns_def split: if_splits)
  moreover have "fr_columns f = lake_columns \<and> (\<forall>r\<in>set (fr_rows f). length r = 7)"
    if "normalize_equity_dataframe (jb_runtime j) (jb_parsers j) raw = Inr f" for raw
    using normalize_canonical [OF that] by fastforce
  ultimately show "fr_columns f = lake_columns" "r \<in> set (fr_rows f) \<Longrightarrow> length r = 7"
    using assms unfolding checkpoint_bars_def by blast+
qed

lemma attempt_raw_bars:
  assumes "attempt_partition j fetch p s = (Inr f, s')"
  shows "checkpoint_bars j fetch s' p f"
proof -
  from assms obtain stored s1 raw s2 r where
    1: "read_partition (jb_disk j) (jb_runtime j) (jb_base j) p ''raw'' s = (Inr stored, s1)"
    and 2: "(case stored of Some raw \<Rightarrow> return_st raw
       | None \<Rightarrow> bind_st (lift_res (fetch (wp_symbols p) (jb_start j) (jb_stop j))) (\<lambda>raw.
           bind_st (write_partition_once (jb_disk j) (jb_runtime j) (jb_base j) raw p ''raw'') (\<lambda>_. return_st raw))) s1 = (Inr raw, s2)"
    and n: "normalize_equity_dataframe (jb_runtime j) (jb_parsers j) raw = Inr f"
    and v: "validate_equity_bars (jb_runtime j) (jb_parsers j) f = Inr ()"
    and w: "write_partition_once (jb_disk j) (jb_runtime j) (jb_base j) f p ''normalized'' s2 = (Inr r, s')"
    unfolding attempt_partition_def by (elim bind_st_cases) (auto simp: st_simps elim!: bind_st_cases)
  have "raw_bars j fetch s2 p raw"
  proof (cases stored)
    case (Some x)
    with 1 2 read_partition_Some show ?thesis by (fastforce simp: raw_bars_def st_simps)
  next
    case None
    with 2 obtain y where "fetch (wp_symbols p) (jb_start j) (jb_stop j) = Inr raw"
      "write_partition_once (jb_disk j) (jb_runtime j) (jb_base j) raw p ''raw'' s1 = (Inr y, s2)"
      by (auto simp: st_simps elim!: bind_st_cases)
    with write_partition_Inr show ?thesis by (fastforce simp: raw_bars_def)
  qed
  then have "raw_bars j fetch s' p raw"
    by (rule raw_bars_grows [OF _ steps_byD [OF grows_partition_io(1) w]])
  with n v write_partition_Inr [OF w] show ?thesis unfolding checkpoint_bars_def by blast
qed

lemma execute_checkpoint_bars:
  assumes "execute_partition j fetch p s = (Inr oc, s')" and "\<not> failed_outcome oc"
  shows "\<exists>f. po_frame oc = Some f \<and> po_partition oc = p \<and> checkpoint_bars j fetch s' p f"
  using assms(1)
proof (cases rule: execute_partition_cases)
  case (reused f g)
  then show ?thesis using read_partition_Some [OF reused(3)] by (auto simp: checkpoint_bars_def)
next
  case (executed f s1)
  then show ?thesis using attempt_raw_bars by blast
next
  case (failed e)
  with assms(2) show ?thesis by (simp add: failed_outcome_def)
qed

lemma execute_all_bars:
  assumes "execute_all j ads ps s = (map Inr ocs, l)" and "\<forall>oc\<in>set ocs. \<not> failed_outcome oc"
  shows "list_all2 (\<lambda>p oc. po_partition oc = p \<and> po_frame oc \<noteq> None \<and>
    checkpoint_bars j (the (map_of ads (wp_provider p))) l p (the (po_frame oc))) ps ocs"
proof (rule list_all2_all_nthI)
  note all = execute_all_outcomes [OF assms(1)]
  show "length ps = length ocs" using list_all2_lengthD [OF all] by simp
  fix i assume i: "i < length ps"
  with list_all2_nthD [OF all i] list_all2_lengthD [OF all] obtain t u where
    e: "execute_partition j (the (map_of ads (wp_provider (ps ! i)))) (ps ! i) t = (Inr (ocs ! i), u)" and g: "grows u l"
    by auto
  from i list_all2_lengthD [OF all] assms(2) have "\<not> failed_outcome (ocs ! i)" by simp
  from execute_checkpoint_bars [OF e this] checkpoint_bars_grows [OF _ g] show "po_partition (ocs ! i) = ps ! i \<and>
      po_frame (ocs ! i) \<noteq> None \<and> checkpoint_bars j (the (map_of ads (wp_provider (ps ! i)))) l (ps ! i) (the (po_frame (ocs ! i)))"
    by auto
qed

lemma uniq_repeated: "distinct cs \<Longrightarrow> fs \<noteq> [] \<Longrightarrow> \<forall>f\<in>set fs. fr_columns f = cs \<Longrightarrow> uniq (concat (map fr_columns fs)) = cs"
proof -
  have known: "foldl add_new acc xs = acc" if "set xs \<subseteq> set acc" for acc xs :: "string list"
    using that by (induction xs) (simp_all add: add_new_def)
  assume cs: "distinct cs" "fs \<noteq> []" "\<forall>f\<in>set fs. fr_columns f = cs"
  then obtain g gs where fs: "fs = g # gs" by (cases fs) auto
  with cs have "uniq (concat (map fr_columns fs)) = foldl add_new cs (concat (map fr_columns gs))"
    by (simp add: uniq_def foldl_add_new_distinct)
  also have "\<dots> = cs" using cs(3) fs by (intro known) auto
  finally show ?thesis .
qed

lemma cells_of_row: "distinct (fr_columns f) \<Longrightarrow> length r = length (fr_columns f) \<Longrightarrow> map (cell f r) (fr_columns f) = r"
  by (rule nth_equalityI) (simp_all add: cell_def dict_get_def map_of_zip_nth)

lemma concat_bars:
  assumes "concat_frames fs = Inr f" and "\<forall>g\<in>set fs. fr_columns g = lake_columns \<and> (\<forall>r\<in>set (fr_rows g). length r = 7)"
  shows "fr_columns f = lake_columns \<and> fr_rows f = concat (map fr_rows fs)"
proof -
  have "distinct lake_columns" by (simp add: lake_columns_def)
  with assms have cols: "uniq (concat (map fr_columns fs)) = lake_columns"
    by (intro uniq_repeated) (auto simp: concat_frames_def split: if_splits)
  have "map (cell g r) lake_columns = r" if "g \<in> set fs" "r \<in> set (fr_rows g)" for g r
    using that assms(2) cells_of_row [of g r] \<open>distinct lake_columns\<close> by (simp add: lake_columns_def)
  then have "map (\<lambda>g. map (\<lambda>r. map (cell g r) lake_columns) (fr_rows g)) fs = map fr_rows fs"
    by (intro map_cong refl map_idI) simp
  moreover have "fr_columns f = lake_columns" "fr_rows f = concat (map (\<lambda>g. map (\<lambda>r. map (cell g r) lake_columns) (fr_rows g)) fs)"
    using assms(1) cols by (auto simp: concat_frames_def Let_def split: if_splits)
  ultimately show ?thesis by (simp only: simp_thms)
qed

lemma provider_frame_rows:
  assumes "provider_frame ocs k = Inr f" and "list_all2 (\<lambda>p oc. po_partition oc = p \<and> po_frame oc \<noteq> None \<and>
      checkpoint_bars j (fetch p) l p (the (po_frame oc))) ps ocs" and "\<forall>oc\<in>set ocs. \<not> failed_outcome oc"
  shows "fr_columns f = lake_columns \<and> fr_rows f = concat (map (\<lambda>(p, b). fr_rows b)
    (filter (\<lambda>(p, b). wp_provider p = k) (zip ps (map (\<lambda>oc. the (po_frame oc)) ocs))))"
proof -
  let ?fs = "map (\<lambda>oc. the (po_frame oc)) (filter (\<lambda>oc. \<not> failed_outcome oc \<and> wp_provider (po_partition oc) = k) ocs)"
  have "map fr_rows ?fs = map (\<lambda>(p, b). fr_rows b)
      (filter (\<lambda>(p, b). wp_provider p = k) (zip ps (map (\<lambda>oc. the (po_frame oc)) ocs)))"
    using assms(2,3) by (induction rule: list_all2_induct) auto
  moreover have "\<forall>g\<in>set ?fs. fr_columns g = lake_columns \<and> (\<forall>r\<in>set (fr_rows g). length r = 7)"
    using assms(2) checkpoint_bars_shape by (induction rule: list_all2_induct) auto
  ultimately show ?thesis
    using assms(1) concat_bars [of ?fs f] by (auto simp: provider_frame_def Let_def empty_frame_def split: if_splits)
qed

lemma provider_frames_member:
  "provider_frames ads ocs = Inr frames \<Longrightarrow> (k, f) \<in> set frames \<Longrightarrow> provider_frame ocs k = Inr f"
  unfolding provider_frames_def
  by (induction ads arbitrary: frames) (auto simp: res_simps)

subsection \<open>Properties\<close>

text \<open>C17 (ingest_success_checkpoints): when the ingestion returns frames, in whatever order the workers
  complete, every partition of the run, bucket and provider, has its normalized archive; and the ingestion returns
  one frame for every adapter, which consists of the rows of the partitions of that provider and no others, those
  of each partition being what its checkpoint holds.  So a provider or a bucket that failed is never silently
  left out, and no bars are mixed up.  That each future completes once is the premise on the pool.\<close>

theorem ingest_success_checkpoints:
  assumes "\<And>ps. mset (completed ps) = mset ps"
    and "ingest_equity_partitions eng j completed run_id day symbols ads buckets workers w = (Inr frames, w')"
  shows "\<exists>ps bars. build_work_partitions (jb_runtime j) run_id day ''EQUITY'' symbols (map fst ads) buckets = Inr ps \<and>
    map fst frames = map fst ads \<and>
    (\<forall>p\<in>set ps. \<exists>q x. partition_archive_path (jb_runtime j) p ''normalized'' (jb_base j) = Inr q \<and>
       lk_files (w_lake w') q = Some (Whole x)) \<and>
    list_all2 (\<lambda>p b. checkpoint_bars j (the (map_of ads (wp_provider p))) (w_lake w') p b) (completed ps) bars \<and>
    (\<forall>(k, f)\<in>set frames. fr_columns f = lake_columns \<and>
       fr_rows f = concat (map (\<lambda>(p, b). fr_rows b) (filter (\<lambda>(p, b). wp_provider p = k) (zip (completed ps) bars))))"
proof -
  from ingest_Inr [OF assms(2)] obtain ps ocs l where
    ps: "build_work_partitions (jb_runtime j) run_id day ''EQUITY'' symbols (map fst ads) buckets = Inr ps"
    and pool: "run_pool j ads completed ps (w_lake w) = (Inr ocs, l)" "w_lake w' = l"
    and ok: "\<forall>oc\<in>set ocs. \<not> failed_outcome oc" and frames: "provider_frames ads ocs = Inr frames" .
  let ?bars = "map (\<lambda>oc. the (po_frame oc)) ocs"
  note all = execute_all_bars [OF run_pool_Inr(1) [OF pool(1)] ok]
  have bars: "list_all2 (\<lambda>p b. checkpoint_bars j (the (map_of ads (wp_provider p))) l p b) (completed ps) ?bars"
    unfolding list_all2_map2 by (rule list_all2_mono [OF all]) simp
  have "\<exists>q x. partition_archive_path (jb_runtime j) p ''normalized'' (jb_base j) = Inr q \<and>
      lk_files l q = Some (Whole x)" if "p \<in> set ps" for p
  proof -
    from that assms(1) have "p \<in> set (completed ps)" by (metis set_mset_mset)
    from list_all2_left [OF bars this] show ?thesis by (auto simp: checkpoint_bars_def)
  qed
  moreover have "fr_columns f = lake_columns \<and>
      fr_rows f = concat (map (\<lambda>(p, b). fr_rows b) (filter (\<lambda>(p, b). wp_provider p = k) (zip (completed ps) ?bars)))"
    if "(k, f) \<in> set frames" for k f
    by (rule provider_frame_rows [OF provider_frames_member [OF frames that] all ok])
  ultimately show ?thesis using ps provider_frames_keys [OF frames] pool(2) bars by blast
qed

text \<open>The normalized archive is read outside the handler of a worker.  When
  that archive of one partition was cut off, the whole ingestion raises after every partition was
  marked RUNNING, and the store stays exactly so: no partition is finished or quarantined, not even the
  ones that succeeded.\<close>

theorem damaged_checkpoint_aborts:
  assumes "\<And>ps. set (completed ps) = set ps" and "1 \<le> workers" and "workers \<le> 64"
    and "build_work_partitions (jb_runtime j) run_id day ''EQUITY'' symbols (map fst ads) buckets = Inr ps"
    and "register_work_partitions eng (jb_runtime j) ps (w_store w) = (Inr (), s1)"
    and "mark_all eng ps s1 = (Inr (), s2)" and "\<forall>p\<in>set ps. adapted ads p"
    and "p \<in> set ps" and "partition_archive_path (jb_runtime j) p ''normalized'' (jb_base j) = Inr q"
    and "lk_files (w_lake w) q = Some Part"
  shows "\<exists>e l. ingest_equity_partitions eng j completed run_id day symbols ads buckets workers w =
    (Inl e, \<lparr>w_lake = l, w_store = s2\<rparr>)"
proof -
  obtain rs l where rs: "execute_all j ads (completed ps) (w_lake w) = (rs, l)" by fastforce
  have "p \<in> set (completed ps)" using assms(1,8) by simp
  with rs obtain r t u where r: "r \<in> set rs" and g: "grows (w_lake w) t" and "grows u l"
    and e: "execute_partition j (the (map_of ads (wp_provider p))) p t = (r, u)" by (rule execute_all_member)
  have "lk_files t q = Some Part" by (rule grows_Whole [OF g assms(10)])
  with e assms(9) have "\<nexists>oc. r = Inr oc"
    by (auto simp: execute_partition_def bind_st_def st_simps read_partition_def file_exists_def read_parquet_def Let_def
        split: option.splits)
  with r have "\<nexists>ocs. map_res (\<lambda>r. r) rs = Inr ocs" by (auto simp: map_res_id)
  then obtain x where "map_res (\<lambda>r. r) rs = Inl x" by (metis obj_sumE)
  moreover have all: "dropWhile (adapted ads) ps = []" using assms(7) by (simp add: dropWhile_eq_Nil_conv)
  ultimately have "run_pool j ads completed ps (w_lake w) = (Inl x, l)" unfolding run_pool_def all rs by simp
  with assms(2-6) show ?thesis
    by (cases w) (simp add: ingest_equity_partitions_def bind_st_def st_simps in_store_def in_lake_def)
qed

subsection \<open>Resuming from a checkpoint\<close>

lemma partition_frame_rows:
  assumes "fr_columns f = lake_columns"
  shows "fr_columns (partition_frame f p) = lake_columns @ [''run_id'', ''partition_id'', ''provider'', ''symbol_bucket'']"
    and "fr_rows (partition_frame f p) = map (\<lambda>r. r @ [PStr (wp_run_id p), PStr (wp_id p), PStr (wp_provider p),
      PInt (int (wp_bucket p))]) (fr_rows f)"
  using assms by (simp_all add: partition_frame_def set_column_def lake_columns_def)

lemma equity_map_unload:
  assumes "codec unload c (pd_date pd)" and "normalize_equity_dataframe rt pd raw = Inr f"
    and "fr_columns g = lake_columns" and "fr_rows g = map (map unload) (fr_rows f)"
  shows "equity_map rt pd g = equity_map rt pd f"
proof -
  note n = normalize_canonical [OF assms(2)]
  have plain: "unload v = v" if "plain_cell v" for v using codec.unload_plain [OF assms(1) that] .
  have "coerced_date pd (unload (date_cell d)) = coerced_date pd (date_cell d)" for d
    using codec.parse_unload [OF assms(1)] codec.parse_date [OF assms(1)] plain [of PNone]
    by (cases d) (simp_all add: date_cell_def coerced_date_def)
  then have "(business_key rt pd g (map unload r), \<lparr>bar_close = num g (map unload r) ''close'', bar_volume = num g (map unload r) ''volume''\<rparr>)
      = (business_key rt pd f r, \<lparr>bar_close = num f r ''close'', bar_volume = num f r ''volume''\<rparr>)"
    if "r \<in> set (fr_rows f)" for r
    using n(4) [OF that] plain
    by (auto simp: business_key_def cell_symbol_def num_def cell_def assms(3) n(2) lake_columns_def dict_get_def)
  then show ?thesis by (simp add: equity_map_def assms(4))
qed

lemma canonical_partition:
  assumes "codec unload c (pd_date pd)" and "normalize_equity_dataframe rt pd raw = Inr f"
  shows "\<exists>g. canonical_from_archive (c (partition_frame f p)) = Inr g \<and> fr_columns g = lake_columns \<and>
    fr_rows g = map (map unload) (fr_rows f)"
proof -
  note n = normalize_canonical [OF assms(2)]
  note pf = partition_frame_rows [OF n(2), of p]
  have c: "c (partition_frame f p) = (partition_frame f p)\<lparr>fr_rows := map (map unload) (fr_rows (partition_frame f p))\<rparr>"
    by (rule codec.codec_cells [OF assms(1)])
  have cols: "fr_columns (c (partition_frame f p)) = lake_columns @ [''run_id'', ''partition_id'', ''provider'', ''symbol_bucket'']"
    unfolding c by (simp add: pf)
  have "map (cell (c (partition_frame f p)) (map unload r @ ys)) lake_columns = map unload r"
    if "r \<in> set (fr_rows f)" for r ys
    using n(4) [OF that] by (auto simp: cell_def cols lake_columns_def dict_get_def)
  then have "map (\<lambda>r. map (cell (c (partition_frame f p)) r) lake_columns) (fr_rows (c (partition_frame f p)))
      = map (map unload) (fr_rows f)"
    by (subst (2) c) (simp add: pf)
  then show ?thesis by (auto simp: canonical_from_archive_def select_columns_def cols)
qed

text \<open>A partition that was fetched and normalized is never fetched again: executing
  it later, with any adapter and after any other archive activity, returns the checkpoint without
  touching the archive, and its bars reconcile exactly like the bars of the first time.\<close>

theorem resumed_partition:
  assumes "codec unload (parquet (jb_disk j)) (pd_date (jb_parsers j))" and "\<And>k. on_read (jb_disk j) k = None"
    and "execute_partition j fetch p s = (Inr oc, s1)" and "po_frame oc = Some f" and "po_raw_path oc \<noteq> None"
    and "grows s1 s2"
  shows "\<exists>g s3. execute_partition j fetch' p s2 = (Inr \<lparr>po_partition = p, po_frame = Some g, po_latency = Fin 0,
      po_reused = True, po_error = None, po_raw_path = None\<rparr>, s3) \<and> lk_files s3 = lk_files s2 \<and>
    equity_map (jb_runtime j) (jb_parsers j) g = equity_map (jb_runtime j) (jb_parsers j) f"
  using assms(3)
proof (cases rule: execute_partition_cases)
  case (executed f' t)
  then have "f' = f" using assms(4) by simp
  with attempt_partition_Inr [OF executed(1)] obtain raw q where
    n: "normalize_equity_dataframe (jb_runtime j) (jb_parsers j) raw = Inr f"
    and q: "partition_archive_path (jb_runtime j) p ''normalized'' (jb_base j) = Inr q"
    and w: "lk_files s1 q = Some (Whole (partition_frame f p))" by auto
  obtain g where g: "canonical_from_archive (parquet (jb_disk j) (partition_frame f p)) = Inr g"
    "fr_columns g = lake_columns" "fr_rows g = map (map unload) (fr_rows f)"
    using canonical_partition [OF assms(1) n] by blast
  have "lk_files s2 q = Some (Whole (partition_frame f p))" by (rule grows_Whole [OF assms(6) w])
  then have "execute_partition j fetch' p s2 = (Inr \<lparr>po_partition = p, po_frame = Some g, po_latency = Fin 0,
      po_reused = True, po_error = None, po_raw_path = None\<rparr>, s2\<lparr>lk_steps := lk_steps s2 + 1\<rparr>)"
    using q g(1) assms(2)
    by (simp add: execute_partition_def read_partition_def bind_st_def st_simps file_exists_def read_parquet_def Let_def)
  moreover have "equity_map (jb_runtime j) (jb_parsers j) g = equity_map (jb_runtime j) (jb_parsers j) f"
    by (rule equity_map_unload [OF assms(1) n g(2,3)])
  ultimately show ?thesis by simp
qed (use assms(4,5) in simp_all)

subsection \<open>Sample data\<close>

definition sample_job :: job where
  "sample_job = \<lparr>jb_disk = sample_disk, jb_runtime = sample_runtime, jb_parsers = midnight_parsers,
     jb_base = [''data''], jb_start = 0, jb_stop = 1, jb_elapsed = (\<lambda>p. Fin 1)\<rparr>"

definition sample_partition :: work_partition where
  "sample_partition = \<lparr>wp_id = ''w1'', wp_run_id = ''r1'', wp_date = 5, wp_instrument = ''EQUITY'', wp_bucket = 0,
     wp_provider = ''YAHOO'', wp_symbols = [''AAPL'']\<rparr>"

definition sample_fetch :: fetcher where
  "sample_fetch symbols start stop = Inr lake_bars"

lemma sample_executed:
  "\<exists>oc s1 f. execute_partition sample_job sample_fetch sample_partition empty_lake = (Inr oc, s1) \<and>
     po_frame oc = Some f \<and> po_raw_path oc \<noteq> None"
proof -
  have "(case execute_partition sample_job sample_fetch sample_partition empty_lake of
      (Inr oc, s1) \<Rightarrow> po_frame oc \<noteq> None \<and> po_raw_path oc \<noteq> None | _ \<Rightarrow> False)" by code_simp
  then show ?thesis by (auto split: prod.splits sum.splits)
qed

lemma resumed_partition_witness:
  "\<exists>oc s1 g s3. execute_partition sample_job sample_fetch sample_partition empty_lake = (Inr oc, s1) \<and>
     execute_partition sample_job (\<lambda>symbols start stop. Inl RequestException) sample_partition s1 =
       (Inr \<lparr>po_partition = sample_partition, po_frame = Some g, po_latency = Fin 0, po_reused = True,
          po_error = None, po_raw_path = None\<rparr>, s3)"
proof -
  obtain oc s1 f where e: "execute_partition sample_job sample_fetch sample_partition empty_lake = (Inr oc, s1)"
    "po_frame oc = Some f" "po_raw_path oc \<noteq> None" using sample_executed by blast
  have "codec midnight (parquet (jb_disk sample_job)) (pd_date (jb_parsers sample_job))"
    "\<And>k. on_read (jb_disk sample_job) k = None" "grows s1 s1"
    using midnight.codec_axioms by (simp_all add: sample_job_def sample_disk_def midnight_parsers_def grows_def)
  from resumed_partition [OF this(1,2) e this(3)] e(1) show ?thesis by blast
qed

definition manifest_store :: store where
  "manifest_store = \<lparr>st_tables = [(''work_partitions'', work_partitions),
     (''provider_request_metrics'', provider_request_metrics), (''quarantine_records'', quarantine_records)], st_steps = 0\<rparr>"

definition sample_world :: world where
  "sample_world = \<lparr>w_lake = empty_lake, w_store = manifest_store\<rparr>"

definition sample_adapters :: adapters where
  "sample_adapters = [(''YAHOO'', sample_fetch)]"

lemma sample_ingested:
  "is_ok (fst (ingest_equity_partitions plain_engine sample_job (\<lambda>ps. ps) ''r1'' 5 [''AAPL''] sample_adapters 4 2 sample_world))"
  by code_simp

lemma ingest_success_checkpoints_witness:
  "\<exists>frames w'. ingest_equity_partitions plain_engine sample_job (\<lambda>ps. ps) ''r1'' 5 [''AAPL''] sample_adapters 4 2
     sample_world = (Inr frames, w') \<and> map fst frames = [''YAHOO'']"
proof -
  obtain frames w' where w: "ingest_equity_partitions plain_engine sample_job (\<lambda>ps. ps) ''r1'' 5 [''AAPL'']
      sample_adapters 4 2 sample_world = (Inr frames, w')"
    using sample_ingested by (metis is_ok_iff surj_pair fst_conv)
  have "mset ((\<lambda>ps. ps) ps) = mset ps" for ps :: "work_partition list" by simp
  from ingest_success_checkpoints [OF this w] w show ?thesis by (auto simp: sample_adapters_def)
qed

definition marked :: "work_partition list \<Rightarrow> bool" where
  "marked ps = (case register_work_partitions plain_engine sample_runtime ps manifest_store of
     (Inl _, _) \<Rightarrow> False | (Inr _, s1) \<Rightarrow> is_ok (fst (mark_all plain_engine ps s1)))"

lemma sample_partitions:
  "\<exists>p. build_work_partitions sample_runtime ''r1'' 5 ''EQUITY'' [''AAPL''] [''YAHOO''] 4 = Inr [p] \<and> marked [p] \<and>
     wp_provider p = ''YAHOO''"
proof -
  have "(case build_work_partitions sample_runtime ''r1'' 5 ''EQUITY'' [''AAPL''] [''YAHOO''] 4 of
     Inr [p] \<Rightarrow> marked [p] \<and> wp_provider p = ''YAHOO'' | _ \<Rightarrow> False)" by code_simp
  then show ?thesis by (auto split: sum.splits list.splits)
qed

lemma damaged_checkpoint_aborts_witness:
  "\<exists>l e l' s2. ingest_equity_partitions plain_engine sample_job (\<lambda>ps. ps) ''r1'' 5 [''AAPL''] sample_adapters 4 2
     \<lparr>w_lake = l, w_store = manifest_store\<rparr> = (Inl e, \<lparr>w_lake = l', w_store = s2\<rparr>)"
proof -
  obtain p where p: "build_work_partitions sample_runtime ''r1'' 5 ''EQUITY'' [''AAPL''] [''YAHOO''] 4 = Inr [p]"
    "marked [p]" "wp_provider p = ''YAHOO''" using sample_partitions by blast
  obtain r s1 where 1: "register_work_partitions plain_engine sample_runtime [p] manifest_store = (r, s1)" by fastforce
  obtain r' s2 where 2: "mark_all plain_engine [p] s1 = (r', s2)" by fastforce
  from p(2) 1 2 have "r = Inr ()" "r' = Inr ()" by (auto simp: marked_def is_ok_iff split: sum.splits)
  note m = 1 [unfolded this(1)] 2 [unfolded this(2)]
  obtain q where q: "partition_archive_path sample_runtime p ''normalized'' [''data''] = Inr q"
    by (simp add: partition_archive_path_def)
  let ?w = "\<lparr>w_lake = \<lparr>lk_files = (\<lambda>x. if x = q then Some Part else None), lk_steps = 0\<rparr>, w_store = manifest_store\<rparr>"
  have j: "jb_runtime sample_job = sample_runtime" "jb_base sample_job = [''data'']" by (simp_all add: sample_job_def)
  have "map fst sample_adapters = [''YAHOO'']" "\<forall>x\<in>set [p]. adapted sample_adapters x"
    using p(3) by (simp_all add: sample_adapters_def adapted_def)
  with p(1) m q j have "\<exists>e l. ingest_equity_partitions plain_engine sample_job (\<lambda>ps. ps) ''r1'' 5 [''AAPL''] sample_adapters 4 2
      ?w = (Inl e, \<lparr>w_lake = l, w_store = s2\<rparr>)"
    by (intro damaged_checkpoint_aborts [of _ _ _ _ _ _ _ _ "[p]" _ _ s1 _ p q]) simp_all
  then show ?thesis by blast
qed

end
