(* ===== verification/Environment.thy ===== *)
theory Environment
  imports Py_Value "HOL-Library.Word"
begin

unbundle bit_operations_syntax

section \<open>Configuration and credentials\<close>

text \<open>
  \<open>security.py\<close> and the reading of environment variables: the process environment is a partial map, the
  local secret file has its permission bits as a 12-bit word and the variables that \<open>python-dotenv\<close>
  finds in it.  \<open>load_dotenv(override=False)\<close> adds the variables that are not set yet.
\<close>

type_synonym environment = "string \<Rightarrow> string option"

record secret_file =
  sf_mode :: "12 word"
  sf_vars :: "(string \<times> string) list"

record process =
  ps_env :: environment
  ps_posix :: bool
  ps_file :: "secret_file option"

subsection \<open>Values of variables\<close>

text \<open>The truth value of \<open>os.getenv\<close>, and \<open>os.getenv(a) or os.getenv(b)\<close>\<close>

definition set_value :: "string option \<Rightarrow> string option" where
  "set_value v = (case v of Some (c # cs) \<Rightarrow> Some (c # cs) | _ \<Rightarrow> None)"

definition getenv_or :: "environment \<Rightarrow> string \<Rightarrow> string \<Rightarrow> string option" where
  "getenv_or env a b = (case set_value (env a) of Some v \<Rightarrow> Some v | None \<Rightarrow> env b)"

text \<open>\<open>int(raw)\<close>: surrounding blanks, a sign, and single underscores between digits\<close>

definition py_int :: "string \<Rightarrow> int option" where
  "py_int s =
     (let t = py_strip s;
          body = (case t of c # r \<Rightarrow> if c = CHR ''-'' \<or> c = CHR ''+'' then r else t | [] \<Rightarrow> t);
          groups = split_on CHR ''_'' body in
      if list_all (\<lambda>g. g \<noteq> [] \<and> list_all is_digit g) groups
      then Some ((if starts_with ''-'' t then -1 else 1) * int (digits_val (concat groups))) else None)"

definition environment_bool :: "environment \<Rightarrow> string \<Rightarrow> bool \<Rightarrow> bool" where
  "environment_bool env name dflt =
     (case env name of
        None \<Rightarrow> dflt
      | Some v \<Rightarrow> if py_strip v = [] then dflt else py_lower (py_strip v) = ''true'')"

subsection \<open>The secret file\<close>

definition load_dotenv :: "secret_file \<Rightarrow> environment \<Rightarrow> environment" where
  "load_dotenv f env = (\<lambda>n. case env n of Some v \<Rightarrow> Some v | None \<Rightarrow> map_of (sf_vars f) n)"

text \<open>\<open>load_dotenv("project.env")\<close> as \<open>batch.py\<close> and \<open>notifications.py\<close> call it: a missing file is ignored.\<close>

definition load_project_env :: "process \<Rightarrow> process" where
  "load_project_env p = (case ps_file p of None \<Rightarrow> p | Some f \<Rightarrow> p\<lparr>ps_env := load_dotenv f (ps_env p)\<rparr>)"

definition private_mode :: "12 word" where
  "private_mode = 0b110000000"

definition group_other :: "12 word" where
  "group_other = 0b000111000 OR 0b000000111"

definition restrict_file_permissions :: "process \<Rightarrow> process" where
  "restrict_file_permissions p =
     (if ps_posix p then p\<lparr>ps_file := map_option (\<lambda>f. f\<lparr>sf_mode := private_mode\<rparr>) (ps_file p)\<rparr> else p)"

definition validate_private_file :: "process \<Rightarrow> secret_file result" where
  "validate_private_file p =
     (case ps_file p of
        None \<Rightarrow> Inl (RuntimeError ''Required secret file does not exist'')
      | Some f \<Rightarrow> if ps_posix p \<and> sf_mode f AND group_other \<noteq> 0 then Inl PermissionError else Inr f)"

subsection \<open>Credentials\<close>

definition load_secret :: "(environment \<Rightarrow> 'a option) \<Rightarrow> exn \<Rightarrow> (process, 'a) prog" where
  "load_secret look missing p =
     (case look (ps_env p) of
        Some k \<Rightarrow> (Inr k, p)
      | None \<Rightarrow> (case validate_private_file p of
          Inl e \<Rightarrow> (Inl e, p)
        | Inr f \<Rightarrow>
            let p' = p\<lparr>ps_env := load_dotenv f (ps_env p)\<rparr> in
            (case look (ps_env p') of None \<Rightarrow> (Inl missing, p') | Some k \<Rightarrow> (Inr k, p'))))"

definition alpaca_keys :: "environment \<Rightarrow> (string \<times> string) option" where
  "alpaca_keys env =
     (case (set_value (getenv_or env ''ALPACA_API_KEY'' ''APCA_API_KEY_ID''),
            set_value (getenv_or env ''ALPACA_SECRET_KEY'' ''APCA_API_SECRET_KEY'')) of
        (Some k, Some s) \<Rightarrow> Some (k, s) | _ \<Rightarrow> None)"

definition load_alpaca_credentials :: "(process, string \<times> string) prog" where
  "load_alpaca_credentials = load_secret alpaca_keys (RuntimeError ''Alpaca API credentials are not configured'')"

definition load_massive_api_key :: "(process, string) prog" where
  "load_massive_api_key = load_secret (\<lambda>env. set_value (env ''MASSIVE_API_KEY''))
     (RuntimeError ''MASSIVE_API_KEY is not configured'')"

definition load_export_api_key :: "(process, string) prog" where
  "load_export_api_key = load_secret (\<lambda>env. set_value (env ''RECONCILIATION_EXPORT_API_KEY''))
     (RuntimeError ''RECONCILIATION_EXPORT_API_KEY is not configured'')"

lemma load_secret_cases:
  assumes "load_secret look e p = (r, p')"
  obtains (present) k where "look (ps_env p) = Some k" "r = Inr k" "p' = p"
    | (refused) e' where "look (ps_env p) = None" "validate_private_file p = Inl e'" "r = Inl e'" "p' = p"
    | (loaded) f where "look (ps_env p) = None" "validate_private_file p = Inr f"
        "p' = p\<lparr>ps_env := load_dotenv f (ps_env p)\<rparr>"
        "r = (case look (load_dotenv f (ps_env p)) of None \<Rightarrow> Inl e | Some k \<Rightarrow> Inr k)"
  using assms by (auto simp: load_secret_def Let_def split: option.splits sum.splits)

lemma validated_file:
  "validate_private_file p = Inr f \<longleftrightarrow> ps_file p = Some f \<and> (ps_posix p \<longrightarrow> sf_mode f AND group_other = 0)"
  by (auto simp: validate_private_file_def split: option.splits if_splits)

definition private_file :: "process \<Rightarrow> bool" where
  "private_file p \<longleftrightarrow> (case ps_file p of None \<Rightarrow> False | Some f \<Rightarrow> sf_mode f AND group_other = 0)"

lemma load_secret_private:
  assumes "load_secret look e p = (r, p')" and "ps_posix p"
  shows "p' = p \<or> private_file p" and "r = Inr k \<Longrightarrow> look (ps_env p) = Some k \<or> private_file p"
    and "ps_env p n = Some v \<Longrightarrow> ps_env p' n = Some v"
  using assms(1)
  by (cases rule: load_secret_cases; use assms(2) in \<open>auto simp: validated_file load_dotenv_def private_file_def\<close>)+

lemma restricted_private:
  assumes "ps_file p = Some f" and "ps_posix p"
  shows "validate_private_file (restrict_file_permissions p) = Inr (f\<lparr>sf_mode := private_mode\<rparr>)"
proof -
  have "private_mode AND group_other = 0" by (simp add: private_mode_def group_other_def)
  with assms show ?thesis by (simp add: restrict_file_permissions_def validated_file)
qed

subsection \<open>Properties\<close>

text \<open>C31 (credentials_private): on a POSIX system the three loaders of credentials read the secret file only
  when neither its group nor others have any access to it; a credential they return was in the
  environment before or comes from such a file; and no variable that was set changes.\<close>

theorem credentials_private:
  assumes "ps_posix p" and "load_alpaca_credentials p = (ra, p1)" and "load_massive_api_key p = (rm, p2)"
    and "load_export_api_key p = (re, p3)"
  shows "(\<forall>q\<in>{p1, p2, p3}. (q = p \<or> private_file p) \<and> (\<forall>n v. ps_env p n = Some v \<longrightarrow> ps_env q n = Some v)) \<and>
    (\<forall>k. ra = Inr k \<longrightarrow> alpaca_keys (ps_env p) = Some k \<or> private_file p) \<and>
    (\<forall>k. rm = Inr k \<longrightarrow> set_value (ps_env p ''MASSIVE_API_KEY'') = Some k \<or> private_file p) \<and>
    (\<forall>k. re = Inr k \<longrightarrow> set_value (ps_env p ''RECONCILIATION_EXPORT_API_KEY'') = Some k \<or> private_file p)"
proof -
  note a = load_secret_private [OF assms(2) [unfolded load_alpaca_credentials_def] assms(1)]
  note m = load_secret_private [OF assms(3) [unfolded load_massive_api_key_def] assms(1)]
  note x = load_secret_private [OF assms(4) [unfolded load_export_api_key_def] assms(1)]
  show ?thesis using a m x by blast
qed

definition public_file :: process where
  "public_file = \<lparr>ps_env = (\<lambda>n. None), ps_posix = True,
     ps_file = Some \<lparr>sf_mode = 0b110100100, sf_vars = [(''MASSIVE_API_KEY'', ''secret'')]\<rparr>\<rparr>"

lemma credentials_private_witness:
  "fst (load_massive_api_key (restrict_file_permissions public_file)) = Inr ''secret'' \<and>
   private_file (restrict_file_permissions public_file)"
proof -
  let ?p = "restrict_file_permissions public_file"
  have m: "fst (load_massive_api_key ?p) = Inr ''secret''" by code_simp
  have none: "set_value (ps_env ?p ''MASSIVE_API_KEY'') = None" and posix: "ps_posix ?p" by code_simp+
  note p = credentials_private [OF posix prod.collapse [symmetric] prod.collapse [symmetric] prod.collapse [symmetric]]
  have "\<forall>k. fst (load_massive_api_key ?p) = Inr k \<longrightarrow> set_value (ps_env ?p ''MASSIVE_API_KEY'') = Some k \<or> private_file ?p"
    using p by blast
  with m none show ?thesis by simp
qed

text \<open>A loader that runs before the check makes the check ineffective: after \<open>load_dotenv\<close> as the batch calls it
  first, the key of a file that everybody can read is in the environment and is returned.\<close>

lemma unchecked_load_bypasses:
  "fst (load_massive_api_key public_file) = Inl PermissionError"
  "fst (load_massive_api_key (load_project_env public_file)) = Inr ''secret''"
  by code_simp+

end
