(* ===== verification/Batch.thy ===== *)
theory Batch
  imports Ingestion Exceptions Environment
begin

section \<open>The daily equity control\<close>

text \<open>
  \<open>batch.py\<close> and \<open>notifications.py\<close>: the identity of a run, its stages over archive and store, the
  summary and its notification.  The environment variables are those visible after
  \<open>load_dotenv\<close>; the providers, the times and the outcome of each delivery of a message are arguments.
  Printing, spans and the command line are left out.
\<close>

subsection \<open>Symbols, dates and run identifiers\<close>

text \<open>\<open>SYMBOL_PATTERN\<close>: an upper-case letter, then at most 14 of upper-case letters, digits, dots and hyphens\<close>

definition symbol_char :: "char \<Rightarrow> bool" where
  "symbol_char c \<longleftrightarrow> is_upper c \<or> is_digit c \<or> c = CHR ''.'' \<or> c = CHR ''-''"

definition valid_symbol :: "string \<Rightarrow> bool" where
  "valid_symbol s = (case s of [] \<Rightarrow> False
     | c # cs \<Rightarrow> is_upper c \<and> length cs \<le> 14 \<and> list_all symbol_char cs)"

definition add_symbol :: "string list \<Rightarrow> string \<Rightarrow> string list result" where
  "add_symbol symbols candidate =
     (let symb = norm_name candidate in
      if symb = [] then Inr symbols
      else if \<not> valid_symbol symb then Inl (ValueError ''Invalid equity symbol'')
      else Inr (if symb \<in> set symbols then symbols else symbols @ [symb]))"

definition normalize_symbols :: "string list \<Rightarrow> string list result" where
  "normalize_symbols values =
     bind_res (fold_res add_symbol [] (concat (map (split_on CHR '','') values))) (\<lambda>symbols.
     if symbols = [] then Inl (ValueError ''At least one reconciliation symbol is required'') else Inr symbols)"

definition get_reconciliation_symbols :: "environment \<Rightarrow> string list option \<Rightarrow> string list result" where
  "get_reconciliation_symbols env configured =
     (case configured of
        Some vs \<Rightarrow> normalize_symbols vs
      | None \<Rightarrow> (case env ''RECONCILIATION_SYMBOLS'' of
          None \<Rightarrow> Inr [''AAPL'']
        | Some v \<Rightarrow> normalize_symbols [v]))"

definition get_control_date :: "runtime \<Rightarrow> int \<Rightarrow> pyval \<Rightarrow> int result" where
  "get_control_date rt market_today v =
     (case v of
        PNone \<Rightarrow> Inr market_today
      | PDate d \<Rightarrow> Inr d
      | PStr s \<Rightarrow> (case date_of_iso rt s of None \<Rightarrow> Inl (ValueError ''Invalid isoformat string'') | Some d \<Rightarrow> Inr d)
      | _ \<Rightarrow> Inl (TypeError ''fromisoformat: argument must be str''))"

definition run_key :: "runtime \<Rightarrow> string list \<Rightarrow> int \<Rightarrow> int \<Rightarrow> string" where
  "run_key rt symbols day buckets =
     ''equity-daily-v5-partitioned|buckets='' @ show_int buckets @ ''|'' @ iso_date rt day @ ''|'' @
     join_with '','' symbols"

definition build_run_id :: "runtime \<Rightarrow> string list \<Rightarrow> int \<Rightarrow> int \<Rightarrow> string result" where
  "build_run_id rt symbols day buckets =
     bind_res (normalize_symbols symbols) (\<lambda>ss. Inr (uuid5 rt (run_key rt (sort ss) day buckets)))"

definition positive_environment_integer :: "environment \<Rightarrow> string \<Rightarrow> int \<Rightarrow> int \<Rightarrow> int result" where
  "positive_environment_integer env name dflt maximum =
     (case py_int (case env name of None \<Rightarrow> show_int dflt | Some v \<Rightarrow> v) of
        None \<Rightarrow> Inl (ValueError (name @ '' must be an integer''))
      | Some n \<Rightarrow> if 1 \<le> n \<and> n \<le> maximum then Inr n
          else Inl (ValueError (name @ '' must be between 1 and '' @ show_int maximum)))"

definition get_scaling_configuration :: "environment \<Rightarrow> (int \<times> int) result" where
  "get_scaling_configuration env =
     bind_res (positive_environment_integer env ''RECONCILIATION_SYMBOL_BUCKETS'' 64 4096) (\<lambda>b.
     bind_res (positive_environment_integer env ''RECONCILIATION_MAX_WORKERS'' 8 64) (\<lambda>w. Inr (b, w)))"

subsection \<open>Notifications\<close>

record run_summary =
  sm_run_id :: string
  sm_status :: string
  sm_break_count :: int
  sm_symbols :: "string list"
  sm_control_date :: string
  sm_already_completed :: bool

record outbox =
  ob_sent :: "string list"
  ob_attempts :: nat

definition notification :: "run_summary \<Rightarrow> string" where
  "notification sm = ''Run ID: '' @ sm_run_id sm @ '' | Status: '' @ sm_status sm @ '' | Break count: '' @
     show_int (sm_break_count sm)"

text \<open>A summary without findings is not sent; without a destination the message is only printed; a
  delivery that fails raises.\<close>

definition send_run_notification :: "environment \<Rightarrow> (nat \<Rightarrow> bool) \<Rightarrow> run_summary \<Rightarrow> (outbox, unit) prog" where
  "send_run_notification env delivers sm ob =
     (if sm_status sm \<notin> {''FAILED'', ''SUCCESS_WITH_BREAKS''} then (Inr (), ob)
      else case env ''WEBHOOK_URL'' of
        None \<Rightarrow> (Inr (), ob)
      | Some [] \<Rightarrow> (Inr (), ob)
      | Some url \<Rightarrow>
          let ob' = ob\<lparr>ob_attempts := ob_attempts ob + 1\<rparr> in
          if delivers (ob_attempts ob) then (Inr (), ob'\<lparr>ob_sent := ob_sent ob @ [notification sm]\<rparr>)
          else (Inl (RuntimeError ''Run notification delivery failed''), ob'))"

subsection \<open>Acquiring the bars\<close>

record control =
  ct_engine :: engine
  ct_job :: job
  ct_completed :: "work_partition list \<Rightarrow> work_partition list"
  ct_merge :: "(equity_key, bar, bar) merge"
  ct_adapters :: adapters
  ct_env :: environment
  ct_delivers :: "nat \<Rightarrow> bool"
  ct_today :: int
  ct_started_at :: string
  ct_finished_at :: string
  ct_now :: "nat \<Rightarrow> int"
  ct_trace :: "string option"
  ct_root_span :: "string option"

definition day_us :: int where
  "day_us = 86400000000"

text \<open>The window of a control date: ten calendar days up to the end of the date, in microseconds.\<close>

definition window :: "int \<Rightarrow> int \<times> int" where
  "window day = (let stop = (day + 1) * day_us in (stop - 10 * day_us, stop))"

definition fetch_partitioned_equity_sources :: "control \<Rightarrow> string \<Rightarrow> string list \<Rightarrow> int \<Rightarrow> int \<Rightarrow> int \<Rightarrow>
    (world, (string \<times> frame) list) prog" where
  "fetch_partitioned_equity_sources ct run_id symbols day buckets workers =
     (let (start, stop) = window day in
      ingest_equity_partitions (ct_engine ct) ((ct_job ct)\<lparr>jb_start := start, jb_stop := stop\<rparr>) (ct_completed ct)
        run_id day symbols (ct_adapters ct) buckets workers)"

definition sources :: "string list" where
  "sources = [''YAHOO'', ''ALPACA'', ''MASSIVE'']"

fun all_st :: "('a \<Rightarrow> ('s, bool) prog) \<Rightarrow> 'a list \<Rightarrow> ('s, bool) prog" where
  "all_st f [] = return_st True"
| "all_st f (x # xs) = bind_st (f x) (\<lambda>b. if b then all_st f xs else return_st False)"

fun map_st :: "('a \<Rightarrow> ('s, 'b) prog) \<Rightarrow> 'a list \<Rightarrow> ('s, 'b list) prog" where
  "map_st f [] = return_st []"
| "map_st f (x # xs) = bind_st (f x) (\<lambda>y. bind_st (map_st f xs) (\<lambda>ys. return_st (y # ys)))"

definition archived_bars :: "job \<Rightarrow> string \<Rightarrow> (string \<times> frame) list io" where
  "archived_bars j run_id = map_st (\<lambda>source.
     bind_st (read_dataframe (jb_disk j) (jb_parsers j) (jb_base j) source ''equities'' run_id ''normalized'' None)
       (\<lambda>f. return_st (source, without_run_id f))) sources"

definition archive_all :: "job \<Rightarrow> string \<Rightarrow> (string \<times> frame) list \<Rightarrow> (string \<times> frame) list io" where
  "archive_all j run_id = map_st (\<lambda>(source, f).
     bind_st (archive_equity_source (jb_disk j) (jb_runtime j) (jb_parsers j) (jb_base j) f source run_id True)
       (\<lambda>n. return_st (source, n)))"

definition acquire_bars :: "control \<Rightarrow> string \<Rightarrow> string list \<Rightarrow> int \<Rightarrow> int \<Rightarrow> int \<Rightarrow> (world, (string \<times> frame) list) prog" where
  "acquire_bars ct run_id symbols day buckets workers =
     (let j = ct_job ct in
      bind_st (in_lake (all_st (\<lambda>source. dataframe_archive_exists (jb_base j) source ''equities'' run_id ''normalized'') sources))
        (\<lambda>complete.
      if complete then in_lake (archived_bars j run_id)
      else bind_st (fetch_partitioned_equity_sources ct run_id symbols day buckets workers) (\<lambda>raw.
           in_lake (archive_all j run_id raw))))"

subsection \<open>Comparing and storing\<close>

definition batch_tolerances :: tolerances where
  "batch_tolerances = \<lparr>tol_close = fl (5 / 100), tol_warn = Some (fl (1 / 100)), tol_break_pct = Some (fl (5 / 1000)),
     tol_warn_pct = Some (fl (1 / 1000))\<rparr>"

definition named_bars :: "(string \<times> frame) list \<Rightarrow> string \<Rightarrow> frame result" where
  "named_bars bars source = (case map_of bars source of None \<Rightarrow> Inl (KeyError source) | Some f \<Rightarrow> Inr f)"

definition equity_run_of :: "control \<Rightarrow> string \<Rightarrow> (string \<times> frame) list \<Rightarrow> frame \<Rightarrow> frame \<Rightarrow> equity_run result" where
  "equity_run_of ct run_id bars recon exceptions =
     bind_res (named_bars bars ''YAHOO'') (\<lambda>y.
     bind_res (named_bars bars ''ALPACA'') (\<lambda>a.
     bind_res (named_bars bars ''MASSIVE'') (\<lambda>m.
     Inr \<lparr>eq_run_id = run_id, eq_started_at = ct_started_at ct, eq_finished_at = ct_finished_at ct,
          eq_status = (if count_status recon ''BREAK'' = 0 then ''SUCCESS'' else ''SUCCESS_WITH_BREAKS''),
          eq_yahoo = y, eq_alpaca = a, eq_massive = Some m, eq_reconciliation = recon, eq_exceptions = exceptions,
          eq_trace = ct_trace ct, eq_root_span = ct_root_span ct\<rparr>)))"

text \<open>\<open>str\<close> and \<open>int\<close> of a cell of the stored run\<close>

definition cell_int :: "pyval \<Rightarrow> int result" where
  "cell_int v = (case v of PInt n \<Rightarrow> Inr n | PBool b \<Rightarrow> Inr (if b then 1 else 0)
     | PStr s \<Rightarrow> (case py_int s of None \<Rightarrow> Inl (ValueError ''invalid literal for int()'') | Some n \<Rightarrow> Inr n)
     | _ \<Rightarrow> Inl (TypeError ''int() argument''))"

text \<open>The state of a run: archive and store, the messages sent, and the local \<open>break_count\<close>.\<close>

record batch_state =
  bs_world :: world
  bs_outbox :: outbox
  bs_breaks :: int

definition in_world :: "(world, 'a) prog \<Rightarrow> (batch_state, 'a) prog" where
  "in_world m t = (case m (bs_world t) of (r, w) \<Rightarrow> (r, t\<lparr>bs_world := w\<rparr>))"

definition in_outbox :: "(outbox, 'a) prog \<Rightarrow> (batch_state, 'a) prog" where
  "in_outbox m t = (case m (bs_outbox t) of (r, ob) \<Rightarrow> (r, t\<lparr>bs_outbox := ob\<rparr>))"

definition set_breaks :: "int \<Rightarrow> (batch_state, unit) prog" where
  "set_breaks n t = (Inr (), t\<lparr>bs_breaks := n\<rparr>)"

definition fresh_summary :: "control \<Rightarrow> string \<Rightarrow> string list \<Rightarrow> int \<Rightarrow> string \<Rightarrow> int \<Rightarrow> bool \<Rightarrow> run_summary" where
  "fresh_summary ct run_id symbols day status breaks completed =
     \<lparr>sm_run_id = run_id, sm_status = status, sm_break_count = breaks, sm_symbols = symbols,
      sm_control_date = iso_date (jb_runtime (ct_job ct)) day, sm_already_completed = completed\<rparr>"

definition store_run :: "control \<Rightarrow> string \<Rightarrow> string list \<Rightarrow> int \<Rightarrow> equity_run \<Rightarrow> (batch_state, run_summary) prog" where
  "store_run ct run_id symbols day q =
     bind_st (in_world (in_store (persist_equity_run (ct_engine ct) q))) (\<lambda>persisted.
     if persisted
     then return_st (fresh_summary ct run_id symbols day (eq_status q) (count_status (eq_reconciliation q) ''BREAK'') False)
     else bind_st (in_world (in_store (get_pipeline_run (ct_engine ct) run_id))) (\<lambda>existing.
       case existing of
         None \<Rightarrow> fail_st (RuntimeError ''Run persistence lost an idempotency race'')
       | Some row \<Rightarrow> bind_st (lift_res (cell_int (dict_get PNone row ''break_count''))) (\<lambda>breaks.
           bind_st (set_breaks breaks) (\<lambda>_.
           return_st (fresh_summary ct run_id symbols day
             (py_str (jb_runtime (ct_job ct)) (dict_get PNone row ''status'')) breaks True)))))"

definition record_results :: "control \<Rightarrow> string \<Rightarrow> string list \<Rightarrow> int \<Rightarrow> (string \<times> frame) list \<Rightarrow> frame \<Rightarrow>
    (batch_state, run_summary) prog" where
  "record_results ct run_id symbols day bars recon =
     (let j = ct_job ct in
      bind_st (in_world (in_lake (archive_reconciliation_results (jb_disk j) (jb_runtime j) (jb_base j) recon run_id True))) (\<lambda>_.
      bind_st (set_breaks (count_status recon ''BREAK'')) (\<lambda>_.
      bind_st (lift_res (create_equity_exceptions (jb_runtime j) (ct_now ct) recon run_id)) (\<lambda>exceptions.
      bind_st (lift_res (equity_run_of ct run_id bars recon exceptions)) (\<lambda>q.
      store_run ct run_id symbols day q)))))"

definition complete_run :: "control \<Rightarrow> string \<Rightarrow> string list \<Rightarrow> int \<Rightarrow> (string \<times> frame) list \<Rightarrow>
    (batch_state, run_summary) prog" where
  "complete_run ct run_id symbols day bars =
     bind_st (lift_res (reconcile_equity_sources (jb_runtime (ct_job ct)) (jb_parsers (ct_job ct)) (ct_merge ct)
       batch_tolerances bars)) (\<lambda>ps. record_results ct run_id symbols day bars (pairwise_frame ps))"

text \<open>The body of the \<open>try\<close>: an existing run is answered from the store.\<close>

datatype run_answer = Existing payload | Computed run_summary

definition run_control :: "control \<Rightarrow> string \<Rightarrow> string list \<Rightarrow> int \<Rightarrow> int \<Rightarrow> int \<Rightarrow> (batch_state, run_answer) prog" where
  "run_control ct run_id symbols day buckets workers =
     bind_st (in_world (in_store (initialize_database (ct_engine ct)))) (\<lambda>_.
     bind_st (in_world (in_store (get_pipeline_run (ct_engine ct) run_id))) (\<lambda>existing.
     case existing of
       Some row \<Rightarrow> return_st (Existing row)
     | None \<Rightarrow> bind_st (in_world (acquire_bars ct run_id symbols day buckets workers)) (\<lambda>bars.
         bind_st (complete_run ct run_id symbols day bars) (\<lambda>sm. return_st (Computed sm)))))"

text \<open>A run that fails is reported before the exception is raised again; if the report fails, its own
  exception is raised.\<close>

definition batch_main :: "control \<Rightarrow> string list option \<Rightarrow> pyval \<Rightarrow> (batch_state, run_answer) prog" where
  "batch_main ct configured control_date =
     bind_st (lift_res (get_reconciliation_symbols (ct_env ct) configured)) (\<lambda>symbols.
     bind_st (lift_res (get_control_date (jb_runtime (ct_job ct)) (ct_today ct) control_date)) (\<lambda>day.
     bind_st (lift_res (get_scaling_configuration (ct_env ct))) (\<lambda>(buckets, workers).
     bind_st (lift_res (build_run_id (jb_runtime (ct_job ct)) symbols day buckets)) (\<lambda>run_id.
     bind_st (set_breaks 0) (\<lambda>_ t.
       case run_control ct run_id symbols day buckets workers t of
         (Inl e, t') \<Rightarrow>
           bind_st (in_outbox (send_run_notification (ct_env ct) (ct_delivers ct)
             (fresh_summary ct run_id symbols day ''FAILED'' (bs_breaks t') False))) (\<lambda>_. fail_st e) t'
       | (Inr (Existing row), t') \<Rightarrow> (Inr (Existing row), t')
       | (Inr (Computed sm), t') \<Rightarrow>
           bind_st (in_outbox (send_run_notification (ct_env ct) (ct_delivers ct) sm)) (\<lambda>_. return_st (Computed sm)) t')))))"

subsection \<open>Other entry points\<close>

definition fetch_equity_sources :: "(string \<Rightarrow> string \<Rightarrow> int \<Rightarrow> int \<Rightarrow> frame result) \<Rightarrow> runtime \<Rightarrow> int \<Rightarrow>
    string list \<Rightarrow> pyval \<Rightarrow> (string \<times> frame) list result" where
  "fetch_equity_sources fetch rt market_today symbols control_date =
     bind_res (normalize_symbols symbols) (\<lambda>ss.
     bind_res (get_control_date rt market_today control_date) (\<lambda>day.
     let (start, stop) = window day in
     bind_res (map_res (\<lambda>source. bind_res (map_res (\<lambda>s. fetch source s start stop) ss) (\<lambda>fs. Inr (source, fs))) sources) (\<lambda>all.
     map_res (\<lambda>(source, fs). bind_res (concat_frames fs) (\<lambda>f. Inr (source, f))) all)))"

definition default_tolerances :: tolerances where
  "default_tolerances = \<lparr>tol_close = fl (1 / 100), tol_warn = None, tol_break_pct = None, tol_warn_pct = None\<rparr>"

definition batch_reconciliation :: "(string \<Rightarrow> string \<Rightarrow> int \<Rightarrow> int \<Rightarrow> frame result) \<Rightarrow> runtime \<Rightarrow> cell_parsers \<Rightarrow>
    (equity_key, bar, bar) merge \<Rightarrow> environment \<Rightarrow> int \<Rightarrow> string list option \<Rightarrow>
    ((string \<times> frame) list \<times> pair_row list) result" where
  "batch_reconciliation fetch rt pd merge env market_today symbols =
     bind_res (get_reconciliation_symbols env symbols) (\<lambda>ss.
     bind_res (fetch_equity_sources fetch rt market_today ss PNone) (\<lambda>bars.
     bind_res (reconcile_equity_sources rt pd merge default_tolerances bars) (\<lambda>ps. Inr (bars, ps))))"

definition frame_blank :: "frame \<Rightarrow> bool" where
  "frame_blank f \<longleftrightarrow> fr_rows f = [] \<or> fr_columns f = []"

definition replay_archived_run :: "job \<Rightarrow> (equity_key, bar, bar) merge \<Rightarrow> string \<Rightarrow> pair_row list io" where
  "replay_archived_run j merge run_id =
     bind_st (map_st (\<lambda>source.
       bind_st (read_dataframe (jb_disk j) (jb_parsers j) (jb_base j) source ''equities'' run_id ''normalized'' None)
         (\<lambda>f. return_st (source, f))) sources) (\<lambda>bars.
     let available = filter (\<lambda>(source, f). \<not> frame_blank f) bars in
     if length available < 2 then fail_st FileNotFoundError
     else lift_res (bind_res (map_res (\<lambda>(source, f). bind_res (select_columns f lake_columns) (\<lambda>g. Inr (source, g))) available)
            (reconcile_equity_sources (jb_runtime j) (jb_parsers j) merge default_tolerances)))"

subsection \<open>Lifted programs\<close>

lemma in_world_eq: "in_world m t = (r, t') \<longleftrightarrow> (\<exists>w. m (bs_world t) = (r, w) \<and> t' = t\<lparr>bs_world := w\<rparr>)"
  by (auto simp: in_world_def split: prod.splits)

lemma in_store_eq: "in_store m w = (r, w') \<longleftrightarrow> (\<exists>s. m (w_store w) = (r, s) \<and> w' = w\<lparr>w_store := s\<rparr>)"
  by (auto simp: in_store_def split: prod.splits)

lemma in_lake_eq: "in_lake m w = (r, w') \<longleftrightarrow> (\<exists>l. m (w_lake w) = (r, l) \<and> w' = w\<lparr>w_lake := l\<rparr>)"
  by (auto simp: in_lake_def split: prod.splits)

lemma in_outbox_eq: "in_outbox m t = (r, t') \<longleftrightarrow> (\<exists>b. m (bs_outbox t) = (r, b) \<and> t' = t\<lparr>bs_outbox := b\<rparr>)"
  by (auto simp: in_outbox_def split: prod.splits)

lemma set_breaks_eq: "set_breaks n t = (r, t') \<longleftrightarrow> r = Inr () \<and> t' = t\<lparr>bs_breaks := n\<rparr>"
  by (auto simp: set_breaks_def)

lemmas lifted = in_world_eq in_store_eq in_lake_eq in_outbox_eq set_breaks_eq

abbreviation store_of :: "batch_state \<Rightarrow> store" where
  "store_of t \<equiv> w_store (bs_world t)"

abbreviation lake_of :: "batch_state \<Rightarrow> lake" where
  "lake_of t \<equiv> w_lake (bs_world t)"

lemma archive_results_Inr:
  assumes "archive_reconciliation_results d rt base f run_id i s = (Inr p, s')"
  shows "reconciliation_path run_id base = Inr p" and "file_exists p s'"
  using assms
  by (auto simp: archive_reconciliation_results_def bind_st_def st_simps write_parquet_once_def file_exists_def Let_def
      split: if_splits sum.splits write_outcome.splits)

text \<open>The archive of the results: one row for each compared observation, with the run.  A file that is found is kept.\<close>

lemma selected_pairs:
  "select_columns (pairwise_frame ps) result_columns = Inr (pairwise_frame ps)"
proof -
  have "map (cell (pairwise_frame ps) (pair_cells r)) result_columns = pair_cells r" for r
    by (simp add: cell_def pairwise_frame_def table_frame_def pairwise_columns_def result_columns_def pair_cells_def
        Let_def dict_get_def)
  then show ?thesis
    by (simp add: select_columns_def pairwise_frame_def table_frame_def pairwise_columns_def result_columns_def comp_def)
qed

lemma archived_pairs:
  assumes "archive_reconciliation_results d rt base (pairwise_frame ps) run_id True s = (Inr p, s')"
  shows "\<exists>g. fr_columns g = result_columns @ [''run_id''] \<and> fr_rows g = map (\<lambda>r. pair_cells r @ [PStr run_id]) ps \<and>
    lk_files s' = (if file_exists p s then lk_files s else (lk_files s)(p \<mapsto> Whole g))"
proof -
  let ?g = "set_column (pairwise_frame ps) ''run_id'' (PStr run_id)"
  have w: "with_run_id rt (pairwise_frame ps) run_id = Inr ?g"
    by (simp add: with_run_id_def pairwise_frame_def table_frame_def pairwise_columns_def)
  have "fr_columns ?g = result_columns @ [''run_id'']" "fr_rows ?g = map (\<lambda>r. pair_cells r @ [PStr run_id]) ps"
    by (simp_all add: set_column_def pairwise_frame_def table_frame_def pairwise_columns_def result_columns_def)
  moreover have "lk_files s' = (if file_exists p s then lk_files s else (lk_files s)(p \<mapsto> Whole ?g))"
    using assms
    by (auto simp: archive_reconciliation_results_def selected_pairs w res_simps bind_st_def st_simps
        write_parquet_once_def Let_def split: if_splits sum.splits write_outcome.splits)
  ultimately show ?thesis by blast
qed

lemma select_run_some:
  assumes "get_pipeline_run eng run_id s = (Inr (Some row), s')"
  shows "st_tables s' = st_tables s" and "PStr run_id \<in> set (ids_of ''pipeline_runs'' ''run_id'' (st_tables s))"
proof -
  from assms obtain rows where sel: "select eng ''pipeline_runs'' run_summary_columns ''run_id'' (PStr run_id) s = (Inr rows, s')"
    and "rows \<noteq> []"
    by (auto simp: get_pipeline_run_def st_simps elim!: bind_st_cases split: list.splits)
  then show "st_tables s' = st_tables s" using select_keeps by blast
  from sel obtain ts where r: "select_rows ''pipeline_runs'' run_summary_columns ''run_id'' (PStr run_id) (st_tables s) = Inr (rows, ts)"
    unfolding select_def by (cases rule: statement_cases) auto
  then obtain tb where tb: "map_of (st_tables s) ''pipeline_runs'' = Some tb"
    and rows: "rows = map (cells tb run_summary_columns) (filter (\<lambda>r. field tb ''run_id'' r = PStr run_id) (tb_rows tb))"
    by (auto simp: select_rows_def split: option.splits if_splits)
  with \<open>rows \<noteq> []\<close> obtain x where "x \<in> set (tb_rows tb)" "field tb ''run_id'' x = PStr run_id"
    by (auto simp: filter_empty_conv)
  then have "PStr run_id \<in> field tb ''run_id'' ` set (tb_rows tb)" by (metis imageI)
  with tb show "PStr run_id \<in> set (ids_of ''pipeline_runs'' ''run_id'' (st_tables s))" by (simp add: ids_of_def)
qed

lemma store_run_Inr:
  assumes "store_run ct run_id symbols day q t = (Inr sm, t')" and "eq_run_id q = run_id"
    and "keyed ''pipeline_runs'' ''run_id'' (st_tables (store_of t))"
  shows "PStr run_id \<in> set (ids_of ''pipeline_runs'' ''run_id'' (st_tables (store_of t'))) \<and> lake_of t' = lake_of t \<and>
    bs_outbox t' = bs_outbox t \<and> (sm_already_completed sm \<or>
      persist_equity_run (ct_engine ct) q (store_of t) = (Inr True, store_of t') \<and>
      sm = fresh_summary ct run_id symbols day (eq_status q) (count_status (eq_reconciliation q) ''BREAK'') False)"
proof -
  from assms(1) obtain b t1 where 1: "in_world (in_store (persist_equity_run (ct_engine ct) q)) t = (Inr b, t1)"
    and 2: "(if b then return_st (fresh_summary ct run_id symbols day (eq_status q) (count_status (eq_reconciliation q) ''BREAK'') False)
     else bind_st (in_world (in_store (get_pipeline_run (ct_engine ct) run_id))) (\<lambda>existing.
       case existing of
         None \<Rightarrow> fail_st (RuntimeError ''Run persistence lost an idempotency race'')
       | Some row \<Rightarrow> bind_st (lift_res (cell_int (dict_get PNone row ''break_count''))) (\<lambda>breaks.
           bind_st (set_breaks breaks) (\<lambda>_.
           return_st (fresh_summary ct run_id symbols day
             (py_str (jb_runtime (ct_job ct)) (dict_get PNone row ''status'')) breaks True))))) t1 = (Inr sm, t')"
    unfolding store_run_def by (auto elim: bind_st_cases)
  from 1 obtain s1 where p: "persist_equity_run (ct_engine ct) q (store_of t) = (Inr b, s1)"
    and t1: "t1 = t\<lparr>bs_world := (bs_world t)\<lparr>w_store := s1\<rparr>\<rparr>" by (auto simp: lifted)
  show ?thesis
  proof (cases b)
    case True
    with 2 p t1 persist_equity_effect [OF p assms(3)] assms(2) show ?thesis by (auto simp: st_simps)
  next
    case False
    with 2 obtain row s2 where g: "get_pipeline_run (ct_engine ct) run_id s1 = (Inr (Some row), s2)"
      and "store_of t' = s2" "lake_of t' = lake_of t" "bs_outbox t' = bs_outbox t" "sm_already_completed sm"
      by (auto simp: lifted st_simps t1 fresh_summary_def elim!: bind_st_cases split: option.splits)
    with select_run_some [OF g] show ?thesis by simp
  qed
qed

lemma equity_run_of_Inr:
  assumes "equity_run_of ct run_id bars recon exceptions = Inr q"
  shows "eq_run_id q = run_id" and "eq_reconciliation q = recon" and "eq_exceptions q = exceptions"
    and "eq_status q = (if count_status recon ''BREAK'' = 0 then ''SUCCESS'' else ''SUCCESS_WITH_BREAKS'')"
  using assms by (auto simp: equity_run_of_def res_simps)

lemma record_results_Inr:
  assumes "record_results ct run_id symbols day bars recon t = (Inr sm, t')"
    and "keyed ''pipeline_runs'' ''run_id'' (st_tables (store_of t))"
  obtains p l e q where "archive_reconciliation_results (jb_disk (ct_job ct)) (jb_runtime (ct_job ct)) (jb_base (ct_job ct))
      recon run_id True (lake_of t) = (Inr p, l)" and "lake_of t' = l"
    and "create_equity_exceptions (jb_runtime (ct_job ct)) (ct_now ct) recon run_id = Inr e"
    and "equity_run_of ct run_id bars recon e = Inr q" and "bs_outbox t' = bs_outbox t"
    and "PStr run_id \<in> set (ids_of ''pipeline_runs'' ''run_id'' (st_tables (store_of t')))"
    and "sm_already_completed sm \<or> persist_equity_run (ct_engine ct) q (store_of t) = (Inr True, store_of t') \<and>
      sm = fresh_summary ct run_id symbols day (eq_status q) (count_status recon ''BREAK'') False"
proof -
  from assms(1) obtain p l e q where 1: "archive_reconciliation_results (jb_disk (ct_job ct)) (jb_runtime (ct_job ct))
      (jb_base (ct_job ct)) recon run_id True (lake_of t) = (Inr p, l)"
    and 2: "create_equity_exceptions (jb_runtime (ct_job ct)) (ct_now ct) recon run_id = Inr e"
    and 3: "equity_run_of ct run_id bars recon e = Inr q"
    and 4: "store_run ct run_id symbols day q (t\<lparr>bs_world := (bs_world t)\<lparr>w_lake := l\<rparr>, bs_breaks := count_status recon ''BREAK''\<rparr>)
      = (Inr sm, t')"
    unfolding record_results_def Let_def by (auto simp: lifted st_simps elim!: bind_st_cases)
  note q = equity_run_of_Inr [OF 3]
  have "keyed ''pipeline_runs'' ''run_id'' (st_tables (store_of (t\<lparr>bs_world := (bs_world t)\<lparr>w_lake := l\<rparr>,
      bs_breaks := count_status recon ''BREAK''\<rparr>)))" using assms(2) by simp
  note s = store_run_Inr [OF 4 q(1) this]
  show thesis by (rule that [OF 1 _ 2 3]) (use s q(2) in simp_all)
qed

lemma exceptions_of_pairs:
  assumes "reconcile_equity_sources rt pd merge tol bars = Inr ps"
    and "create_equity_exceptions rt nows (pairwise_frame ps) run_id = Inr e"
  shows "int (length (fr_rows e)) = count_status (pairwise_frame ps) ''BREAK''"
proof -
  have "\<forall>p\<in>set ps. reasoned p" using reconciled_reasoned [OF assms(1)] by blast
  from create_exceptions_pairs [OF this, of rt nows run_id] assms(2) show ?thesis
    by (auto simp: count_breaks)
qed

lemma get_pipeline_run_same: "st_tables (snd (get_pipeline_run eng r s)) = st_tables s"
proof -
  obtain x s1 where sel: "select eng ''pipeline_runs'' run_summary_columns ''run_id'' (PStr r) s = (x, s1)" by fastforce
  then have "st_tables s1 = st_tables s" by (rule select_same)
  moreover have "snd (get_pipeline_run eng r s) = s1"
    unfolding get_pipeline_run_def by (simp add: bind_st_def return_st_def sel split: sum.splits list.splits)
  ultimately show ?thesis by simp
qed

text \<open>A run that fails while it is completed has stored nothing.\<close>

lemma store_run_Inl:
  assumes "store_run ct run_id symbols day q t = (Inl e, t')"
    and "keyed ''pipeline_runs'' ''run_id'' (st_tables (store_of t))"
  shows "st_tables (store_of t') = st_tables (store_of t)"
  using assms(1) unfolding store_run_def
proof (cases rule: bind_st_cases)
  case (fail e')
  then obtain s1 where "persist_equity_run (ct_engine ct) q (store_of t) = (Inl e', s1)" "store_of t' = s1"
    by (auto simp: lifted)
  with persist_equity_effect [OF _ assms(2)] show ?thesis by fastforce
next
  case (cont b t1)
  then obtain s1 where p: "persist_equity_run (ct_engine ct) q (store_of t) = (Inr b, s1)" "store_of t1 = s1"
    by (auto simp: lifted)
  from cont(2) have "\<not> b" by (auto simp: st_simps)
  with persist_equity_effect [OF p(1) assms(2)] p(2) have same: "st_tables (store_of t1) = st_tables (store_of t)" by simp
  have "store_of t' = snd (get_pipeline_run (ct_engine ct) run_id (store_of t1))"
    using cont(2) \<open>\<not> b\<close> by (auto simp: lifted st_simps bind_st_def split: sum.splits option.splits prod.splits)
  with same show ?thesis by (simp add: get_pipeline_run_same)
qed

lemma record_results_Inl:
  assumes "record_results ct run_id symbols day bars recon t = (Inl e, t')"
    and "keyed ''pipeline_runs'' ''run_id'' (st_tables (store_of t))"
  shows "st_tables (store_of t') = st_tables (store_of t)"
  using assms(1) unfolding record_results_def Let_def
proof (cases rule: bind_st_cases)
  case (cont x t1)
  then have t1: "store_of t1 = store_of t" by (auto simp: lifted)
  from cont(2) show ?thesis
  proof (cases rule: bind_st_cases)
    case (cont y t2)
    then have t2: "store_of t2 = store_of t" using t1 by (auto simp: lifted)
    from cont(2) t2 assms(2) show ?thesis
      by (auto simp: st_simps elim!: bind_st_cases dest: store_run_Inl)
  qed (auto simp: lifted t1)
qed (auto simp: lifted)

text \<open>C24 (batch_failure_stores_nothing): when the comparison, the archiving or the storing of a run raises,
  so that the run is reported as failed, every table is as it was before: a run is never both reported
  as failed and stored by the same call.\<close>

theorem batch_failure_stores_nothing:
  assumes "keyed ''pipeline_runs'' ''run_id'' (st_tables (store_of t))"
    and "complete_run ct run_id symbols day bars t = (Inl e, t')"
  shows "st_tables (store_of t') = st_tables (store_of t)"
  using assms(2) unfolding complete_run_def
  by (auto simp: st_simps elim!: bind_st_cases dest: record_results_Inl [OF _ assms(1)])

text \<open>C1 (batch_accounts): a run that is completed and not found stored adds exactly one run row, the bars of
  the providers, two result rows for every compared observation of every pair of providers, and one exception for
  every break, all with the values of this comparison, and touches no other table; its
  summary counts these exceptions and is \<open>SUCCESS\<close> exactly when there is none; and the archive of the
  run holds the results, one row for every compared observation: the call writes that file and no other, and
  a file that a previous attempt of the run has left is kept as it is.\<close>

theorem batch_accounts:
  assumes "keyed ''pipeline_runs'' ''run_id'' (st_tables (store_of t))"
    and "complete_run ct run_id symbols day bars t = (Inr sm, t')" and "\<not> sm_already_completed sm"
  shows "\<exists>ps e q bs rs run staged results exceptions p.
    reconcile_equity_sources (jb_runtime (ct_job ct)) (jb_parsers (ct_job ct)) (ct_merge ct) batch_tolerances bars = Inr ps \<and>
    create_equity_exceptions (jb_runtime (ct_job ct)) (ct_now ct) (pairwise_frame ps) run_id = Inr e \<and>
    equity_run_of ct run_id bars (pairwise_frame ps) e = Inr q \<and>
    run_bar_rows q = Inr bs \<and> reconciliation_rows (pairwise_frame ps) run_id = Inr rs \<and>
    rows_of (st_tables (store_of t')) = (rows_of (st_tables (store_of t)))
      (''pipeline_runs'' := rows_of (st_tables (store_of t)) ''pipeline_runs'' @ [run],
       ''equity_bars_staging'' := rows_of (st_tables (store_of t)) ''equity_bars_staging'' @ staged,
       ''equity_reconciliation_results'' := rows_of (st_tables (store_of t)) ''equity_reconciliation_results'' @ results,
       ''equity_exceptions'' := rows_of (st_tables (store_of t)) ''equity_exceptions'' @ exceptions) \<and>
    stored_rows (ct_engine ct) (st_tables (store_of t)) ''pipeline_runs'' run_insert [run_values q] [run] \<and>
    stored_rows (ct_engine ct) (st_tables (store_of t)) ''equity_bars_staging'' staging_insert bs staged \<and>
    stored_rows (ct_engine ct) (st_tables (store_of t)) ''equity_reconciliation_results'' result_insert rs results \<and>
    stored_rows (ct_engine ct) (st_tables (store_of t)) ''equity_exceptions'' exception_insert (exception_rows e) exceptions \<and>
    length results = 2 * length ps \<and>
    int (length exceptions) = sm_break_count sm \<and>
    sm_break_count sm = int (length (filter (\<lambda>r. er_status (pr_row r) = BREAK) ps)) \<and>
    (sm_status sm = ''SUCCESS'' \<longleftrightarrow> (\<forall>r\<in>set ps. er_status (pr_row r) \<noteq> BREAK)) \<and>
    reconciliation_path run_id (jb_base (ct_job ct)) = Inr p \<and>
    (\<exists>g. fr_columns g = result_columns @ [''run_id''] \<and> fr_rows g = map (\<lambda>r. pair_cells r @ [PStr run_id]) ps \<and>
      lk_files (lake_of t') = (if file_exists p (lake_of t) then lk_files (lake_of t)
        else (lk_files (lake_of t))(p \<mapsto> Whole g)))"
proof -
  from assms(2) obtain ps where ps: "reconcile_equity_sources (jb_runtime (ct_job ct)) (jb_parsers (ct_job ct))
      (ct_merge ct) batch_tolerances bars = Inr ps"
    and r: "record_results ct run_id symbols day bars (pairwise_frame ps) t = (Inr sm, t')"
    unfolding complete_run_def by (auto simp: st_simps elim!: bind_st_cases)
  obtain p l e q where
    a: "archive_reconciliation_results (jb_disk (ct_job ct)) (jb_runtime (ct_job ct)) (jb_base (ct_job ct))
      (pairwise_frame ps) run_id True (lake_of t) = (Inr p, l)" "lake_of t' = l"
    and e: "create_equity_exceptions (jb_runtime (ct_job ct)) (ct_now ct) (pairwise_frame ps) run_id = Inr e"
    and q: "equity_run_of ct run_id bars (pairwise_frame ps) e = Inr q"
    and d: "sm_already_completed sm \<or> persist_equity_run (ct_engine ct) q (store_of t) = (Inr True, store_of t') \<and>
      sm = fresh_summary ct run_id symbols day (eq_status q) (count_status (pairwise_frame ps) ''BREAK'') False"
    by (rule record_results_Inr [OF r assms(1)])
  from d assms(3) have s: "persist_equity_run (ct_engine ct) q (store_of t) = (Inr True, store_of t')"
      "sm = fresh_summary ct run_id symbols day (eq_status q) (count_status (pairwise_frame ps) ''BREAK'') False"
    by simp_all
  note f = equity_run_of_Inr [OF q]
  have breaks: "count_status (pairwise_frame ps) ''BREAK'' = int (length (filter (\<lambda>r. er_status (pr_row r) = BREAK) ps))"
    by (simp add: count_breaks pair_break_def [abs_def])
  have "sm_status sm = ''SUCCESS'' \<longleftrightarrow> count_status (pairwise_frame ps) ''BREAK'' = 0"
    by (simp add: s(2) fresh_summary_def f(4))
  also have "\<dots> \<longleftrightarrow> (\<forall>r\<in>set ps. er_status (pr_row r) \<noteq> BREAK)" by (simp add: breaks filter_empty_conv)
  finally have status: "sm_status sm = ''SUCCESS'' \<longleftrightarrow> (\<forall>r\<in>set ps. er_status (pr_row r) \<noteq> BREAK)" .
  have count: "sm_break_count sm = count_status (pairwise_frame ps) ''BREAK''" by (simp add: s(2) fresh_summary_def)
  obtain bs rs run staged results exceptions where rows: "run_bar_rows q = Inr bs"
    "reconciliation_rows (pairwise_frame ps) run_id = Inr rs"
    and added: "rows_of (st_tables (store_of t')) = (rows_of (st_tables (store_of t)))
      (''pipeline_runs'' := rows_of (st_tables (store_of t)) ''pipeline_runs'' @ [run],
       ''equity_bars_staging'' := rows_of (st_tables (store_of t)) ''equity_bars_staging'' @ staged,
       ''equity_reconciliation_results'' := rows_of (st_tables (store_of t)) ''equity_reconciliation_results'' @ results,
       ''equity_exceptions'' := rows_of (st_tables (store_of t)) ''equity_exceptions'' @ exceptions)"
    and stored: "stored_rows (ct_engine ct) (st_tables (store_of t)) ''pipeline_runs'' run_insert [run_values q] [run]"
    "stored_rows (ct_engine ct) (st_tables (store_of t)) ''equity_bars_staging'' staging_insert bs staged"
    "stored_rows (ct_engine ct) (st_tables (store_of t)) ''equity_reconciliation_results'' result_insert rs results"
    "stored_rows (ct_engine ct) (st_tables (store_of t)) ''equity_exceptions'' exception_insert (exception_rows e) exceptions"
    using persist_rows_added [OF s(1)] unfolding f(1,2,3) by blast
  have "length (fr_rows (pairwise_frame ps)) = length ps" by (simp add: pairwise_frame_def table_frame_def)
  with stored_rows_length [OF stored(3)] reconciliation_rows_length [OF rows(2)]
  have results: "length results = 2 * length ps" by simp
  have "length exceptions = length (fr_rows e)" using stored_rows_length [OF stored(4)] by (simp add: exception_rows_def)
  then have exceptions: "int (length exceptions) = sm_break_count sm"
    using exceptions_of_pairs [OF ps e] count by simp
  have breaking: "sm_break_count sm = int (length (filter (\<lambda>r. er_status (pr_row r) = BREAK) ps))"
    using count breaks by simp
  have path: "reconciliation_path run_id (jb_base (ct_job ct)) = Inr p" by (rule archive_results_Inr(1) [OF a(1)])
  have "\<exists>g. fr_columns g = result_columns @ [''run_id''] \<and> fr_rows g = map (\<lambda>r. pair_cells r @ [PStr run_id]) ps \<and>
      lk_files (lake_of t') = (if file_exists p (lake_of t) then lk_files (lake_of t) else (lk_files (lake_of t))(p \<mapsto> Whole g))"
    unfolding a(2) by (rule archived_pairs [OF a(1)])
  then obtain g where archived: "fr_columns g = result_columns @ [''run_id'']"
    "fr_rows g = map (\<lambda>r. pair_cells r @ [PStr run_id]) ps"
    "lk_files (lake_of t') = (if file_exists p (lake_of t) then lk_files (lake_of t) else (lk_files (lake_of t))(p \<mapsto> Whole g))"
    by blast
  show ?thesis
    by (intro exI conjI) (rule ps e q rows added stored results exceptions breaking status path archived)+
qed

subsection \<open>Runs on concrete inputs\<close>

definition batch_runtime :: runtime where
  "batch_runtime = sample_runtime\<lparr>isoformat := (\<lambda>n. ''t'')\<rparr>"

definition sample_control :: control where
  "sample_control = \<lparr>ct_engine = plain_engine, ct_job = sample_job\<lparr>jb_runtime := batch_runtime\<rparr>, ct_completed = (\<lambda>ps. ps), ct_merge = merge_by_key,
     ct_adapters = sample_adapters, ct_env = (\<lambda>name. None), ct_delivers = (\<lambda>n. True), ct_today = 5,
     ct_started_at = ''t0'', ct_finished_at = ''t1'', ct_now = int, ct_trace = None, ct_root_span = None\<rparr>"

definition sample_state :: batch_state where
  "sample_state = \<lparr>bs_world = \<lparr>w_lake = empty_lake, w_store = fresh_store\<rparr>,
     bs_outbox = \<lparr>ob_sent = [], ob_attempts = 0\<rparr>, bs_breaks = 0\<rparr>"

definition no_bars :: frame where
  "no_bars = lake_bars\<lparr>fr_rows := []\<rparr>"

definition one_sided :: "(string \<times> frame) list" where
  "one_sided = [(''YAHOO'', lake_bars), (''ALPACA'', no_bars), (''MASSIVE'', no_bars)]"

lemma fl_not_neg: "0 \<le> x \<Longrightarrow> flt (fl x) (Fin 0) \<longleftrightarrow> False"
  using fle_flt_trans [OF fl_nonneg, of x] by (cases "fl x") (auto dest: fl_nonneg)

lemma fl_not_less: "x \<le> y \<Longrightarrow> flt (fl y) (fl x) \<longleftrightarrow> False"
  using fl_mono [of x y] by (cases "fl x"; cases "fl y") auto

lemma batch_tolerances_ok: "check_tolerances batch_tolerances = Inr ()"
  by (simp add: check_tolerances_def batch_tolerances_def negative_option_def fl_not_neg fl_not_less fl_mono fl_nonneg)

lemma sample_keyed: "keyed ''pipeline_runs'' ''run_id'' (st_tables (store_of sample_state))"
  using fresh_keyed(1) by (simp add: sample_state_def)


definition lone_row :: equity_row where
  "lone_row = \<lparr>er_symbol = ''AAPL'', er_date = 5, er_close_a = Fin 2, er_close_b = NaN, er_close_difference = NaN,
     er_volume_a = Fin 9, er_volume_b = NaN, er_volume_difference = NaN, er_status = BREAK\<rparr>"

definition lone_pairs :: "pair_row list" where
  "lone_pairs = pair_rows ''YAHOO'' ''ALPACA'' [lone_row] @ pair_rows ''YAHOO'' ''MASSIVE'' [lone_row]"

lemma one_sided_reconciled:
  "reconcile_equity_sources batch_runtime midnight_parsers merge_by_key batch_tolerances one_sided = Inr lone_pairs"
proof -
  have v: "validate_equity_bars batch_runtime midnight_parsers lake_bars = Inr ()"
    "validate_equity_bars batch_runtime midnight_parsers no_bars = Inr ()" by code_simp+
  let ?b = "\<lparr>bar_close = Fin 2, bar_volume = Fin 9\<rparr>"
  have "merge_by_key (equity_map batch_runtime midnight_parsers lake_bars) (equity_map batch_runtime midnight_parsers no_bars)
      = [((''AAPL'', 5), Some ?b, None)]"
    "merge_by_key (equity_map batch_runtime midnight_parsers no_bars) (equity_map batch_runtime midnight_parsers no_bars) = []"
    by code_simp+
  moreover have "compare_bars t ((''AAPL'', 5), Some ?b, None) = lone_row" for t
    by (simp add: compare_bars_def side_def price_status_def Let_def lone_row_def)
  ultimately have
    "reconcile_equity_bars batch_runtime midnight_parsers merge_by_key batch_tolerances lake_bars no_bars = Inr [lone_row]"
    "reconcile_equity_bars batch_runtime midnight_parsers merge_by_key batch_tolerances no_bars no_bars = Inr []"
    using v batch_tolerances_ok by (simp_all add: reconcile_bars_Inr)
  then show ?thesis
    by (simp add: reconcile_equity_sources_def one_sided_def lone_pairs_def pair_rows_def)
qed

lemma one_sided_recorded:
  "case record_results sample_control ''r1'' [''AAPL''] 5 one_sided (pairwise_frame lone_pairs) sample_state of
     (Inl _, _) \<Rightarrow> False | (Inr sm, _) \<Rightarrow> \<not> sm_already_completed sm \<and> sm_break_count sm = 2"
  by code_simp

lemma batch_failure_stores_nothing_witness:
  "\<exists>e t'. complete_run sample_control ''r1'' [''AAPL''] 5 [] sample_state = (Inl e, t') \<and>
     st_tables (store_of t') = st_tables (store_of sample_state)"
proof -
  have "complete_run sample_control ''r1'' [''AAPL''] 5 [] sample_state =
      (Inl (ValueError ''At least two equity providers are required''), sample_state)"
    by (simp add: complete_run_def reconcile_equity_sources_def st_simps bind_st_def)
  with batch_failure_stores_nothing [OF sample_keyed this] show ?thesis by blast
qed

lemma batch_accounts_witness:
  "\<exists>sm t'. complete_run sample_control ''r1'' [''AAPL''] 5 one_sided sample_state = (Inr sm, t') \<and>
     sm_status sm \<noteq> ''SUCCESS'' \<and> sm_break_count sm = 2"
proof -
  obtain sm t' where r: "record_results sample_control ''r1'' [''AAPL''] 5 one_sided (pairwise_frame lone_pairs) sample_state
      = (Inr sm, t')" and sm: "\<not> sm_already_completed sm" "sm_break_count sm = 2"
    using one_sided_recorded by (auto split: prod.splits sum.splits)
  have j: "jb_runtime (ct_job sample_control) = batch_runtime" "jb_parsers (ct_job sample_control) = midnight_parsers"
    "ct_merge sample_control = merge_by_key" by (simp_all add: sample_control_def sample_job_def)
  have c: "complete_run sample_control ''r1'' [''AAPL''] 5 one_sided sample_state = (Inr sm, t')"
    unfolding complete_run_def j one_sided_reconciled using r by (simp add: st_simps bind_st_def)
  have "er_status (pr_row p) = BREAK" if "p \<in> set lone_pairs" for p
    using that by (auto simp: lone_pairs_def pair_rows_def lone_row_def)
  moreover have "lone_pairs \<noteq> []" by (simp add: lone_pairs_def pair_rows_def)
  ultimately have "sm_status sm \<noteq> ''SUCCESS''"
    using batch_accounts [OF sample_keyed c sm(1)] one_sided_reconciled j
    by (metis Inr_inject last_in_set)
  with c sm(2) show ?thesis by blast
qed

subsection \<open>The identity of a run\<close>

lemma symbol_char_plain:
  assumes "symbol_char c"
  shows "\<not> py_space c" and "up_char c = c" and "c \<noteq> CHR '',''" and "c \<noteq> CHR ''|''"
  using assms by (auto simp: symbol_char_def is_upper_def is_digit_def py_space_def up_char_def Let_def)

lemma valid_symbol_chars: "valid_symbol s \<Longrightarrow> s \<noteq> [] \<and> (\<forall>c\<in>set s. symbol_char c)"
  by (auto simp: valid_symbol_def symbol_char_def list_all_iff split: list.splits)

lemma py_strip_plain: "\<forall>c\<in>set s. \<not> py_space c \<Longrightarrow> py_strip s = s"
proof -
  have left: "py_lstrip t = t" if "\<forall>c\<in>set t. \<not> py_space c" for t
    using that by (cases t) (auto simp: py_lstrip_def)
  assume "\<forall>c\<in>set s. \<not> py_space c"
  then show ?thesis using left [of s] left [of "rev s"] by (simp add: py_strip_def)
qed

lemma norm_valid [simp]: "valid_symbol s \<Longrightarrow> norm_name s = s"
  using valid_symbol_chars [of s] by (simp add: norm_name_def py_strip_plain symbol_char_plain py_upper_def map_idI)

lemma add_symbol_Inr:
  "add_symbol ss x = Inr ss' \<Longrightarrow> distinct ss \<and> (\<forall>s\<in>set ss. valid_symbol s) \<Longrightarrow>
   distinct ss' \<and> (\<forall>s\<in>set ss'. valid_symbol s)"
  by (auto simp: add_symbol_def Let_def split: if_splits)

lemma normalize_Inr:
  assumes "normalize_symbols vs = Inr ss"
  shows "distinct ss" and "\<forall>s\<in>set ss. valid_symbol s" and "ss \<noteq> []"
proof -
  from assms have f: "fold_res add_symbol [] (concat (map (split_on CHR '','') vs)) = Inr ss" and "ss \<noteq> []"
    by (auto simp: normalize_symbols_def res_simps split: if_splits)
  have "distinct ss \<and> (\<forall>s\<in>set ss. valid_symbol s)"
    by (rule fold_res_invariant [OF f]) (use add_symbol_Inr in \<open>simp, blast\<close>)
  with \<open>ss \<noteq> []\<close> show "distinct ss" "\<forall>s\<in>set ss. valid_symbol s" "ss \<noteq> []" by auto
qed

lemma add_symbols_fresh:
  assumes "\<forall>s\<in>set xs. valid_symbol s" and "distinct (ss @ xs)"
  shows "fold_res add_symbol ss xs = Inr (ss @ xs)"
  using assms
proof (induction xs arbitrary: ss)
  case (Cons x xs)
  then have "add_symbol ss x = Inr (ss @ [x])" using valid_symbol_chars [of x] by (simp add: add_symbol_def)
  with Cons show ?case by simp
qed simp

lemma normalize_fixed:
  assumes "distinct ss" and "\<forall>s\<in>set ss. valid_symbol s" and "ss \<noteq> []"
  shows "normalize_symbols ss = Inr ss"
proof -
  have "map (split_on CHR '','') ss = map (\<lambda>s. [s]) ss"
    using assms(2) valid_symbol_chars symbol_char_plain(3) by (intro map_cong refl split_on_single) blast
  then have "concat (map (split_on CHR '','') ss) = ss" by (simp only: concat_map_singleton) simp
  with add_symbols_fresh [of ss "[]"] assms show ?thesis by (simp add: normalize_symbols_def)
qed

lemma run_key_fields:
  "run_key rt ss day n = join_with ''|'' [''equity-daily-v5-partitioned'', ''buckets='' @ show_int n, iso_date rt day,
     join_with '','' ss]"
  by (simp add: run_key_def)

lemma show_int_no_bar: "CHR ''|'' \<notin> set (show_int n)"
proof -
  have "CHR ''|'' \<notin> set (show_nat m)" for m
    using show_nat_digits [of m] by (auto simp: list_all_iff is_digit_def)
  then show ?thesis by (simp add: show_int_def)
qed

lemma join_no_bar: "\<forall>s\<in>set ss. valid_symbol s \<Longrightarrow> CHR ''|'' \<notin> set (join_with '','' ss)"
proof (induction "'','' :: string" ss rule: join_with.induct)
  case (2 x)
  then show ?case using valid_symbol_chars symbol_char_plain(4) by auto
next
  case (3 x y ys)
  then show ?case using valid_symbol_chars [of x] symbol_char_plain(4) by auto
qed simp

lemma no_comma: "valid_symbol s \<Longrightarrow> CHR '','' \<notin> set s"
  using valid_symbol_chars [of s] symbol_char_plain(3) by blast

lemma run_key_inject:
  assumes "\<forall>s\<in>set xs. valid_symbol s" and "\<forall>s\<in>set ys. valid_symbol s" and "xs \<noteq> []" and "ys \<noteq> []"
    and "\<forall>d\<in>{day, day'}. CHR ''|'' \<notin> set (iso_date rt d)" and "inj_on (iso_date rt) {day, day'}"
  shows "run_key rt xs day n = run_key rt ys day' m \<longleftrightarrow> xs = ys \<and> day = day' \<and> n = m"
proof
  assume eq: "run_key rt xs day n = run_key rt ys day' m"
  let ?f = "\<lambda>k d zs. [''equity-daily-v5-partitioned'', ''buckets='' @ show_int k, iso_date rt d, join_with '','' zs]"
  have "CHR ''|'' \<notin> set w" if "w \<in> set (?f n day xs) \<union> set (?f m day' ys)" for w
    using that assms(1,2,5) join_no_bar show_int_no_bar by (elim UnE; simp; elim disjE; simp)
  then have "?f n day xs = ?f m day' ys"
    by (intro join_with_inject [OF eq [unfolded run_key_fields]]) blast+
  then have n: "n = m" and d: "iso_date rt day = iso_date rt day'" and j: "join_with '','' xs = join_with '','' ys"
    by simp_all
  moreover have "xs = ys"
    using assms(1,2) by (intro join_with_inject [OF j assms(3,4)] ballI no_comma) simp_all
  moreover have "day = day'" by (rule inj_onD [OF assms(6) d]) simp_all
  ultimately show "xs = ys \<and> day = day' \<and> n = m" using n by blast
qed simp

text \<open>C23 (run_identity): the same daily control has the same run identifier, whatever the spelling, order and
  repetition of its symbols; and with a digest and a date format that do not collide, two controls with
  different symbols, dates or bucket counts have different identifiers.\<close>

theorem run_identity:
  assumes "normalize_symbols a = Inr xs" and "normalize_symbols b = Inr ys"
    and "\<forall>d\<in>{day, day'}. CHR ''|'' \<notin> set (iso_date rt d)" and "inj_on (iso_date rt) {day, day'}"
    and "inj_on (uuid5 rt) {run_key rt (sort xs) day n, run_key rt (sort ys) day' m}"
  shows "build_run_id rt a day n = build_run_id rt b day' m \<longleftrightarrow> set xs = set ys \<and> day = day' \<and> n = m"
proof -
  note x = normalize_Inr [OF assms(1)] and y = normalize_Inr [OF assms(2)]
  have "sort xs = sort ys \<longleftrightarrow> set xs = set ys"
    using x(1) y(1) by (metis set_sort sorted_list_of_set_sort_remdups distinct_remdups_id)
  moreover have "run_key rt (sort xs) day n = run_key rt (sort ys) day' m \<longleftrightarrow> sort xs = sort ys \<and> day = day' \<and> n = m"
    using x y by (intro run_key_inject assms(3,4)) (simp_all flip: set_empty)
  ultimately show ?thesis
    using inj_on_eq_iff [OF assms(5)] by (simp add: build_run_id_def assms(1,2))
qed

lemma run_identity_witness:
  "build_run_id sample_runtime ['' msft,aapl''] 5 64 = build_run_id sample_runtime [''AAPL'', ''MSFT'', ''aapl''] 5 64"
proof -
  have n: "normalize_symbols ['' msft,aapl''] = Inr [''MSFT'', ''AAPL'']"
    "normalize_symbols [''AAPL'', ''MSFT'', ''aapl''] = Inr [''AAPL'', ''MSFT'']" by code_simp+
  have "CHR ''|'' \<notin> set (iso_date sample_runtime 5)" using show_int_no_bar by (simp add: sample_runtime_def)
  with run_identity [OF n, of 5 5 sample_runtime 64 64] show ?thesis by (auto simp: inj_on_def sample_runtime_def)
qed

text \<open>The accepted symbols are valid, distinct and not empty, and
  normalising them again changes nothing.\<close>

theorem normalize_symbols_canonical:
  assumes "normalize_symbols vs = Inr ss"
  shows "ss \<noteq> [] \<and> distinct ss \<and> (\<forall>s\<in>set ss. valid_symbol s) \<and> normalize_symbols ss = Inr ss"
  using normalize_Inr [OF assms] normalize_fixed by blast

lemma normalize_symbols_canonical_witness: "normalize_symbols [''BRK.B'', ''MSFT''] = Inr [''BRK.B'', ''MSFT'']"
proof -
  have "normalize_symbols ['' brk.b,'', ''MSFT,msft''] = Inr [''BRK.B'', ''MSFT'']" by code_simp
  from normalize_symbols_canonical [OF this] show ?thesis by blast
qed

subsection \<open>A completed control\<close>

lemma select_run_none:
  assumes "get_pipeline_run eng run_id s = (Inr None, s')"
  shows "PStr run_id \<notin> set (ids_of ''pipeline_runs'' ''run_id'' (st_tables s))"
proof -
  from assms have sel: "select eng ''pipeline_runs'' run_summary_columns ''run_id'' (PStr run_id) s = (Inr [], s')"
    by (auto simp: get_pipeline_run_def st_simps elim!: bind_st_cases split: list.splits)
  then obtain ts where r: "select_rows ''pipeline_runs'' run_summary_columns ''run_id'' (PStr run_id) (st_tables s) = Inr ([], ts)"
    unfolding select_def by (cases rule: statement_cases) auto
  then obtain tb where tb: "map_of (st_tables s) ''pipeline_runs'' = Some tb"
    and "filter (\<lambda>r. field tb ''run_id'' r = PStr run_id) (tb_rows tb) = []"
    by (auto simp: select_rows_def split: option.splits if_splits)
  then have "\<forall>r\<in>set (tb_rows tb). field tb ''run_id'' r \<noteq> PStr run_id" by (simp add: filter_empty_conv)
  with tb show ?thesis by (auto simp: ids_of_def)
qed

lemma run_control_stored:
  assumes "initialize_database (ct_engine ct) (store_of t) = (r, s1)"
    and "PStr run_id \<in> set (ids_of ''pipeline_runs'' ''run_id'' (st_tables s1))"
    and "run_control ct run_id symbols day buckets workers t = (a, t')"
  shows "lake_of t' = lake_of t" and "bs_outbox t' = bs_outbox t" and "st_tables (store_of t') = st_tables s1"
    and "\<forall>sm. a \<noteq> Inr (Computed sm)"
proof -
  have step: "in_world (in_store (initialize_database (ct_engine ct))) t = (r, t\<lparr>bs_world := (bs_world t)\<lparr>w_store := s1\<rparr>\<rparr>)"
    using assms(1) by (simp add: lifted)
  have "lake_of t' = lake_of t \<and> bs_outbox t' = bs_outbox t \<and> st_tables (store_of t') = st_tables s1 \<and>
    (\<forall>sm. a \<noteq> Inr (Computed sm))"
  proof (cases r)
    case (Inl e)
    with assms(3) step show ?thesis by (auto simp: run_control_def bind_st_def)
  next
    case (Inr u)
    obtain x s2 where g: "get_pipeline_run (ct_engine ct) run_id s1 = (x, s2)" by fastforce
    then have "st_tables s2 = st_tables s1" using get_pipeline_run_same by (metis snd_conv)
    moreover from g assms(2) select_run_none have "x \<noteq> Inr None" by metis
    ultimately show ?thesis using assms(3) step Inr g
      by (auto simp: run_control_def bind_st_def in_world_def in_store_def st_simps split: sum.splits option.splits)
  qed
  then show "lake_of t' = lake_of t" "bs_outbox t' = bs_outbox t" "st_tables (store_of t') = st_tables s1"
    "\<forall>sm. a \<noteq> Inr (Computed sm)" by blast+
qed

text \<open>C6 (completed_run_not_repeated): when the run of a control is already stored, calling the control again,
  whatever the engine, the providers and the webhook do, neither computes nor stores anything: the archive
  is unchanged, the tables are those that opening the store left, and a call that returns sends nothing, even when
  the message of the stored run was never delivered.\<close>

theorem completed_run_not_repeated:
  assumes "get_reconciliation_symbols (ct_env ct) configured = Inr ss"
    and "get_control_date (jb_runtime (ct_job ct)) (ct_today ct) cd = Inr day"
    and "get_scaling_configuration (ct_env ct) = Inr (buckets, workers)"
    and "build_run_id (jb_runtime (ct_job ct)) ss day buckets = Inr run_id"
    and "initialize_database (ct_engine ct) (store_of t) = (r, s1)"
    and "PStr run_id \<in> set (ids_of ''pipeline_runs'' ''run_id'' (st_tables s1))"
    and "batch_main ct configured cd t = (a, t')"
  shows "lake_of t' = lake_of t \<and> st_tables (store_of t') = st_tables s1 \<and> (\<forall>sm. a \<noteq> Inr (Computed sm)) \<and>
    (is_ok a \<longrightarrow> bs_outbox t' = bs_outbox t)"
proof -
  let ?t = "t\<lparr>bs_breaks := 0\<rparr>"
  obtain b t1 where c: "run_control ct run_id ss day buckets workers ?t = (b, t1)" by fastforce
  note s = run_control_stored [OF _ assms(6) c, of r] 
  have i: "initialize_database (ct_engine ct) (store_of ?t) = (r, s1)" using assms(5) by simp
  have m: "(a, t') = (case b of
      Inl e \<Rightarrow> bind_st (in_outbox (send_run_notification (ct_env ct) (ct_delivers ct)
        (fresh_summary ct run_id ss day ''FAILED'' (bs_breaks t1) False))) (\<lambda>_. fail_st e) t1
    | Inr (Existing row) \<Rightarrow> (Inr (Existing row), t1)
    | Inr (Computed sm) \<Rightarrow> bind_st (in_outbox (send_run_notification (ct_env ct) (ct_delivers ct) sm))
        (\<lambda>_. return_st (Computed sm)) t1)"
    using assms(7) by (simp add: batch_main_def bind_st_def lift_res_eq assms(1-4) set_breaks_def c split: sum.splits run_answer.splits)
  show ?thesis
  proof (cases b)
    case (Inl e)
    with m s [OF i] show ?thesis by (auto simp: bind_st_def in_outbox_def st_simps split: prod.splits sum.splits)
  next
    case (Inr x)
    with m s [OF i] show ?thesis by (cases x) auto
  qed
qed

definition stored_state :: batch_state where
  "stored_state = sample_state\<lparr>bs_world := \<lparr>w_lake = empty_lake,
     w_store = snd (persist_equity_run plain_engine (sample_run\<lparr>eq_run_id :=
       ''id:equity-daily-v5-partitioned|buckets=64|5|AAPL''\<rparr>) fresh_store)\<rparr>\<rparr>"

lemma completed_run_not_repeated_witness:
  "\<exists>a t'. batch_main sample_control (Some [''aapl'']) (PDate 5) stored_state = (a, t') \<and> lake_of t' = empty_lake \<and>
     (\<forall>sm. a \<noteq> Inr (Computed sm))"
proof -
  obtain r s1 where i: "initialize_database plain_engine (store_of stored_state) = (r, s1)" by fastforce
  have "PStr ''id:equity-daily-v5-partitioned|buckets=64|5|AAPL'' \<in> set (ids_of ''pipeline_runs'' ''run_id''
      (st_tables (snd (initialize_database plain_engine (store_of stored_state)))))" by code_simp
  then have m: "PStr ''id:equity-daily-v5-partitioned|buckets=64|5|AAPL'' \<in> set (ids_of ''pipeline_runs'' ''run_id'' (st_tables s1))"
    by (simp add: i)
  have b: "get_reconciliation_symbols (ct_env sample_control) (Some [''aapl'']) = Inr [''AAPL'']"
    "get_control_date (jb_runtime (ct_job sample_control)) (ct_today sample_control) (PDate 5) = Inr 5"
    "get_scaling_configuration (ct_env sample_control) = Inr (64, 8)"
    "build_run_id (jb_runtime (ct_job sample_control)) [''AAPL''] 5 64 =
      Inr ''id:equity-daily-v5-partitioned|buckets=64|5|AAPL''" by code_simp+
  have e: "ct_engine sample_control = plain_engine" by (simp add: sample_control_def)
  obtain a t' where a: "batch_main sample_control (Some [''aapl'']) (PDate 5) stored_state = (a, t')" by fastforce
  have "lake_of stored_state = empty_lake" by (simp add: stored_state_def)
  with completed_run_not_repeated [OF b _ m a, of r] i e a show ?thesis by simp
qed

text \<open>The replay of an archived run compares with the default limits of \<open>reconcile_equity_sources\<close>, the control
  with its own: the same two closes are a break in the one and match in the other.\<close>

lemma fl_dyadic: "\<bar>k\<bar> < 2 ^ 53 \<Longrightarrow> n \<le> 1074 \<Longrightarrow> fl (of_int k / 2 ^ n) = Fin (of_int k / 2 ^ n)"
proof -
  assume k: "\<bar>k\<bar> < 2 ^ 53" and n: "n \<le> 1074"
  have e: "of_int k / 2 ^ n = (of_int k * 2 powi (- int n) :: rat)" by (simp add: power_int_minus divide_inverse)
  have "\<bar>of_int k :: rat\<bar> < 2 ^ 53" using k by (metis of_int_abs of_int_less_iff of_int_numeral of_int_power)
  moreover have "\<bar>of_int k / 2 ^ n :: rat\<bar> \<le> \<bar>of_int k\<bar>"
    by (simp add: abs_divide divide_le_eq mult_left_le_one_le) (simp add: mult_le_cancel_left1)
  moreover have "(2 ^ 53 :: rat) \<le> 2 ^ 1024" by (rule power_increasing) auto
  moreover have "fl_round (of_int k / 2 ^ n) = of_int k / 2 ^ n" unfolding e by (rule fl_round_exact) (use k n in simp_all)
  ultimately show ?thesis by (intro fl_small) linarith+
qed

lemma replay_other_thresholds:
  "price_status default_tolerances (Fin 100) (Fin (3201 / 32)) = BREAK \<and>
   price_status batch_tolerances (Fin 100) (Fin (3201 / 32)) = MATCH"
proof
  have d: "fsub (Fin 100) (Fin (3201 / 32)) = Fin (- 1 / 32)" using fl_dyadic [of "-1" 5] by (simp add: fsub_def)
  have "fle (fl (1 / 100)) (Fin (1 / 64))" using fl_mono [of "1 / 100" "1 / 64"] fl_dyadic [of 1 6] by simp
  then have "flt (fl (1 / 100)) (Fin (1 / 32))" by (rule fle_flt_trans) simp
  with d show "price_status default_tolerances (Fin 100) (Fin (3201 / 32)) = BREAK"
    by (simp add: price_status_def Let_def default_tolerances_def price_limit_def)
  have above: "\<not> flt (fmax x y) (Fin (1 / 32))" if "fle (Fin (1 / 32)) x \<or> fle (Fin (1 / 32)) y" for x y
    using that by (cases x; cases y) (auto simp: fmax_def)
  have "fle (Fin (1 / 32)) (fl (5 / 100))" using fl_mono [of "1 / 32" "5 / 100"] fl_dyadic [of 1 5] by simp
  note break_limit = above [OF disjI1, OF this]
  have "fle (Fin (1 / 1024)) (fl (1 / 1000))" using fl_mono [of "1 / 1024" "1 / 1000"] fl_dyadic [of 1 10] by simp
  then have "fle (Fin (1 / 32)) (fmul (Fin (3201 / 32)) (fl (1 / 1000)))"
  proof (cases "fl (1 / 1000)")
    case (Fin q)
    assume "fle (Fin (1 / 1024)) (fl (1 / 1000))"
    then have "1 / 32 \<le> 3201 / 32 * q" using Fin by simp
    from fl_mono [OF this] fl_dyadic [of 1 5] show ?thesis by (simp add: Fin)
  qed (simp_all add: signed_inf_def)
  note warn_limit = above [OF disjI2, OF this]
  show "price_status batch_tolerances (Fin 100) (Fin (3201 / 32)) = MATCH"
    using break_limit warn_limit
    by (simp add: price_status_def Let_def d batch_tolerances_def price_limit_def fmax_def [of "Fin 100"])
qed

end
