(* ===== verification/Queries.thy ===== *)
theory Queries
  imports Sql "HOL-Library.Product_Lexorder" "HOL-Library.Multiset" "HOL-Library.Countable"
begin

section \<open>Read-only queries\<close>

text \<open>
  The \<open>SELECT\<close> statements that the alerts, the API and the dashboard share: reading a table, filters, aggregates,
  \<open>ORDER BY\<close> with \<open>LIMIT\<close> and \<open>OFFSET\<close>.  The engine may return rows whose
  sort keys agree in any order, and in another one for the next query.
\<close>

subsection \<open>Reading a table\<close>

definition scan :: "engine \<Rightarrow> string \<Rightarrow> string list \<Rightarrow> (pyval \<times> table) db" where
  "scan eng name cols s = statement eng (\<lambda>ts. case map_of ts name of
     None \<Rightarrow> Inl DatabaseError
   | Some tb \<Rightarrow> if set cols \<subseteq> set (column_names tb) then Inr ((clock eng (st_steps s), tb), ts) else Inl DatabaseError) s"

definition count_where :: "table \<Rightarrow> (row \<Rightarrow> bool) \<Rightarrow> int" where
  "count_where tb P = int (length (filter P (tb_rows tb)))"

text \<open>\<open>max\<close> of a column of doubles: \<open>NULL\<close> is skipped, \<open>NaN\<close> is the largest value.\<close>

definition sql_greater :: "pyfloat \<Rightarrow> pyfloat \<Rightarrow> pyfloat" where
  "sql_greater x y = (if is_nan x then x else if is_nan y then y else if fle x y then y else x)"

fun sql_max :: "pyval list \<Rightarrow> pyfloat option" where
  "sql_max [] = None"
| "sql_max (PFloat x # vs) = (case sql_max vs of None \<Rightarrow> Some x | Some y \<Rightarrow> Some (sql_greater x y))"
| "sql_max (v # vs) = sql_max vs"

definition sql_max_double :: "pyval list \<Rightarrow> pyval" where
  "sql_max_double vs = (case sql_max vs of None \<Rightarrow> PNone | Some x \<Rightarrow> PFloat x)"

text \<open>\<open>upper\<close> of a column of texts, and a condition whose parameter may be absent.\<close>

definition upper_of :: "pyval \<Rightarrow> pyval" where
  "upper_of v = (case v of PStr s \<Rightarrow> PStr (py_upper s) | _ \<Rightarrow> v)"

definition holds :: "('a \<Rightarrow> bool) \<Rightarrow> 'a option \<Rightarrow> bool" where
  "holds P v = (case v of None \<Rightarrow> True | Some x \<Rightarrow> P x)"

lemma scan_Inr:
  assumes "scan eng name cols s = (Inr (now, tb), s')"
  shows "st_tables s' = st_tables s" and "map_of (st_tables s) name = Some tb" and "now = clock eng (st_steps s)"
    and "st_steps s' = Suc (st_steps s)"
  using assms by (auto simp: scan_def statement_def Let_def split: option.splits sum.splits if_splits)

lemma scan_tables: "scan eng name cols s = (r, s') \<Longrightarrow> st_tables s' = st_tables s"
  by (auto simp: scan_def statement_def Let_def split: option.splits sum.splits if_splits)

lemma count_where_zero: "count_where tb P = 0 \<longleftrightarrow> (\<forall>r\<in>set (tb_rows tb). \<not> P r)"
  by (simp add: count_where_def filter_empty_conv)

subsection \<open>Orders\<close>

text \<open>\<open>DESC\<close>\<close>

datatype 'a descending = Descending (ascending: 'a)

instantiation descending :: (linorder) linorder
begin

definition less_eq_descending :: "'a descending \<Rightarrow> 'a descending \<Rightarrow> bool" where
  "x \<le> y \<longleftrightarrow> ascending y \<le> ascending x"

definition less_descending :: "'a descending \<Rightarrow> 'a descending \<Rightarrow> bool" where
  "x < y \<longleftrightarrow> ascending y < ascending x"

instance
  by standard (auto simp: less_eq_descending_def less_descending_def intro: descending.expand)

end

text \<open>How the engine compares the values of a column, and in which order a query meets the rows.\<close>

record 'k collation =
  rank :: "pyval \<Rightarrow> 'k"
  arrange :: "nat \<Rightarrow> row list \<Rightarrow> row list"

definition fair :: "'k collation \<Rightarrow> bool" where
  "fair c \<longleftrightarrow> inj (rank c) \<and> (\<forall>n rows. mset (arrange c n rows) = mset rows)"

text \<open>\<open>ORDER BY v DESC NULLS LAST\<close>\<close>

definition desc_key :: "'k collation \<Rightarrow> pyval \<Rightarrow> bool \<times> 'k descending" where
  "desc_key c v = (v = PNone, Descending (rank c v))"

definition asc_key :: "'k collation \<Rightarrow> pyval \<Rightarrow> bool \<times> 'k" where
  "asc_key c v = (v = PNone, rank c v)"

definition order_by :: "(row \<Rightarrow> 'o::linorder) \<Rightarrow> 'k collation \<Rightarrow> nat \<Rightarrow> row list \<Rightarrow> row list" where
  "order_by key c n rows = sort_key key (arrange c n rows)"

definition page :: "nat \<Rightarrow> nat \<Rightarrow> 'r list \<Rightarrow> 'r list" where
  "page limit offset rows = take limit (drop offset rows)"

text \<open>Rows with different sort keys have one order; others keep every order that the engine likes.\<close>

lemma order_by_unique:
  assumes "fair c" and "inj_on key (set rows)"
  shows "order_by key c n rows = sort_key key rows"
proof -
  have m: "mset (arrange c n rows) = mset rows" using assms(1) by (simp add: fair_def)
  then have "set (arrange c n rows) = set rows" by (metis set_mset_mset)
  then show ?thesis unfolding order_by_def
    by (intro sort_key_inj_key_eq) (use assms(2) m in simp_all)
qed

lemma keys_injective: "fair c \<Longrightarrow> desc_key c v = desc_key c w \<longleftrightarrow> v = w" "fair c \<Longrightarrow> asc_key c v = asc_key c w \<longleftrightarrow> v = w"
  by (auto simp: fair_def desc_key_def asc_key_def dest: injD)

subsection \<open>Pages\<close>

definition next_offset :: "nat \<Rightarrow> nat \<Rightarrow> nat \<Rightarrow> nat option" where
  "next_offset limit offset size_of = (if offset + limit < size_of then Some (offset + limit) else None)"

text \<open>The values of a column can be told apart by natural numbers.\<close>

instance pyfloat :: countable by countable_datatype

instance datetime :: countable by countable_datatype

instance pyval :: countable by countable_datatype

end
