(* ===== verification/Alerts.thy ===== *)
theory Alerts
  imports Work_Manifest Environment Queries
begin

section \<open>Operational alerts\<close>

text \<open>
  \<open>alerts.py\<close>: the dispatcher with its cooldown, its use by several threads, the thresholds and the
  evaluation of the rules over the store.  The digest, the clock, the outcome of each delivery, the comparison of
  timestamps and the order in which \<open>GROUP BY\<close> returns the providers are arguments; log lines,
  spans and metrics are left out.
\<close>

subsection \<open>Alerts\<close>

record alert =
  al_rule :: string
  al_severity :: string
  al_summary :: string
  al_attributes :: payload

text \<open>Only the provider and the instrument type identify an alert beside its rule; \<open>sort_keys\<close> orders them.\<close>

definition identity_attributes :: "payload \<Rightarrow> payload" where
  "identity_attributes attrs =
     concat (map (\<lambda>k. case map_of attrs k of None \<Rightarrow> [] | Some v \<Rightarrow> [(k, v)]) [''instrument_type'', ''provider''])"

definition fingerprint :: "(string \<Rightarrow> string) \<Rightarrow> runtime \<Rightarrow> alert \<Rightarrow> string" where
  "fingerprint hexdigest rt a = take 24 (hexdigest (json_dumps rt (PDict
     [(''attributes'', PDict (identity_attributes (al_attributes a))), (''rule'', PStr (al_rule a))])))"

subsection \<open>The dispatcher\<close>

record channel =
  ch_fingerprint :: "alert \<Rightarrow> string"
  ch_clock :: "nat \<Rightarrow> pyfloat"
  ch_post :: "nat \<Rightarrow> exn option"

text \<open>The cooldown is kept for each fingerprint; the readings of the clock, the posts and the accepted
  messages are counted.\<close>

record dispatcher =
  dp_url :: "string option"
  dp_cooldown :: int
  dp_last :: "(string \<times> pyfloat) list"
  dp_failures :: nat
  dp_reads :: nat
  dp_posts :: nat
  dp_sent :: "(string \<times> pyfloat) list"

definition new_dispatcher :: "string option \<Rightarrow> int \<Rightarrow> dispatcher result" where
  "new_dispatcher url cooldown =
     (if cooldown < 0 then Inl (ValueError ''cooldown_seconds must be non-negative'')
      else Inr \<lparr>dp_url = url, dp_cooldown = cooldown, dp_last = [], dp_failures = 0, dp_reads = 0, dp_posts = 0,
        dp_sent = []\<rparr>)"

definition environment_int :: "environment \<Rightarrow> string \<Rightarrow> int \<Rightarrow> int result" where
  "environment_int env name dflt =
     (case env name of None \<Rightarrow> Inr dflt
      | Some v \<Rightarrow> (case py_int v of None \<Rightarrow> Inl (ValueError ''invalid literal for int()'') | Some n \<Rightarrow> Inr n))"

definition dispatcher_from_environment :: "process \<Rightarrow> dispatcher result" where
  "dispatcher_from_environment p =
     (let env = ps_env (load_project_env p) in
      bind_res (environment_int env ''ALERT_COOLDOWN_SECONDS'' 900) (\<lambda>cooldown.
      new_dispatcher (getenv_or env ''ALERT_WEBHOOK_URL'' ''WEBHOOK_URL'') cooldown))"

definition in_cooldown :: "int \<Rightarrow> (string \<times> pyfloat) list \<Rightarrow> string \<Rightarrow> pyfloat \<Rightarrow> bool" where
  "in_cooldown c sent f now =
     (case map_of sent f of None \<Rightarrow> False | Some t \<Rightarrow> flt (fsub now t) (Fin (of_int c)))"

text \<open>\<open>requests.RequestException\<close>, to which the errors of \<open>raise_for_status\<close> belong\<close>

fun request_error :: "exn \<Rightarrow> bool" where
  "request_error RequestException = True"
| "request_error (HTTPStatusError n) = True"
| "request_error _ = False"

definition dispatch :: "channel \<Rightarrow> alert \<Rightarrow> (dispatcher, bool) prog" where
  "dispatch ch a d =
     (let now = ch_clock ch (dp_reads d); f = ch_fingerprint ch a; d1 = d\<lparr>dp_reads := dp_reads d + 1\<rparr> in
      if in_cooldown (dp_cooldown d) (dp_last d) f now then (Inr False, d1)
      else case set_value (dp_url d) of
        None \<Rightarrow> (Inr False, d1)
      | Some url \<Rightarrow>
          let d2 = d1\<lparr>dp_posts := dp_posts d + 1\<rparr> in
          (case ch_post ch (dp_posts d) of
             None \<Rightarrow> (Inr True, d2\<lparr>dp_last := AList.update f now (dp_last d), dp_sent := dp_sent d @ [(f, now)]\<rparr>)
           | Some e \<Rightarrow>
               if request_error e then (Inr False, d2\<lparr>dp_failures := dp_failures d + 1\<rparr>) else (Inl e, d2)))"

text \<open>Any sequence of calls, whatever each of them raises.\<close>

definition dispatch_each :: "channel \<Rightarrow> alert list \<Rightarrow> dispatcher \<Rightarrow> dispatcher" where
  "dispatch_each ch as d = foldl (\<lambda>d a. snd (dispatch ch a d)) d as"

text \<open>The times at which the messages with a fingerprint were accepted.\<close>

definition times_of :: "(string \<times> pyfloat) list \<Rightarrow> string \<Rightarrow> pyfloat list" where
  "times_of sent f = map snd (filter (\<lambda>p. fst p = f) sent)"

definition apart :: "int \<Rightarrow> pyfloat \<Rightarrow> pyfloat \<Rightarrow> bool" where
  "apart c s t \<longleftrightarrow> \<not> flt (fsub t s) (Fin (of_int c))"

definition spaced :: "int \<Rightarrow> pyfloat list \<Rightarrow> bool" where
  "spaced c ts \<longleftrightarrow> (\<forall>i. Suc i < length ts \<longrightarrow> apart c (ts ! i) (ts ! Suc i))"

lemma times_of_simps [simp]:
  "times_of [] f = []" "times_of (sent @ [(g, t)]) f = times_of sent f @ (if g = f then [t] else [])"
  by (simp_all add: times_of_def)

lemma spaced_Nil [simp]: "spaced c []"
  by (simp add: spaced_def)

lemma spaced_snoc: "spaced c (ts @ [t]) \<longleftrightarrow> spaced c ts \<and> (ts = [] \<or> apart c (last ts) t)"
proof (cases ts rule: rev_cases)
  case (snoc us u)
  then show ?thesis
    by (auto simp: spaced_def nth_append less_Suc_eq split: if_splits)
qed (simp add: spaced_def)

text \<open>What \<open>_last_sent\<close> holds, and the distance between messages.\<close>

definition last_time :: "pyfloat list \<Rightarrow> pyfloat option" where
  "last_time ts = (if ts = [] then None else Some (last ts))"

definition dispatcher_ok :: "dispatcher \<Rightarrow> bool" where
  "dispatcher_ok d \<longleftrightarrow> (\<forall>f. map_of (dp_last d) f = last_time (times_of (dp_sent d) f) \<and>
     spaced (dp_cooldown d) (times_of (dp_sent d) f))"

lemma dispatch_cases:
  assumes "dispatch ch a d = (r, d')"
  obtains (same) "dp_last d' = dp_last d" "dp_sent d' = dp_sent d"
    | (sent) "r = Inr True" "\<not> in_cooldown (dp_cooldown d) (dp_last d) (ch_fingerprint ch a) (ch_clock ch (dp_reads d))"
        "dp_last d' = AList.update (ch_fingerprint ch a) (ch_clock ch (dp_reads d)) (dp_last d)"
        "dp_sent d' = dp_sent d @ [(ch_fingerprint ch a, ch_clock ch (dp_reads d))]"
  using assms by (auto simp: dispatch_def Let_def split: if_splits option.splits)

lemma dispatch_config [simp]:
  "dp_cooldown (snd (dispatch ch a d)) = dp_cooldown d" "dp_url (snd (dispatch ch a d)) = dp_url d"
  "dp_reads (snd (dispatch ch a d)) = Suc (dp_reads d)"
  by (auto simp: dispatch_def Let_def split: option.splits)

lemma dispatch_ok:
  assumes "dispatcher_ok d"
  shows "dispatcher_ok (snd (dispatch ch a d))"
proof -
  obtain r d' where d: "dispatch ch a d = (r, d')" by fastforce
  have c: "dp_cooldown d' = dp_cooldown d" using dispatch_config(1) [of ch a d] by (simp add: d)
  from d show ?thesis
  proof (cases rule: dispatch_cases)
    case same
    with assms c d show ?thesis by (simp add: dispatcher_ok_def)
  next
    case sent
    let ?f = "ch_fingerprint ch a" and ?now = "ch_clock ch (dp_reads d)"
    have "times_of (dp_sent d) ?f = [] \<or> apart (dp_cooldown d) (last (times_of (dp_sent d) ?f)) ?now"
      using sent(2) assms by (auto simp: dispatcher_ok_def in_cooldown_def apart_def last_time_def)
    with sent(3,4) assms c d show ?thesis
      by (auto simp: dispatcher_ok_def update_conv spaced_snoc last_time_def)
  qed
qed

lemma dispatch_each_ok:
  assumes "dispatcher_ok d"
  shows "dispatcher_ok (dispatch_each ch as d) \<and> dp_cooldown (dispatch_each ch as d) = dp_cooldown d"
  using assms unfolding dispatch_each_def
  by (induction as arbitrary: d) (simp_all add: dispatch_ok)

subsection \<open>Several threads\<close>

text \<open>
  A call holds the lock while it reads the time of the last message and again while it records a new one, but not
  in between: the post is a step of its own.  With \<open>exclusive\<close> a call begins only when no other one is under way
  for the same fingerprint.
\<close>

datatype phase = Idle | Posting string pyfloat | Accepted string pyfloat

record threads =
  th_last :: "(string \<times> pyfloat) list"
  th_sent :: "(string \<times> pyfloat) list"
  th_phase :: "nat \<Rightarrow> phase"

fun phase_of :: "phase \<Rightarrow> string option" where
  "phase_of Idle = None"
| "phase_of (Posting f t) = Some f"
| "phase_of (Accepted f t) = Some f"

inductive thread_step :: "bool \<Rightarrow> int \<Rightarrow> threads \<Rightarrow> threads \<Rightarrow> bool" for exclusive c where
  check: "th_phase s i = Idle \<Longrightarrow> \<not> in_cooldown c (th_last s) f now \<Longrightarrow>
    (exclusive \<Longrightarrow> \<forall>j. phase_of (th_phase s j) \<noteq> Some f) \<Longrightarrow>
    thread_step exclusive c s (s\<lparr>th_phase := (th_phase s)(i := Posting f now)\<rparr>)"
| refused: "th_phase s i = Posting f now \<Longrightarrow> thread_step exclusive c s (s\<lparr>th_phase := (th_phase s)(i := Idle)\<rparr>)"
| accepted: "th_phase s i = Posting f now \<Longrightarrow> thread_step exclusive c s
    (s\<lparr>th_phase := (th_phase s)(i := Accepted f now), th_sent := th_sent s @ [(f, now)]\<rparr>)"
| recorded: "th_phase s i = Accepted f now \<Longrightarrow> thread_step exclusive c s
    (s\<lparr>th_phase := (th_phase s)(i := Idle), th_last := AList.update f now (th_last s)\<rparr>)"

definition no_calls :: threads where
  "no_calls = \<lparr>th_last = [], th_sent = [], th_phase = (\<lambda>i. Idle)\<rparr>"

definition reachable :: "bool \<Rightarrow> int \<Rightarrow> threads \<Rightarrow> bool" where
  "reachable exclusive c s \<longleftrightarrow> (thread_step exclusive c)\<^sup>*\<^sup>* no_calls s"

text \<open>Along exclusive runs: one call per fingerprint, which was not in its cooldown, and the recorded time is the
  last one once the message is recorded.\<close>

definition calls_ok :: "int \<Rightarrow> threads \<Rightarrow> bool" where
  "calls_ok c s \<longleftrightarrow>
     (\<forall>i j f. phase_of (th_phase s i) = Some f \<longrightarrow> phase_of (th_phase s j) = Some f \<longrightarrow> i = j) \<and>
     (\<forall>f. spaced c (times_of (th_sent s) f)) \<and>
     (\<forall>f. (\<exists>i t. th_phase s i = Accepted f t \<and> last_time (times_of (th_sent s) f) = Some t) \<or>
          ((\<forall>i t. th_phase s i \<noteq> Accepted f t) \<and> map_of (th_last s) f = last_time (times_of (th_sent s) f))) \<and>
     (\<forall>i f t. th_phase s i = Posting f t \<longrightarrow> \<not> in_cooldown c (th_last s) f t)"

lemma phase_of_Some: "phase_of p = Some f \<longleftrightarrow> (\<exists>t. p = Posting f t \<or> p = Accepted f t)"
  by (cases p) auto

lemma calls_ok_step:
  assumes "thread_step exclusive c s s'" and "exclusive" and "calls_ok c s"
  shows "calls_ok c s'"
  using assms(1)
proof cases
  case (check i f now)
  have free: "\<forall>j. phase_of (th_phase s j) \<noteq> Some f" using check(4) assms(2) by simp
  have "\<And>j g t. th_phase s' j = Accepted g t \<longleftrightarrow> th_phase s j = Accepted g t"
    using check(1,2) by (auto split: if_splits)
  with check free assms(3) show ?thesis
    unfolding calls_ok_def by (auto simp: phase_of_Some split: if_splits)
next
  case (refused i f now)
  have "\<And>j g t. th_phase s' j = Accepted g t \<longleftrightarrow> th_phase s j = Accepted g t"
    using refused by (auto split: if_splits)
  with refused assms(3) show ?thesis
    unfolding calls_ok_def by (auto simp: phase_of_Some split: if_splits)
next
  case (accepted i f now)
  have only: "j = i" if "phase_of (th_phase s j) = Some f" for j
    using assms(3) accepted(2) that unfolding calls_ok_def by (metis phase_of.simps(2))
  then have none: "th_phase s j \<noteq> Accepted f t" for j t
    using accepted(2) by (metis phase.distinct(5) phase_of.simps(3))
  with assms(3) have last: "map_of (th_last s) f = last_time (times_of (th_sent s) f)"
    unfolding calls_ok_def by blast
  have "\<not> in_cooldown c (th_last s) f now" using assms(3) accepted(2) unfolding calls_ok_def by blast
  with last have apart: "times_of (th_sent s) f = [] \<or> apart c (last (times_of (th_sent s) f)) now"
    by (auto simp: in_cooldown_def apart_def last_time_def)
  have spaced: "spaced c (times_of (th_sent s') g)" for g
    using assms(3) apart accepted(1) by (cases "g = f") (auto simp: calls_ok_def spaced_snoc)
  have phases: "phase_of (th_phase s' j) = phase_of (th_phase s j)" for j
    using accepted by auto
  have other: "(\<exists>j t. th_phase s' j = Accepted g t \<and> last_time (times_of (th_sent s') g) = Some t) \<or>
      ((\<forall>j t. th_phase s' j \<noteq> Accepted g t) \<and> map_of (th_last s') g = last_time (times_of (th_sent s') g))" for g
  proof (cases "g = f")
    case True
    then show ?thesis using accepted(1) by (auto simp: last_time_def)
  next
    case False
    have "th_phase s' j = Accepted g t \<longleftrightarrow> th_phase s j = Accepted g t" for j t
      using accepted False by auto
    then show ?thesis using assms(3) accepted(1) False unfolding calls_ok_def by auto
  qed
  have "\<not> in_cooldown c (th_last s') g t" if "th_phase s' j = Posting g t" for j g t
    using that accepted assms(3) unfolding calls_ok_def by (auto split: if_splits)
  with phases spaced other assms(3) show ?thesis unfolding calls_ok_def by simp
next
  case (recorded i f now)
  have only: "j = i" if "phase_of (th_phase s j) = Some f" for j
    using assms(3) recorded(2) that unfolding calls_ok_def by (metis phase_of.simps(3))
  obtain j t where "th_phase s j = Accepted f t" "last_time (times_of (th_sent s) f) = Some t"
    using assms(3) recorded(2) unfolding calls_ok_def by blast
  with only [of j] recorded(2) have last: "last_time (times_of (th_sent s) f) = Some now" by simp
  have uniq: "j = k" if "phase_of (th_phase s' j) = Some g" "phase_of (th_phase s' k) = Some g" for j k g
    using that assms(3) recorded(1) unfolding calls_ok_def by (auto split: if_splits)
  have other: "(\<exists>j t. th_phase s' j = Accepted g t \<and> last_time (times_of (th_sent s') g) = Some t) \<or>
      ((\<forall>j t. th_phase s' j \<noteq> Accepted g t) \<and> map_of (th_last s') g = last_time (times_of (th_sent s') g))" for g
  proof (cases "g = f")
    case True
    then show ?thesis using recorded(1) last only by (auto simp: update_conv phase_of_Some split: if_splits)
  next
    case False
    have "th_phase s' j = Accepted g t \<longleftrightarrow> th_phase s j = Accepted g t" for j t
      using recorded False by auto
    then show ?thesis using assms(3) recorded(1) False unfolding calls_ok_def by (auto simp: update_conv)
  qed
  have spaced: "spaced c (times_of (th_sent s') g)" for g
    using assms(3) recorded(1) unfolding calls_ok_def by simp
  have cool: "\<not> in_cooldown c (th_last s') g t" if "th_phase s' j = Posting g t" for j g t
  proof -
    from that recorded(1) have "j \<noteq> i" "th_phase s j = Posting g t" by (auto split: if_splits)
    moreover from this only have "g \<noteq> f" by auto
    ultimately show ?thesis using assms(3) recorded(1) unfolding calls_ok_def by (auto simp: in_cooldown_def update_conv)
  qed
  show ?thesis unfolding calls_ok_def by (intro conjI allI impI) (fact uniq spaced other cool)+
qed

lemma reachable_ok: "reachable True c s \<Longrightarrow> calls_ok c s"
  unfolding reachable_def
proof (induction rule: rtranclp_induct)
  case base
  show ?case by (simp add: calls_ok_def no_calls_def last_time_def)
next
  case (step y z)
  show ?case by (rule calls_ok_step [OF step(2) _ step.IH]) simp
qed

text \<open>Without exclusion the lock is not enough: two calls that both pass the check before either records deliver the same alert twice
  at the same time.\<close>

lemma concurrent_calls_deliver_twice:
  assumes "0 < c"
  shows "\<exists>s. reachable False c s \<and> \<not> spaced c (times_of (th_sent s) f)"
proof -
  let ?p0 = "\<lambda>i::nat. Idle" and ?t = "Fin 0"
  let ?s1 = "no_calls\<lparr>th_phase := ?p0(0 := Posting f ?t)\<rparr>"
  let ?s2 = "?s1\<lparr>th_phase := (th_phase ?s1)(1 := Posting f ?t)\<rparr>"
  let ?s3 = "?s2\<lparr>th_phase := (th_phase ?s2)(0 := Accepted f ?t), th_sent := [(f, ?t)]\<rparr>"
  let ?s4 = "?s3\<lparr>th_phase := (th_phase ?s3)(1 := Accepted f ?t), th_sent := [(f, ?t), (f, ?t)]\<rparr>"
  have "thread_step False c no_calls ?s1"
    using thread_step.check [of no_calls 0 c f ?t False] by (simp add: no_calls_def in_cooldown_def)
  moreover have "thread_step False c ?s1 ?s2"
    using thread_step.check [of ?s1 1 c f ?t False] by (simp add: no_calls_def in_cooldown_def)
  moreover have "thread_step False c ?s2 ?s3"
    using thread_step.accepted [of ?s2 0 f ?t False c] by (simp add: no_calls_def)
  moreover have "thread_step False c ?s3 ?s4"
    using thread_step.accepted [of ?s3 1 f ?t False c] by (simp add: no_calls_def)
  ultimately have "reachable False c ?s4"
    unfolding reachable_def by (meson converse_rtranclp_into_rtranclp rtranclp.rtrancl_refl)
  moreover have "\<not> spaced c (times_of (th_sent ?s4) f)"
    using assms by (simp add: times_of_def spaced_def apart_def)
  ultimately show ?thesis by blast
qed

text \<open>Calls made one after another are a run of one thread: a suppressed call takes no step, a failed post and a call
  without a destination end the post without a message, and an accepted one records its time.\<close>

definition threads_of :: "dispatcher \<Rightarrow> threads" where
  "threads_of d = \<lparr>th_last = dp_last d, th_sent = dp_sent d, th_phase = (\<lambda>i. Idle)\<rparr>"

lemma dispatch_steps: "(thread_step True (dp_cooldown d))\<^sup>*\<^sup>* (threads_of d) (threads_of (snd (dispatch ch a d)))"
proof -
  obtain r d' where d: "dispatch ch a d = (r, d')" by fastforce
  then show ?thesis
  proof (cases rule: dispatch_cases)
    case same
    with d show ?thesis by (simp add: threads_of_def)
  next
    case sent
    let ?f = "ch_fingerprint ch a" and ?now = "ch_clock ch (dp_reads d)" and ?c = "dp_cooldown d"
    let ?s1 = "threads_of d\<lparr>th_phase := (\<lambda>i. Idle)(0 := Posting ?f ?now)\<rparr>"
    let ?s2 = "?s1\<lparr>th_phase := (th_phase ?s1)(0 := Accepted ?f ?now), th_sent := dp_sent d @ [(?f, ?now)]\<rparr>"
    have "thread_step True ?c (threads_of d) ?s1"
      using thread_step.check [of "threads_of d" 0 ?c ?f ?now True] sent(2) by (simp add: threads_of_def)
    moreover have "thread_step True ?c ?s1 ?s2"
      using thread_step.accepted [of ?s1 0 ?f ?now True ?c] by (simp add: threads_of_def)
    moreover have "(\<lambda>i::nat. Idle)(0 := Idle) = (\<lambda>i. Idle)" by (rule ext) simp
    then have "thread_step True ?c ?s2 (threads_of d')"
      using thread_step.recorded [of ?s2 0 ?f ?now True ?c] sent(3,4) by (simp add: threads_of_def)
    ultimately show ?thesis using d by (simp add: converse_rtranclp_into_rtranclp)
  qed
qed

lemma dispatch_each_steps:
  "(thread_step True (dp_cooldown d))\<^sup>*\<^sup>* (threads_of d) (threads_of (dispatch_each ch as d))"
  unfolding dispatch_each_def
proof (induction as arbitrary: d)
  case (Cons a as)
  from Cons [of "snd (dispatch ch a d)"] dispatch_steps [of d ch a] show ?case by simp
qed simp

subsection \<open>Delivery\<close>

lemma dispatch_each_extends: "\<exists>xs. dp_sent (dispatch_each ch as d) = dp_sent d @ xs"
proof (induction as arbitrary: d)
  case (Cons a as)
  obtain r d' where d: "dispatch ch a d = (r, d')" by fastforce
  then have "\<exists>ys. dp_sent d' = dp_sent d @ ys" by (cases rule: dispatch_cases) auto
  with Cons.IH [of d'] d show ?case by (auto simp: dispatch_each_def)
qed (simp add: dispatch_each_def)

lemma dispatch_refused:
  assumes "set_value (dp_url d) = Some url" and "ch_post ch (dp_posts d) = Some e"
    and "\<not> in_cooldown (dp_cooldown d) (dp_last d) (ch_fingerprint ch a) (ch_clock ch (dp_reads d))"
  shows "dp_posts (snd (dispatch ch a d)) = Suc (dp_posts d)" and "dp_last (snd (dispatch ch a d)) = dp_last d"
    and "dp_sent (snd (dispatch ch a d)) = dp_sent d"
  using assms by (simp_all add: dispatch_def Let_def)

lemma dispatch_accepted:
  assumes "set_value (dp_url d) = Some url" and "ch_post ch (dp_posts d) = None"
    and "\<not> in_cooldown (dp_cooldown d) (dp_last d) (ch_fingerprint ch a) (ch_clock ch (dp_reads d))"
  shows "dp_sent (snd (dispatch ch a d)) = dp_sent d @ [(ch_fingerprint ch a, ch_clock ch (dp_reads d))]"
  using assms by (simp add: dispatch_def Let_def)

lemma dispatch_each_delivers:
  assumes "set_value (dp_url d) = Some url" and "ch_post ch (dp_posts d + k) = None"
    and "\<forall>i\<le>k. \<not> in_cooldown (dp_cooldown d) (dp_last d) (ch_fingerprint ch a) (ch_clock ch (dp_reads d + i))"
    and "k < n"
  shows "\<exists>t xs. dp_sent (dispatch_each ch (replicate n a) d) = dp_sent d @ (ch_fingerprint ch a, t) # xs"
  using assms
proof (induction k arbitrary: d n)
  case 0
  from 0(4) obtain m where n: "n = Suc m" by (cases n) auto
  have "\<not> in_cooldown (dp_cooldown d) (dp_last d) (ch_fingerprint ch a) (ch_clock ch (dp_reads d))" using 0(3) by simp
  with dispatch_each_extends [of ch "replicate m a" "snd (dispatch ch a d)"] 0(1,2) show ?case
    by (auto simp: n dispatch_each_def dispatch_accepted)
next
  case (Suc k)
  from Suc.prems(4) obtain m where n: "n = Suc m" and m: "k < m" by (cases n) auto
  have now: "\<not> in_cooldown (dp_cooldown d) (dp_last d) (ch_fingerprint ch a) (ch_clock ch (dp_reads d))"
    using Suc.prems(3) by (metis add.right_neutral zero_le)
  show ?case
  proof (cases "ch_post ch (dp_posts d)")
    case None
    with dispatch_each_extends [of ch "replicate m a" "snd (dispatch ch a d)"] Suc.prems(1) now show ?thesis
      by (auto simp: n dispatch_each_def dispatch_accepted)
  next
    case (Some e)
    let ?d = "snd (dispatch ch a d)"
    note r = dispatch_refused [OF Suc.prems(1) Some now]
    have "\<exists>t xs. dp_sent (dispatch_each ch (replicate m a) ?d) = dp_sent ?d @ (ch_fingerprint ch a, t) # xs"
    proof (rule Suc.IH [OF _ _ _ m])
      show "set_value (dp_url ?d) = Some url" using Suc.prems(1) by simp
      show "ch_post ch (dp_posts ?d + k) = None" using Suc.prems(2) r by simp
      show "\<forall>i\<le>k. \<not> in_cooldown (dp_cooldown ?d) (dp_last ?d) (ch_fingerprint ch a) (ch_clock ch (dp_reads ?d + i))"
        using Suc.prems(3) r by (metis Suc_le_mono add_Suc add_Suc_right dispatch_config(1,3))
    qed
    then show ?thesis using r by (simp add: n dispatch_each_def)
  qed
qed

subsection \<open>Evaluation of the rules\<close>

record thresholds =
  lookback_minutes :: int
  provider_failure_rate :: pyfloat
  provider_latency_ms :: pyfloat

definition environment_float :: "runtime \<Rightarrow> environment \<Rightarrow> string \<Rightarrow> pyfloat \<Rightarrow> pyfloat result" where
  "environment_float rt env name dflt =
     (case env name of None \<Rightarrow> Inr dflt
      | Some v \<Rightarrow> (case float_of_str rt v of
          None \<Rightarrow> Inl (ValueError ''could not convert string to float'') | Some x \<Rightarrow> Inr x))"

definition thresholds_from_environment :: "runtime \<Rightarrow> environment \<Rightarrow> thresholds result" where
  "thresholds_from_environment rt env =
     bind_res (environment_int env ''ALERT_LOOKBACK_MINUTES'' 15) (\<lambda>m.
     bind_res (environment_float rt env ''ALERT_PROVIDER_FAILURE_RATE'' (fl (20 / 100))) (\<lambda>r.
     bind_res (environment_float rt env ''ALERT_PROVIDER_LATENCY_MS'' (Fin 10000)) (\<lambda>l.
     if m \<le> 0 then Inl (ValueError ''ALERT_LOOKBACK_MINUTES must be positive'')
     else if \<not> (fle (Fin 0) r \<and> fle r (Fin 1)) then Inl (ValueError ''ALERT_PROVIDER_FAILURE_RATE must be between 0 and 1'')
     else if fle l (Fin 0) then Inl (ValueError ''ALERT_PROVIDER_LATENCY_MS must be positive'')
     else Inr \<lparr>lookback_minutes = m, provider_failure_rate = r, provider_latency_ms = l\<rparr>)))"

text \<open>SQL on timestamps: the order (false when an operand is \<open>NULL\<close>) and subtraction of minutes; and the order
  in which \<open>GROUP BY\<close> returns the groups.\<close>

record sql_world =
  sw_before :: "pyval \<Rightarrow> pyval \<Rightarrow> bool"
  sw_minus :: "pyval \<Rightarrow> int \<Rightarrow> pyval"
  sw_groups :: "pyval list \<Rightarrow> pyval list"

definition overdue_alerts :: "int \<Rightarrow> int \<Rightarrow> alert list" where
  "overdue_alerts overdue unassigned =
     (if overdue = 0 then [] else
      [\<lparr>al_rule = ''overdue_exceptions'', al_severity = ''critical'',
        al_summary = show_int overdue @ '' reconciliation exceptions are past SLA'',
        al_attributes = [(''overdue_count'', PInt overdue), (''unassigned_count'', PInt unassigned)]\<rparr>])"

definition partition_alerts :: "int \<Rightarrow> alert list" where
  "partition_alerts failed =
     (if failed = 0 then [] else
      [\<lparr>al_rule = ''failed_partitions'', al_severity = ''critical'',
        al_summary = show_int failed @ '' ingestion partitions require retry or quarantine review'',
        al_attributes = [(''failed_partition_count'', PInt failed)]\<rparr>])"

record provider_row =
  pv_provider :: pyval
  pv_requests :: int
  pv_failures :: int
  pv_latency :: "pyfloat option"

definition provider_row_of :: "table \<Rightarrow> row list \<Rightarrow> pyval \<Rightarrow> provider_row" where
  "provider_row_of tb rows p =
     (let rs = filter (\<lambda>r. field tb ''provider'' r = p) rows in
      \<lparr>pv_provider = p, pv_requests = int (length rs),
       pv_failures = int (length (filter (\<lambda>r. field tb ''outcome_status'' r = PStr ''FAILED'') rs)),
       pv_latency = sql_max (map (field tb ''latency_ms'') rs)\<rparr>)"

definition failure_rate :: "provider_row \<Rightarrow> pyfloat" where
  "failure_rate r = (if pv_requests r = 0 then Fin 0 else fl (of_int (pv_failures r) / of_int (pv_requests r)))"

definition provider_alerts :: "runtime \<Rightarrow> thresholds \<Rightarrow> provider_row \<Rightarrow> alert list" where
  "provider_alerts rt th r =
     (let name = py_str rt (pv_provider r); rate = failure_rate r in
      (if fle (provider_failure_rate th) rate \<and> pv_failures r \<noteq> 0 then
        [\<lparr>al_rule = ''provider_failure_rate'', al_severity = ''critical'',
          al_summary = name @ '' failure rate is '' @ format_float rt 1 (fmul rate (Fin 100)) @ ''%'',
          al_attributes = [(''provider'', pv_provider r), (''failure_rate'', PFloat (round_nd 4 rate)),
            (''request_count'', PInt (pv_requests r)), (''lookback_minutes'', PInt (lookback_minutes th))]\<rparr>] else []) @
      (case pv_latency r of None \<Rightarrow> [] | Some l \<Rightarrow>
        if fle (provider_latency_ms th) l then
        [\<lparr>al_rule = ''provider_latency'', al_severity = ''warning'',
          al_summary = name @ '' latency reached '' @ format_float rt 0 l @ '' ms'',
          al_attributes = [(''provider'', pv_provider r), (''max_latency_ms'', PFloat (round_nd 3 l)),
            (''lookback_minutes'', PInt (lookback_minutes th))]\<rparr>] else []))"

definition operational_alerts :: "engine \<Rightarrow> runtime \<Rightarrow> sql_world \<Rightarrow> thresholds \<Rightarrow> alert list db" where
  "operational_alerts eng rt sw th =
     bind_st (scan eng ''equity_exceptions'' [''status'', ''due_at'', ''owner'']) (\<lambda>(now, ex).
     bind_st (scan eng ''work_partitions'' [''status'']) (\<lambda>(_, wp).
     bind_st (scan eng ''provider_request_metrics'' [''provider'', ''outcome_status'', ''latency_ms'', ''recorded_at''])
       (\<lambda>(now', pm).
     let open = (\<lambda>r. field ex ''status'' r = PStr ''OPEN'');
         rows = filter (\<lambda>r. \<not> sw_before sw (field pm ''recorded_at'' r) (sw_minus sw now' (lookback_minutes th)) \<and>
           field pm ''recorded_at'' r \<noteq> PNone) (tb_rows pm) in
     return_st (
       overdue_alerts (count_where ex (\<lambda>r. open r \<and> sw_before sw (field ex ''due_at'' r) now))
         (count_where ex (\<lambda>r. open r \<and> field ex ''owner'' r = PStr ''UNASSIGNED'')) @
       partition_alerts (count_where wp (\<lambda>r. field wp ''status'' r = PStr ''FAILED'')) @
       concat (map (\<lambda>p. provider_alerts rt th (provider_row_of pm rows p))
         (sw_groups sw (map (field pm ''provider'') rows)))))))"

text \<open>The alerts are dispatched after the store is closed; an exception of a dispatch ends the evaluation.\<close>

definition dispatch_all :: "channel \<Rightarrow> alert list \<Rightarrow> (dispatcher, unit) prog" where
  "dispatch_all ch = for_st (\<lambda>a. bind_st (dispatch ch a) (\<lambda>_. return_st ()))"

definition evaluate_operational_alerts :: "engine \<Rightarrow> runtime \<Rightarrow> sql_world \<Rightarrow> thresholds \<Rightarrow> channel \<Rightarrow>
    (store \<times> dispatcher, alert list) prog" where
  "evaluate_operational_alerts eng rt sw th ch =
     (\<lambda>(s, d). case operational_alerts eng rt sw th s of
        (Inl e, s') \<Rightarrow> (Inl e, (s', d))
      | (Inr as, s') \<Rightarrow> (case dispatch_all ch as d of
          (Inl e, d') \<Rightarrow> (Inl e, (s', d')) | (Inr _, d') \<Rightarrow> (Inr as, (s', d'))))"

text \<open>The exit code of the command: \<open>requests\<close> exceptions are \<open>OSError\<close>s too.\<close>

fun reported_error :: "exn \<Rightarrow> bool" where
  "reported_error (ValueError m) = True"
| "reported_error DatabaseError = True"
| "reported_error OSError = True"
| "reported_error FileNotFoundError = True"
| "reported_error FileExistsError = True"
| "reported_error PermissionError = True"
| "reported_error (TimeoutError m) = True"
| "reported_error RequestException = True"
| "reported_error (HTTPStatusError n) = True"
| "reported_error _ = False"

definition alerts_main :: "engine \<Rightarrow> runtime \<Rightarrow> sql_world \<Rightarrow> channel \<Rightarrow> process \<Rightarrow> store \<Rightarrow> int result" where
  "alerts_main eng rt sw ch p s =
     bind_res (dispatcher_from_environment p) (\<lambda>d.
     case thresholds_from_environment rt (ps_env (load_project_env p)) of
       Inl e \<Rightarrow> if reported_error e then Inr 1 else Inl e
     | Inr th \<Rightarrow> (case evaluate_operational_alerts eng rt sw th ch (s, d) of
         (Inl e, _) \<Rightarrow> if reported_error e then Inr 1 else Inl e
       | (Inr as, (_, d')) \<Rightarrow> Inr (if dp_failures d' = 0 then 0 else 2)))"

lemma overdue_rule: "(\<exists>a\<in>set (overdue_alerts n m). al_rule a = x) \<longleftrightarrow> n \<noteq> 0 \<and> x = ''overdue_exceptions''"
  by (auto simp: overdue_alerts_def)

lemma partition_rule: "(\<exists>a\<in>set (partition_alerts n). al_rule a = x) \<longleftrightarrow> n \<noteq> 0 \<and> x = ''failed_partitions''"
  by (auto simp: partition_alerts_def)


lemma pv_provider_of [simp]: "pv_provider (provider_row_of pm rows p) = p"
  by (simp add: provider_row_of_def Let_def)












subsection \<open>Properties\<close>

text \<open>C14 (alerts_cooldown): the cooldown holds for the calls of one thread and for those of several threads that
  exclude one another.  Whatever alerts are dispatched one after another, and whatever the clock reads and the
  webhook answers, two messages in a row with the same fingerprint are never closer than the cooldown; the same
  holds in every interleaving of threads in which at most one call is under way for a fingerprint, of which the
  calls of one thread are an instance.  The exclusion is needed: the lock, which covers the check and the record
  but not the post between them, lets two calls under way deliver the same alert twice.\<close>

theorem alerts_cooldown:
  assumes "new_dispatcher url c = Inr d"
  shows "spaced c (times_of (dp_sent (dispatch_each ch as d)) f) \<and>
    (\<forall>s. reachable True c s \<longrightarrow> spaced c (times_of (th_sent s) f)) \<and>
    reachable True c (threads_of (dispatch_each ch as d)) \<and>
    (0 < c \<longrightarrow> (\<exists>s. reachable False c s \<and> \<not> spaced c (times_of (th_sent s) f)))"
proof (intro conjI allI impI)
  have d: "dp_cooldown d = c" "threads_of d = no_calls"
    using assms by (auto simp: new_dispatcher_def threads_of_def no_calls_def split: if_splits)
  show threads: "spaced c (times_of (th_sent s) f)" if "reachable True c s" for s
    using reachable_ok [OF that] unfolding calls_ok_def by blast
  show run: "reachable True c (threads_of (dispatch_each ch as d))"
    using dispatch_each_steps [of d ch as] by (simp add: d reachable_def)
  show "spaced c (times_of (dp_sent (dispatch_each ch as d)) f)"
    using threads [OF run] by (simp add: threads_of_def)
  show "\<exists>s. reachable False c s \<and> \<not> spaced c (times_of (th_sent s) f)" if "0 < c"
    by (rule concurrent_calls_deliver_twice [OF that])
qed

definition sample_channel :: channel where
  "sample_channel = \<lparr>ch_fingerprint = al_rule, ch_clock = (\<lambda>n. Fin (of_nat n)),
     ch_post = (\<lambda>n. if n < 2 then Some RequestException else None)\<rparr>"

definition sample_alert :: alert where
  "sample_alert = \<lparr>al_rule = ''failed_partitions'', al_severity = ''critical'', al_summary = ''s'', al_attributes = []\<rparr>"

definition sample_dispatcher :: dispatcher where
  "sample_dispatcher = \<lparr>dp_url = Some ''https://hook'', dp_cooldown = 900, dp_last = [], dp_failures = 0, dp_reads = 0,
     dp_posts = 0, dp_sent = []\<rparr>"

lemma sample_new: "new_dispatcher (Some ''https://hook'') 900 = Inr sample_dispatcher"
  by (simp add: new_dispatcher_def sample_dispatcher_def)

lemma alerts_cooldown_witness:
  "spaced 900 (times_of (dp_sent (dispatch_each sample_channel (replicate 9 sample_alert) sample_dispatcher)) ''failed_partitions'') \<and>
   (\<exists>s. reachable False 900 s \<and> \<not> spaced 900 (times_of (th_sent s) ''failed_partitions''))"
  using alerts_cooldown [OF sample_new, of sample_channel "replicate 9 sample_alert" "''failed_partitions''"] by simp

text \<open>C32 (alert_eventually_delivered): a failed delivery starts no cooldown, so an alert that is raised again and again is
  delivered as soon as the webhook answers: if one of the next posts is accepted and the cooldown of the last
  message is over, then among the next calls one delivers the alert, and it delivers it first.\<close>

theorem alert_eventually_delivered:
  assumes "set_value (dp_url d) = Some url" and "ch_post ch (dp_posts d + k) = None"
    and "\<forall>i\<le>k. \<not> in_cooldown (dp_cooldown d) (dp_last d) (ch_fingerprint ch a) (ch_clock ch (dp_reads d + i))"
    and "k < n"
  shows "\<exists>t xs. dp_sent (dispatch_each ch (replicate n a) d) = dp_sent d @ (ch_fingerprint ch a, t) # xs"
  using assms by (rule dispatch_each_delivers)

lemma alert_eventually_delivered_witness:
  "\<exists>t xs. dp_sent (dispatch_each sample_channel (replicate 5 sample_alert) sample_dispatcher) = (''failed_partitions'', t) # xs"
proof -
  have "set_value (dp_url sample_dispatcher) = Some ''https://hook''" by code_simp
  moreover have "ch_post sample_channel (dp_posts sample_dispatcher + 2) = None" by code_simp
  moreover have "\<not> in_cooldown (dp_cooldown sample_dispatcher) (dp_last sample_dispatcher) f t" for f t
    by (simp add: in_cooldown_def sample_dispatcher_def)
  ultimately show ?thesis
    using alert_eventually_delivered [of sample_dispatcher "''https://hook''" sample_channel 2 sample_alert 5]
    by (simp add: sample_dispatcher_def sample_channel_def sample_alert_def)
qed







end
