(* ===== verification/Massive.thy ===== *)
theory Massive
  imports Frames Environment
begin

section \<open>The Massive client and its adapters\<close>

text \<open>
  \<open>ingestion/massive.py\<close>, \<open>massive_equities.py\<close>, \<open>massive_options.py\<close> and \<open>massive_futures.py\<close>: the rate limiter,
  the request with its bounded retries, the pagination, the check of the target of a request, and the frames
  built from the results.  The replies of the server (by the number of the request, its URL and its
  parameters), the clock, and the conversion of epoch times are arguments.
\<close>

subsection \<open>URLs\<close>

text \<open>\<open>urlparse\<close> as far as it is used: leading control characters and blanks are dropped, tabs and newlines removed, the
  scheme is lowered, and the network location follows \<open>//\<close> up to the next of \<open>/?#\<close>.\<close>

definition url_text :: "string \<Rightarrow> string" where
  "url_text s = filter (\<lambda>c. of_char c \<notin> {9, 10, 13 :: nat}) (dropWhile (\<lambda>c. of_char c \<le> (32 :: nat)) s)"

definition scheme_char :: "char \<Rightarrow> bool" where
  "scheme_char c \<longleftrightarrow> is_alpha c \<or> is_digit c \<or> c \<in> {CHR ''+'', CHR ''-'', CHR ''.''}"

definition url_scheme :: "string \<Rightarrow> string \<times> string" where
  "url_scheme s =
     (let a = takeWhile (\<lambda>c. c \<noteq> CHR '':'') s; r = dropWhile (\<lambda>c. c \<noteq> CHR '':'') s in
      if r \<noteq> [] \<and> a \<noteq> [] \<and> is_alpha (hd a) \<and> list_all scheme_char a then (py_lower a, tl r) else ([], s))"

definition url_parts :: "string \<Rightarrow> string \<times> string" where
  "url_parts s = (case url_scheme (url_text s) of (scheme, rest) \<Rightarrow>
     (scheme, if starts_with ''//'' rest
              then takeWhile (\<lambda>c. c \<notin> {CHR ''/'', CHR ''?'', CHR ''#''}) (drop 2 rest) else []))"

definition base_url :: string where
  "base_url = ''https://api.massive.com''"

definition massive_url :: "string \<Rightarrow> string result" where
  "massive_url p =
     (if starts_with ''/'' p then Inr (base_url @ p)
      else if url_parts p = (''https'', ''api.massive.com'') then Inr p
      else Inl (ValueError ''Massive URL must use https://api.massive.com''))"

subsection \<open>The rate limiter\<close>

record limiter =
  lm_interval :: pyfloat
  lm_next :: pyfloat

definition new_limiter :: "int \<Rightarrow> limiter result" where
  "new_limiter calls =
     (if calls \<le> 0 then Inl (ValueError ''calls_per_minute must be positive'')
      else Inr \<lparr>lm_interval = fl (60 / of_int calls), lm_next = Fin 0\<rparr>)"

text \<open>\<open>_get_global_limiter\<close>: one limiter for the process, created from the environment when it is first needed.\<close>

definition global_limiter :: "environment \<Rightarrow> limiter option \<Rightarrow> limiter result" where
  "global_limiter env g =
     (case g of Some l \<Rightarrow> Inr l
      | None \<Rightarrow> (case env ''MASSIVE_CALLS_PER_MINUTE'' of
          None \<Rightarrow> new_limiter 5
        | Some v \<Rightarrow> (case py_int v of
            None \<Rightarrow> Inl (ValueError ''invalid literal for int()'') | Some n \<Rightarrow> new_limiter n)))"

subsection \<open>Requests\<close>

datatype reply =
    Unreachable
  | Broken exn
  | Response int "string option" "pyval option"

record server =
  sv_reply :: "nat \<Rightarrow> string \<Rightarrow> payload \<Rightarrow> reply"
  sv_clock :: "nat \<Rightarrow> pyfloat"

text \<open>The client: its limiter, the readings of the clock, and the requests and sleeps it has made.\<close>

record client =
  cl_limiter :: limiter
  cl_reads :: nat
  cl_sleeps :: "pyfloat list"
  cl_sent :: "(string \<times> payload) list"

text \<open>\<open>time.sleep\<close> rejects a time that does not fit into 64-bit nanoseconds.\<close>

definition sleep :: "pyfloat \<Rightarrow> (client, unit) prog" where
  "sleep x c = (if flt (Fin (2 ^ 63 / 10 ^ 9)) x then (Inl OverflowError, c)
     else (Inr (), c\<lparr>cl_sleeps := cl_sleeps c @ [x]\<rparr>))"

definition limiter_wait :: "server \<Rightarrow> (client, unit) prog" where
  "limiter_wait sv c =
     (let l = cl_limiter c; now = sv_clock sv (cl_reads c); delay = fsub (lm_next l) now;
          c1 = c\<lparr>cl_reads := cl_reads c + 1\<rparr> in
      if flt (Fin 0) delay
      then bind_st (sleep delay) (\<lambda>_ c2. (Inr (), c2\<lparr>cl_reads := cl_reads c2 + 1,
             cl_limiter := l\<lparr>lm_next := fadd (sv_clock sv (cl_reads c2)) (lm_interval l)\<rparr>\<rparr>)) c1
      else (Inr (), c1\<lparr>cl_limiter := l\<lparr>lm_next := fadd now (lm_interval l)\<rparr>\<rparr>))"

definition send_request :: "server \<Rightarrow> string \<Rightarrow> payload \<Rightarrow> (client, reply) prog" where
  "send_request sv url params = bind_st (limiter_wait sv) (\<lambda>_ c.
     (Inr (sv_reply sv (length (cl_sent c)) url params), c\<lparr>cl_sent := cl_sent c @ [(url, params)]\<rparr>))"

definition retry_status :: "int \<Rightarrow> bool" where
  "retry_status st \<longleftrightarrow> st \<in> {429, 500, 502, 503, 504}"

definition raise_for_status :: "int \<Rightarrow> unit result" where
  "raise_for_status st = (if 400 \<le> st \<and> st < 600 then Inl (HTTPStatusError st) else Inr ())"

definition json_object :: "pyval option \<Rightarrow> payload result" where
  "json_object body = (case body of
     Some (PDict d) \<Rightarrow> Inr d
   | None \<Rightarrow> Inl (ValueError ''JSONDecodeError'')
   | Some v \<Rightarrow> Inl (ValueError ''Massive returned a non-object JSON response''))"

definition backoff :: "nat \<Rightarrow> pyfloat" where
  "backoff attempt = Fin (of_nat (min (2 ^ attempt) 30))"

definition retry_delay :: "runtime \<Rightarrow> nat \<Rightarrow> string option \<Rightarrow> pyfloat result" where
  "retry_delay rt attempt header =
     (case set_value header of
        None \<Rightarrow> Inr (backoff attempt)
      | Some h \<Rightarrow> (case float_of_str rt h of
          None \<Rightarrow> Inl (ValueError ''could not convert string to float'')
        | Some x \<Rightarrow> Inr (if flt (Fin 0) x then x else Fin 0)))"

text \<open>The loop \<open>for attempt in range(max_retries + 1)\<close>, by the attempts that are left.\<close>

fun attempts :: "runtime \<Rightarrow> server \<Rightarrow> int \<Rightarrow> string \<Rightarrow> payload \<Rightarrow> nat list \<Rightarrow> (client, payload) prog" where
  "attempts rt sv retries url params [] =
     fail_st (RuntimeError ''Massive request retry loop exited unexpectedly'')"
| "attempts rt sv retries url params (a # as) = bind_st (send_request sv url params) (\<lambda>reply.
     case reply of
       Broken e \<Rightarrow> fail_st e
     | Unreachable \<Rightarrow>
         if int a = retries then fail_st RequestException
         else bind_st (sleep (backoff a)) (\<lambda>_. attempts rt sv retries url params as)
     | Response st header body \<Rightarrow>
         if \<not> retry_status st then lift_res (bind_res (raise_for_status st) (\<lambda>_. json_object body))
         else bind_st (lift_res (if int a = retries then raise_for_status st else Inr ())) (\<lambda>_.
              bind_st (lift_res (retry_delay rt a header)) (\<lambda>delay.
              bind_st (sleep delay) (\<lambda>_. attempts rt sv retries url params as))))"

definition get_json :: "runtime \<Rightarrow> server \<Rightarrow> int \<Rightarrow> string \<Rightarrow> payload \<Rightarrow> (client, payload) prog" where
  "get_json rt sv retries p params = bind_st (lift_res (massive_url p)) (\<lambda>url.
     attempts rt sv retries url params [0 ..< nat (retries + 1)])"

subsection \<open>Pagination\<close>

fun truthy :: "pyval \<Rightarrow> bool" where
  "truthy PNone = False"
| "truthy (PBool b) = b"
| "truthy (PInt n) = (n \<noteq> 0)"
| "truthy (PFloat x) = (x \<noteq> Fin 0)"
| "truthy (PStr s) = (s \<noteq> [])"
| "truthy (PTime d) = True"
| "truthy (PDate d) = True"
| "truthy (PList vs) = (vs \<noteq> [])"
| "truthy (PDict d) = (d \<noteq> [])"

definition page_rows :: "payload \<Rightarrow> payload list result" where
  "page_rows page = (case dict_get (PList []) page ''results'' of
     PList vs \<Rightarrow> Inr (concat (map (\<lambda>v. case v of PDict d \<Rightarrow> [d] | _ \<Rightarrow> []) vs))
   | _ \<Rightarrow> Inl (TypeError ''Massive paginated response has non-list results''))"

definition page_next :: "runtime \<Rightarrow> payload \<Rightarrow> string option" where
  "page_next rt page = (let v = dict_get PNone page ''next_url'' in if truthy v then Some (py_str rt v) else None)"

text \<open>\<open>list(iter_results(...))\<close>: nothing bounds the number of pages, so the loop may not end (\<open>None\<close>).\<close>

partial_function (option) pages :: "runtime \<Rightarrow> server \<Rightarrow> int \<Rightarrow> string \<Rightarrow> payload \<Rightarrow> client \<Rightarrow>
    (payload list result \<times> client) option" where
  "pages rt sv retries p params c =
     (if p = [] then Some (Inr [], c)
      else case get_json rt sv retries p params c of
        (Inl e, c1) \<Rightarrow> Some (Inl e, c1)
      | (Inr page, c1) \<Rightarrow> (case page_rows page of
          Inl e \<Rightarrow> Some (Inl e, c1)
        | Inr rows \<Rightarrow> (case page_next rt page of
            None \<Rightarrow> Some (Inr rows, c1)
          | Some p' \<Rightarrow> Option.bind (pages rt sv retries p' [] c1) (\<lambda>(r, c2).
              Some (bind_res r (\<lambda>rest. Inr (rows @ rest)), c2)))))"

subsection \<open>Frames of results\<close>

text \<open>The conversions of pandas: an epoch time in milliseconds to a date, one in nanoseconds to a timestamp.\<close>

record epochs =
  ep_date :: "pyval \<Rightarrow> int result"
  ep_time :: "pyval \<Rightarrow> pyval result"

text \<open>\<open>value.date().isoformat()\<close> of a \<open>datetime\<close>, \<open>str(value)\<close> otherwise\<close>

definition date_text :: "runtime \<Rightarrow> pyval \<Rightarrow> string" where
  "date_text rt v = (case v of PTime d \<Rightarrow> iso_date rt (clock_us d div 86400000000) | _ \<Rightarrow> py_str rt v)"

text \<open>\<open>list(payload.get("results", []))\<close>, and \<open>row.get\<close> on its elements\<close>

definition result_rows :: "payload \<Rightarrow> payload list result" where
  "result_rows page =
     (case dict_get (PList []) page ''results'' of
        PList vs \<Rightarrow> map_res (\<lambda>v. case v of PDict d \<Rightarrow> Inr d | _ \<Rightarrow> Inl (AttributeError ''get'')) vs
      | PStr s \<Rightarrow> if s = [] then Inr [] else Inl (AttributeError ''get'')
      | PDict d \<Rightarrow> if d = [] then Inr [] else Inl (AttributeError ''get'')
      | _ \<Rightarrow> Inl (TypeError ''object is not iterable''))"

definition got :: "payload \<Rightarrow> string \<Rightarrow> pyval" where
  "got row k = dict_get PNone row k"

definition massive_equity_columns :: "string list" where
  "massive_equity_columns = [''symbol'', ''trade_date'', ''open'', ''high'', ''low'', ''close'', ''volume'']"

definition equity_field :: "string option \<Rightarrow> string \<Rightarrow> payload \<times> int \<Rightarrow> pyval" where
  "equity_field fallback c = (\<lambda>(row, day).
     if c = ''symbol'' then
       (if truthy (got row ''T'') then got row ''T'' else if truthy (got row ''ticker'') then got row ''ticker''
        else case fallback of None \<Rightarrow> PNone | Some s \<Rightarrow> PStr s)
     else if c = ''trade_date'' then PDate day
     else got row (dict_get [] [(''open'', ''o''), (''high'', ''h''), (''low'', ''l''), (''close'', ''c''), (''volume'', ''v'')] c))"

definition normalize_results :: "epochs \<Rightarrow> payload list \<Rightarrow> string option \<Rightarrow> frame result" where
  "normalize_results ep rows fallback =
     bind_res (map_res (\<lambda>row. ep_date ep (got row ''t'')) rows) (\<lambda>days.
     Inr (build_frame massive_equity_columns (equity_field fallback) (zip rows days)))"

definition adjusted_param :: "bool \<Rightarrow> string \<times> pyval" where
  "adjusted_param b = (''adjusted'', PStr (if b then ''true'' else ''false''))"

definition fetch_massive_equity_bars :: "runtime \<Rightarrow> server \<Rightarrow> epochs \<Rightarrow> int \<Rightarrow> string \<Rightarrow> pyval \<Rightarrow> pyval \<Rightarrow> bool \<Rightarrow>
    (client, frame) prog" where
  "fetch_massive_equity_bars rt sv ep retries symb start stop adjusted =
     bind_st (get_json rt sv retries (''/v2/aggs/ticker/'' @ py_upper symb @ ''/range/1/day/'' @ date_text rt start @ ''/'' @
       date_text rt stop) [adjusted_param adjusted, (''sort'', PStr ''asc''), (''limit'', PInt 50000)]) (\<lambda>page.
     lift_res (bind_res (result_rows page) (\<lambda>rows. normalize_results ep rows (Some (py_upper symb)))))"

definition fetch_massive_grouped_daily :: "runtime \<Rightarrow> server \<Rightarrow> epochs \<Rightarrow> int \<Rightarrow> pyval \<Rightarrow> bool \<Rightarrow> (client, frame) prog" where
  "fetch_massive_grouped_daily rt sv ep retries day adjusted =
     bind_st (get_json rt sv retries (''/v2/aggs/grouped/locale/us/market/stocks/'' @ py_str rt day)
       [adjusted_param adjusted, (''include_otc'', PStr ''true'')]) (\<lambda>page.
     lift_res (bind_res (result_rows page) (\<lambda>rows. normalize_results ep rows None)))"

text \<open>A call that collects all pages may not return.\<close>

definition collect :: "runtime \<Rightarrow> server \<Rightarrow> int \<Rightarrow> string \<Rightarrow> payload \<Rightarrow> (payload list \<Rightarrow> frame result) \<Rightarrow> client \<Rightarrow>
    (frame result \<times> client) option" where
  "collect rt sv retries p params f c =
     map_option (\<lambda>(r, c'). (bind_res r f, c')) (pages rt sv retries p params c)"

definition optional_param :: "string \<Rightarrow> string option \<Rightarrow> payload" where
  "optional_param k v = (case v of None \<Rightarrow> [] | Some s \<Rightarrow> [(k, PStr s)])"

definition contract_columns :: "string list" where
  "contract_columns = [''contract_symbol'', ''underlying'', ''expiry'', ''strike'', ''option_type'', ''exercise_style'',
     ''shares_per_contract'', ''primary_exchange'']"

definition contract_field :: "runtime \<Rightarrow> string \<Rightarrow> payload \<Rightarrow> pyval" where
  "contract_field rt c row =
     (if c = ''option_type'' then PStr (py_upper (take 1 (py_str rt (dict_get (PStr []) row ''contract_type''))))
      else got row (dict_get c [(''contract_symbol'', ''ticker''), (''underlying'', ''underlying_ticker''),
        (''expiry'', ''expiration_date''), (''strike'', ''strike_price'')] c))"

definition fetch_massive_option_contracts :: "runtime \<Rightarrow> server \<Rightarrow> int \<Rightarrow> string \<Rightarrow> pyval option \<Rightarrow> pyval option \<Rightarrow>
    client \<Rightarrow> (frame result \<times> client) option" where
  "fetch_massive_option_contracts rt sv retries underlying expiration as_of =
     collect rt sv retries ''/v3/reference/options/contracts''
       ([(''underlying_ticker'', PStr (py_upper underlying)), (''limit'', PInt 1000), (''sort'', PStr ''ticker''),
         (''order'', PStr ''asc'')] @ optional_param ''expiration_date'' (map_option (py_str rt) expiration) @
        optional_param ''as_of'' (map_option (py_str rt) as_of))
       (\<lambda>rows. Inr (build_frame contract_columns (contract_field rt) rows))"

definition canonical_option_columns :: "string list" where
  "canonical_option_columns = [''underlying'', ''expiry'', ''strike'', ''option_type'', ''contract_symbol'', ''trade_date'', ''close'',
     ''bid'', ''ask'', ''volume'', ''open_interest'']"

definition contract_value :: "payload \<Rightarrow> string \<Rightarrow> pyval result" where
  "contract_value d k = (case map_of d k of None \<Rightarrow> Inl (KeyError k) | Some v \<Rightarrow> Inr v)"

definition option_bar_field :: "payload \<Rightarrow> string \<Rightarrow> string \<Rightarrow> payload \<times> int \<Rightarrow> pyval" where
  "option_bar_field con symb c = (\<lambda>(row, day).
     if c = ''contract_symbol'' then PStr symb else if c = ''trade_date'' then PDate day
     else if c = ''close'' then got row ''c'' else if c = ''volume'' then got row ''v''
     else if c \<in> {''bid'', ''ask'', ''open_interest''} then PNone else got con c)"

definition fetch_massive_option_bars :: "runtime \<Rightarrow> server \<Rightarrow> epochs \<Rightarrow> int \<Rightarrow> payload \<Rightarrow> pyval \<Rightarrow> pyval \<Rightarrow>
    (client, frame) prog" where
  "fetch_massive_option_bars rt sv ep retries con start stop =
     bind_st (lift_res (contract_value con ''contract_symbol'')) (\<lambda>sv1.
     let symb = py_str rt sv1 in
     bind_st (get_json rt sv retries (''/v2/aggs/ticker/'' @ symb @ ''/range/1/day/'' @ date_text rt start @ ''/'' @
       date_text rt stop) [adjusted_param False, (''sort'', PStr ''asc''), (''limit'', PInt 50000)]) (\<lambda>page.
     lift_res (
       bind_res (result_rows page) (\<lambda>rows.
       bind_res (map_res (contract_value con) [''underlying'', ''expiry'', ''strike'', ''option_type'']) (\<lambda>_.
       bind_res (map_res (\<lambda>row. ep_date ep (got row ''t'')) rows) (\<lambda>days.
       Inr (build_frame canonical_option_columns (option_bar_field con symb) (zip rows days))))))))"

definition massive_futures_columns :: "string list" where
  "massive_futures_columns = [''symbol'', ''session_date'', ''window_start'', ''open'', ''high'', ''low'', ''close'',
     ''settlement_price'', ''volume'', ''transactions'']"

definition fetch_massive_futures_contracts :: "runtime \<Rightarrow> server \<Rightarrow> int \<Rightarrow> string option \<Rightarrow> bool option \<Rightarrow> pyval option \<Rightarrow>
    client \<Rightarrow> (frame result \<times> client) option" where
  "fetch_massive_futures_contracts rt sv retries product active as_of =
     collect rt sv retries ''/futures/v1/contracts''
       ([(''limit'', PInt 1000), (''sort'', PStr ''product_code.asc'')] @
        optional_param ''product_code'' (map_option py_upper (set_value product)) @
        optional_param ''active'' (map_option (\<lambda>b. if b then ''true'' else ''false'') active) @
        optional_param ''as_of'' (map_option (py_str rt) as_of))
       (\<lambda>rows. Inr (build_frame (uniq (concat (map (map fst) rows))) (\<lambda>c row. got row c) rows))"

definition futures_field :: "string \<Rightarrow> string \<Rightarrow> payload \<times> pyval \<Rightarrow> pyval" where
  "futures_field symb c = (\<lambda>(row, start).
     if c = ''symbol'' then dict_get (PStr (py_upper symb)) row ''ticker''
     else if c = ''session_date'' then got row ''session_end_date''
     else if c = ''window_start'' then start else got row c)"

definition fetch_massive_futures_bars :: "runtime \<Rightarrow> server \<Rightarrow> epochs \<Rightarrow> int \<Rightarrow> string \<Rightarrow> pyval \<Rightarrow> pyval \<Rightarrow> string \<Rightarrow>
    client \<Rightarrow> (frame result \<times> client) option" where
  "fetch_massive_futures_bars rt sv ep retries symb start stop resolution =
     collect rt sv retries (''/futures/v1/aggs/'' @ py_upper symb)
       [(''resolution'', PStr resolution), (''window_start.gte'', PStr (date_text rt start)),
        (''window_start.lte'', PStr (date_text rt stop)), (''sort'', PStr ''window_start.asc''), (''limit'', PInt 50000)]
       (\<lambda>rows. bind_res (map_res (\<lambda>row. ep_time ep (got row ''window_start'')) rows) (\<lambda>starts.
          Inr (build_frame massive_futures_columns (futures_field symb) (zip rows starts))))"

subsection \<open>Where requests go\<close>

lemma url_text_plain:
  assumes "\<forall>c\<in>set s. of_char c > (32 :: nat)" and "s \<noteq> []"
  shows "url_text (s @ t) = s @ filter (\<lambda>c. of_char c \<notin> {9, 10, 13 :: nat}) t"
proof -
  from assms(2) obtain c cs where s: "s = c # cs" by (cases s) auto
  have "filter (\<lambda>c. of_char c \<notin> {9, 10, 13 :: nat}) s = s" using assms by (intro filter_True) auto
  with assms s show ?thesis by (simp add: url_text_def)
qed

lemma base_url_parts:
  assumes "starts_with ''/'' p"
  shows "url_parts (base_url @ p) = (''https'', ''api.massive.com'')"
proof -
  from assms obtain q where p: "p = CHR ''/'' # q" by (cases p) (auto simp: starts_with_def)
  have "\<forall>c\<in>set base_url. of_char c > (32 :: nat)" by code_simp
  moreover have "base_url \<noteq> []" by (simp add: base_url_def)
  ultimately have "url_text (base_url @ p) = base_url @ filter (\<lambda>c. of_char c \<notin> {9, 10, 13 :: nat}) p"
    by (rule url_text_plain)
  also have "\<dots> = ''https:'' @ ''//api.massive.com'' @ CHR ''/'' # filter (\<lambda>c. of_char c \<notin> {9, 10, 13 :: nat}) q"
    by (simp add: base_url_def p)
  finally show ?thesis
    by (simp add: url_parts_def url_scheme_def Let_def scheme_char_def is_alpha_def is_upper_def py_lower_def low_char_def
        starts_with_def)
qed

lemma massive_url_parts: "massive_url p = Inr u \<Longrightarrow> url_parts u = (''https'', ''api.massive.com'')"
  by (auto simp: massive_url_def base_url_parts split: if_splits)

lemma sleep_sent: "sleep x c = (r, c') \<Longrightarrow> cl_sent c' = cl_sent c"
  by (auto simp: sleep_def split: if_splits)

lemma limiter_wait_sent: "limiter_wait sv c = (r, c') \<Longrightarrow> cl_sent c' = cl_sent c"
  by (auto simp: limiter_wait_def Let_def split: if_splits elim!: bind_st_cases dest!: sleep_sent)

lemma send_request_sent:
  "send_request sv url params c = (r, c') \<Longrightarrow> (\<exists>e. r = Inl e \<and> cl_sent c' = cl_sent c) \<or>
     r = Inr (sv_reply sv (length (cl_sent c)) url params) \<and> cl_sent c' = cl_sent c @ [(url, params)]"
  by (auto simp: send_request_def elim!: bind_st_cases dest!: limiter_wait_sent)

subsection \<open>Bounded retries\<close>

fun transient :: "reply \<Rightarrow> bool" where
  "transient Unreachable = True"
| "transient (Broken e) = False"
| "transient (Response st h b) = retry_status st"

definition definite :: "reply \<Rightarrow> payload \<Rightarrow> bool" where
  "definite reply page \<longleftrightarrow> (\<exists>st h. reply = Response st h (Some (PDict page)) \<and> \<not> retry_status st \<and> raise_for_status st = Inr ())"

text \<open>What a number of attempts has sent: the same request at most once for each attempt, all replies but
  the last being transient.\<close>

definition sent_attempts :: "server \<Rightarrow> string \<Rightarrow> payload \<Rightarrow> nat \<Rightarrow> client \<Rightarrow> payload result \<Rightarrow> client \<Rightarrow> bool" where
  "sent_attempts sv url params m c r c' \<longleftrightarrow> (\<exists>n\<le>m. cl_sent c' = cl_sent c @ replicate n (url, params) \<and>
     (\<forall>i. i + 1 < n \<longrightarrow> transient (sv_reply sv (length (cl_sent c) + i) url params)) \<and>
     (\<forall>page. r = Inr page \<longrightarrow> 0 < n \<and> definite (sv_reply sv (length (cl_sent c) + n - 1) url params) page))"

lemma sent_attempts_none: "cl_sent c' = cl_sent c \<Longrightarrow> sent_attempts sv url params m c (Inl e) c'"
  unfolding sent_attempts_def by (intro exI [of _ 0]) simp

lemma sent_attempts_one:
  assumes "cl_sent c' = cl_sent c @ [(url, params)]"
    and "\<And>page. r = Inr page \<Longrightarrow> definite (sv_reply sv (length (cl_sent c)) url params) page"
  shows "sent_attempts sv url params (Suc m) c r c'"
  unfolding sent_attempts_def using assms by (intro exI [of _ 1]) simp

lemma sent_attempts_more:
  assumes "transient (sv_reply sv (length (cl_sent c)) url params)" and "cl_sent c1 = cl_sent c @ [(url, params)]"
    and "sent_attempts sv url params m c1 r c'"
  shows "sent_attempts sv url params (Suc m) c r c'"
proof -
  from assms(3) obtain n where n: "n \<le> m" "cl_sent c' = cl_sent c1 @ replicate n (url, params)"
    and t: "\<forall>i. i + 1 < n \<longrightarrow> transient (sv_reply sv (length (cl_sent c1) + i) url params)"
    and d: "\<forall>page. r = Inr page \<longrightarrow> 0 < n \<and> definite (sv_reply sv (length (cl_sent c1) + n - 1) url params) page"
    unfolding sent_attempts_def by blast
  have "transient (sv_reply sv (length (cl_sent c) + i) url params)" if "i + 1 < Suc n" for i
    using that assms(1) t [rule_format, of "i - 1"] assms(2) by (cases i) auto
  moreover have "definite (sv_reply sv (length (cl_sent c) + Suc n - 1) url params) page" if "r = Inr page" for page
    using d that assms(2) by simp
  ultimately show ?thesis
    unfolding sent_attempts_def using n assms(2) by (intro exI [of _ "Suc n"]) (simp add: replicate_append_same [symmetric])
qed

lemma attempts_sent:
  "attempts rt sv retries url params as c = (r, c') \<Longrightarrow> sent_attempts sv url params (length as) c r c'"
proof (induction as arbitrary: c r c')
  case Nil
  then show ?case by (auto simp: st_simps intro: sent_attempts_none)
next
  case (Cons a as)
  from Cons.prems have "bind_st (send_request sv url params) (\<lambda>reply. case reply of
       Broken e \<Rightarrow> fail_st e
     | Unreachable \<Rightarrow>
         if int a = retries then fail_st RequestException
         else bind_st (sleep (backoff a)) (\<lambda>_. attempts rt sv retries url params as)
     | Response st header body \<Rightarrow>
         if \<not> retry_status st then lift_res (bind_res (raise_for_status st) (\<lambda>_. json_object body))
         else bind_st (lift_res (if int a = retries then raise_for_status st else Inr ())) (\<lambda>_.
              bind_st (lift_res (retry_delay rt a header)) (\<lambda>delay.
              bind_st (sleep delay) (\<lambda>_. attempts rt sv retries url params as)))) c = (r, c')" by simp
  then show ?case
  proof (cases rule: bind_st_cases)
    case (fail e)
    with send_request_sent [OF fail(1)] show ?thesis by (auto intro!: sent_attempts_none)
  next
    case (cont reply c1)
    let ?reply = "sv_reply sv (length (cl_sent c)) url params"
    have reply: "reply = ?reply" and c1: "cl_sent c1 = cl_sent c @ [(url, params)]"
      using send_request_sent [OF cont(1)] by auto
    have again: "sent_attempts sv url params (length (a # as)) c r' c3"
      if "sleep x c1 = (Inr (), c2)" "attempts rt sv retries url params as c2 = (r', c3)" "transient ?reply" for x c2 r' c3
      using sent_attempts_more [OF that(3) _ Cons.IH [OF that(2)]] sleep_sent [OF that(1)] c1 by simp
    have stop: "sent_attempts sv url params (length (a # as)) c (Inl e) c2" if "cl_sent c2 = cl_sent c1" for e c2
      using that c1 by (auto intro: sent_attempts_one)
    have slept: "sent_attempts sv url params (length (a # as)) c (Inl e) c2" if "sleep x c1 = (e', c2)" for e x e' c2
      using stop sleep_sent [OF that] by blast
    show ?thesis
    proof (cases ?reply)
      case Unreachable
      with cont(2) reply show ?thesis
        by (auto simp: st_simps split: if_splits elim!: bind_st_cases intro: stop [simplified] again [simplified] slept [simplified])
    next
      case (Broken e)
      with cont(2) reply show ?thesis by (auto simp: st_simps intro: stop [simplified])
    next
      case (Response st h b)
      show ?thesis
      proof (cases "retry_status st")
        case True
        with cont(2) reply Response show ?thesis
          by (auto simp: st_simps elim!: bind_st_cases intro: stop [simplified] again [simplified] slept [simplified])
      next
        case False
        with cont(2) reply Response have r: "r = bind_res (raise_for_status st) (\<lambda>_. json_object b)" "c' = c1"
          by (auto simp: st_simps)
        have "definite ?reply page" if "r = Inr page" for page
          using that r(1) False Response
          by (auto simp: definite_def res_simps json_object_def split: option.splits pyval.splits)
        with r(2) c1 show ?thesis by (auto intro: sent_attempts_one)
      qed
    qed
  qed
qed

lemma get_json_sent:
  assumes "get_json rt sv retries p params c = (r, c')"
  shows "\<exists>u. (massive_url p = Inr u \<or> cl_sent c' = cl_sent c \<and> (\<exists>e. r = Inl e)) \<and>
    sent_attempts sv u params (nat (retries + 1)) c r c'"
proof (cases "massive_url p")
  case (Inl e)
  with assms show ?thesis by (auto simp: get_json_def bind_st_def st_simps intro!: sent_attempts_none)
next
  case (Inr u)
  with assms attempts_sent [of rt sv retries u params "[0 ..< nat (retries + 1)]" c r c'] show ?thesis
    by (auto simp: get_json_def bind_st_def st_simps)
qed

lemma get_json_targets:
  assumes "get_json rt sv retries p params c = (r, c')"
  shows "\<exists>us. cl_sent c' = cl_sent c @ us \<and> (\<forall>(u, q)\<in>set us. url_parts u = (''https'', ''api.massive.com''))"
proof -
  from get_json_sent [OF assms] obtain u n where "massive_url p = Inr u \<or> cl_sent c' = cl_sent c"
    and "cl_sent c' = cl_sent c @ replicate n (u, params)" unfolding sent_attempts_def by blast
  then show ?thesis using massive_url_parts by (auto intro: exI [of _ "[]"] exI [of _ "replicate n (u, params)"])
qed

lemma pages_targets:
  "pages rt sv retries p params c = Some y \<Longrightarrow>
   \<exists>us. cl_sent (snd y) = cl_sent c @ us \<and> (\<forall>(u, q)\<in>set us. url_parts u = (''https'', ''api.massive.com''))"
proof (induction rule: pages.raw_induct [rotated 1, consumes 1, case_names step])
  case (step pages rt sv retries p params c y)
  let ?ok = "\<lambda>us. \<forall>(u, q)\<in>set us. url_parts u = (''https'', ''api.massive.com'')"
  show ?case
  proof (cases "p = []")
    case True
    with step(2) show ?thesis by auto
  next
    case False
    obtain r1 c1 where g: "get_json rt sv retries p params c = (r1, c1)" by fastforce
    from get_json_targets [OF g] obtain us where us: "cl_sent c1 = cl_sent c @ us" "?ok us" by blast
    from step(2) g False consider "snd y = c1"
      | p' r2 where "pages rt sv retries p' [] c1 = Some (r2, snd y)"
      by (auto split: sum.splits option.splits simp: bind_eq_Some_conv)
    then show ?thesis
    proof cases
      case 1
      with us show ?thesis by blast
    next
      case 2
      from step(1) [OF 2] obtain vs where "cl_sent (snd y) = cl_sent c1 @ vs" "?ok vs" by auto
      with us have "cl_sent (snd y) = cl_sent c @ (us @ vs)" "?ok (us @ vs)" by auto
      then show ?thesis by blast
    qed
  qed
qed

subsection \<open>Complete pagination\<close>

definition calm :: "server \<Rightarrow> bool" where
  "calm sv \<longleftrightarrow> (\<forall>k. \<exists>t. sv_clock sv k = Fin t \<and> 0 \<le> t \<and> t \<le> 2 ^ 32)"

definition limiter_ok :: "limiter \<Rightarrow> bool" where
  "limiter_ok l \<longleftrightarrow> (\<exists>i. lm_interval l = Fin i \<and> 0 \<le> i \<and> i \<le> 60) \<and> (\<exists>x. lm_next l = Fin x \<and> 0 \<le> x \<and> x \<le> 2 ^ 33)"

lemma new_limiter_ok: "new_limiter calls = Inr l \<Longrightarrow> limiter_ok l"
proof -
  assume "new_limiter calls = Inr l"
  then have c: "0 < calls" and l: "l = \<lparr>lm_interval = fl (60 / of_int calls), lm_next = Fin 0\<rparr>"
    by (auto simp: new_limiter_def split: if_splits)
  have "0 \<le> 60 / (of_int calls :: rat)" "60 / (of_int calls :: rat) \<le> of_int 60"
    using c by (simp_all add: field_simps)
  from fl_in_range [OF this] l show ?thesis by (simp add: limiter_ok_def)
qed

lemma limiter_wait_ok:
  assumes "calm sv" and "limiter_ok (cl_limiter c)"
  shows "\<exists>c'. limiter_wait sv c = (Inr (), c') \<and> limiter_ok (cl_limiter c') \<and> cl_sent c' = cl_sent c"
proof -
  obtain i x where l: "lm_interval (cl_limiter c) = Fin i" "0 \<le> i" "i \<le> 60" "lm_next (cl_limiter c) = Fin x" "0 \<le> x" "x \<le> 2 ^ 33"
    using assms(2) by (auto simp: limiter_ok_def)
  have clock: "\<exists>t. sv_clock sv k = Fin t \<and> 0 \<le> t \<and> t \<le> 2 ^ 32" for k using assms(1) by (simp add: calm_def)
  have next_ok: "\<exists>y. fadd (sv_clock sv k) (Fin i) = Fin y \<and> 0 \<le> y \<and> y \<le> 2 ^ 33" for k
  proof -
    obtain t where t: "sv_clock sv k = Fin t" "0 \<le> t" "t \<le> 2 ^ 32" using clock by blast
    with l(2,3) show ?thesis using fl_in_range [of "t + i" "2 ^ 33"] by simp
  qed
  obtain t where t: "sv_clock sv (cl_reads c) = Fin t" "0 \<le> t" using clock by blast
  have delay: "fsub (Fin x) (Fin t) = fl (x - t)" by (simp add: fsub_def)
  have "fle (fl (x - t)) (Fin (2 ^ 33))" using fl_mono [of "x - t" "of_int (2 ^ 33)"] fl_int [of "2 ^ 33"] l(6) t(2) by simp
  then have fits: "\<not> flt (Fin (2 ^ 63 / 10 ^ 9)) (fl (x - t))" by (cases "fl (x - t)") auto
  show ?thesis
  proof (cases "flt (Fin 0) (fl (x - t))")
    case True
    obtain y where "fadd (sv_clock sv (Suc (cl_reads c))) (Fin i) = Fin y" "0 \<le> y" "y \<le> 2 ^ 33" using next_ok by blast
    with True fits l t delay show ?thesis
      by (simp add: limiter_wait_def Let_def bind_st_def sleep_def limiter_ok_def)
  next
    case False
    obtain y where "fadd (Fin t) (Fin i) = Fin y" "0 \<le> y" "y \<le> 2 ^ 33" using next_ok [of "cl_reads c"] t(1) by auto
    with False l t delay show ?thesis by (simp add: limiter_wait_def Let_def limiter_ok_def)
  qed
qed

lemma get_json_ok:
  assumes "calm sv" and "limiter_ok (cl_limiter c)" and "0 \<le> retries" and "massive_url p = Inr u"
    and "sv_reply sv (length (cl_sent c)) u params = Response 200 h (Some (PDict page))"
  shows "\<exists>c'. get_json rt sv retries p params c = (Inr page, c') \<and> limiter_ok (cl_limiter c') \<and>
    cl_sent c' = cl_sent c @ [(u, params)]"
proof -
  obtain c1 where c1: "limiter_wait sv c = (Inr (), c1)" "limiter_ok (cl_limiter c1)" "cl_sent c1 = cl_sent c"
    using limiter_wait_ok [OF assms(1,2)] by blast
  have "nat (retries + 1) = Suc (nat retries)" using assms(3) by simp
  then have "[0 ..< nat (retries + 1)] = 0 # [1 ..< nat (retries + 1)]" by (simp add: upt_rec)
  then show ?thesis
    using c1 assms(4,5)
    by (simp add: get_json_def bind_st_def st_simps send_request_def retry_status_def raise_for_status_def json_object_def)
qed

text \<open>A finite chain of pages behind cursors: the request for \<open>p\<close> with its parameters is answered, whenever it is
  made, with the first page; every page has a list of results; and the request for the cursor of a page, which
  carries no parameters of its own, is answered with the following one.  Nothing is said of other requests.\<close>

fun served :: "runtime \<Rightarrow> server \<Rightarrow> string \<Rightarrow> payload \<Rightarrow> payload list \<Rightarrow> bool" where
  "served rt sv p params [] \<longleftrightarrow> False"
| "served rt sv p params (page # rest) \<longleftrightarrow>
     (\<exists>u. massive_url p = Inr u \<and> (\<forall>k. sv_reply sv k u params = Response 200 None (Some (PDict page)))) \<and>
     is_ok (page_rows page) \<and>
     (case page_next rt page of None \<Rightarrow> rest = [] | Some p' \<Rightarrow> served rt sv p' [] rest)"

text \<open>The requests that read the chain: the first path with its parameters, then the cursor of each page.\<close>

fun chain_requests :: "runtime \<Rightarrow> string \<Rightarrow> payload \<Rightarrow> payload list \<Rightarrow> (string \<times> payload) list" where
  "chain_requests rt p params [] = []"
| "chain_requests rt p params (page # rest) =
     (case massive_url p of Inl e \<Rightarrow> [] | Inr u \<Rightarrow> [(u, params)]) @
     (case page_next rt page of None \<Rightarrow> [] | Some p' \<Rightarrow> chain_requests rt p' [] rest)"

definition rows_in :: "payload \<Rightarrow> payload list" where
  "rows_in page = (case page_rows page of Inl e \<Rightarrow> [] | Inr rows \<Rightarrow> rows)"

lemma massive_url_Nil: "\<not> is_ok (massive_url [])"
  by (simp add: massive_url_def starts_with_def url_parts_def url_scheme_def url_text_def)

lemma pages_chain:
  assumes "calm sv" and "limiter_ok (cl_limiter c)" and "0 \<le> retries" and "served rt sv p params pgs"
  shows "\<exists>c'. pages rt sv retries p params c = Some (Inr (concat (map rows_in pgs)), c') \<and>
    cl_sent c' = cl_sent c @ chain_requests rt p params pgs"
  using assms(2,4)
proof (induction pgs arbitrary: c p params)
  case (Cons page rest)
  obtain u where u: "massive_url p = Inr u"
    and r: "sv_reply sv (length (cl_sent c)) u params = Response 200 None (Some (PDict page))"
    using Cons.prems(2) by auto
  have p: "p \<noteq> []" using u massive_url_Nil by (cases p) auto
  from get_json_ok [OF assms(1) Cons.prems(1) assms(3) u r] obtain c1 where
    g: "get_json rt sv retries p params c = (Inr page, c1)" and l: "limiter_ok (cl_limiter c1)"
    and s: "cl_sent c1 = cl_sent c @ [(u, params)]" by blast
  from Cons.prems(2) obtain rows where rows: "page_rows page = Inr rows" by (auto simp: is_ok_iff)
  show ?case
  proof (cases "page_next rt page")
    case None
    with Cons.prems(2) g rows p s u show ?thesis by (subst pages.simps) (simp add: rows_in_def)
  next
    case (Some p')
    with Cons.prems(2) have "served rt sv p' [] rest" by simp
    from Cons.IH [OF l this] obtain c' where "pages rt sv retries p' [] c1 = Some (Inr (concat (map rows_in rest)), c')"
      "cl_sent c' = cl_sent c1 @ chain_requests rt p' [] rest" by blast
    with g rows p s u Some show ?thesis by (subst pages.simps) (simp add: rows_in_def)
  qed
qed simp

text \<open>A server whose pages always name a next page keeps the loop running for ever: nothing compares or counts
  the cursors.\<close>

lemma pages_never_end:
  assumes "calm sv" and "0 \<le> retries" and "is_ok (page_rows page)" and "page_next rt page = Some p'"
    and "is_ok (massive_url p')" and "\<forall>i u q. sv_reply sv i u q = Response 200 None (Some (PDict page))"
    and "limiter_ok (cl_limiter c)" and "is_ok (massive_url p)"
  shows "pages rt sv retries p params c = None"
proof -
  have never: "pages rt' sv' retries' p params c = Some y \<Longrightarrow> rt' = rt \<Longrightarrow> sv' = sv \<Longrightarrow> retries' = retries \<Longrightarrow>
      limiter_ok (cl_limiter c) \<Longrightarrow> is_ok (massive_url p) \<Longrightarrow> False" for rt' sv' retries' p params c y
  proof (induction rule: pages.raw_induct [rotated 1, consumes 1, case_names step])
    case (step pg rt' sv' retries' p params c y)
    obtain u where u: "massive_url p = Inr u" and p: "p \<noteq> []" using step.prems(5) massive_url_Nil by (cases p) (auto simp: is_ok_iff)
    from get_json_ok [OF assms(1) step.prems(4) assms(2) u, of params None page rt] assms(6)
    obtain c1 where g: "get_json rt sv retries p params c = (Inr page, c1)" "limiter_ok (cl_limiter c1)" by blast
    from step.hyps(1) step.prems(1-3) g p assms(3,4) obtain r2 where "pg rt sv retries p' [] c1 = Some r2"
      by (auto simp: is_ok_iff bind_eq_Some_conv)
    from step.IH [OF this] g(2) assms(5) show False by simp
  qed
  from never [OF _ refl refl refl assms(7,8)] show ?thesis by (cases "pages rt sv retries p params c") blast+
qed

subsection \<open>Properties\<close>

text \<open>C15 (key_goes_to_massive): every request that the client sends with its key, in a single call or while it follows
  the cursors that the server returns, goes to \<open>https://api.massive.com\<close>.\<close>

theorem key_goes_to_massive:
  "(\<forall>r c'. get_json rt sv retries p params c = (r, c') \<longrightarrow>
      (\<exists>us. cl_sent c' = cl_sent c @ us \<and> (\<forall>(u, q)\<in>set us. url_parts u = (''https'', ''api.massive.com'')))) \<and>
   (\<forall>y. pages rt sv retries p params c = Some y \<longrightarrow>
      (\<exists>us. cl_sent (snd y) = cl_sent c @ us \<and> (\<forall>(u, q)\<in>set us. url_parts u = (''https'', ''api.massive.com''))))"
  by (intro conjI allI impI) (fact get_json_targets, fact pages_targets)

text \<open>C30 (get_json_bounded): a call sends the same request at most \<open>max_retries + 1\<close> times, again only after a lost
  connection or a status that is retried, and returns an object only from a reply with a successful status.\<close>

theorem get_json_bounded:
  assumes "get_json rt sv retries p params c = (r, c')"
  shows "\<exists>u n. n \<le> nat (retries + 1) \<and> cl_sent c' = cl_sent c @ replicate n (u, params) \<and>
    (\<forall>i. i + 1 < n \<longrightarrow> transient (sv_reply sv (length (cl_sent c) + i) u params)) \<and>
    (\<forall>page. r = Inr page \<longrightarrow> massive_url p = Inr u \<and> 0 < n \<and>
       definite (sv_reply sv (length (cl_sent c) + n - 1) u params) page)"
proof -
  from get_json_sent [OF assms] obtain u n where "massive_url p = Inr u \<or> (\<exists>e. r = Inl e)"
    and "n \<le> nat (retries + 1)" "cl_sent c' = cl_sent c @ replicate n (u, params)"
    "\<forall>i. i + 1 < n \<longrightarrow> transient (sv_reply sv (length (cl_sent c) + i) u params)"
    "\<forall>page. r = Inr page \<longrightarrow> 0 < n \<and> definite (sv_reply sv (length (cl_sent c) + n - 1) u params) page"
    unfolding sent_attempts_def by blast
  then show ?thesis by blast
qed

text \<open>C16 (pages_complete): when the server keeps a finite chain of pages, the first behind the path and its parameters and
  each other one behind the cursor of the page before, reading them ends, sends exactly one request for each
  page, the cursors in their order, and returns all their results in order.\<close>

theorem pages_complete:
  assumes "calm sv" and "limiter_ok (cl_limiter c)" and "0 \<le> retries" and "served rt sv p params pgs"
  shows "\<exists>c'. pages rt sv retries p params c = Some (Inr (concat (map rows_in pgs)), c') \<and>
    cl_sent c' = cl_sent c @ chain_requests rt p params pgs"
  using assms by (rule pages_chain)

definition sample_pages :: "payload list" where
  "sample_pages = [[(''results'', PList [PDict [(''ticker'', PStr ''A'')]]), (''next_url'', PStr ''https://api.massive.com/x?cursor=1'')],
     [(''results'', PList [PDict [(''ticker'', PStr ''B'')], PNone]), (''next_url'', PStr ''/x?cursor=2'')],
     [(''results'', PList [])]]"

text \<open>A server that answers by the URL and the parameters: a path that is not one of the three is not found.\<close>

definition sample_server :: server where
  "sample_server = \<lparr>sv_reply = (\<lambda>k u q.
     if u = base_url @ ''/x'' \<and> q = [(''limit'', PInt 1)] then Response 200 None (Some (PDict (sample_pages ! 0)))
     else if u = base_url @ ''/x?cursor=1'' \<and> q = [] then Response 200 None (Some (PDict (sample_pages ! 1)))
     else if u = base_url @ ''/x?cursor=2'' \<and> q = [] then Response 200 None (Some (PDict (sample_pages ! 2)))
     else Response 404 None None), sv_clock = (\<lambda>k. Fin 0)\<rparr>"

definition sample_client :: client where
  "sample_client = \<lparr>cl_limiter = \<lparr>lm_interval = Fin 12, lm_next = Fin 0\<rparr>, cl_reads = 0, cl_sleeps = [], cl_sent = []\<rparr>"

lemma sample_served: "served sample_runtime sample_server ''/x'' [(''limit'', PInt 1)] sample_pages"
proof -
  have n: "page_next sample_runtime (sample_pages ! 0) = Some (base_url @ ''/x?cursor=1'')"
    "page_next sample_runtime (sample_pages ! 1) = Some ''/x?cursor=2''"
    "page_next sample_runtime (sample_pages ! 2) = None" by code_simp+
  have m: "massive_url ''/x'' = Inr (base_url @ ''/x'')" "massive_url (base_url @ ''/x?cursor=1'') = Inr (base_url @ ''/x?cursor=1'')"
    "massive_url ''/x?cursor=2'' = Inr (base_url @ ''/x?cursor=2'')" by code_simp+
  have o: "\<forall>page\<in>set sample_pages. is_ok (page_rows page)" by code_simp
  have e: "sample_pages = [sample_pages ! 0, sample_pages ! 1, sample_pages ! 2]" by (simp add: sample_pages_def)
  with o have o': "is_ok (page_rows (sample_pages ! 0))" "is_ok (page_rows (sample_pages ! 1))" "is_ok (page_rows (sample_pages ! 2))"
    by (simp_all add: sample_pages_def)
  have "served sample_runtime sample_server ''/x'' [(''limit'', PInt 1)] [sample_pages ! 0, sample_pages ! 1, sample_pages ! 2]"
    using n m o' by (simp add: sample_server_def)
  with e show ?thesis by simp
qed

lemma pages_complete_witness:
  "\<exists>c'. pages sample_runtime sample_server 3 ''/x'' [(''limit'', PInt 1)] sample_client =
     Some (Inr [[(''ticker'', PStr ''A'')], [(''ticker'', PStr ''B'')]], c') \<and>
     map fst (cl_sent c') = map ((@) base_url) [''/x'', ''/x?cursor=1'', ''/x?cursor=2'']"
proof -
  have "calm sample_server" by (simp add: calm_def sample_server_def)
  moreover have "limiter_ok (cl_limiter sample_client)" by (simp add: limiter_ok_def sample_client_def)
  moreover have "concat (map rows_in sample_pages) = [[(''ticker'', PStr ''A'')], [(''ticker'', PStr ''B'')]]" by code_simp
  moreover have "map fst (chain_requests sample_runtime ''/x'' [(''limit'', PInt 1)] sample_pages) =
    map ((@) base_url) [''/x'', ''/x?cursor=1'', ''/x?cursor=2'']" by code_simp
  moreover have "cl_sent sample_client = []" by (simp add: sample_client_def)
  ultimately show ?thesis
    using pages_complete [of sample_server sample_client 3 sample_runtime "''/x''" "[(''limit'', PInt 1)]" sample_pages]
      sample_served by auto
qed

lemma get_json_bounded_witness:
  "\<exists>r c'. get_json sample_runtime sample_server 3 ''/x'' [] sample_client = (r, c') \<and> length (cl_sent c') \<le> 4"
proof -
  obtain r c' where g: "get_json sample_runtime sample_server 3 ''/x'' [] sample_client = (r, c')" by fastforce
  from get_json_bounded [OF g] g show ?thesis by (auto simp: sample_client_def)
qed

lemma key_goes_to_massive_witness:
  "\<exists>r c'. get_json sample_runtime sample_server 3 ''/x'' [] sample_client = (r, c') \<and>
     (\<forall>(u, q)\<in>set (cl_sent c'). url_parts u = (''https'', ''api.massive.com''))"
proof -
  obtain r c' where g: "get_json sample_runtime sample_server 3 ''/x'' [] sample_client = (r, c')" by fastforce
  from key_goes_to_massive [of sample_runtime sample_server 3 "''/x''" "[]" sample_client] g
  obtain us where "cl_sent c' = cl_sent sample_client @ us" "\<forall>(u, q)\<in>set us. url_parts u = (''https'', ''api.massive.com'')"
    by blast
  with g show ?thesis by (auto simp: sample_client_def)
qed

end
