(* ===== verification/Adapters.thy ===== *)
theory Adapters
  imports Ingestion Massive
begin

section \<open>Provider adapters\<close>

text \<open>
  \<open>ingestion/alpaca_equities.py\<close>, \<open>yahoo_equities.py\<close>, \<open>yahoo_options.py\<close>, \<open>alpaca_options.py\<close> and \<open>futures.py\<close>: how the
  answers of the vendor libraries become frames with the canonical columns.  What a vendor returns for a request
  is an argument; a frame of a vendor has its index as the first column, as after \<open>reset_index\<close>.
\<close>

subsection \<open>Shared steps\<close>

definition rename_column :: "string \<Rightarrow> string \<Rightarrow> frame \<Rightarrow> frame" where
  "rename_column a b f = f\<lparr>fr_columns := map (\<lambda>c. if c = a then b else c) (fr_columns f),
     fr_numeric := map (\<lambda>c. if c = a then b else c) (fr_numeric f)\<rparr>"

definition lower_columns :: "frame \<Rightarrow> frame" where
  "lower_columns f = f\<lparr>fr_columns := map py_lower (fr_columns f), fr_numeric := map py_lower (fr_numeric f)\<rparr>"

definition frame_of_rows :: "string list \<Rightarrow> payload list \<Rightarrow> frame" where
  "frame_of_rows cols rows = build_frame cols (\<lambda>c row. got row c) rows"

subsection \<open>Equities\<close>

datatype history_window = Period string | Between "pyval" "pyval"

record history_request =
  hr_symbol :: string
  hr_interval :: string
  hr_window :: history_window

definition yahoo_request :: "string \<Rightarrow> string \<Rightarrow> string \<Rightarrow> pyval option \<Rightarrow> pyval option \<Rightarrow> history_request" where
  "yahoo_request symb period interval start stop =
     \<lparr>hr_symbol = symb, hr_interval = interval,
      hr_window = (if start = None \<and> stop = None then Period period
        else Between (case start of None \<Rightarrow> PNone | Some v \<Rightarrow> v) (case stop of None \<Rightarrow> PNone | Some v \<Rightarrow> v))\<rparr>"

definition fetch_yahoo_equity_bars :: "(history_request \<Rightarrow> frame result) \<Rightarrow> string \<Rightarrow> string \<Rightarrow> string \<Rightarrow> pyval option \<Rightarrow>
    pyval option \<Rightarrow> frame result" where
  "fetch_yahoo_equity_bars history symb period interval start stop =
     bind_res (history (yahoo_request symb period interval start stop)) (\<lambda>bars.
     if fr_rows bars = [] \<or> fr_columns bars = [] then Inr (empty_frame massive_equity_columns)
     else let g = lower_columns bars in
       select_columns (set_column (rename_column (hd (fr_columns g)) ''trade_date'' g) ''symbol'' (PStr symb))
         massive_equity_columns)"

definition fetch_stock_bars :: "(process, frame) prog \<Rightarrow> cell_parsers \<Rightarrow> (process, frame) prog" where
  "fetch_stock_bars vendor pd =
     bind_st load_alpaca_credentials (\<lambda>_.
     bind_st vendor (\<lambda>bars.
     if fr_rows bars = [] then return_st (empty_frame massive_equity_columns)
     else let g = rename_column ''timestamp'' ''trade_date'' bars in
       lift_res (bind_res (if ''trade_date'' \<in> set (fr_columns g) then parse_dates pd g else Inl (KeyError ''trade_date''))
         (\<lambda>h. select_columns h massive_equity_columns))))"

text \<open>\<open>validate_columns\<close>\<close>

definition validate_columns :: "frame \<Rightarrow> string list \<Rightarrow> bool" where
  "validate_columns f expected \<longleftrightarrow> fr_columns f = expected"

subsection \<open>Futures\<close>

text \<open>\<open>yf.download\<close>: nothing, one flat frame, or a frame for each ticker.\<close>

datatype download = NoData | Flat frame | PerTicker "(string \<times> frame) list"

definition futures_universe :: "string list" where
  "futures_universe = [''ES=F'', ''NQ=F'', ''CL=F'', ''GC=F'', ''ZN=F'']"

definition drop_empty_rows :: "frame \<Rightarrow> frame" where
  "drop_empty_rows f = f\<lparr>fr_rows := filter (\<lambda>r. \<not> list_all isna (tl r)) (fr_rows f)\<rparr>"

definition reindex :: "frame \<Rightarrow> string list \<Rightarrow> frame" where
  "reindex f cols = \<lparr>fr_columns = cols, fr_numeric = filter (\<lambda>c. c \<in> set (fr_numeric f) \<or> c \<notin> set (fr_columns f)) cols,
     fr_rows = map (\<lambda>r. map (\<lambda>c. if c \<in> set (fr_columns f) then cell f r c else PFloat NaN) cols) (fr_rows f)\<rparr>"

definition futures_frame_of :: "string \<Rightarrow> frame \<Rightarrow> frame list" where
  "futures_frame_of symb raw =
     (let f = drop_empty_rows raw in
      if fr_rows f = [] then []
      else let g = lower_columns f; stamp = (if ''datetime'' \<in> set (fr_columns g) then ''datetime'' else ''date'') in
        [reindex (set_column (rename_column stamp ''trade_date'' g) ''symbol'' (PStr symb)) massive_equity_columns])"

definition ticker_frame :: "download \<Rightarrow> string \<Rightarrow> frame option" where
  "ticker_frame raw symb = (case raw of NoData \<Rightarrow> None | Flat f \<Rightarrow> Some f | PerTicker d \<Rightarrow> map_of d symb)"

definition fetch_futures_bars :: "(string list \<Rightarrow> download result) \<Rightarrow> string list option \<Rightarrow> frame result" where
  "fetch_futures_bars vendor symbols =
     (let ss = (case symbols of None \<Rightarrow> futures_universe | Some ss \<Rightarrow> ss) in
      bind_res (vendor ss) (\<lambda>raw.
      let fs = concat (map (\<lambda>s. case ticker_frame raw s of None \<Rightarrow> [] | Some f \<Rightarrow> futures_frame_of s f) ss) in
      if fs = [] then Inr (empty_frame massive_equity_columns) else concat_frames fs))"

subsection \<open>Options\<close>

definition fetch_yahoo_option_chain :: "(string \<Rightarrow> string \<Rightarrow> (frame \<times> frame) result) \<Rightarrow> int \<Rightarrow> string \<Rightarrow> string \<Rightarrow> frame result" where
  "fetch_yahoo_option_chain vendor today underlying expiration =
     bind_res (vendor underlying expiration) (\<lambda>(calls, puts).
     bind_res (concat_frames [set_column calls ''option_type'' (PStr ''C''), set_column puts ''option_type'' (PStr ''P'')]) (\<lambda>f.
     let g = rename_column ''openInterest'' ''open_interest'' (rename_column ''lastPrice'' ''close''
           (rename_column ''contractSymbol'' ''contract_symbol'' f));
         h = set_column (set_column (set_column g ''underlying'' (PStr underlying)) ''expiry'' (PStr expiration))
           ''trade_date'' (PDate today) in
     if fr_rows calls = [] \<and> fr_rows puts = [] then Inr (empty_frame canonical_option_columns) else select_columns h canonical_option_columns))"

text \<open>\<open>_value\<close>: a mapping is asked by key, any other object by attribute.\<close>

definition value_of :: "(pyval \<Rightarrow> string \<Rightarrow> pyval option) \<Rightarrow> pyval \<Rightarrow> string \<Rightarrow> pyval \<Rightarrow> pyval" where
  "value_of attr v name dflt =
     (case v of PDict d \<Rightarrow> dict_get dflt d name
      | _ \<Rightarrow> (case attr v name of None \<Rightarrow> dflt | Some x \<Rightarrow> x))"

definition slice :: "nat \<Rightarrow> nat \<Rightarrow> string \<Rightarrow> string" where
  "slice i j s = take (j - i) (drop i s)"

definition occ_date :: "string \<Rightarrow> string" where
  "occ_date s = ''20'' @ slice 6 8 s @ ''-'' @ slice 8 10 s @ ''-'' @ slice 10 12 s"

definition contract_details :: "runtime \<Rightarrow> string \<Rightarrow> (string \<times> pyfloat \<times> string) result" where
  "contract_details rt s =
     (if length s < 15 then Inl (ValueError ''Invalid OCC option symbol'')
      else case py_int (drop 13 s) of
        None \<Rightarrow> Inl (ValueError ''invalid literal for int()'')
      | Some n \<Rightarrow> (case fl (of_int n / 1000) of
          Fin x \<Rightarrow> (case date_of_iso rt (occ_date s) of
              None \<Rightarrow> Inl (ValueError ''Invalid isoformat string'')
            | Some d \<Rightarrow> Inr (iso_date rt d, Fin x, [s ! 12]))
        | _ \<Rightarrow> Inl OverflowError))"

definition alpaca_row :: "(pyval \<Rightarrow> string \<Rightarrow> pyval option) \<Rightarrow> string \<Rightarrow> int \<Rightarrow> string \<Rightarrow> string \<times> pyfloat \<times> string \<Rightarrow> pyval \<Rightarrow>
    payload" where
  "alpaca_row attr underlying today symb details snapshot =
     (case details of (expiry, strike, option_type) \<Rightarrow>
      let trade = value_of attr snapshot ''latest_trade'' (PDict []);
          quote = value_of attr snapshot ''latest_quote'' (PDict []);
          bar = value_of attr snapshot ''daily_bar'' (PDict []) in
      [(''underlying'', PStr underlying), (''expiry'', PStr expiry), (''strike'', PFloat strike),
       (''option_type'', PStr option_type), (''contract_symbol'', PStr symb), (''trade_date'', PDate today),
       (''close'', value_of attr trade ''price'' PNone), (''bid'', value_of attr quote ''bid_price'' PNone),
       (''ask'', value_of attr quote ''ask_price'' PNone), (''volume'', value_of attr bar ''volume'' PNone),
       (''open_interest'', value_of attr snapshot ''open_interest'' PNone)])"

text \<open>A symbol that cannot be read is skipped (only \<open>TypeError\<close> and \<open>ValueError\<close> are caught).\<close>

fun alpaca_rows :: "runtime \<Rightarrow> (pyval \<Rightarrow> string \<Rightarrow> pyval option) \<Rightarrow> string \<Rightarrow> int \<Rightarrow> payload \<Rightarrow> payload list result" where
  "alpaca_rows rt attr underlying today [] = Inr []"
| "alpaca_rows rt attr underlying today ((symb, snapshot) # chain) =
     (case contract_details rt symb of
        Inl (ValueError m) \<Rightarrow> alpaca_rows rt attr underlying today chain
      | Inl e \<Rightarrow> Inl e
      | Inr details \<Rightarrow> bind_res (alpaca_rows rt attr underlying today chain) (\<lambda>rows.
          Inr (alpaca_row attr underlying today symb details snapshot # rows)))"

definition fetch_alpaca_option_chain :: "runtime \<Rightarrow> (pyval \<Rightarrow> string \<Rightarrow> pyval option) \<Rightarrow> (string \<Rightarrow> int \<Rightarrow> payload option result) \<Rightarrow>
    int \<Rightarrow> string \<Rightarrow> string \<Rightarrow> (process, frame) prog" where
  "fetch_alpaca_option_chain rt attr vendor today underlying expiration =
     bind_st load_alpaca_credentials (\<lambda>_.
     lift_res (case date_of_iso rt expiration of
         None \<Rightarrow> Inl (ValueError ''Invalid isoformat string'')
       | Some d \<Rightarrow> bind_res (vendor underlying d) (\<lambda>chain.
           bind_res (alpaca_rows rt attr underlying today (case chain of None \<Rightarrow> [] | Some c \<Rightarrow> c)) (\<lambda>rows.
           Inr (frame_of_rows canonical_option_columns rows)))))"

subsection \<open>OCC symbols\<close>

text \<open>The format of the symbols: the root, the date as six digits, \<open>C\<close> or \<open>P\<close>, and the strike in thousandths as eight digits.\<close>

definition occ_symbol :: "string \<Rightarrow> string \<Rightarrow> char \<Rightarrow> nat \<Rightarrow> string" where
  "occ_symbol symb ymd t strike = symb @ ymd @ [t] @ zero_pad 8 strike"

lemma py_int_digits:
  assumes "list_all is_digit s" and "s \<noteq> []"
  shows "py_int s = Some (int (digits_val s))"
proof -
  have d: "\<forall>c\<in>set s. is_digit c" using assms(1) by (simp add: list_all_iff)
  have plain: "\<not> py_space c \<and> c \<noteq> CHR ''_'' \<and> c \<noteq> CHR ''-'' \<and> c \<noteq> CHR ''+''" if "is_digit c" for c
    using that by (auto simp: is_digit_def py_space_def Let_def)
  have left: "py_lstrip t = t" if "\<forall>c\<in>set t. is_digit c" for t
    using that plain by (cases t) (auto simp: py_lstrip_def)
  have strip: "py_strip s = s" using left [of s] left [of "rev s"] d by (simp add: py_strip_def)
  obtain c r where s: "s = c # r" using assms(2) by (cases s) auto
  have c: "c \<noteq> CHR ''-''" "c \<noteq> CHR ''+''" using d plain s by auto
  have "CHR ''_'' \<notin> set s" using d plain by blast
  then have "split_on CHR ''_'' s = [s]" by (rule split_on_single)
  with strip s c assms show ?thesis by (simp add: py_int_def Let_def starts_with_def)
qed

lemma zero_pad_val: "digits_val (zero_pad w n) = n"
proof -
  have "digits_val (replicate k CHR ''0'' @ s) = digits_val s" for k s
    by (induction k) (auto simp: digits_val_def)
  then show ?thesis by (simp add: zero_pad_def Let_def digits_val_show_nat)
qed

lemma zero_pad_length: "w \<le> length (zero_pad w n)"
  by (simp add: zero_pad_def Let_def)

lemma thousandths: "n < 10 ^ 8 \<Longrightarrow> \<exists>x. fl (of_int (int n) / 1000) = Fin x"
proof -
  assume n: "n < 10 ^ 8"
  then have "(of_nat n :: rat) \<le> of_nat (10 ^ 8)" by (intro of_nat_mono) simp
  then have "0 \<le> (of_int (int n) / 1000 :: rat)" "of_int (int n) / 1000 \<le> (of_int (10 ^ 5) :: rat)" by simp_all
  from fl_in_range [OF this] show ?thesis by auto
qed

text \<open>A symbol whose root fills six characters is read as the contract it names: the
  date, the strike in thousandths and the type.\<close>

theorem padded_contract_read:
  assumes "length symb = 6" and "length ymd = 6" and "strike < 10 ^ 8"
    and "date_of_iso rt (''20'' @ slice 0 2 ymd @ ''-'' @ slice 2 4 ymd @ ''-'' @ slice 4 6 ymd) = Some d"
  shows "\<exists>x. contract_details rt (occ_symbol symb ymd t strike) = Inr (iso_date rt d, Fin x, [t]) \<and>
    fl (of_nat strike / 1000) = Fin x"
proof -
  let ?s = "occ_symbol symb ymd t strike"
  have s: "drop 13 ?s = zero_pad 8 strike" "?s ! 12 = t" "length ?s \<ge> 15"
    using assms(1,2) zero_pad_length [of 8 strike] by (simp_all add: occ_symbol_def nth_append)
  have "slice 6 8 ?s = slice 0 2 ymd" "slice 8 10 ?s = slice 2 4 ymd" "slice 10 12 ?s = slice 4 6 ymd"
    using assms(1,2) by (simp_all add: occ_symbol_def slice_def)
  then have day: "date_of_iso rt (occ_date ?s) = Some d" using assms(4) by (simp add: occ_date_def)
  have "zero_pad 8 strike \<noteq> []" using zero_pad_length [of 8 strike] by auto
  then have int: "py_int (drop 13 ?s) = Some (int strike)"
    using zero_pad_digits by (simp add: s(1) py_int_digits zero_pad_val)
  obtain x where x: "fl (of_int (int strike) / 1000) = Fin x" using thousandths [OF assms(3)] by blast
  have "contract_details rt ?s = Inr (iso_date rt d, Fin x, [t])"
    unfolding contract_details_def using s(2,3) int x day by (simp add: not_less [symmetric])
  with x show ?thesis by auto
qed

lemma digits_val_suffix: "digits_val (drop k s) \<le> digits_val s"
proof -
  have "digits_val ys \<le> digits_val (xs @ ys)" for xs ys
  proof (induction ys rule: rev_induct)
    case (snoc y ys)
    have "digits_val (xs @ ys @ [y]) = 10 * digits_val (xs @ ys) + (of_char y - 48)"
      using digits_val_snoc [of "xs @ ys" y] by simp
    with snoc show ?case by (simp add: digits_val_snoc)
  qed (simp add: digits_val_def)
  from this [of "drop k s" "take k s"] show ?thesis by simp
qed

lemma slice_append: "i \<le> j \<Longrightarrow> j \<le> k \<Longrightarrow> slice i j s @ slice j k s = slice i k s"
  using take_add [of "j - i" "k - j" "drop i s"] by (simp add: slice_def)

lemma short_contract:
  assumes "1 \<le> length symb" and "length symb \<le> 5" and "length ymd = 6" and "t \<in> {CHR ''C'', CHR ''P''}"
    and "\<And>s d. date_of_iso rt s = Some d \<Longrightarrow> CHR ''C'' \<notin> set s \<and> CHR ''P'' \<notin> set s"
    and "strike < 10 ^ 8"
  shows "\<exists>m. contract_details rt (occ_symbol symb ymd t strike) = Inl (ValueError m)"
proof -
  let ?s = "occ_symbol symb ymd t strike"
  have l: "length ?s = length symb + 7 + length (zero_pad 8 strike)" using assms(3) by (simp add: occ_symbol_def)
  have "take 6 (drop 6 ?s) ! length symb = t" "length symb < length (take 6 (drop 6 ?s))"
    using assms(1-3) zero_pad_length [of 8 strike] by (simp_all add: occ_symbol_def nth_append)
  then have "t \<in> set (slice 6 12 ?s)" by (auto simp: slice_def in_set_conv_nth)
  then have "t \<in> set (slice 6 8 ?s @ slice 8 10 ?s @ slice 10 12 ?s)" by (simp only: slice_append)
  then have "t \<in> set (occ_date ?s)" by (auto simp: occ_date_def)
  with assms(4,5) have none: "date_of_iso rt (occ_date ?s) = None" by (cases "date_of_iso rt (occ_date ?s)") auto
  have "7 - length symb = Suc (6 - length symb)" using assms(2) by simp
  then have d: "drop 13 ?s = drop (6 - length symb) (zero_pad 8 strike)" using assms(1-3) by (simp add: occ_symbol_def)
  have "list_all is_digit (drop 13 ?s)" using zero_pad_digits [of 8 strike] by (simp add: d list_all_length)
  moreover have "drop 13 ?s \<noteq> []" using zero_pad_length [of 8 strike] assms(1) by (simp add: d)
  ultimately have "py_int (drop 13 ?s) = Some (int (digits_val (drop 13 ?s)))" by (rule py_int_digits)
  moreover have "digits_val (drop 13 ?s) < 10 ^ 8"
    using digits_val_suffix [of "6 - length symb" "zero_pad 8 strike"] assms(6) by (simp add: d zero_pad_val)
  then obtain x where "fl (of_int (int (digits_val (drop 13 ?s))) / 1000) = Fin x" using thousandths by blast
  ultimately show ?thesis using none by (auto simp: contract_details_def)
qed

text \<open>Symbols as the exchanges and the documents of the repository write them, with a root of
  at most five characters and no padding, are never read: whatever such contracts Alpaca returns, the chain is
  empty.\<close>

theorem short_roots_dropped:
  assumes "\<And>s d. date_of_iso rt s = Some d \<Longrightarrow> CHR ''C'' \<notin> set s \<and> CHR ''P'' \<notin> set s"
    and "date_of_iso rt expiration = Some d" and "vendor underlying d = Inr (Some chain)"
    and "\<forall>s\<in>fst ` set chain. \<exists>symb ymd t strike. s = occ_symbol symb ymd t strike \<and> 1 \<le> length symb \<and> length symb \<le> 5 \<and>
      length ymd = 6 \<and> t \<in> {CHR ''C'', CHR ''P''} \<and> strike < 10 ^ 8"
    and "fetch_alpaca_option_chain rt attr vendor today underlying expiration p = (Inr f, p')"
  shows "fr_rows f = []"
proof -
  have "alpaca_rows rt attr underlying today chain = Inr []"
    using assms(4)
  proof (induction chain)
    case (Cons x chain)
    obtain s snap where x: "x = (s, snap)" by fastforce
    with Cons.prems obtain symb ymd t strike where "s = occ_symbol symb ymd t strike" "1 \<le> length symb" "length symb \<le> 5"
      "length ymd = 6" "t \<in> {CHR ''C'', CHR ''P''}" "strike < 10 ^ 8" by auto
    moreover from this(2-6) obtain m where "contract_details rt (occ_symbol symb ymd t strike) = Inl (ValueError m)"
      using short_contract [of symb ymd t rt strike] assms(1) by blast
    ultimately have "contract_details rt s = Inl (ValueError m)" by simp
    with Cons x show ?case by simp
  qed simp
  with assms(2,3,5) show ?thesis
    by (auto simp: fetch_alpaca_option_chain_def bind_st_def st_simps frame_of_rows_def build_frame_def split: prod.splits sum.splits)
qed

definition keyed_process :: process where
  "keyed_process = \<lparr>ps_env = (\<lambda>n. if n \<in> {''ALPACA_API_KEY'', ''ALPACA_SECRET_KEY''} then Some ''k'' else None),
     ps_posix = True, ps_file = None\<rparr>"

definition dated_runtime :: runtime where
  "dated_runtime = sample_runtime\<lparr>date_of_iso := \<lambda>s. if s = ''2024-12-20'' then Some 5 else None\<rparr>"

lemma short_roots_dropped_witness:
  "\<exists>f p'. fetch_alpaca_option_chain dated_runtime (\<lambda>v n. None)
      (\<lambda>u d. Inr (Some [(occ_symbol ''SPY'' ''241220'' CHR ''C'' 500000, PNone)])) 5 ''SPY'' ''2024-12-20'' keyed_process = (Inr f, p') \<and>
    fr_rows f = []"
proof -
  let ?c = "occ_symbol ''SPY'' ''241220'' CHR ''C'' 500000"
  let ?v = "\<lambda>u d. Inr (Some [(?c, PNone)]) :: payload option result"
  have digits: "CHR ''C'' \<notin> set s \<and> CHR ''P'' \<notin> set s" if "date_of_iso dated_runtime s = Some d" for s d
    using that by (simp add: dated_runtime_def split: if_splits)
  have day: "date_of_iso dated_runtime ''2024-12-20'' = Some 5" by (simp add: dated_runtime_def)
  have "alpaca_keys (ps_env keyed_process) = Some (''k'', ''k'')"
    by (simp add: alpaca_keys_def keyed_process_def set_value_def getenv_or_def)
  then have keys: "load_alpaca_credentials keyed_process = (Inr (''k'', ''k''), keyed_process)"
    by (simp add: load_alpaca_credentials_def load_secret_def)
  have "\<exists>m. contract_details dated_runtime ?c = Inl (ValueError m)"
    using digits by (intro short_contract) simp_all
  then obtain m where "contract_details dated_runtime ?c = Inl (ValueError m)" ..
  then have "alpaca_rows dated_runtime (\<lambda>v n. None) ''SPY'' 5 [(?c, PNone)] = Inr []" by simp
  with keys day obtain f where f: "fetch_alpaca_option_chain dated_runtime (\<lambda>v n. None) ?v 5 ''SPY'' ''2024-12-20'' keyed_process =
      (Inr f, keyed_process)"
    by (simp add: fetch_alpaca_option_chain_def bind_st_def st_simps)
  have c: "\<forall>s\<in>fst ` set [(?c, PNone)]. \<exists>symb ymd t strike. s = occ_symbol symb ymd t strike \<and> 1 \<le> length symb \<and>
      length symb \<le> 5 \<and> length ymd = 6 \<and> t \<in> {CHR ''C'', CHR ''P''} \<and> strike < 10 ^ 8"
    by (simp, rule exI [of _ "''SPY''"], rule exI [of _ "''241220''"], rule exI [of _ "CHR ''C''"], rule exI [of _ 500000]) simp
  have "fr_rows f = []" by (rule short_roots_dropped [OF digits day _ c f]) simp_all
  with f show ?thesis by blast
qed

lemma padded_contract_read_witness:
  "\<exists>x. contract_details dated_runtime (occ_symbol ''SPY   '' ''241220'' CHR ''C'' 500000) =
    Inr (show_int 5, Fin x, ''C'')"
  using padded_contract_read [of "''SPY   ''" "''241220''" 500000 dated_runtime 5 "CHR ''C''"]
  by (auto simp: dated_runtime_def sample_runtime_def slice_def)

end
