(* ===== verification/Feed_State.thy ===== *)
theory Feed_State
  imports Anomaly
begin

section \<open>The live feed panel\<close>

text \<open>
  The real-time half of \<open>dashboard.py\<close>: the tracker of the feed, the subscriber that drains its socket, and the
  bound on the refresh interval.  The clock is an argument, read by number; the socket is the list of what its
  receive calls answer.
\<close>

subsection \<open>The tracker\<close>

record feed_state =
  fs_stale :: pyfloat
  fs_window :: pyfloat
  fs_started :: pyfloat
  fs_last :: "pyfloat option"
  fs_tick :: "payload option"
  fs_ticks :: nat
  fs_anomalies :: "pyfloat list"
  fs_reason :: "string option"
  fs_warning :: "string option"
  fs_reads :: nat

record feed_panel =
  fp_status :: string
  fp_tick :: "payload option"
  fp_ticks :: nat
  fp_recent :: nat
  fp_reason :: "string option"
  fp_warning :: "string option"

definition positive_seconds :: "pyfloat \<Rightarrow> bool" where
  "positive_seconds x \<longleftrightarrow> \<not> (fle x (Fin 0) \<or> \<not> is_finite x)"

definition new_feed_state :: "(nat \<Rightarrow> pyfloat) \<Rightarrow> pyfloat \<Rightarrow> pyfloat \<Rightarrow> feed_state result" where
  "new_feed_state tm stale window =
     (if \<not> positive_seconds stale then Inl (ValueError ''stale_after_seconds must be a positive finite number'')
      else if \<not> positive_seconds window then Inl (ValueError ''anomaly_window_seconds must be a positive finite number'')
      else Inr \<lparr>fs_stale = stale, fs_window = window, fs_started = tm 0, fs_last = None, fs_tick = None, fs_ticks = 0,
        fs_anomalies = [], fs_reason = None, fs_warning = None, fs_reads = 1\<rparr>)"

definition anomalous :: "payload \<Rightarrow> bool" where
  "anomalous tick \<longleftrightarrow> dict_get PNone tick ''is_anomaly'' = PBool True"

definition observe_tick :: "runtime \<Rightarrow> (nat \<Rightarrow> pyfloat) \<Rightarrow> pyval \<Rightarrow> (feed_state, unit) prog" where
  "observe_tick rt tm message = bind_st (lift_res (validate_annotated_tick rt message)) (\<lambda>tick s.
     let now = tm (fs_reads s);
         s1 = s\<lparr>fs_reads := fs_reads s + 1, fs_tick := Some tick, fs_last := Some now, fs_ticks := fs_ticks s + 1,
                fs_warning := None\<rparr> in
     (Inr (), if anomalous tick
              then s1\<lparr>fs_anomalies := fs_anomalies s @ [now], fs_reason := Some (py_str rt (dict_get PNone tick ''reason''))\<rparr>
              else s1))"

definition record_warning :: "string \<Rightarrow> feed_state \<Rightarrow> feed_state" where
  "record_warning w s = s\<lparr>fs_warning := Some w\<rparr>"

fun is_set :: "string option \<Rightarrow> bool" where
  "is_set (Some (c # cs)) = True"
| "is_set _ = False"

definition feed_status :: "pyfloat \<Rightarrow> pyfloat \<Rightarrow> pyfloat \<Rightarrow> pyfloat option \<Rightarrow> string option \<Rightarrow> string \<times> string option" where
  "feed_status stale started now seen warning =
     (case seen of
        None \<Rightarrow>
          if fle stale (fsub now started) then (''UNAVAILABLE'', Some ''Real-time feed unavailable: no annotated ticks received'')
          else if is_set warning then (''DEGRADED'', warning)
          else (''WAITING'', Some ''Waiting for the first annotated tick'')
      | Some t \<Rightarrow>
          if fle stale (fsub now t) then (''STALE'', Some ''Real-time feed unavailable: latest tick is stale'')
          else if is_set warning then (''DEGRADED'', warning)
          else (''LIVE'', None))"

definition feed_snapshot :: "(nat \<Rightarrow> pyfloat) \<Rightarrow> feed_state \<Rightarrow> feed_panel \<times> feed_state" where
  "feed_snapshot tm s =
     (let now = tm (fs_reads s);
          recent = dropWhile (\<lambda>t. flt t (fsub now (fs_window s))) (fs_anomalies s);
          (status, warning) = feed_status (fs_stale s) (fs_started s) now (fs_last s) (fs_warning s) in
      (\<lparr>fp_status = status, fp_tick = fs_tick s, fp_ticks = fs_ticks s, fp_recent = length recent,
        fp_reason = fs_reason s, fp_warning = warning\<rparr>,
       s\<lparr>fs_anomalies := recent, fs_reads := fs_reads s + 1\<rparr>))"

subsection \<open>The subscriber\<close>

text \<open>What \<open>recv_json\<close> answers: a decoded message, \<open>zmq.Again\<close>, another error of the socket, or the error of the
  JSON decoder.\<close>

datatype arrival = Message pyval | NothingYet | SocketError | Undecodable exn

fun value_error :: "exn \<Rightarrow> bool" where
  "value_error (ValueError m) = True"
| "value_error (EventValidationError m) = True"
| "value_error _ = False"

text \<open>\<open>for _ in range(max_messages)\<close>; a socket whose list is used up answers \<open>zmq.Again\<close>.\<close>

fun drain :: "runtime \<Rightarrow> (nat \<Rightarrow> pyfloat) \<Rightarrow> nat \<Rightarrow> arrival list \<Rightarrow> (feed_state, arrival list) prog" where
  "drain rt tm 0 inbox = return_st inbox"
| "drain rt tm (Suc n) [] = return_st []"
| "drain rt tm (Suc n) (NothingYet # inbox) = return_st inbox"
| "drain rt tm (Suc n) (SocketError # inbox) =
     (\<lambda>s. (Inr inbox, record_warning ''Real-time feed unavailable (ZeroMQ error)'' s))"
| "drain rt tm (Suc n) (Undecodable e # inbox) = fail_st e"
| "drain rt tm (Suc n) (Message m # inbox) = (\<lambda>s.
     case observe_tick rt tm m s of
       (Inr _, s') \<Rightarrow> drain rt tm n inbox s'
     | (Inl e, s') \<Rightarrow>
         if value_error e then drain rt tm n inbox (record_warning ''Real-time feed degraded: invalid tick ignored'' s')
         else (Inl e, s'))"

definition poll :: "runtime \<Rightarrow> (nat \<Rightarrow> pyfloat) \<Rightarrow> int \<Rightarrow> arrival list \<Rightarrow> (feed_state, feed_panel \<times> arrival list) prog" where
  "poll rt tm max_messages inbox =
     (if max_messages \<le> 0 then fail_st (ValueError ''max_messages must be positive'')
      else bind_st (drain rt tm (nat max_messages) inbox) (\<lambda>rest s.
        let (panel, s') = feed_snapshot tm s in (Inr (panel, rest), s')))"

definition unavailable_realtime_data :: "string \<Rightarrow> feed_panel" where
  "unavailable_realtime_data reason =
     \<lparr>fp_status = ''UNAVAILABLE'', fp_tick = None, fp_ticks = 0, fp_recent = 0, fp_reason = None, fp_warning = Some reason\<rparr>"

definition min_refresh_seconds :: pyfloat where
  "min_refresh_seconds = Fin (1 / 2)"

definition bounded_refresh_interval :: "pyfloat \<Rightarrow> pyfloat result" where
  "bounded_refresh_interval seconds =
     (if \<not> is_finite seconds then Inl (ValueError ''refresh interval must be finite'')
      else Inr (if flt seconds min_refresh_seconds then min_refresh_seconds else seconds))"

subsection \<open>What the panel must show\<close>

text \<open>The calls on the tracker, and what has happened according to them: accepted ticks with the time of
  their observation, and warnings.\<close>

datatype feed_op = Observe pyval | Warn string | Look

fun feed_step :: "runtime \<Rightarrow> (nat \<Rightarrow> pyfloat) \<Rightarrow> feed_state \<Rightarrow> feed_op \<Rightarrow> feed_state" where
  "feed_step rt tm s (Observe m) = snd (observe_tick rt tm m s)"
| "feed_step rt tm s (Warn w) = record_warning w s"
| "feed_step rt tm s Look = snd (feed_snapshot tm s)"

definition feed_run :: "runtime \<Rightarrow> (nat \<Rightarrow> pyfloat) \<Rightarrow> feed_op list \<Rightarrow> feed_state \<Rightarrow> feed_state" where
  "feed_run rt tm ops s = foldl (feed_step rt tm) s ops"

datatype happening = Tick pyfloat payload | Note string

fun happen :: "runtime \<Rightarrow> (nat \<Rightarrow> pyfloat) \<Rightarrow> happening list \<times> nat \<Rightarrow> feed_op \<Rightarrow> happening list \<times> nat" where
  "happen rt tm (h, n) (Observe m) =
     (case validate_annotated_tick rt m of Inl e \<Rightarrow> (h, n) | Inr tick \<Rightarrow> (h @ [Tick (tm n) tick], Suc n))"
| "happen rt tm (h, n) (Warn w) = (h @ [Note w], n)"
| "happen rt tm (h, n) Look = (h, Suc n)"

definition feed_history :: "runtime \<Rightarrow> (nat \<Rightarrow> pyfloat) \<Rightarrow> feed_op list \<Rightarrow> happening list \<times> nat" where
  "feed_history rt tm ops = foldl (happen rt tm) ([], 1) ops"

fun tick_of :: "happening \<Rightarrow> (pyfloat \<times> payload) list" where
  "tick_of (Tick t m) = [(t, m)]"
| "tick_of (Note w) = []"

definition ticks_seen :: "happening list \<Rightarrow> (pyfloat \<times> payload) list" where
  "ticks_seen h = concat (map tick_of h)"

definition anomalies_seen :: "happening list \<Rightarrow> (pyfloat \<times> payload) list" where
  "anomalies_seen h = filter (\<lambda>(t, m). anomalous m) (ticks_seen h)"

definition latest :: "'a list \<Rightarrow> 'a option" where
  "latest xs = (if xs = [] then None else Some (last xs))"

text \<open>The last warning that no tick has followed.\<close>

definition pending_note :: "happening list \<Rightarrow> string option" where
  "pending_note h = (case rev h of Note w # _ \<Rightarrow> Some w | _ \<Rightarrow> None)"

definition panel_of :: "runtime \<Rightarrow> pyfloat \<Rightarrow> pyfloat \<Rightarrow> pyfloat \<Rightarrow> pyfloat \<Rightarrow> happening list \<Rightarrow> feed_panel" where
  "panel_of rt stale window started now h =
     (let st = feed_status stale started now (map_option fst (latest (ticks_seen h))) (pending_note h) in
      \<lparr>fp_status = fst st, fp_tick = map_option snd (latest (ticks_seen h)), fp_ticks = length (ticks_seen h),
       fp_recent = length (filter (\<lambda>(t, m). \<not> flt t (fsub now window)) (anomalies_seen h)),
       fp_reason = map_option (\<lambda>(t, m). py_str rt (dict_get PNone m ''reason'')) (latest (anomalies_seen h)),
       fp_warning = snd st\<rparr>)"

lemma latest_simps [simp]: "latest [] = None" "latest (xs @ [x]) = Some x"
  by (simp_all add: latest_def)

lemma seen_simps [simp]:
  "ticks_seen [] = []" "ticks_seen (h @ [Tick t m]) = ticks_seen h @ [(t, m)]" "ticks_seen (h @ [Note w]) = ticks_seen h"
  "pending_note [] = None" "pending_note (h @ [Tick t m]) = None" "pending_note (h @ [Note w]) = Some w"
  by (simp_all add: ticks_seen_def pending_note_def)

lemma anomalies_simps [simp]:
  "anomalies_seen [] = []" "anomalies_seen (h @ [Note w]) = anomalies_seen h"
  "anomalies_seen (h @ [Tick t m]) = anomalies_seen h @ (if anomalous m then [(t, m)] else [])"
  by (simp_all add: anomalies_seen_def)

text \<open>A clock that does not run backwards, as \<open>time.monotonic\<close>.\<close>

definition steady :: "(nat \<Rightarrow> pyfloat) \<Rightarrow> bool" where
  "steady tm \<longleftrightarrow> (\<forall>i j. i \<le> j \<longrightarrow> fle (tm i) (tm j))"

text \<open>The queue of the tracker holds the anomalies that are not older than the window at any later time.\<close>

definition clocked :: "(nat \<Rightarrow> pyfloat) \<Rightarrow> nat \<Rightarrow> pyfloat list \<Rightarrow> bool" where
  "clocked tm n ts \<longleftrightarrow> sorted_wrt fle ts \<and> (\<forall>t\<in>set ts. \<exists>k<n. t = tm k)"

definition keeps_window :: "(nat \<Rightarrow> pyfloat) \<Rightarrow> pyfloat \<Rightarrow> nat \<Rightarrow> pyfloat list \<Rightarrow> pyfloat list \<Rightarrow> bool" where
  "keeps_window tm w n ts kept \<longleftrightarrow> (\<exists>gone. ts = gone @ kept \<and> (\<forall>t\<in>set gone. \<forall>k\<ge>n. flt t (fsub (tm k) w)))"

definition feed_ok :: "runtime \<Rightarrow> (nat \<Rightarrow> pyfloat) \<Rightarrow> feed_state \<Rightarrow> happening list \<times> nat \<Rightarrow> bool" where
  "feed_ok rt tm s = (\<lambda>(h, n).
     fs_reads s = n \<and> fs_tick s = map_option snd (latest (ticks_seen h)) \<and> fs_last s = map_option fst (latest (ticks_seen h)) \<and>
     fs_ticks s = length (ticks_seen h) \<and> fs_warning s = pending_note h \<and>
     fs_reason s = map_option (\<lambda>(t, m). py_str rt (dict_get PNone m ''reason'')) (latest (anomalies_seen h)) \<and>
     clocked tm n (map fst (anomalies_seen h)) \<and>
     keeps_window tm (fs_window s) n (map fst (anomalies_seen h)) (fs_anomalies s))"

lemma clocked_later: "clocked tm n ts \<Longrightarrow> clocked tm (Suc n) ts"
  unfolding clocked_def using less_SucI by blast

lemma clocked_snoc:
  assumes "steady tm" and "clocked tm n ts"
  shows "clocked tm (Suc n) (ts @ [tm n])"
proof -
  have "fle t (tm n)" if "t \<in> set ts" for t
  proof -
    obtain k where "k < n" "t = tm k" using assms(2) \<open>t \<in> set ts\<close> by (auto simp: clocked_def)
    with assms(1) show ?thesis by (simp add: steady_def)
  qed
  moreover have "\<exists>k<Suc n. tm n = tm k" by blast
  ultimately show ?thesis using clocked_later [OF assms(2)] by (simp add: clocked_def sorted_wrt_append)
qed

lemma keeps_window_later: "keeps_window tm w n ts kept \<Longrightarrow> keeps_window tm w (Suc n) ts kept"
  unfolding keeps_window_def by (blast dest: Suc_leD)

lemma keeps_window_snoc:
  assumes "keeps_window tm w n ts kept"
  shows "keeps_window tm w (Suc n) (ts @ [t]) (kept @ [t])"
proof -
  from keeps_window_later [OF assms] obtain gone where "ts = gone @ kept"
    "\<forall>t\<in>set gone. \<forall>k\<ge>Suc n. flt t (fsub (tm k) w)" unfolding keeps_window_def by blast
  then show ?thesis unfolding keeps_window_def by (intro exI [of _ gone]) simp
qed

lemma dropWhile_sorted:
  assumes "sorted_wrt fle ts"
  shows "dropWhile (\<lambda>t. flt t c) ts = filter (\<lambda>t. \<not> flt t c) ts"
  using assms
proof (induction ts)
  case (Cons t ts)
  show ?case
  proof (cases "flt t c")
    case False
    then have "\<forall>u\<in>set ts. \<not> flt u c" using Cons.prems fle_flt_trans by auto
    with False show ?thesis by simp
  qed (use Cons in simp)
qed simp

text \<open>Reading the queue at time \<open>n\<close>: what is dropped stays outside the window, what remains is what the history has in
  the window.\<close>

lemma window_read:
  assumes "steady tm" and "is_finite w" and "clocked tm n ts" and "keeps_window tm w n ts kept"
  shows "dropWhile (\<lambda>t. flt t (fsub (tm n) w)) kept = filter (\<lambda>t. \<not> flt t (fsub (tm n) w)) ts"
    and "keeps_window tm w (Suc n) ts (dropWhile (\<lambda>t. flt t (fsub (tm n) w)) kept)"
proof -
  let ?c = "fsub (tm n) w"
  let ?drop = "dropWhile (\<lambda>t. flt t ?c) kept"
  obtain gone where g: "ts = gone @ kept" and old: "\<forall>t\<in>set gone. \<forall>k\<ge>n. flt t (fsub (tm k) w)"
    using assms(4) by (auto simp: keeps_window_def)
  have s: "sorted_wrt fle kept" using assms(3) by (simp add: clocked_def g sorted_wrt_append)
  show "?drop = filter (\<lambda>t. \<not> flt t ?c) ts"
    using old by (auto simp: g dropWhile_sorted [OF s] filter_empty_conv)
  obtain v where w: "w = Fin v" using assms(2) by (cases w) auto
  have later: "flt t (fsub (tm k) w)" if "flt t ?c" "n \<le> k" for t k
    using that assms(1) fsub_mono flt_fle_trans unfolding steady_def w by blast
  have "ts = (gone @ takeWhile (\<lambda>t. flt t ?c) kept) @ ?drop" by (simp add: g)
  moreover have "\<forall>t\<in>set (gone @ takeWhile (\<lambda>t. flt t ?c) kept). \<forall>k\<ge>Suc n. flt t (fsub (tm k) w)"
    using old later by (auto dest: set_takeWhileD)
  ultimately show "keeps_window tm w (Suc n) ts ?drop" unfolding keeps_window_def by blast
qed

lemma feed_look_ok:
  assumes "steady tm" and "is_finite (fs_window s)" and "feed_ok rt tm s (h, n)"
  shows "fst (feed_snapshot tm s) = panel_of rt (fs_stale s) (fs_window s) (fs_started s) (tm n) h"
    and "feed_ok rt tm (snd (feed_snapshot tm s)) (h, Suc n)"
proof -
  have c: "clocked tm n (map fst (anomalies_seen h))"
    and k: "keeps_window tm (fs_window s) n (map fst (anomalies_seen h)) (fs_anomalies s)"
    using assms(3) by (simp_all add: feed_ok_def)
  note w = window_read [OF assms(1,2) c k]
  have "length (filter (\<lambda>t. \<not> flt t (fsub (tm n) (fs_window s))) (map fst (anomalies_seen h))) =
      length (filter (\<lambda>(t, m). \<not> flt t (fsub (tm n) (fs_window s))) (anomalies_seen h))"
    by (simp add: filter_map comp_def case_prod_unfold)
  with w(1) assms(3) show "fst (feed_snapshot tm s) = panel_of rt (fs_stale s) (fs_window s) (fs_started s) (tm n) h"
    by (simp add: feed_ok_def feed_snapshot_def panel_of_def Let_def case_prod_unfold)
  from w(2) clocked_later [OF c] assms(3) show "feed_ok rt tm (snd (feed_snapshot tm s)) (h, Suc n)"
    by (simp add: feed_ok_def feed_snapshot_def Let_def case_prod_unfold)
qed

lemma feed_observe_ok:
  assumes "steady tm" and "feed_ok rt tm s (h, n)"
  shows "feed_ok rt tm (snd (observe_tick rt tm m s)) (happen rt tm (h, n) (Observe m))"
proof (cases "validate_annotated_tick rt m")
  case (Inr tick)
  have "clocked tm n (map fst (anomalies_seen h))"
    and "keeps_window tm (fs_window s) n (map fst (anomalies_seen h)) (fs_anomalies s)"
    using assms(2) by (simp_all add: feed_ok_def)
  note c = clocked_snoc [OF assms(1) this(1)] clocked_later [OF this(1)]
    keeps_window_snoc [OF this(2), of "tm n"] keeps_window_later [OF this(2)]
  with assms(2) Inr show ?thesis
    by (simp add: observe_tick_def bind_st_def lift_res_def Let_def feed_ok_def)
qed (use assms(2) in \<open>simp add: observe_tick_def bind_st_def lift_res_def\<close>)

text \<open>The limits of the tracker do not change.\<close>

lemma feed_step_config [simp]:
  "fs_window (feed_step rt tm s op) = fs_window s" "fs_stale (feed_step rt tm s op) = fs_stale s"
  "fs_started (feed_step rt tm s op) = fs_started s"
  by (cases op; simp add: observe_tick_def bind_st_def lift_res_def Let_def record_warning_def feed_snapshot_def
      split: sum.splits prod.splits)+

lemma feed_run_config [simp]:
  "fs_window (feed_run rt tm ops s) = fs_window s" "fs_stale (feed_run rt tm ops s) = fs_stale s"
  "fs_started (feed_run rt tm ops s) = fs_started s"
  unfolding feed_run_def by (induction ops rule: rev_induct; simp)+

lemma feed_run_ok:
  assumes "steady tm" and "new_feed_state tm stale window = Inr s0"
  shows "feed_ok rt tm (feed_run rt tm ops s0) (feed_history rt tm ops)"
proof (induction ops rule: rev_induct)
  case Nil
  from assms(2) show ?case
    by (auto simp: new_feed_state_def feed_run_def feed_history_def feed_ok_def clocked_def keeps_window_def split: if_splits)
next
  case (snoc op ops)
  obtain h n where h: "feed_history rt tm ops = (h, n)" by fastforce
  have f: "is_finite (fs_window (feed_run rt tm ops s0))"
    using assms(2) by (auto simp: new_feed_state_def positive_seconds_def split: if_splits)
  have step: "feed_run rt tm (ops @ [op]) s0 = feed_step rt tm (feed_run rt tm ops s0) op"
    "feed_history rt tm (ops @ [op]) = happen rt tm (h, n) op"
    using h by (simp_all add: feed_run_def feed_history_def)
  note ok = snoc.IH [unfolded h]
  show ?case unfolding step
  proof (cases op)
    case (Observe m)
    with feed_observe_ok [OF assms(1) ok] show "feed_ok rt tm (feed_step rt tm (feed_run rt tm ops s0) op) (happen rt tm (h, n) op)"
      by simp
  next
    case (Warn w)
    with ok show "feed_ok rt tm (feed_step rt tm (feed_run rt tm ops s0) op) (happen rt tm (h, n) op)"
      by (simp add: feed_ok_def record_warning_def)
  next
    case Look
    with feed_look_ok(2) [OF assms(1) f ok] show "feed_ok rt tm (feed_step rt tm (feed_run rt tm ops s0) op) (happen rt tm (h, n) op)"
      by simp
  qed
qed

text \<open>What draining the socket does to the tracker.\<close>

fun drained :: "runtime \<Rightarrow> nat \<Rightarrow> arrival list \<Rightarrow> feed_op list" where
  "drained rt (Suc n) (SocketError # inbox) = [Warn ''Real-time feed unavailable (ZeroMQ error)'']"
| "drained rt (Suc n) (Message m # inbox) =
     (if is_ok (validate_annotated_tick rt m) then [Observe m] else [Warn ''Real-time feed degraded: invalid tick ignored'']) @
     drained rt n inbox"
| "drained rt _ _ = []"

lemma observe_tick_Inl: "validate_annotated_tick rt m = Inl e \<Longrightarrow> observe_tick rt tm m s = (Inl e, s)"
  by (simp add: observe_tick_def bind_st_def lift_res_def)

lemma observe_tick_Inr: "validate_annotated_tick rt m = Inr t \<Longrightarrow> observe_tick rt tm m s = (Inr (), snd (observe_tick rt tm m s))"
  by (simp add: observe_tick_def bind_st_def lift_res_def Let_def)

lemma feed_run_simps [simp]:
  "feed_run rt tm [] s = s" "feed_run rt tm (op # ops) s = feed_run rt tm ops (feed_step rt tm s op)"
  "feed_run rt tm (ops @ ops') s = feed_run rt tm ops' (feed_run rt tm ops s)"
  by (simp_all add: feed_run_def)

lemma drain_run: "drain rt tm k inbox s = (Inr rest, s') \<Longrightarrow> s' = feed_run rt tm (drained rt k inbox) s"
proof (induction rt tm k inbox arbitrary: s rule: drain.induct)
  case (6 rt tm n m inbox)
  show ?case
  proof (cases "validate_annotated_tick rt m")
    case (Inl e)
    with 6(1) [OF observe_tick_Inl [OF Inl, symmetric] refl] 6(3) show ?thesis
      by (auto simp: observe_tick_Inl is_ok_iff split: if_splits)
  next
    case (Inr t)
    then obtain s1 where o: "observe_tick rt tm m s = (Inr (), s1)" using observe_tick_Inr by blast
    with 6(2) [OF o [symmetric] refl] 6(3) Inr show ?thesis by (simp add: is_ok_iff)
  qed
qed (auto simp: st_simps)

lemma drain_bounded: "drain rt tm k inbox s = (Inr rest, s') \<Longrightarrow> length inbox \<le> length rest + k"
proof (induction rt tm k inbox arbitrary: s rule: drain.induct)
  case (6 rt tm n m inbox)
  show ?case
  proof (cases "observe_tick rt tm m s")
    case (Pair r s1)
    with 6(1,2) [OF Pair [symmetric]] 6(3) show ?thesis by (cases r) (fastforce split: if_splits)+
  qed
qed (auto simp: st_simps)

text \<open>A frame that is not JSON is not ignored as an invalid tick is: its error leaves \<open>poll\<close>, and with it the
  dashboard.\<close>

lemma undecodable_frame_ends_poll:
  "0 < k \<Longrightarrow> poll rt tm k (Undecodable e # inbox) s = (Inl e, s)"
  by (cases "nat k") (simp_all add: poll_def bind_st_def st_simps)

lemma refresh_bounded: "bounded_refresh_interval x = Inr y \<Longrightarrow> is_finite y \<and> fle min_refresh_seconds y"
  by (cases x) (auto simp: bounded_refresh_interval_def min_refresh_seconds_def split: if_splits)

subsection \<open>Properties\<close>

text \<open>C33 (poll_shows_history): whatever ticks, warnings and snapshots came before, a poll takes at most \<open>max_messages\<close>
  messages and its panel is the one that the whole history calls for: the last valid tick, the number of valid
  ticks, the anomalies whose age is within the window, the reason of the last anomaly, and the status by the age
  of the last tick and by a warning that no tick has followed.\<close>

theorem poll_shows_history:
  assumes "steady tm" and "new_feed_state tm stale window = Inr s0"
    and "poll rt tm k inbox (feed_run rt tm ops s0) = (Inr (panel, rest), s1)"
    and "feed_history rt tm (ops @ drained rt (nat k) inbox) = (h, n)"
  shows "panel = panel_of rt stale window (tm 0) (tm n) h \<and> length inbox \<le> length rest + nat k \<and>
    s1 = feed_run rt tm (ops @ drained rt (nat k) inbox @ [Look]) s0"
proof -
  let ?s = "feed_run rt tm (ops @ drained rt (nat k) inbox) s0"
  from assms(3) obtain s' where d: "drain rt tm (nat k) inbox (feed_run rt tm ops s0) = (Inr rest, s')"
    and p: "feed_snapshot tm s' = (panel, s1)"
    by (auto simp: poll_def st_simps split: if_splits prod.splits elim!: bind_st_cases)
  have s': "s' = ?s" using drain_run [OF d] by simp
  have c: "fs_window ?s = window" "fs_stale ?s = stale" "fs_started ?s = tm 0" "is_finite (fs_window ?s)"
    using assms(2) by (auto simp: new_feed_state_def positive_seconds_def split: if_splits)
  from feed_look_ok(1) [OF assms(1) c(4) feed_run_ok [OF assms(1,2), of rt, of "ops @ drained rt (nat k) inbox", unfolded assms(4)]]
  have "panel = panel_of rt stale window (tm 0) (tm n) h" using p s' c by simp
  moreover have "s1 = feed_run rt tm (ops @ drained rt (nat k) inbox @ [Look]) s0" using p s' by simp
  ultimately show ?thesis using drain_bounded [OF d] by simp
qed

lemma poll_shows_history_witness:
  "\<exists>s0 panel s1. new_feed_state (\<lambda>k. Fin (of_nat k)) (Fin 5) (Fin 60) = Inr s0 \<and>
     poll sample_runtime (\<lambda>k. Fin (of_nat k)) 10 [Message PNone, NothingYet] s0 = (Inr (panel, []), s1) \<and>
     fp_status panel = ''DEGRADED'' \<and> fp_ticks panel = 0"
proof -
  let ?tm = "\<lambda>k. Fin (of_nat k)"
  obtain s0 where n: "new_feed_state ?tm (Fin 5) (Fin 60) = Inr s0" by (simp add: new_feed_state_def positive_seconds_def)
  have e: "validate_annotated_tick sample_runtime PNone = Inl (ValueError ''annotated tick fields must be exactly'')"
    by (simp add: validate_annotated_tick_def)
  let ?w = "Warn ''Real-time feed degraded: invalid tick ignored''"
  have d: "drained sample_runtime (nat 10) [Message PNone, NothingYet] = [?w]"
    by (simp add: e eval_nat_numeral is_ok_iff)
  have "drain sample_runtime ?tm (nat 10) [Message PNone, NothingYet] s0 = (Inr [], feed_step sample_runtime ?tm s0 ?w)"
    by (simp add: e eval_nat_numeral observe_tick_Inl st_simps)
  moreover obtain panel s1 where "feed_snapshot ?tm (feed_step sample_runtime ?tm s0 ?w) = (panel, s1)" by fastforce
  ultimately have p: "poll sample_runtime ?tm 10 [Message PNone, NothingYet] s0 = (Inr (panel, []), s1)"
    by (simp add: poll_def bind_st_def)
  have "steady ?tm" by (simp add: steady_def)
  moreover have "feed_history sample_runtime ?tm ([] @ [?w]) = ([Note ''Real-time feed degraded: invalid tick ignored''], 1)"
    by (simp add: feed_history_def)
  ultimately have "panel = panel_of sample_runtime (Fin 5) (Fin 60) (Fin 0) (Fin 1) [Note ''Real-time feed degraded: invalid tick ignored'']"
    using poll_shows_history [of ?tm "Fin 5" "Fin 60" s0 sample_runtime 10 "[Message PNone, NothingYet]" "[]" panel "[]" s1] n p d
    by simp
  then have "fp_status panel = ''DEGRADED''" "fp_ticks panel = 0"
    by (simp_all add: panel_of_def feed_status_def pending_note_def ticks_seen_def fsub_def fl_simps Let_def)
  with n p show ?thesis by blast
qed

end
