(* ===== verification/Retention.thy ===== *)
theory Retention
  imports Lake "HOL-Library.Product_Lexorder" "HOL-Library.Sublist"
begin

section \<open>Retention of the partition archives\<close>

text \<open>
  \<open>storage/retention.py\<close>.  The directory tree is a list of absolute paths in the order in which the system lists
  them; a symbolic link names its canonical target.  Whether the removal of a tree is interrupted, and what it has
  removed by then, is an argument.
\<close>

subsection \<open>The tree\<close>

datatype node = FileNode nat | DirNode | LinkNode path

type_synonym tree = "(path \<times> node) list"

text \<open>\<open>Path.resolve\<close>\<close>

fun walk :: "tree \<Rightarrow> path \<Rightarrow> path \<Rightarrow> path" where
  "walk t p [] = p"
| "walk t p (c # cs) =
     (if c = ''.'' then walk t p cs
      else if c = ''..'' then walk t (butlast p) cs
      else case map_of t (p @ [c]) of Some (LinkNode q) \<Rightarrow> walk t q cs | _ \<Rightarrow> walk t (p @ [c]) cs)"

definition resolve :: "tree \<Rightarrow> path \<Rightarrow> path" where
  "resolve t p = walk t [] p"

definition is_dir :: "tree \<Rightarrow> path \<Rightarrow> bool" where
  "is_dir t p \<longleftrightarrow> map_of t (resolve t p) = Some DirNode"

definition file_bytes :: "tree \<Rightarrow> path \<Rightarrow> nat" where
  "file_bytes t p = (case map_of t (resolve t p) of Some (FileNode n) \<Rightarrow> n | _ \<Rightarrow> 0)"

definition children :: "tree \<Rightarrow> path \<Rightarrow> path list" where
  "children t p = filter (\<lambda>q. q \<noteq> [] \<and> butlast q = p) (map fst t)"

definition descendants :: "tree \<Rightarrow> path \<Rightarrow> path list" where
  "descendants t p = filter (strict_prefix p) (map fst t)"

definition date_prefix :: string where
  "date_prefix = ''control_date=''"

definition glob_dates :: "tree \<Rightarrow> path \<Rightarrow> path list" where
  "glob_dates t p = map (\<lambda>q. p @ [last q]) (filter (\<lambda>q. starts_with date_prefix (last q)) (children t (resolve t p)))"

subsection \<open>Planning\<close>

record candidate =
  rc_date :: int
  rc_path :: path
  rc_bytes :: nat

definition path_string :: "path \<Rightarrow> string" where
  "path_string p = ''/'' @ join_with ''/'' p"

definition directory_bytes :: "tree \<Rightarrow> path \<Rightarrow> nat" where
  "directory_bytes t p = sum_list (map (file_bytes t) (descendants t p))"

fun scan_dates :: "runtime \<Rightarrow> int \<Rightarrow> tree \<Rightarrow> path list \<Rightarrow> path list \<Rightarrow> candidate list" where
  "scan_dates rt before t [] seen = []"
| "scan_dates rt before t (p # ps) seen =
     (if \<not> is_dir t p then scan_dates rt before t ps seen
      else case date_of_iso rt (drop (length date_prefix) (last p)) of
        None \<Rightarrow> scan_dates rt before t ps seen
      | Some d \<Rightarrow>
          let r = resolve t p in
          if before \<le> d \<or> r \<in> set seen then scan_dates rt before t ps seen
          else \<lparr>rc_date = d, rc_path = r, rc_bytes = directory_bytes t r\<rparr> # scan_dates rt before t ps (r # seen))"

definition partitions_root :: "tree \<Rightarrow> path \<Rightarrow> path" where
  "partitions_root t base = resolve t base @ [''partitions'']"

definition dated_directories :: "tree \<Rightarrow> path \<Rightarrow> path list" where
  "dated_directories t base = concat (map (\<lambda>layer.
     let l = partitions_root t base @ [layer] in if is_dir t l then glob_dates t l else []) [''raw'', ''normalized''])"

definition plan_partition_retention :: "runtime \<Rightarrow> tree \<Rightarrow> path \<Rightarrow> int \<Rightarrow> candidate list" where
  "plan_partition_retention rt t base before =
     (if \<not> is_dir t (partitions_root t base) then []
      else sort_key (\<lambda>c. (rc_date c, path_string (rc_path c))) (scan_dates rt before t (dated_directories t base) []))"

subsection \<open>Applying\<close>

definition checked_target :: "tree \<Rightarrow> path \<Rightarrow> candidate \<Rightarrow> path result" where
  "checked_target t allowed c =
     (let target = resolve t (rc_path c) in
      if \<not> strict_prefix allowed target then Inl (ValueError ''Retention candidate escapes partition root'')
      else if \<not> starts_with date_prefix (last target)
      then Inl (ValueError ''Retention candidate is not a control-date directory'')
      else Inr target)"

text \<open>\<open>shutil.rmtree\<close>: \<open>trouble target\<close> says which paths are gone when the removal stops with an error.\<close>

definition rm_tree :: "(path \<Rightarrow> (path \<Rightarrow> bool) option) \<Rightarrow> path \<Rightarrow> (tree, unit) prog" where
  "rm_tree trouble target t =
     (case trouble target of
        None \<Rightarrow> (Inr (), filter (\<lambda>(q, n). \<not> prefix target q) t)
      | Some gone \<Rightarrow> (Inl OSError, filter (\<lambda>(q, n). \<not> (prefix target q \<and> gone q)) t))"

definition remove_target :: "(path \<Rightarrow> (path \<Rightarrow> bool) option) \<Rightarrow> path \<Rightarrow> (tree, unit) prog" where
  "remove_target trouble target t = (if is_dir t target then rm_tree trouble target t else (Inr (), t))"

definition apply_partition_retention :: "(path \<Rightarrow> (path \<Rightarrow> bool) option) \<Rightarrow> candidate list \<Rightarrow> path \<Rightarrow> bool \<Rightarrow>
    (tree, path list) prog" where
  "apply_partition_retention trouble cs base dry_run t =
     (case map_res (checked_target t (partitions_root t base)) cs of
        Inl e \<Rightarrow> (Inl e, t)
      | Inr selected \<Rightarrow>
          bind_st (if dry_run then return_st () else for_st (remove_target trouble) selected)
            (\<lambda>_. return_st selected) t)"

subsection \<open>What is removed\<close>

definition loses :: "path list \<Rightarrow> tree \<Rightarrow> tree \<Rightarrow> bool" where
  "loses targets t t' \<longleftrightarrow> (\<exists>P. t' = filter P t \<and> (\<forall>x\<in>set t. P x \<or> (\<exists>p\<in>set targets. prefix p (fst x))))"

lemma loses_order: "reflp (loses ts)" "transp (loses ts)"
proof -
  have "t = filter (\<lambda>x. True) t" for t :: tree by simp
  then show "reflp (loses ts)" unfolding reflp_def loses_def by blast
  show "transp (loses ts)"
  proof (rule transpI)
    fix t t' t'' assume "loses ts t t'" "loses ts t' t''"
    then obtain P Q where "t'' = filter (\<lambda>x. P x \<and> Q x) t" "\<forall>x\<in>set t. P x \<or> (\<exists>p\<in>set ts. prefix p (fst x))"
      "\<forall>x\<in>set (filter P t). Q x \<or> (\<exists>p\<in>set ts. prefix p (fst x))"
      by (auto simp: loses_def conj_commute)
    moreover from this(2,3) have "\<forall>x\<in>set t. (P x \<and> Q x) \<or> (\<exists>p\<in>set ts. prefix p (fst x))"
      unfolding set_filter by blast
    ultimately show "loses ts t t''" unfolding loses_def by blast
  qed
qed

lemma remove_target_loses: "p \<in> set ts \<Longrightarrow> steps_by (loses ts) (remove_target trouble p)"
proof (rule steps_byI)
  fix t r t' assume p: "p \<in> set ts" and "remove_target trouble p t = (r, t')"
  then consider "t' = t" | "t' = filter (\<lambda>(q, n). \<not> prefix p q) t"
    | gone where "t' = filter (\<lambda>(q, n). \<not> (prefix p q \<and> gone q)) t"
    by (auto simp: remove_target_def rm_tree_def split: if_splits option.splits)
  then show "loses ts t t'"
  proof cases
    case 1 then show ?thesis using loses_order(1) by (simp add: reflpD)
  next
    case 2 then show ?thesis using p unfolding loses_def by (intro exI) auto
  next
    case 3 then show ?thesis using p unfolding loses_def by (intro exI) auto
  qed
qed

lemma remove_all_loses:
  "set ps \<subseteq> set ts \<Longrightarrow> steps_by (loses ts) (for_st (remove_target trouble) ps)"
  using loses_order by (induction ps) (auto intro: steps_by_pure steps_by_bind remove_target_loses)

lemma map_res_all: "map_res f xs = Inr ys \<Longrightarrow> ys = map (projr \<circ> f) xs \<and> (\<forall>x\<in>set xs. is_ok (f x))"
  by (induction xs arbitrary: ys) (auto simp: res_simps is_ok_iff)

lemma checked_target_Inr:
  "checked_target t allowed c = Inr p \<longleftrightarrow>
     p = resolve t (rc_path c) \<and> strict_prefix allowed p \<and> starts_with date_prefix (last p)"
  by (auto simp: checked_target_def Let_def)

subsection \<open>Trees without links\<close>

fun is_link :: "node \<Rightarrow> bool" where
  "is_link (LinkNode p) = True"
| "is_link _ = False"

definition no_dots :: "path \<Rightarrow> bool" where
  "no_dots p \<longleftrightarrow> ''.'' \<notin> set p \<and> ''..'' \<notin> set p"

definition unlinked :: "tree \<Rightarrow> bool" where
  "unlinked t \<longleftrightarrow> distinct (map fst t) \<and> (\<forall>(q, n)\<in>set t. \<not> is_link n \<and> no_dots q)"

definition plain_tree :: "tree \<Rightarrow> bool" where
  "plain_tree t \<longleftrightarrow> unlinked t \<and> (\<forall>(q, n)\<in>set t. \<forall>p. strict_prefix p q \<longrightarrow> (p, DirNode) \<in> set t)"

lemma walk_unlinked: "unlinked t \<Longrightarrow> no_dots p \<Longrightarrow> walk t a p = a @ p"
proof (induction p arbitrary: a)
  case (Cons c p)
  have "map_of t (a @ [c]) \<noteq> Some (LinkNode q)" for q
    using Cons.prems(1) by (fastforce simp: unlinked_def dest: map_of_SomeD)
  with Cons show ?case by (auto simp: no_dots_def split: option.splits node.splits)
qed simp

lemma resolve_unlinked: "unlinked t \<Longrightarrow> no_dots p \<Longrightarrow> resolve t p = p"
  by (simp add: resolve_def walk_unlinked)

lemma is_dir_unlinked: "unlinked t \<Longrightarrow> no_dots p \<Longrightarrow> is_dir t p \<longleftrightarrow> (p, DirNode) \<in> set t"
  by (simp add: is_dir_def resolve_unlinked unlinked_def)

lemma unlinked_filter: "unlinked t \<Longrightarrow> unlinked (filter P t)"
  by (auto simp: unlinked_def distinct_map_filter)

definition without :: "path set \<Rightarrow> tree \<Rightarrow> tree" where
  "without S t = filter (\<lambda>(q, n). \<not> (\<exists>p\<in>S. prefix p q)) t"

lemma without_simps: "without {} t = t" "filter (\<lambda>(q, n). \<not> prefix p q) (without S t) = without (insert p S) t"
  by (auto simp: without_def case_prod_unfold conj_commute)

lemma remove_all_plain:
  assumes "unlinked t" and "\<forall>p\<in>set ps. no_dots p \<and> (p, DirNode) \<in> set t"
  shows "for_st (remove_target (\<lambda>p. None)) ps (without S t) = (Inr (), without (S \<union> set ps) t)"
  using assms(2)
proof (induction ps arbitrary: S)
  case (Cons p ps)
  have "remove_target (\<lambda>p. None) p (without S t) = (Inr (), without (insert p S) t)"
  proof (cases "is_dir (without S t) p")
    case True
    then show ?thesis by (simp add: remove_target_def rm_tree_def without_simps)
  next
    case False
    with Cons.prems assms(1) obtain s where "s \<in> S" "prefix s p"
      by (auto simp: is_dir_unlinked [OF unlinked_filter] without_def)
    then have "without (insert p S) t = without S t"
      unfolding without_def by (intro filter_cong) (auto intro: prefix_order.trans)
    with False show ?thesis by (simp add: remove_target_def)
  qed
  with Cons.IH [of "insert p S"] Cons.prems show ?case by (simp add: bind_st_def)
qed (simp add: st_simps)

subsection \<open>The plan\<close>

lemma scan_dates_paths:
  "rc_path ` set (scan_dates rt before t ps seen) =
     {resolve t p | p. p \<in> set ps \<and> is_dir t p \<and> (\<exists>d<before. date_of_iso rt (drop (length date_prefix) (last p)) = Some d)} - set seen"
proof (induction ps arbitrary: seen)
  case (Cons p ps)
  show ?case
    by (cases "date_of_iso rt (drop (length date_prefix) (last p))") (auto simp: Let_def Cons)
qed simp

lemma starts_with_iff: "starts_with p s \<longleftrightarrow> (\<exists>r. s = p @ r)"
  unfolding starts_with_def by (metis append_eq_conv_conj)

definition layers :: "string set" where
  "layers = {''raw'', ''normalized''}"

definition dated :: "path \<Rightarrow> string \<Rightarrow> string \<Rightarrow> path" where
  "dated base layer name = base @ [''partitions'', layer, date_prefix @ name]"

lemma no_dots_simps [simp]:
  "no_dots []" "no_dots (p @ q) \<longleftrightarrow> no_dots p \<and> no_dots q" "no_dots (c # p) \<longleftrightarrow> c \<noteq> ''.'' \<and> c \<noteq> ''..'' \<and> no_dots p"
  by (auto simp: no_dots_def)

lemma no_dots_dated: "no_dots base \<Longrightarrow> layer \<in> layers \<Longrightarrow> no_dots (dated base layer name)"
  by (auto simp: dated_def layers_def date_prefix_def)

lemma dated_child: "q \<noteq> [] \<and> butlast q = r \<and> starts_with date_prefix (last q) \<longleftrightarrow> (\<exists>name. q = r @ [date_prefix @ name])"
  by (cases q rule: rev_cases) (auto simp: starts_with_iff)

lemma in_keys: "q \<in> set (map fst t) \<longleftrightarrow> (\<exists>n. (q, n) \<in> set t)"
  by force

lemma glob_dates_set:
  "set (glob_dates t p) = {p @ [date_prefix @ name] | name. (\<exists>n. (resolve t p @ [date_prefix @ name], n) \<in> set t)}"
proof (rule set_eqI)
  fix x
  have "x \<in> set (glob_dates t p) \<longleftrightarrow> (\<exists>q\<in>set (map fst t). (q \<noteq> [] \<and> butlast q = resolve t p \<and> starts_with date_prefix (last q)) \<and>
      x = p @ [last q])"
    unfolding glob_dates_def children_def by auto
  also have "\<dots> \<longleftrightarrow> (\<exists>q\<in>set (map fst t). \<exists>name. q = resolve t p @ [date_prefix @ name] \<and> x = p @ [last q])"
    unfolding dated_child by blast
  also have "\<dots> \<longleftrightarrow> (\<exists>name. resolve t p @ [date_prefix @ name] \<in> set (map fst t) \<and> x = p @ [date_prefix @ name])"
    by (metis last_snoc)
  finally show "x \<in> set (glob_dates t p) \<longleftrightarrow> x \<in> {p @ [date_prefix @ name] | name. (\<exists>n. (resolve t p @ [date_prefix @ name], n) \<in> set t)}"
    by (simp only: in_keys) blast
qed

lemma dated_directories_plain:
  assumes "plain_tree t" and "no_dots base"
  shows "set (dated_directories t base) = {dated base layer name | layer name. layer \<in> layers \<and> (\<exists>n. (dated base layer name, n) \<in> set t)}"
proof -
  have u: "unlinked t" using assms(1) by (simp add: plain_tree_def)
  have l: "no_dots (base @ [''partitions'', layer])" if "layer \<in> layers" for layer
    using assms(2) that by (auto simp: layers_def)
  have "is_dir t (base @ [''partitions'', layer])" if "layer \<in> layers" "(dated base layer name, n) \<in> set t" for layer name n
  proof -
    have "strict_prefix (base @ [''partitions'', layer]) (dated base layer name)" by (simp add: dated_def strict_prefix_def)
    with assms(1) that(2) have "(base @ [''partitions'', layer], DirNode) \<in> set t" unfolding plain_tree_def by fast
    then show ?thesis by (simp add: is_dir_unlinked [OF u l [OF that(1)]])
  qed
  then show ?thesis
    by (auto simp: dated_directories_def partitions_root_def Let_def resolve_unlinked [OF u assms(2)] glob_dates_set
      resolve_unlinked [OF u l] layers_def dated_def)
qed

definition expired :: "runtime \<Rightarrow> tree \<Rightarrow> path \<Rightarrow> int \<Rightarrow> path set" where
  "expired rt t base before = {dated base layer name | layer name.
     layer \<in> layers \<and> (dated base layer name, DirNode) \<in> set t \<and> (\<exists>d<before. date_of_iso rt name = Some d)}"

lemma plan_paths:
  assumes "plain_tree t" and "no_dots base"
  shows "rc_path ` set (plan_partition_retention rt t base before) = expired rt t base before"
proof -
  have u: "unlinked t" using assms(1) by (simp add: plain_tree_def)
  have r: "partitions_root t base = base @ [''partitions'']" by (simp add: partitions_root_def resolve_unlinked [OF u assms(2)])
  have last: "drop (length date_prefix) (last (dated base layer name)) = name" for layer name by (simp add: dated_def)
  have dir: "is_dir t (dated base layer name) \<longleftrightarrow> (dated base layer name, DirNode) \<in> set t"
    and res: "resolve t (dated base layer name) = dated base layer name" if "layer \<in> layers" for layer name
    using is_dir_unlinked [OF u] resolve_unlinked [OF u] no_dots_dated [OF assms(2) that] by blast+
  have scan: "rc_path ` set (scan_dates rt before t (dated_directories t base) []) = expired rt t base before"
  proof (intro equalityI subsetI)
    fix x assume "x \<in> rc_path ` set (scan_dates rt before t (dated_directories t base) [])"
    then obtain layer name d where x: "x = resolve t (dated base layer name)" "layer \<in> layers" "is_dir t (dated base layer name)"
      "d < before" "date_of_iso rt (drop (length date_prefix) (last (dated base layer name))) = Some d"
      unfolding scan_dates_paths dated_directories_plain [OF assms] by blast
    then have "x = dated base layer name" "(dated base layer name, DirNode) \<in> set t" "date_of_iso rt name = Some d"
      using dir res last by simp_all
    with x(2,4) show "x \<in> expired rt t base before" unfolding expired_def by blast
  next
    fix x assume "x \<in> expired rt t base before"
    then obtain layer name d where x: "x = dated base layer name" "layer \<in> layers" "(dated base layer name, DirNode) \<in> set t"
      "d < before" "date_of_iso rt name = Some d" unfolding expired_def by blast
    then have "resolve t x = x" "is_dir t x" "date_of_iso rt (drop (length date_prefix) (last x)) = Some d"
      using dir res last by simp_all
    moreover have "x \<in> set (dated_directories t base)" unfolding dated_directories_plain [OF assms] using x(1-3) by blast
    ultimately show "x \<in> rc_path ` set (scan_dates rt before t (dated_directories t base) [])"
      unfolding scan_dates_paths using x(4) by (auto intro!: exI [of _ x])
  qed
  show ?thesis
  proof (cases "is_dir t (base @ [''partitions''])")
    case True
    then show ?thesis using scan by (simp add: plan_partition_retention_def r)
  next
    case False
    have "expired rt t base before = {}"
    proof -
      have "(base @ [''partitions''], DirNode) \<in> set t" if "(dated base layer name, DirNode) \<in> set t" for layer name
        using assms(1) that unfolding plain_tree_def by (fastforce simp: dated_def strict_prefix_def)
      moreover have "(base @ [''partitions''], DirNode) \<notin> set t" using False assms(2) by (simp add: is_dir_unlinked [OF u])
      ultimately show ?thesis unfolding expired_def by blast
    qed
    with False show ?thesis by (simp add: plan_partition_retention_def r)
  qed
qed

lemma apply_plan:
  assumes "plain_tree t" and "no_dots base" and "cs = plan_partition_retention rt t base before"
  shows "apply_partition_retention (\<lambda>p. None) cs base False t = (Inr (map rc_path cs), without (expired rt t base before) t)"
proof -
  have u: "unlinked t" using assms(1) by (simp add: plain_tree_def)
  note p = plan_paths [OF assms(1,2), of rt before, folded assms(3)]
  have c: "checked_target t (partitions_root t base) c = Inr (rc_path c)" and d: "no_dots (rc_path c) \<and> (rc_path c, DirNode) \<in> set t"
    if "c \<in> set cs" for c
  proof -
    from that p obtain layer name where q: "rc_path c = dated base layer name" "layer \<in> layers"
      "(dated base layer name, DirNode) \<in> set t" unfolding expired_def by blast
    then have n: "no_dots (rc_path c)" using no_dots_dated assms(2) by simp
    with q show "no_dots (rc_path c) \<and> (rc_path c, DirNode) \<in> set t" by simp
    show "checked_target t (partitions_root t base) c = Inr (rc_path c)"
      unfolding checked_target_Inr resolve_unlinked [OF u n] partitions_root_def resolve_unlinked [OF u assms(2)]
      by (simp add: q(1) dated_def strict_prefix_def starts_with_iff)
  qed
  then have "map_res (checked_target t (partitions_root t base)) cs = Inr (map rc_path cs)"
    by (induction cs) (simp_all add: res_simps)
  moreover have "\<forall>p\<in>set (map rc_path cs). no_dots p \<and> (p, DirNode) \<in> set t" using d by auto
  then have "for_st (remove_target (\<lambda>p. None)) (map rc_path cs) t = (Inr (), without (expired rt t base before) t)"
    using remove_all_plain [OF u, of "map rc_path cs" "{}"] p by (simp add: without_simps)
  ultimately show ?thesis by (simp add: apply_partition_retention_def bind_st_def st_simps)
qed

subsection \<open>Properties\<close>

text \<open>C21 (retention_confined): whatever candidates are applied and wherever a removal is interrupted, an entry of the tree
  disappears only when the call is not a dry run, every candidate resolves to a \<open>control_date=\<close> directory
  strictly below the partition root, and the entry lies in one of these.\<close>

theorem retention_confined:
  assumes "apply_partition_retention trouble cs base dry_run t = (r, t')" and "x \<in> set t" and "x \<notin> set t'"
  shows "\<not> dry_run \<and> (\<exists>c\<in>set cs. prefix (resolve t (rc_path c)) (fst x)) \<and>
    (\<forall>c\<in>set cs. strict_prefix (partitions_root t base) (resolve t (rc_path c)) \<and>
       starts_with date_prefix (last (resolve t (rc_path c))))"
proof -
  from assms obtain ts where m: "map_res (checked_target t (partitions_root t base)) cs = Inr ts"
    by (auto simp: apply_partition_retention_def split: sum.splits)
  from map_res_all [OF m] have ok: "\<forall>c\<in>set cs. checked_target t (partitions_root t base) c = Inr (resolve t (rc_path c))"
    by (auto simp: is_ok_iff checked_target_Inr)
  then have checked: "\<forall>c\<in>set cs. strict_prefix (partitions_root t base) (resolve t (rc_path c)) \<and>
      starts_with date_prefix (last (resolve t (rc_path c)))"
    by (simp add: checked_target_Inr)
  from map_res_all [OF m] ok have ts: "ts = map (\<lambda>c. resolve t (rc_path c)) cs" by simp
  from assms m have dry: "\<not> dry_run" by (auto simp: apply_partition_retention_def bind_st_def st_simps)
  with assms(1) m obtain r' where "for_st (remove_target trouble) ts t = (r', t')"
    by (auto simp: apply_partition_retention_def st_simps elim: bind_st_cases)
  from steps_byD [OF remove_all_loses [OF subset_refl] this] assms(2,3) have "\<exists>p\<in>set ts. prefix p (fst x)"
    unfolding loses_def by auto
  with dry checked ts show ?thesis by auto
qed

text \<open>C34 (retention_exact): on a tree without links, applying the plan for a date succeeds and removes exactly the
  dated directories before it with all they hold; an archive that a work partition has written below the root
  stays exactly when its control date is not before that date.\<close>

theorem retention_exact:
  assumes "plain_tree t" and "no_dots base"
    and "apply_partition_retention (\<lambda>p. None) (plan_partition_retention rt t base before) base False t = (r, t')"
  shows "is_ok r \<and> t' = without (expired rt t base before) t \<and>
    (\<forall>p layer q n. partition_archive_path rt p layer base = Inr q \<and> (q, n) \<in> set t \<and>
       date_of_iso rt (iso_date rt (wp_date p)) = Some (wp_date p) \<and> CHR ''/'' \<notin> set (iso_date rt (wp_date p)) \<longrightarrow>
       ((q, n) \<in> set t' \<longleftrightarrow> before \<le> wp_date p))"
proof (intro conjI allI impI)
  from apply_plan [OF assms(1,2) refl] assms(3)
  show "is_ok r" and t': "t' = without (expired rt t base before) t" by (auto simp: is_ok_iff)
  fix p layer q n
  assume a: "partition_archive_path rt p layer base = Inr q \<and> (q, n) \<in> set t \<and>
    date_of_iso rt (iso_date rt (wp_date p)) = Some (wp_date p) \<and> CHR ''/'' \<notin> set (iso_date rt (wp_date p))"
  let ?d = "dated base layer (iso_date rt (wp_date p))"
  have l: "layer \<in> layers" and comp: "components ''partitions'' = [''partitions'']" "components layer = [layer]"
    using a by (auto simp: partition_archive_path_def layers_def components_def split: if_splits)
  have "components (date_prefix @ iso_date rt (wp_date p)) = [date_prefix @ iso_date rt (wp_date p)]"
    using a by (simp add: components_def date_prefix_def split_on_single)
  with a comp obtain rest where q: "q = ?d @ rest" "rest \<noteq> []"
    by (auto simp: partition_archive_path_def below_def dated_def date_prefix_def components_def layer_file_def split: if_splits)
  have dir: "(?d, DirNode) \<in> set t"
  proof -
    have "strict_prefix ?d q" using q by (simp add: strict_prefix_def)
    with assms(1) a show ?thesis unfolding plain_tree_def by fast
  qed
  have only: "layer' = layer \<and> name = iso_date rt (wp_date p)" if "prefix (dated base layer' name) q" for layer' name
    using that by (simp add: q(1) dated_def)
  have day: "date_of_iso rt (iso_date rt (wp_date p)) = Some (wp_date p)" using a by blast
  show "(q, n) \<in> set t' \<longleftrightarrow> before \<le> wp_date p"
  proof
    assume "(q, n) \<in> set t'"
    then have "?d \<notin> expired rt t base before" using q(1) by (auto simp: t' without_def)
    with dir l day show "before \<le> wp_date p" unfolding expired_def by (auto simp: not_less [symmetric])
  next
    assume b: "before \<le> wp_date p"
    have "\<not> prefix s q" if "s \<in> expired rt t base before" for s
    proof
      assume s: "prefix s q"
      from that obtain layer' name d where "s = dated base layer' name" "d < before" "date_of_iso rt name = Some d"
        unfolding expired_def by blast
      with s only day b show False by auto
    qed
    with a show "(q, n) \<in> set t'" by (auto simp: t' without_def)
  qed
qed

lemma plain_tree_list:
  assumes "unlinked t" and "list_all (\<lambda>(q, n). list_all (\<lambda>k. (take k q, DirNode) \<in> set t) [0 ..< length q]) t"
  shows "plain_tree t"
proof -
  have "(p, DirNode) \<in> set t" if "(q, n) \<in> set t" "strict_prefix p q" for p q n
  proof -
    from that(2) have "p = take (length p) q" "length p < length q"
      by (auto simp: strict_prefix_def prefix_def)
    with assms(2) that(1) show ?thesis by (metis (no_types, lifting) atLeast_upt case_prodD lessThan_iff list_all_iff)
  qed
  with assms(1) show ?thesis unfolding plain_tree_def by blast
qed

text \<open>A tree with an old and a recent directory; the run-time library reads a date as its number.\<close>

definition two_dates :: tree where
  "two_dates = [([], DirNode), ([''d''], DirNode), ([''d'', ''partitions''], DirNode), ([''d'', ''partitions'', ''raw''], DirNode),
     (dated [''d''] ''raw'' ''1'', DirNode), (dated [''d''] ''raw'' ''1'' @ [''a''], FileNode 3),
     (dated [''d''] ''raw'' ''9'', DirNode), (dated [''d''] ''raw'' ''9'' @ [''b''], FileNode 4)]"

lemma two_dates_plan:
  "plan_partition_retention sample_runtime two_dates [''d''] 5 =
     [\<lparr>rc_date = 1, rc_path = dated [''d''] ''raw'' ''1'', rc_bytes = 3\<rparr>]"
  by code_simp

lemma two_dates_applied:
  "apply_partition_retention (\<lambda>p. None) (plan_partition_retention sample_runtime two_dates [''d''] 5) [''d''] False two_dates =
     (Inr [dated [''d''] ''raw'' ''1''],
      filter (\<lambda>(q, n). \<not> prefix (dated [''d''] ''raw'' ''1'') q) two_dates)"
  unfolding two_dates_plan by code_simp

lemma retention_confined_witness:
  "(dated [''d''] ''raw'' ''1'' @ [''a''], FileNode 3) \<in> set two_dates \<and>
   strict_prefix (partitions_root two_dates [''d'']) (resolve two_dates (dated [''d''] ''raw'' ''1''))"
proof -
  have "(dated [''d''] ''raw'' ''1'' @ [''a''], FileNode 3) \<in> set two_dates" by (simp add: two_dates_def)
  with retention_confined [OF two_dates_applied this] show ?thesis by (simp add: two_dates_plan)
qed

lemma retention_exact_witness:
  "\<exists>t'. apply_partition_retention (\<lambda>p. None) (plan_partition_retention sample_runtime two_dates [''d''] 5) [''d''] False two_dates =
     (Inr [dated [''d''] ''raw'' ''1''], t') \<and> t' = without (expired sample_runtime two_dates [''d''] 5) two_dates \<and>
     (dated [''d''] ''raw'' ''9'' @ [''b''], FileNode 4) \<in> set t'"
proof -
  let ?t' = "filter (\<lambda>(q, n). \<not> prefix (dated [''d''] ''raw'' ''1'') q) two_dates"
  have "unlinked two_dates" by code_simp
  then have p: "plain_tree two_dates" by (rule plain_tree_list) code_simp
  have "no_dots [''d'']" by simp
  from retention_exact [OF p this two_dates_applied]
  have "?t' = without (expired sample_runtime two_dates [''d''] 5) two_dates" by blast
  moreover have "(dated [''d''] ''raw'' ''9'' @ [''b''], FileNode 4) \<in> set ?t'" by code_simp
  ultimately show ?thesis using two_dates_applied by blast
qed

end
