(* ===== verification/Snapshot.thy ===== *)
theory Snapshot
  imports Lake
begin

section \<open>Publication of a snapshot\<close>

text \<open>
  \<open>storage/snapshot.py\<close>: a copy of the database is built in a temporary file beside the destination and then renamed
  over it.  Every step asks an argument whether it raises; a copy that is cut short leaves an unusable file.  The
  contents of a database are a parameter.
\<close>

datatype 'd db_file = Usable 'd bool | Unusable

text \<open>The flag of a usable file: only its owner has access.\<close>

record 'd snapshots =
  sn_files :: "path \<rightharpoonup> 'd db_file"
  sn_steps :: nat

definition step_with :: "(nat \<Rightarrow> exn option) \<Rightarrow> ('d snapshots \<Rightarrow> 'd snapshots) \<Rightarrow> ('d snapshots, unit) prog" where
  "step_with fails effect s =
     (let s1 = s\<lparr>sn_steps := sn_steps s + 1\<rparr> in
      case fails (sn_steps s) of None \<Rightarrow> (Inr (), effect s1) | Some e \<Rightarrow> (Inl e, s1))"

definition set_file :: "path \<Rightarrow> 'd db_file option \<Rightarrow> 'd snapshots \<Rightarrow> 'd snapshots" where
  "set_file p f s = s\<lparr>sn_files := (sn_files s)(p := f)\<rparr>"

text \<open>\<open>ATTACH\<close> of a file that is no database raises.\<close>

definition attach_source :: "(nat \<Rightarrow> exn option) \<Rightarrow> path \<Rightarrow> ('d snapshots, 'd) prog" where
  "attach_source fails source = bind_st (step_with fails id) (\<lambda>_ s.
     case sn_files s source of Some (Usable d b) \<Rightarrow> (Inr d, s) | _ \<Rightarrow> (Inl DatabaseError, s))"

definition make_private :: "bool \<Rightarrow> path \<Rightarrow> 'd snapshots \<Rightarrow> 'd snapshots" where
  "make_private posix p s =
     (case sn_files s p of Some (Usable d b) \<Rightarrow> set_file p (Some (Usable d (posix \<or> b))) s | _ \<Rightarrow> s)"

definition rename_file :: "path \<Rightarrow> path \<Rightarrow> 'd snapshots \<Rightarrow> 'd snapshots" where
  "rename_file p q s = s\<lparr>sn_files := (sn_files s)(q := sn_files s p, p := None)\<rparr>"

definition build_copy :: "(nat \<Rightarrow> exn option) \<Rightarrow> bool \<Rightarrow> path \<Rightarrow> path \<Rightarrow> ('d snapshots, unit) prog" where
  "build_copy fails posix source temporary =
     bind_st (step_with fails id) (\<lambda>_.
     bind_st (attach_source fails source) (\<lambda>d.
     bind_st (step_with fails (set_file temporary (Some Unusable))) (\<lambda>_.
     bind_st (step_with fails id) (\<lambda>_.
     bind_st (step_with fails id) (\<lambda>_.
     bind_st (step_with fails (set_file temporary (Some (Usable d False)))) (\<lambda>_.
     bind_st (step_with fails id) (\<lambda>_.
     step_with fails (make_private posix temporary))))))))"

definition copy_database :: "(nat \<Rightarrow> exn option) \<Rightarrow> bool \<Rightarrow> path \<Rightarrow> path \<Rightarrow> path \<Rightarrow> ('d snapshots, unit) prog" where
  "copy_database fails posix source temporary destination =
     bind_st (build_copy fails posix source temporary) (\<lambda>_. step_with fails (rename_file temporary destination))"

text \<open>\<open>try: ... finally: ...\<close>: an error of the last block takes the place of the first.\<close>

definition finally_do :: "('s, 'a) prog \<Rightarrow> ('s, unit) prog \<Rightarrow> ('s, 'a) prog" where
  "finally_do m f s = (case m s of (r, s1) \<Rightarrow> (case f s1 of (Inl e, s2) \<Rightarrow> (Inl e, s2) | (Inr _, s2) \<Rightarrow> (r, s2)))"

text \<open>\<open>mkdir\<close>, \<open>mkstemp\<close>, \<open>close\<close> and \<open>unlink\<close>: what remains is a name that is free.\<close>

definition reserve_name :: "(nat \<Rightarrow> exn option) \<Rightarrow> path \<Rightarrow> ('d snapshots, unit) prog" where
  "reserve_name fails temporary =
     bind_st (step_with fails id) (\<lambda>_.
     bind_st (step_with fails (set_file temporary (Some Unusable))) (\<lambda>_.
     bind_st (step_with fails id) (\<lambda>_.
     step_with fails (set_file temporary None))))"

definition publish_snapshot :: "(nat \<Rightarrow> exn option) \<Rightarrow> bool \<Rightarrow> path \<Rightarrow> path \<Rightarrow> path \<Rightarrow> ('d snapshots, path) prog" where
  "publish_snapshot fails posix temporary source destination s =
     (if source = destination then (Inl (ValueError ''snapshot destination must differ from source database''), s)
      else if sn_files s source = None then (Inl FileNotFoundError, s)
      else bind_st (reserve_name fails temporary) (\<lambda>_.
           bind_st (finally_do (copy_database fails posix source temporary destination)
                      (step_with fails (set_file temporary None))) (\<lambda>_.
           return_st destination)) s)"

subsection \<open>Only the temporary file and the destination change\<close>

definition untouched :: "path set \<Rightarrow> 'd snapshots \<Rightarrow> 'd snapshots \<Rightarrow> bool" where
  "untouched ps s s' \<longleftrightarrow> (\<forall>p. p \<notin> ps \<longrightarrow> sn_files s' p = sn_files s p)"

lemma untouched_order: "reflp (untouched ps)" "transp (untouched ps)"
  by (auto simp: untouched_def reflp_def transp_def)

lemma untouched_step:
  "(\<And>s. untouched ps s (f s)) \<Longrightarrow> steps_by (untouched ps) (step_with fails f)"
  by (rule steps_byI) (auto simp: step_with_def Let_def untouched_def split: option.splits)

lemma untouched_ops:
  "untouched ps s (id s)" "p \<in> ps \<Longrightarrow> untouched ps s (set_file p f s)" "p \<in> ps \<Longrightarrow> untouched ps s (make_private x p s)"
  by (auto simp: untouched_def set_file_def make_private_def split: option.splits db_file.splits)

lemma untouched_attach: "steps_by (untouched ps) (attach_source fails source)"
  unfolding attach_source_def
  by (intro steps_by_bind untouched_order untouched_step untouched_ops)
    (auto intro!: steps_byI simp: untouched_def split: option.splits db_file.splits)

lemma reserve_untouched: "steps_by (untouched {temporary}) (reserve_name fails temporary)"
  unfolding reserve_name_def
  by (intro steps_by_bind untouched_order untouched_step untouched_ops) simp_all

lemma build_copy_untouched: "steps_by (untouched {temporary}) (build_copy fails posix source temporary)"
  unfolding build_copy_def
  by (intro steps_by_bind untouched_order untouched_step untouched_ops untouched_attach) simp_all

lemma build_copy_Inr:
  assumes "build_copy fails posix source temporary s = (Inr (), s')" and "temporary \<noteq> source"
  shows "\<exists>d b b'. sn_files s source = Some (Usable d b) \<and> sn_files s' temporary = Some (Usable d b') \<and> (posix \<longrightarrow> b')"
  using assms
  by (auto simp: build_copy_def attach_source_def bind_st_def step_with_def set_file_def make_private_def Let_def
      split: option.splits prod.splits sum.splits db_file.splits)

lemma step_with_Inr: "step_with fails f s = (Inr (), s') \<Longrightarrow> s' = f (s\<lparr>sn_steps := sn_steps s + 1\<rparr>)"
  by (auto simp: step_with_def Let_def split: option.splits)

lemma step_with_Inl: "step_with fails f s = (Inl e, s') \<Longrightarrow> sn_files s' = sn_files s"
  by (auto simp: step_with_def Let_def split: option.splits)

lemma copy_database_effect:
  assumes "copy_database fails posix source temporary destination s = (r, s')" and "temporary \<notin> {source, destination}"
  shows "(\<forall>p. p \<notin> {temporary, destination} \<longrightarrow> sn_files s' p = sn_files s p) \<and>
    (if is_ok r then \<exists>d b b'. sn_files s source = Some (Usable d b) \<and> sn_files s' destination = Some (Usable d b') \<and> (posix \<longrightarrow> b')
     else sn_files s' destination = sn_files s destination)"
  using assms(1) unfolding copy_database_def
proof (cases rule: bind_st_cases)
  case (fail e)
  from steps_byD [OF build_copy_untouched this(1)] assms(2) fail(2) show ?thesis
    by (auto simp: untouched_def is_ok_iff)
next
  case (cont u s1)
  have "untouched {temporary} s s1" using steps_byD [OF build_copy_untouched cont(1)] .
  moreover obtain d b b' where "sn_files s source = Some (Usable d b)" "sn_files s1 temporary = Some (Usable d b')" "posix \<longrightarrow> b'"
    using build_copy_Inr [of fails posix source temporary s s1] cont(1) assms(2) by auto
  moreover have "if is_ok r then s' = rename_file temporary destination (s1\<lparr>sn_steps := sn_steps s1 + 1\<rparr>)
      else sn_files s' = sn_files s1"
    using cont(2) step_with_Inr step_with_Inl by (cases r) (auto simp: is_ok_iff)
  ultimately show ?thesis using assms(2) by (auto simp: untouched_def rename_file_def split: if_splits)
qed

subsection \<open>Properties\<close>

text \<open>C22 (snapshot_atomic): whichever steps fail, a reader of the destination finds the file that was there before or a
  complete copy of the source that only its owner can read (on POSIX), never a part of one; no file but the
  destination and the temporary one changes; and when the call returns the copy is there.\<close>

theorem snapshot_atomic:
  fixes s :: "'a snapshots"
  assumes "publish_snapshot fails posix temporary source destination s = (r, s')"
    and "temporary \<notin> {source, destination}"
  shows "(\<forall>p. p \<notin> {temporary, destination} \<longrightarrow> sn_files s' p = sn_files s p) \<and>
    (sn_files s' destination = sn_files s destination \<or>
     (\<exists>d b b'. sn_files s source = Some (Usable d b) \<and> sn_files s' destination = Some (Usable d b') \<and> (posix \<longrightarrow> b'))) \<and>
    (\<forall>p. r = Inr p \<longrightarrow> p = destination \<and> sn_files s' temporary = None \<and>
       (\<exists>d b b'. sn_files s source = Some (Usable d b) \<and> sn_files s' destination = Some (Usable d b') \<and> (posix \<longrightarrow> b')))"
proof (cases "source = destination \<or> sn_files s source = None")
  case True
  with assms(1) show ?thesis by (auto simp: publish_snapshot_def split: if_splits)
next
  case False
  define body :: "('a snapshots, unit) prog" where
    "body = finally_do (copy_database fails posix source temporary destination) (step_with fails (set_file temporary None))"
  from assms(1) False have "bind_st (reserve_name fails temporary) (\<lambda>_. bind_st body (\<lambda>_. return_st destination)) s = (r, s')"
    by (auto simp: publish_snapshot_def body_def)
  then show ?thesis
  proof (cases rule: bind_st_cases)
    case (fail e)
    with steps_byD [OF reserve_untouched fail(1)] assms(2) show ?thesis by (auto simp: untouched_def)
  next
    case (cont u s4)
    obtain q s5 where c: "copy_database fails posix source temporary destination s4 = (q, s5)" by fastforce
    obtain q' s6 where f: "step_with fails (set_file temporary None) s5 = (q', s6)" by fastforce
    have "untouched {temporary} s s4" using steps_byD [OF reserve_untouched cont(1)] .
    moreover have "untouched {temporary} s5 s6" using steps_byD [OF untouched_step f] untouched_ops(2) by blast
    moreover have "s' = s6" "\<And>p. r = Inr p \<Longrightarrow> p = destination \<and> is_ok q \<and> q' = Inr ()"
      using cont(2) c f by (auto simp: body_def finally_do_def bind_st_def st_simps is_ok_iff split: sum.splits)
    moreover have "q' = Inr () \<Longrightarrow> sn_files s6 temporary = None" using step_with_Inr f by (fastforce simp: set_file_def)
    ultimately show ?thesis using copy_database_effect [OF c assms(2)] assms(2)
      by (auto simp: untouched_def split: if_splits)
  qed
qed

lemma snapshot_atomic_witness:
  "\<exists>s'. publish_snapshot (\<lambda>n. None) True [''t''] [''a''] [''b'']
       \<lparr>sn_files = [[''a''] \<mapsto> Usable (1::nat) False, [''b''] \<mapsto> Usable 0 True], sn_steps = 0\<rparr> = (Inr [''b''], s') \<and>
     sn_files s' [''b''] = Some (Usable 1 True) \<and> sn_files s' [''a''] = Some (Usable 1 False)"
proof -
  let ?s = "\<lparr>sn_files = [[''a''] \<mapsto> Usable (1::nat) False, [''b''] \<mapsto> Usable 0 True], sn_steps = 0\<rparr>"
  obtain s' where p: "publish_snapshot (\<lambda>n. None) True [''t''] [''a''] [''b''] ?s = (Inr [''b''], s')"
    by (simp add: publish_snapshot_def reserve_name_def copy_database_def build_copy_def attach_source_def finally_do_def
        bind_st_def st_simps step_with_def set_file_def make_private_def rename_file_def Let_def)
  from snapshot_atomic [OF p] have "sn_files s' [''b''] = Some (Usable 1 True)" "sn_files s' [''a''] = Some (Usable 1 False)"
    by auto
  with p show ?thesis by blast
qed

end
