(* ===== verification/Api.thy ===== *)
theory Api
  imports Queries Work_Manifest Environment
begin

section \<open>The export API\<close>

text \<open>
  \<open>api/service.py\<close>: the bound on concurrent queries, the bearer token, and every endpoint as a program on the
  store.  What FastAPI decides from the declarations (the order of authentication and validation, the ranges
  of the parameters, the pattern of a symbol) is written out; metrics, spans and log records are left out.
\<close>

subsection \<open>The slots for queries\<close>

text \<open>A bounded semaphore, and the requests that hold a slot.  A request gives its slot back when its query has
  returned and when it has raised.\<close>

record slot_pool =
  sp_limit :: nat
  sp_free :: nat
  sp_active :: "nat set"

definition new_pool :: "int \<Rightarrow> pyfloat \<Rightarrow> slot_pool result" where
  "new_pool max_concurrent_queries acquire_timeout_seconds =
     (if \<not> (1 \<le> max_concurrent_queries \<and> max_concurrent_queries \<le> 32)
      then Inl (ValueError ''max_concurrent_queries must be between 1 and 32'')
      else if fle acquire_timeout_seconds (Fin 0) then Inl (ValueError ''acquire_timeout_seconds must be positive'')
      else Inr \<lparr>sp_limit = nat max_concurrent_queries, sp_free = nat max_concurrent_queries, sp_active = {}\<rparr>)"

inductive slot_step :: "slot_pool \<Rightarrow> slot_pool \<Rightarrow> bool" where
  acquired: "0 < sp_free p \<Longrightarrow> i \<notin> sp_active p \<Longrightarrow>
    slot_step p (p\<lparr>sp_free := sp_free p - 1, sp_active := insert i (sp_active p)\<rparr>)"
| rejected: "sp_free p = 0 \<Longrightarrow> slot_step p p"
| finished: "i \<in> sp_active p \<Longrightarrow> slot_step p (p\<lparr>sp_free := sp_free p + 1, sp_active := sp_active p - {i}\<rparr>)"

definition pool_ok :: "slot_pool \<Rightarrow> bool" where
  "pool_ok p \<longleftrightarrow> finite (sp_active p) \<and> card (sp_active p) + sp_free p = sp_limit p"

lemma slot_step_ok:
  assumes "slot_step p q" and "pool_ok p"
  shows "pool_ok q \<and> sp_limit q = sp_limit p"
  using assms(1)
proof cases
  case (acquired i)
  with assms(2) show ?thesis by (simp add: pool_ok_def)
next
  case rejected
  with assms(2) show ?thesis by simp
next
  case (finished i)
  with assms(2) have "card (sp_active p) = Suc (card (sp_active p - {i}))" by (intro card.remove) (simp_all add: pool_ok_def)
  with assms(2) finished show ?thesis by (simp add: pool_ok_def del: card_Diff_insert)
qed

lemma pool_reachable:
  "slot_step\<^sup>*\<^sup>* p q \<Longrightarrow> pool_ok p \<Longrightarrow> pool_ok q \<and> sp_limit q = sp_limit p"
  by (induction rule: rtranclp_induct) (auto dest: slot_step_ok)

subsection \<open>The application\<close>

record 'k api =
  ap_engine :: engine
  ap_collation :: "'k collation"
  ap_runtime :: runtime
  ap_busy :: "nat \<Rightarrow> bool"
  ap_key :: "string option"
  ap_env :: environment
  ap_limit :: int
  ap_export_max :: int
  ap_stamp :: string
  ap_parquet :: "string list \<Rightarrow> row list \<Rightarrow> string result"

definition max_page_size :: int where
  "max_page_size = 500"

text \<open>\<open>secrets.compare_digest\<close> of two strings: a character that is not ASCII raises.\<close>

definition compare_digest :: "string \<Rightarrow> string \<Rightarrow> bool result" where
  "compare_digest a b =
     (if \<exists>c\<in>set (a @ b). 128 \<le> (of_char c :: nat) then Inl (TypeError ''comparing strings with non-ASCII characters is not supported'')
      else Inr (a = b))"

text \<open>The credentials of the header \<open>Authorization\<close>: scheme and token.\<close>

definition authenticate :: "'k api \<Rightarrow> (string \<times> string) option \<Rightarrow> unit result" where
  "authenticate a credentials =
     (case set_value (case set_value (ap_key a) of Some k \<Rightarrow> Some k | None \<Rightarrow> ap_env a ''RECONCILIATION_EXPORT_API_KEY'') of
        None \<Rightarrow> Inl (HTTPException 503)
      | Some expected \<Rightarrow> (case credentials of
          None \<Rightarrow> Inl (HTTPException 401)
        | Some (scheme, token) \<Rightarrow>
            if py_lower scheme \<noteq> ''bearer'' then Inl (HTTPException 401)
            else bind_res (compare_digest token expected) (\<lambda>same. if same then Inr () else Inl (HTTPException 401))))"

fun unavailable :: "exn \<Rightarrow> bool" where
  "unavailable DatabaseBusyError = True"
| "unavailable DatabaseError = True"
| "unavailable OSError = True"
| "unavailable FileNotFoundError = True"
| "unavailable FileExistsError = True"
| "unavailable PermissionError = True"
| "unavailable (TimeoutError m) = True"
| "unavailable _ = False"

text \<open>\<open>query_rows\<close> and \<open>query_scalar\<close>: a slot, a connection of its own, and the answer to its errors.\<close>

definition with_slot :: "'k api \<Rightarrow> 'a db \<Rightarrow> 'a db" where
  "with_slot a q s = (if ap_busy a (st_steps s) then (Inl DatabaseBusyError, s\<lparr>st_steps := st_steps s + 1\<rparr>) else q s)"

definition query :: "'k api \<Rightarrow> 'a db \<Rightarrow> 'a db" where
  "query a q s =
     (case with_slot a q s of
        (Inl e, s') \<Rightarrow> (Inl (if unavailable e then HTTPException 503 else e), s')
      | (Inr x, s') \<Rightarrow> (Inr x, s'))"

subsection \<open>Listings\<close>

record page_info =
  pg_limit :: nat
  pg_offset :: nat
  pg_total :: nat
  pg_next :: "nat option"

definition pagination :: "nat \<Rightarrow> nat \<Rightarrow> nat \<Rightarrow> page_info" where
  "pagination limit offset n =
     \<lparr>pg_limit = limit, pg_offset = offset, pg_total = n, pg_next = next_offset limit offset n\<rparr>"

record list_view =
  lv_columns :: "string list"
  lv_items :: "row list"
  lv_page :: page_info

definition valid_page :: "int \<Rightarrow> int \<Rightarrow> bool" where
  "valid_page limit offset \<longleftrightarrow> 1 \<le> limit \<and> limit \<le> max_page_size \<and> 0 \<le> offset"

text \<open>Reading a table, here also one that a query computes from a table.\<close>

definition read_view :: "'k api \<Rightarrow> string \<Rightarrow> string list \<Rightarrow> (engine \<Rightarrow> table \<Rightarrow> table result) \<Rightarrow> table db" where
  "read_view a name needed view = bind_st (scan (ap_engine a) name needed) (\<lambda>(now, tb). lift_res (view (ap_engine a) tb))"

definition section_of :: "'k api \<Rightarrow> string list \<Rightarrow> ('k collation \<Rightarrow> table \<Rightarrow> row \<Rightarrow> 'o::linorder) \<Rightarrow> (table \<Rightarrow> row \<Rightarrow> bool) \<Rightarrow>
    table \<Rightarrow> nat \<Rightarrow> nat \<Rightarrow> nat \<Rightarrow> row list" where
  "section_of a cols key cond tb n limit offset =
     map (cells tb cols) (page limit offset (order_by (key (ap_collation a) tb) (ap_collation a) n (filter (cond tb) (tb_rows tb))))"

text \<open>The number of the query, by which the engine may choose an order.\<close>

definition query_number :: "nat db" where
  "query_number s = (Inr (st_steps s), s)"

definition listing_of :: "'k api \<Rightarrow> string \<Rightarrow> string list \<Rightarrow> (engine \<Rightarrow> table \<Rightarrow> table result) \<Rightarrow> string list \<Rightarrow>
    ('k collation \<Rightarrow> table \<Rightarrow> row \<Rightarrow> 'o::linorder) \<Rightarrow> (table \<Rightarrow> row \<Rightarrow> bool) \<Rightarrow> int \<Rightarrow> int \<Rightarrow> list_view db" where
  "listing_of a name needed view cols key cond limit offset =
     bind_st (query a (bind_st (read_view a name needed view) (\<lambda>tb. return_st (length (filter (cond tb) (tb_rows tb)))))) (\<lambda>n.
     bind_st (query a (bind_st query_number (\<lambda>k. bind_st (read_view a name needed view) (\<lambda>tb.
         return_st (section_of a cols key cond tb k (nat limit) (nat offset)))))) (\<lambda>items.
     return_st \<lparr>lv_columns = cols, lv_items = items, lv_page = pagination (nat limit) (nat offset) n\<rparr>))"

definition as_stored :: "engine \<Rightarrow> table \<Rightarrow> table result" where
  "as_stored eng tb = Inr tb"

subsection \<open>Runs\<close>

text \<open>The columns under their stored names; the engine does not distinguish the case of identifiers.\<close>

definition run_columns :: "string list" where
  "run_columns = [''run_id'', ''created_At'', ''started_at'', ''finished_at'', ''status'', ''yahoo_row_count'',
     ''alpaca_row_count'', ''massive_row_count'', ''match_count'', ''break_count'']"

definition run_order :: "'k collation \<Rightarrow> table \<Rightarrow> row \<Rightarrow> (bool \<times> 'k descending) \<times> bool \<times> 'k" where
  "run_order c tb r = (desc_key c (field tb ''started_at'' r), asc_key c (field tb ''run_id'' r))"

definition list_runs :: "'k::linorder api \<Rightarrow> int \<Rightarrow> int \<Rightarrow> list_view db" where
  "list_runs a limit offset =
     (if \<not> valid_page limit offset then fail_st (HTTPException 422)
      else listing_of a ''pipeline_runs'' run_columns as_stored run_columns run_order (\<lambda>tb r. True) limit offset)"

text \<open>\<open>coalesce(sum(c), 0)\<close> of a column of integers\<close>

definition sql_sum :: "pyval list \<Rightarrow> int" where
  "sql_sum vs = sum_list (map (\<lambda>v. case v of PInt n \<Rightarrow> n | _ \<Rightarrow> 0) vs)"

definition partition_summary :: "'k::linorder collation \<Rightarrow> nat \<Rightarrow> table \<Rightarrow> string \<Rightarrow> row list" where
  "partition_summary c n tb run_id =
     (let rows = filter (\<lambda>r. field tb ''run_id'' r = PStr run_id) (tb_rows tb);
          group = (\<lambda>r. [field tb ''provider'' r, field tb ''status'' r]) in
      map (\<lambda>k. let rs = filter (\<lambda>r. group r = k) rows in
            k @ [PInt (int (length rs)), PInt (sql_sum (map (field tb ''row_count'') rs)), PInt (sql_sum (map (field tb ''attempts'') rs))])
        (order_by (\<lambda>k. (asc_key c (k ! 0), asc_key c (k ! 1))) c n (uniq (map group rows))))"

record run_detail =
  rd_run :: row
  rd_partitions :: "row list"

definition get_run :: "'k::linorder api \<Rightarrow> string \<Rightarrow> run_detail db" where
  "get_run a run_id =
     bind_st (query a (select (ap_engine a) ''pipeline_runs'' run_columns ''run_id'' (PStr run_id))) (\<lambda>items.
     case items of
       [] \<Rightarrow> fail_st (HTTPException 404)
     | item # _ \<Rightarrow>
         bind_st (query a (bind_st query_number (\<lambda>k. bind_st (read_view a ''work_partitions''
             [''run_id'', ''provider'', ''status'', ''row_count'', ''attempts''] as_stored) (\<lambda>tb.
             return_st (partition_summary (ap_collation a) k tb run_id))))) (\<lambda>partitions.
         return_st \<lparr>rd_run = item, rd_partitions = partitions\<rparr>))"

subsection \<open>Reconciliations\<close>

definition recon_group :: "string list" where
  "recon_group = [''run_id'', ''symbol'', ''trade_date'', ''source_a'', ''source_b'']"

definition recon_columns :: "string list" where
  "recon_columns = recon_group @ [''source_a_close'', ''source_b_close'', ''close_difference'', ''source_a_volume'',
     ''source_b_volume'', ''volume_difference'', ''status'', ''break_reason'']"

definition recon_needed :: "string list" where
  "recon_needed = [''run_id'', ''symbol'', ''timestamp'', ''source_a'', ''source_b'', ''source_a_value'', ''source_b_value'',
     ''difference'', ''metric_name'', ''status'', ''is_discrepancy'', ''break_reason'']"

fun sql_max_text :: "pyval list \<Rightarrow> pyval" where
  "sql_max_text [] = PNone"
| "sql_max_text (PStr s # vs) = (case sql_max_text vs of PStr t \<Rightarrow> PStr (max s t) | _ \<Rightarrow> PStr s)"
| "sql_max_text (v # vs) = sql_max_text vs"

definition group_key :: "engine \<Rightarrow> table \<Rightarrow> row \<Rightarrow> pyval list result" where
  "group_key eng tb r = (case convert eng DATE (field tb ''timestamp'' r) of
     None \<Rightarrow> Inl DatabaseError
   | Some d \<Rightarrow> Inr [field tb ''run_id'' r, field tb ''symbol'' r, d, field tb ''source_a'' r, field tb ''source_b'' r])"

definition recon_row :: "table \<Rightarrow> pyval list \<Rightarrow> row list \<Rightarrow> row" where
  "recon_row tb k rs =
     (let metric = (\<lambda>m c. map (field tb c) (filter (\<lambda>r. field tb ''metric_name'' r = PStr m) rs)) in
      k @ [sql_max_double (metric ''close'' ''source_a_value''), sql_max_double (metric ''close'' ''source_b_value''),
           sql_max_double (metric ''close'' ''difference''), sql_max_double (metric ''volume'' ''source_a_value''),
           sql_max_double (metric ''volume'' ''source_b_value''), sql_max_double (metric ''volume'' ''difference''),
           (case sql_max_text (metric ''close'' ''status'') of
              PNone \<Rightarrow> PStr (if PBool True \<in> set (map (field tb ''is_discrepancy'') rs) then ''BREAK'' else ''MATCH'')
            | v \<Rightarrow> v),
           sql_max_text (metric ''close'' ''break_reason'')])"

definition recon_view :: "engine \<Rightarrow> table \<Rightarrow> table result" where
  "recon_view eng tb = bind_res (map_res (group_key eng tb) (tb_rows tb)) (\<lambda>ks.
     Inr (new_table (map (\<lambda>c. plain c VARCHAR) recon_columns) [] [] []
       \<lparr>tb_rows := map (\<lambda>k. recon_row tb k (map snd (filter (\<lambda>(k', r). k' = k) (zip ks (tb_rows tb))))) (uniq ks)\<rparr>))"

record recon_filter =
  rf_symbol :: "string option"
  rf_date :: "int option"
  rf_start :: "int option"
  rf_stop :: "int option"
  rf_status :: "string option"
  rf_run :: "string option"

fun date_holds :: "(int \<Rightarrow> bool) \<Rightarrow> pyval \<Rightarrow> bool" where
  "date_holds P (PDate d) = P d"
| "date_holds P _ = False"

definition recon_where :: "recon_filter \<Rightarrow> table \<Rightarrow> row \<Rightarrow> bool" where
  "recon_where f tb r \<longleftrightarrow>
     holds (\<lambda>s. field tb ''symbol'' r = PStr (py_upper s)) (set_value (rf_symbol f)) \<and>
     holds (\<lambda>d. date_holds (\<lambda>x. x = d) (field tb ''trade_date'' r)) (rf_date f) \<and>
     holds (\<lambda>d. date_holds (\<lambda>x. d \<le> x) (field tb ''trade_date'' r)) (rf_start f) \<and>
     holds (\<lambda>d. date_holds (\<lambda>x. x \<le> d) (field tb ''trade_date'' r)) (rf_stop f) \<and>
     holds (\<lambda>s. field tb ''status'' r = PStr s) (rf_status f) \<and>
     holds (\<lambda>s. field tb ''run_id'' r = PStr s) (rf_run f)"

definition recon_order :: "'k collation \<Rightarrow> table \<Rightarrow> row \<Rightarrow> (bool \<times> 'k descending) \<times> (bool \<times> 'k) \<times> (bool \<times> 'k) \<times> bool \<times> 'k" where
  "recon_order c tb r = (desc_key c (field tb ''trade_date'' r), asc_key c (field tb ''symbol'' r),
     asc_key c (field tb ''source_a'' r), asc_key c (field tb ''source_b'' r))"

definition symbol_pattern :: "string \<Rightarrow> bool" where
  "symbol_pattern s \<longleftrightarrow> s \<noteq> [] \<and> is_alpha (hd s) \<and> length s \<le> 15 \<and>
     list_all (\<lambda>c. is_alpha c \<or> is_digit c \<or> c = CHR ''.'' \<or> c = CHR ''-'') s"

definition valid_filter :: "recon_filter \<Rightarrow> bool" where
  "valid_filter f \<longleftrightarrow> holds symbol_pattern (rf_symbol f) \<and>
     holds (\<lambda>s. s \<in> {''MATCH'', ''WARN'', ''BREAK''}) (rf_status f)"

text \<open>\<open>start_date > end_date\<close>\<close>

definition reversed_dates :: "recon_filter \<Rightarrow> bool" where
  "reversed_dates f \<longleftrightarrow> (case (rf_start f, rf_stop f) of (Some a, Some b) \<Rightarrow> b < a | _ \<Rightarrow> False)"

definition list_reconciliations :: "'k::linorder api \<Rightarrow> recon_filter \<Rightarrow> int \<Rightarrow> int \<Rightarrow> list_view db" where
  "list_reconciliations a f limit offset =
     (if \<not> valid_filter f \<or> \<not> valid_page limit offset \<or> reversed_dates f then fail_st (HTTPException 422)
      else listing_of a ''equity_reconciliation_results'' recon_needed recon_view recon_columns recon_order (recon_where f) limit offset)"

subsection \<open>Exceptions\<close>

definition exception_fields :: "string list" where
  "exception_fields = [''exception_id'', ''run_id'', ''instrument_type'', ''symbol'', ''trade_date'', ''source_a'', ''source_b'',
     ''source_a_close'', ''source_b_close'', ''close_difference'', ''severity'', ''priority'', ''status'', ''owner'',
     ''reason_code'', ''due_at'', ''resolved_at'', ''created_at'']"

record exception_filter =
  ef_symbol :: "string option"
  ef_severity :: "string option"
  ef_status :: "string option"
  ef_run :: "string option"

definition exception_where :: "exception_filter \<Rightarrow> table \<Rightarrow> row \<Rightarrow> bool" where
  "exception_where f tb r \<longleftrightarrow>
     holds (\<lambda>s. upper_of (field tb ''symbol'' r) = PStr (py_upper s)) (set_value (ef_symbol f)) \<and>
     holds (\<lambda>s. field tb ''severity'' r = PStr (py_upper s)) (set_value (ef_severity f)) \<and>
     holds (\<lambda>s. field tb ''status'' r = PStr (py_upper s)) (set_value (ef_status f)) \<and>
     holds (\<lambda>s. field tb ''run_id'' r = PStr s) (ef_run f)"

definition exception_order :: "'k collation \<Rightarrow> table \<Rightarrow> row \<Rightarrow> (bool \<times> 'k descending) \<times> bool \<times> 'k" where
  "exception_order c tb r = (desc_key c (field tb ''created_at'' r), asc_key c (field tb ''exception_id'' r))"

definition list_exceptions :: "'k::linorder api \<Rightarrow> exception_filter \<Rightarrow> int \<Rightarrow> int \<Rightarrow> list_view db" where
  "list_exceptions a f limit offset =
     (if \<not> holds symbol_pattern (ef_symbol f) \<or> \<not> valid_page limit offset then fail_st (HTTPException 422)
      else listing_of a ''equity_exceptions'' exception_fields as_stored exception_fields exception_order (exception_where f)
             limit offset)"

subsection \<open>Exports\<close>

text \<open>\<open>csv.DictWriter\<close> with its defaults.\<close>

definition csv_special :: "char \<Rightarrow> bool" where
  "csv_special c \<longleftrightarrow> c \<in> {CHR '','', CHR 0x22, CHR 0x0D, CHR 0x0A}"

definition csv_field :: "string \<Rightarrow> string" where
  "csv_field s =
     (if list_ex csv_special s
      then [CHR 0x22] @ concat (map (\<lambda>c. if c = CHR 0x22 then [c, c] else [c]) s) @ [CHR 0x22] else s)"

definition csv_line :: "string list \<Rightarrow> string" where
  "csv_line ws = join_with '','' (map csv_field ws) @ [CHR 0x0D, CHR 0x0A]"

definition csv_cell :: "runtime \<Rightarrow> pyval \<Rightarrow> string" where
  "csv_cell rt v = (case v of PNone \<Rightarrow> [] | _ \<Rightarrow> py_str rt v)"

definition csv_text :: "runtime \<Rightarrow> string list \<Rightarrow> row list \<Rightarrow> string" where
  "csv_text rt columns rows = concat (map csv_line (columns # map (map (csv_cell rt)) rows))"

datatype export_format = Csv | Json | Parquet

record export_file =
  dl_body :: string
  dl_media :: string
  dl_name :: string
  dl_rows :: nat

definition export_payload :: "'k api \<Rightarrow> string list \<Rightarrow> row list \<Rightarrow> export_format \<Rightarrow> export_file result" where
  "export_payload a columns rows fmt =
     (let file = (\<lambda>ext. ''reconciliations-'' @ ap_stamp a @ ext) in
      case fmt of
        Json \<Rightarrow> Inr \<lparr>dl_body = json_dumps (ap_runtime a) (PList (map (\<lambda>r. PDict (zip columns r)) rows)),
            dl_media = ''application/json'', dl_name = file ''.json'', dl_rows = length rows\<rparr>
      | Csv \<Rightarrow> Inr \<lparr>dl_body = csv_text (ap_runtime a) columns rows, dl_media = ''text/csv'', dl_name = file ''.csv'',
            dl_rows = length rows\<rparr>
      | Parquet \<Rightarrow> bind_res (ap_parquet a columns rows) (\<lambda>body. Inr \<lparr>dl_body = body,
            dl_media = ''application/vnd.apache.parquet'', dl_name = file ''.parquet'', dl_rows = length rows\<rparr>))"

definition export_reconciliations :: "'k::linorder api \<Rightarrow> export_format \<Rightarrow> recon_filter \<Rightarrow> export_file db" where
  "export_reconciliations a fmt f =
     (if \<not> valid_filter f \<or> reversed_dates f then fail_st (HTTPException 422)
      else bind_st (query a (bind_st query_number (\<lambda>k. bind_st (read_view a ''equity_reconciliation_results'' recon_needed recon_view) (\<lambda>tb.
               return_st (section_of a recon_columns recon_order (recon_where f) tb k (nat (ap_export_max a + 1)) 0))))) (\<lambda>rows.
           if ap_export_max a < int (length rows) then fail_st (HTTPException 413)
           else lift_res (export_payload a recon_columns rows fmt)))"

subsection \<open>Requests\<close>

datatype request =
    Health
  | Runs int int
  | Run string
  | Reconciliations recon_filter int int
  | Exceptions exception_filter int int
  | Export export_format recon_filter

datatype response =
    Healthy int
  | Unhealthy
  | Listing list_view
  | Detail run_detail
  | Download export_file

definition answer_as :: "('a \<Rightarrow> response) \<Rightarrow> 'a db \<Rightarrow> response db" where
  "answer_as f m = bind_st m (\<lambda>x. return_st (f x))"

definition health :: "'k api \<Rightarrow> response db" where
  "health a s = (case query a (statement (ap_engine a) no_op) s of
     (Inr _, s') \<Rightarrow> (Inr (Healthy (ap_limit a)), s')
   | (Inl (HTTPException n), s') \<Rightarrow> (Inr Unhealthy, s')
   | (Inl e, s') \<Rightarrow> (Inl e, s'))"

fun endpoint :: "'k::linorder api \<Rightarrow> request \<Rightarrow> response db" where
  "endpoint a Health = health a"
| "endpoint a (Runs limit offset) = answer_as Listing (list_runs a limit offset)"
| "endpoint a (Run run_id) = answer_as Detail (get_run a run_id)"
| "endpoint a (Reconciliations f limit offset) = answer_as Listing (list_reconciliations a f limit offset)"
| "endpoint a (Exceptions f limit offset) = answer_as Listing (list_exceptions a f limit offset)"
| "endpoint a (Export fmt f) = answer_as Download (export_reconciliations a fmt f)"

definition handle :: "'k::linorder api \<Rightarrow> (string \<times> string) option \<Rightarrow> request \<Rightarrow> response db" where
  "handle a credentials req =
     (if req = Health then endpoint a req
      else bind_st (lift_res (authenticate a credentials)) (\<lambda>_. endpoint a req))"

text \<open>\<open>create_app\<close>\<close>

definition create_app :: "'k api \<Rightarrow> 'k api result" where
  "create_app a =
     (if ap_export_max a \<le> 0 then Inl (ValueError ''export_max_rows must be positive'')
      else bind_res (new_pool (ap_limit a) (Fin 2)) (\<lambda>_. Inr a))"

subsection \<open>Nothing is written\<close>

definition same_tables :: "store \<Rightarrow> store \<Rightarrow> bool" where
  "same_tables s s' \<longleftrightarrow> st_tables s' = st_tables s"

lemma same_tables_order: "reflp same_tables" "transp same_tables"
  by (auto simp: same_tables_def reflp_def transp_def)

lemma reads_number: "steps_by same_tables query_number"
  by (rule steps_byI) (simp add: query_number_def same_tables_def)

lemma reads_scan: "steps_by same_tables (scan eng name cols)"
  by (rule steps_byI) (simp add: same_tables_def scan_tables)

lemma reads_query: "steps_by same_tables m \<Longrightarrow> steps_by same_tables (query a m)"
  by (rule steps_byI) (auto simp: query_def with_slot_def same_tables_def split: if_splits prod.splits sum.splits dest: steps_byD)

lemma reads_if: "steps_by R m \<Longrightarrow> steps_by R n \<Longrightarrow> steps_by R (if b then m else n)"
  by simp

lemmas reads = steps_by_bind [OF same_tables_order(2)] steps_by_pure [OF same_tables_order(1)] reads_number
  reads_scan reads_query reads_if

lemma reads_view: "steps_by same_tables (read_view a name needed view)"
  unfolding read_view_def by (intro reads) (auto intro: reads split: prod.split)

lemma reads_select: "steps_by same_tables (select eng name cols key v)"
  by (rule steps_byI) (auto simp: select_def statement_def select_rows_def same_tables_def Let_def split: option.splits if_splits)

lemma reads_listing: "steps_by same_tables (listing_of a name needed view cols key cond limit offset)"
  unfolding listing_of_def by (intro reads reads_view)

lemma reads_case_list:
  "steps_by R m \<Longrightarrow> (\<And>x xs. steps_by R (f x xs)) \<Longrightarrow> steps_by R (case l of [] \<Rightarrow> m | x # xs \<Rightarrow> f x xs)"
  by (cases l) simp_all

lemma reads_get_run: "steps_by same_tables (get_run a run_id)"
  unfolding get_run_def by (intro reads reads_view reads_select reads_case_list)

lemma reads_health: "steps_by same_tables (health a)"
  by (rule steps_byI) (auto simp: health_def query_def with_slot_def statement_def no_op_def same_tables_def Let_def
    split: if_splits prod.splits sum.splits option.splits exn.splits)

lemma reads_endpoint: "steps_by same_tables (endpoint a req)"
  by (cases req)
    (auto simp: answer_as_def list_runs_def list_reconciliations_def list_exceptions_def export_reconciliations_def
      intro!: reads reads_view reads_listing reads_get_run reads_health)

lemma authenticate_Inr:
  assumes "authenticate a credentials = Inr ()"
  shows "\<exists>scheme token. credentials = Some (scheme, token) \<and> py_lower scheme = ''bearer'' \<and> token \<noteq> [] \<and>
    (ap_key a = Some token \<or> ap_env a ''RECONCILIATION_EXPORT_API_KEY'' = Some token)"
  using assms
  by (auto simp: authenticate_def compare_digest_def set_value_def res_simps split: option.splits list.splits if_splits prod.splits)

subsection \<open>What a listing returns\<close>

lemma query_Inr: "query a m s = (Inr x, s') \<Longrightarrow> m s = (Inr x, s')"
  by (auto simp: query_def with_slot_def split: if_splits prod.splits sum.splits)

lemma read_view_Inr:
  assumes "read_view a name needed view s = (Inr tb, s')"
  obtains base where "map_of (st_tables s) name = Some base" "view (ap_engine a) base = Inr tb" "st_tables s' = st_tables s"
  using assms unfolding read_view_def
  by (elim bind_st_cases) (auto simp: st_simps dest: scan_Inr split: prod.splits)

lemma listing_of_Inr:
  assumes "listing_of a name needed view cols key cond limit offset s = (Inr v, s')"
  obtains base tb n where "map_of (st_tables s) name = Some base" "view (ap_engine a) base = Inr tb"
    "lv_items v = section_of a cols key cond tb n (nat limit) (nat offset)"
    "lv_page v = pagination (nat limit) (nat offset) (length (filter (cond tb) (tb_rows tb)))" "lv_columns v = cols"
proof -
  from assms obtain k s1 items where q: "query a (bind_st (read_view a name needed view)
        (\<lambda>tb. return_st (length (filter (cond tb) (tb_rows tb))))) s = (Inr k, s1)"
    and i: "query a (bind_st query_number (\<lambda>k. bind_st (read_view a name needed view) (\<lambda>tb.
         return_st (section_of a cols key cond tb k (nat limit) (nat offset))))) s1 = (Inr items, s')"
    and v: "v = \<lparr>lv_columns = cols, lv_items = items, lv_page = pagination (nat limit) (nat offset) k\<rparr>"
    unfolding listing_of_def by (elim bind_st_cases) (auto simp: st_simps)
  from query_Inr [OF q] obtain tb s2 where r: "read_view a name needed view s = (Inr tb, s2)"
    and k: "k = length (filter (cond tb) (tb_rows tb))" "st_tables s1 = st_tables s2"
    by (elim bind_st_cases) (auto simp: st_simps)
  from read_view_Inr [OF r] obtain base where b: "map_of (st_tables s) name = Some base" "view (ap_engine a) base = Inr tb"
    "st_tables s2 = st_tables s" .
  from query_Inr [OF i] obtain tb' s3 where r': "read_view a name needed view s1 = (Inr tb', s3)"
    and items: "items = section_of a cols key cond tb' (st_steps s1) (nat limit) (nat offset)"
    by (elim bind_st_cases) (auto simp: st_simps query_number_def)
  from read_view_Inr [OF r'] b k(2) have "tb' = tb" by force
  with that [OF b(1,2)] items v k(1) show thesis by simp
qed

subsection \<open>Following the pages\<close>

text \<open>A client that asks for the next page as long as the answer names one.\<close>

fun follow :: "nat \<Rightarrow> (int \<Rightarrow> list_view db) \<Rightarrow> int \<Rightarrow> row list db" where
  "follow 0 get offset = return_st []"
| "follow (Suc k) get offset = bind_st (get offset) (\<lambda>v.
     case pg_next (lv_page v) of
       None \<Rightarrow> return_st (lv_items v)
     | Some next \<Rightarrow> bind_st (follow k get (int next)) (\<lambda>rest. return_st (lv_items v @ rest)))"

text \<open>What a paginated endpoint promises as long as the store does not change: every page it returns is a section of
  one list.\<close>

locale listing =
  fixes steady :: "'d \<Rightarrow> store \<Rightarrow> bool" and get :: "'d \<Rightarrow> int \<Rightarrow> int \<Rightarrow> list_view db" and whole :: "'d \<Rightarrow> store \<Rightarrow> row list"
  assumes keeps: "steady d s \<Longrightarrow> get d limit offset s = (r, s') \<Longrightarrow> steady d s' \<and> whole d s' = whole d s"
    and sections: "steady d s \<Longrightarrow> get d limit offset s = (Inr v, s') \<Longrightarrow> 0 < limit \<and>
      lv_items v = page (nat limit) (nat offset) (whole d s) \<and>
      pg_next (lv_page v) = next_offset (nat limit) (nat offset) (length (whole d s))"
begin

lemma follow_complete:
  assumes "steady d s" and "follow k (get d limit) (int offset) s = (Inr rows, s')" and "0 < k"
    and "length (whole d s) \<le> offset + k"
  shows "rows = drop offset (whole d s)"
  using assms
proof (induction k arbitrary: offset s rows)
  case (Suc k)
  from Suc.prems(2) obtain v s1 where g: "get d limit (int offset) s = (Inr v, s1)"
    and rest: "(case pg_next (lv_page v) of None \<Rightarrow> return_st (lv_items v)
      | Some next \<Rightarrow> bind_st (follow k (get d limit) (int next)) (\<lambda>rest. return_st (lv_items v @ rest))) s1 = (Inr rows, s')"
    by (auto elim: bind_st_cases)
  from sections [OF Suc.prems(1) g] have v: "0 < limit" "lv_items v = page (nat limit) offset (whole d s)"
    "pg_next (lv_page v) = next_offset (nat limit) offset (length (whole d s))" by simp_all
  show ?case
  proof (cases "offset + nat limit < length (whole d s)")
    case True
    from True v rest obtain tail where t: "follow k (get d limit) (int (offset + nat limit)) s1 = (Inr tail, s')"
      and rows: "rows = lv_items v @ tail"
      by (auto simp: next_offset_def st_simps elim: bind_st_cases)
    have "0 < k" using True Suc.prems(4) v(1) by (cases k) simp_all
    moreover note keeps [OF Suc.prems(1) g]
    ultimately have "tail = drop (offset + nat limit) (whole d s)"
      using Suc.IH [of s1 "offset + nat limit" tail] t Suc.prems(4) v(1) by force
    then have "tail = drop (nat limit) (drop offset (whole d s))" by (simp add: add.commute)
    with rows v(2) show ?thesis by (simp add: page_def del: drop_drop)
  next
    case False
    with v rest show ?thesis by (simp add: next_offset_def page_def st_simps)
  qed
qed simp

end

text \<open>The endpoints are such listings when their sort keys tell the rows apart.\<close>

definition whole_of :: "'k api \<Rightarrow> string list \<Rightarrow> ('k collation \<Rightarrow> table \<Rightarrow> row \<Rightarrow> 'o::linorder) \<Rightarrow> (table \<Rightarrow> row \<Rightarrow> bool) \<Rightarrow>
    table \<Rightarrow> row list" where
  "whole_of a cols key cond tb = map (cells tb cols) (sort_key (key (ap_collation a) tb) (filter (cond tb) (tb_rows tb)))"

definition table_view :: "'k api \<Rightarrow> string \<Rightarrow> (engine \<Rightarrow> table \<Rightarrow> table result) \<Rightarrow> store \<Rightarrow> table" where
  "table_view a name view s =
     (case map_of (st_tables s) name of None \<Rightarrow> new_table [] [] [] []
      | Some base \<Rightarrow> (case view (ap_engine a) base of Inl e \<Rightarrow> new_table [] [] [] [] | Inr tb \<Rightarrow> tb))"

definition told_apart :: "'k api \<Rightarrow> ('k collation \<Rightarrow> table \<Rightarrow> row \<Rightarrow> 'o::linorder) \<Rightarrow> (table \<Rightarrow> row \<Rightarrow> bool) \<Rightarrow> table \<Rightarrow> bool" where
  "told_apart a key cond tb \<longleftrightarrow> fair (ap_collation a) \<and> inj_on (key (ap_collation a) tb) (set (filter (cond tb) (tb_rows tb)))"

lemma section_unique:
  "told_apart a key cond tb \<Longrightarrow> section_of a cols key cond tb n limit offset = page limit offset (whole_of a cols key cond tb)"
  by (simp add: told_apart_def section_of_def whole_of_def order_by_unique page_def take_map drop_map)

lemma length_whole [simp]: "length (whole_of a cols key cond tb) = length (filter (cond tb) (tb_rows tb))"
  by (simp add: whole_of_def)

lemma listing_sections:
  assumes "told_apart a key cond (table_view a name view s)" and "listing_of a name needed view cols key cond limit offset s = (r, s')"
  shows "st_tables s' = st_tables s" and "r = Inr v \<Longrightarrow>
    lv_items v = page (nat limit) (nat offset) (whole_of a cols key cond (table_view a name view s)) \<and>
    pg_next (lv_page v) = next_offset (nat limit) (nat offset) (length (whole_of a cols key cond (table_view a name view s)))"
proof -
  show "st_tables s' = st_tables s" using steps_byD [OF reads_listing assms(2)] by (simp add: same_tables_def)
  assume "r = Inr v"
  from listing_of_Inr [OF assms(2) [unfolded this]] obtain base tb n where l: "map_of (st_tables s) name = Some base"
    "view (ap_engine a) base = Inr tb" "lv_items v = section_of a cols key cond tb n (nat limit) (nat offset)"
    "lv_page v = pagination (nat limit) (nat offset) (length (filter (cond tb) (tb_rows tb)))" .
  then have "table_view a name view s = tb" by (simp add: table_view_def)
  with l assms(1) show "lv_items v = page (nat limit) (nat offset) (whole_of a cols key cond (table_view a name view s)) \<and>
    pg_next (lv_page v) = next_offset (nat limit) (nat offset) (length (whole_of a cols key cond (table_view a name view s)))"
    by (simp add: section_unique pagination_def)
qed

lemma table_view_same: "st_tables s' = st_tables s \<Longrightarrow> table_view a name view s' = table_view a name view s"
  by (simp add: table_view_def)

text \<open>An endpoint checks its parameters first.\<close>

lemma guarded_sections:
  assumes "told_apart a key cond (table_view a name view s)"
    and "(if bad then fail_st e else listing_of a name needed view cols key cond limit offset) s = (r, s')"
  shows "table_view a name view s' = table_view a name view s" and "r = Inr v \<Longrightarrow> \<not> bad \<and>
    lv_items v = page (nat limit) (nat offset) (whole_of a cols key cond (table_view a name view s)) \<and>
    pg_next (lv_page v) = next_offset (nat limit) (nat offset) (length (whole_of a cols key cond (table_view a name view s)))"
proof -
  show "table_view a name view s' = table_view a name view s"
    using assms(2) listing_sections(1) [OF assms(1)] by (cases bad) (auto simp: st_simps intro: table_view_same)
  assume "r = Inr v"
  with assms(2) have b: "\<not> bad" by (auto simp: st_simps)
  with assms(2) listing_sections(2) [OF assms(1) _ \<open>r = Inr v\<close>] show "\<not> bad \<and>
    lv_items v = page (nat limit) (nat offset) (whole_of a cols key cond (table_view a name view s)) \<and>
    pg_next (lv_page v) = next_offset (nat limit) (nat offset) (length (whole_of a cols key cond (table_view a name view s)))"
    by simp
qed

definition runs_table :: "'k api \<Rightarrow> store \<Rightarrow> table" where
  "runs_table a = table_view a ''pipeline_runs'' as_stored"

definition runs_steady :: "'k::linorder api \<Rightarrow> store \<Rightarrow> bool" where
  "runs_steady a s \<longleftrightarrow> told_apart a run_order (\<lambda>tb r. True) (runs_table a s)"

definition runs_whole :: "'k::linorder api \<Rightarrow> store \<Rightarrow> row list" where
  "runs_whole a s = whole_of a run_columns run_order (\<lambda>tb r. True) (runs_table a s)"

interpretation run_pages: listing runs_steady list_runs runs_whole
proof
  fix a :: "'k::linorder api" and s limit offset and r :: "list_view result" and s' v
  let ?bad = "\<not> valid_page limit offset"
  assume "runs_steady a s"
  then have t: "told_apart a run_order (\<lambda>tb r. True) (table_view a ''pipeline_runs'' as_stored s)"
    by (simp add: runs_steady_def runs_table_def)
  note g = guarded_sections [OF t, of ?bad "HTTPException 422" run_columns run_columns limit offset, folded list_runs_def]
  show "runs_steady a s' \<and> runs_whole a s' = runs_whole a s" if "list_runs a limit offset s = (r, s')"
    using g(1) [of r s'] that t by (simp add: runs_steady_def runs_whole_def runs_table_def)
  show "0 < limit \<and> lv_items v = page (nat limit) (nat offset) (runs_whole a s) \<and>
      pg_next (lv_page v) = next_offset (nat limit) (nat offset) (length (runs_whole a s))"
    if "list_runs a limit offset s = (Inr v, s')"
    using g(2) [of "Inr v" s' v] that by (simp add: runs_whole_def runs_table_def valid_page_def)
qed

definition exceptions_table :: "'k api \<Rightarrow> store \<Rightarrow> table" where
  "exceptions_table a = table_view a ''equity_exceptions'' as_stored"

definition exceptions_steady :: "'k::linorder api \<times> exception_filter \<Rightarrow> store \<Rightarrow> bool" where
  "exceptions_steady = (\<lambda>(a, f) s. told_apart a exception_order (exception_where f) (exceptions_table a s))"

definition exceptions_whole :: "'k::linorder api \<times> exception_filter \<Rightarrow> store \<Rightarrow> row list" where
  "exceptions_whole = (\<lambda>(a, f) s. whole_of a exception_fields exception_order (exception_where f) (exceptions_table a s))"

interpretation exception_pages: listing exceptions_steady "\<lambda>(a, f). list_exceptions a f" exceptions_whole
proof
  fix d :: "'k::linorder api \<times> exception_filter" and s limit offset and r :: "list_view result" and s' v
  obtain a f where d: "d = (a, f)" by fastforce
  let ?bad = "\<not> holds symbol_pattern (ef_symbol f) \<or> \<not> valid_page limit offset"
  assume "exceptions_steady d s"
  then have t: "told_apart a exception_order (exception_where f) (table_view a ''equity_exceptions'' as_stored s)"
    by (simp add: exceptions_steady_def exceptions_table_def d)
  note g = guarded_sections [OF t, of ?bad "HTTPException 422" exception_fields exception_fields limit offset, folded list_exceptions_def]
  show "exceptions_steady d s' \<and> exceptions_whole d s' = exceptions_whole d s"
    if "(case d of (a, f) \<Rightarrow> list_exceptions a f) limit offset s = (r, s')"
    using g(1) [of r s'] that t by (simp add: d exceptions_steady_def exceptions_whole_def exceptions_table_def)
  show "0 < limit \<and> lv_items v = page (nat limit) (nat offset) (exceptions_whole d s) \<and>
      pg_next (lv_page v) = next_offset (nat limit) (nat offset) (length (exceptions_whole d s))"
    if "(case d of (a, f) \<Rightarrow> list_exceptions a f) limit offset s = (Inr v, s')"
    using g(2) [of "Inr v" s' v] that by (simp add: d exceptions_whole_def exceptions_table_def valid_page_def)
qed

definition recon_table :: "'k api \<Rightarrow> store \<Rightarrow> table" where
  "recon_table a = table_view a ''equity_reconciliation_results'' recon_view"

definition recon_steady :: "'k::linorder api \<times> recon_filter \<Rightarrow> store \<Rightarrow> bool" where
  "recon_steady = (\<lambda>(a, f) s. told_apart a recon_order (recon_where f) (recon_table a s))"

definition recon_whole :: "'k::linorder api \<times> recon_filter \<Rightarrow> store \<Rightarrow> row list" where
  "recon_whole = (\<lambda>(a, f) s. whole_of a recon_columns recon_order (recon_where f) (recon_table a s))"

interpretation recon_pages: listing recon_steady "\<lambda>(a, f). list_reconciliations a f" recon_whole
proof
  fix d :: "'k::linorder api \<times> recon_filter" and s limit offset and r :: "list_view result" and s' v
  obtain a f where d: "d = (a, f)" by fastforce
  let ?bad = "\<not> valid_filter f \<or> \<not> valid_page limit offset \<or> reversed_dates f"
  assume "recon_steady d s"
  then have t: "told_apart a recon_order (recon_where f) (table_view a ''equity_reconciliation_results'' recon_view s)"
    by (simp add: recon_steady_def recon_table_def d)
  note g = guarded_sections [OF t, of ?bad "HTTPException 422" recon_needed recon_columns limit offset, folded list_reconciliations_def]
  show "recon_steady d s' \<and> recon_whole d s' = recon_whole d s"
    if "(case d of (a, f) \<Rightarrow> list_reconciliations a f) limit offset s = (r, s')"
    using g(1) [of r s'] that t by (simp add: d recon_steady_def recon_whole_def recon_table_def)
  show "0 < limit \<and> lv_items v = page (nat limit) (nat offset) (recon_whole d s) \<and>
      pg_next (lv_page v) = next_offset (nat limit) (nat offset) (length (recon_whole d s))"
    if "(case d of (a, f) \<Rightarrow> list_reconciliations a f) limit offset s = (Inr v, s')"
    using g(2) [of "Inr v" s' v] that by (simp add: d recon_whole_def recon_table_def valid_page_def)
qed

subsection \<open>Keys\<close>

lemma told_apart_by:
  assumes "fair (ap_collation a)" and "distinct (map h (tb_rows tb))"
    and "\<And>r r'. r \<in> set (filter (cond tb) (tb_rows tb)) \<Longrightarrow> r' \<in> set (filter (cond tb) (tb_rows tb)) \<Longrightarrow>
      key (ap_collation a) tb r = key (ap_collation a) tb r' \<Longrightarrow> h r = h r'"
  shows "told_apart a key cond tb"
  unfolding told_apart_def using assms inj_on_eq_iff [OF distinct_map [THEN iffD1, OF assms(2), THEN conjunct2]]
  by (auto intro!: inj_onI)

text \<open>A reconciliation is identified by its run, symbol, date and pair of sources.\<close>

lemma recon_group_fields:
  assumes "recon_view eng base = Inr tb" and "r \<in> set (tb_rows tb)"
  shows "take 5 r = map (\<lambda>c. field tb c r) recon_group"
proof -
  obtain ks where ks: "map_res (group_key eng base) (tb_rows base) = Inr ks"
    and tb: "tb = new_table (map (\<lambda>c. plain c VARCHAR) recon_columns) [] [] []
       \<lparr>tb_rows := map (\<lambda>k. recon_row base k (map snd (filter (\<lambda>(k', r). k' = k) (zip ks (tb_rows base))))) (uniq ks)\<rparr>"
    using assms(1) by (auto simp: recon_view_def res_simps)
  from assms(2) obtain k rs where k: "k \<in> set ks" "r = recon_row base k rs" by (auto simp: tb set_uniq)
  from map_res_set [OF ks k(1)] obtain q1 q2 q3 q4 q5 where "k = [q1, q2, q3, q4, q5]"
    by (auto simp: group_key_def split: option.splits)
  with k(2) show ?thesis
    by (simp add: tb recon_row_def Let_def field_def row_view_def new_table_def recon_columns_def recon_group_def
        column_names_def plain_def)
qed

lemma recon_view_distinct:
  assumes "recon_view eng base = Inr tb"
  shows "distinct (map (take 5) (tb_rows tb))"
proof -
  obtain ks where ks: "map_res (group_key eng base) (tb_rows base) = Inr ks"
    and tb: "tb_rows tb = map (\<lambda>k. recon_row base k (map snd (filter (\<lambda>(k', r). k' = k) (zip ks (tb_rows base))))) (uniq ks)"
    using assms by (auto simp: recon_view_def res_simps)
  have "take 5 (recon_row base k rs) = k" if "k \<in> set ks" for k rs
    using map_res_set [OF ks that] by (auto simp: recon_row_def Let_def group_key_def split: option.splits)
  then have "map (take 5) (tb_rows tb) = map (\<lambda>k. k) (uniq ks)"
    unfolding tb map_map by (intro map_cong refl) (simp add: set_uniq)
  then show ?thesis by simp
qed

lemma recon_told_apart:
  assumes "fair (ap_collation a)" and "recon_view eng base = Inr tb" and "rf_run f = Some run"
  shows "told_apart a recon_order (recon_where f) tb"
proof (rule told_apart_by [OF assms(1) recon_view_distinct [OF assms(2)]])
  fix r r' assume r: "r \<in> set (filter (recon_where f tb) (tb_rows tb))" "r' \<in> set (filter (recon_where f tb) (tb_rows tb))"
    and key: "recon_order (ap_collation a) tb r = recon_order (ap_collation a) tb r'"
  have "field tb ''run_id'' r = field tb ''run_id'' r'" using r assms(3) by (simp add: recon_where_def holds_def)
  with key have "map (\<lambda>c. field tb c r) recon_group = map (\<lambda>c. field tb c r') recon_group"
    by (simp add: recon_order_def recon_group_def keys_injective [OF assms(1)])
  with r recon_group_fields [OF assms(2)] show "take 5 r = take 5 r'" by simp
qed

lemma recon_steady:
  assumes "fair (ap_collation a)" and "rf_run f = Some run"
  shows "recon_steady (a, f) s"
proof -
  have empty: "told_apart a recon_order (recon_where f) (new_table [] [] [] [])"
    using assms(1) by (simp add: told_apart_def new_table_def)
  show ?thesis
    using recon_told_apart [OF assms(1) _ assms(2)] empty
    by (auto simp: recon_steady_def recon_table_def table_view_def split: option.splits sum.splits)
qed

subsection \<open>Properties\<close>

text \<open>C35 (query_slots_bounded): however requests take and return slots and are turned away, never more than the
  configured number of queries run, a slot is free exactly when fewer run, and when none runs all slots are
  free again.\<close>

theorem query_slots_bounded:
  assumes "new_pool n timeout = Inr p" and "slot_step\<^sup>*\<^sup>* p q"
  shows "card (sp_active q) \<le> nat n \<and> nat n \<le> 32 \<and> sp_free q = nat n - card (sp_active q) \<and>
    (sp_active q = {} \<longrightarrow> sp_free q = nat n)"
proof -
  have p: "pool_ok p" "sp_limit p = nat n" "nat n \<le> 32"
    using assms(1) by (auto simp: new_pool_def pool_ok_def split: if_splits)
  from pool_reachable [OF assms(2) p(1)] p show ?thesis by (auto simp: pool_ok_def)
qed

text \<open>C19 (only_key_holders_read): no request changes a table, and every answer but that of the health check goes to a
  caller who presented a token that is the configured key.\<close>

theorem only_key_holders_read:
  assumes "handle a credentials req s = (r, s')"
  shows "st_tables s' = st_tables s \<and>
    (is_ok r \<longrightarrow> req = Health \<or> (\<exists>scheme token. credentials = Some (scheme, token) \<and> py_lower scheme = ''bearer'' \<and> token \<noteq> [] \<and>
       (ap_key a = Some token \<or> ap_env a ''RECONCILIATION_EXPORT_API_KEY'' = Some token)))"
proof -
  have "steps_by same_tables (handle a credentials req)"
    unfolding handle_def by (intro reads reads_endpoint)
  from steps_byD [OF this assms] have "st_tables s' = st_tables s" by (simp add: same_tables_def)
  moreover have "authenticate a credentials = Inr ()" if "is_ok r" "req \<noteq> Health"
    using assms that by (auto simp: handle_def st_simps is_ok_iff elim!: bind_st_cases)
  ultimately show ?thesis using authenticate_Inr [of a credentials] by blast
qed

text \<open>C20 (pages_of_a_run_complete): a client that follows the pages of the reconciliations of one run receives every
  matching reconciliation exactly once and in order, for every page size and whatever order the engine gives to
  rows of equal rank in each query.\<close>

theorem pages_of_a_run_complete:
  assumes "fair (ap_collation a)" and "rf_run f = Some run"
    and "map_of (st_tables s) ''equity_reconciliation_results'' = Some base" and "recon_view (ap_engine a) base = Inr tb"
    and "follow k (list_reconciliations a f limit) 0 s = (Inr rows, s')" and "length (tb_rows tb) < k"
  shows "rows = map (cells tb recon_columns) (sort_key (recon_order (ap_collation a) tb) (filter (recon_where f tb) (tb_rows tb)))"
proof -
  have tb: "recon_table a s = tb" using assms(3,4) by (simp add: recon_table_def table_view_def)
  have "length (recon_whole (a, f) s) \<le> 0 + k"
    using order.trans [OF length_filter_le less_imp_le [OF assms(6)]] by (simp add: recon_whole_def tb)
  with recon_pages.follow_complete [of "(a, f)" s k limit 0 rows s'] recon_steady [OF assms(1,2)] assms(5,6)
  have "rows = recon_whole (a, f) s" by simp
  then show ?thesis by (simp add: recon_whole_def tb whole_of_def)
qed

text \<open>Following the pages of the runs, and of the exceptions under any filter,
  also returns every matching row exactly once and in order, as their identifiers are keys.\<close>

theorem run_and_exception_pages_complete:
  assumes "fair (ap_collation a)" and "map_of (st_tables s) ''pipeline_runs'' = Some runs"
    and "distinct (map (field runs ''run_id'') (tb_rows runs))"
    and "map_of (st_tables s) ''equity_exceptions'' = Some exs"
    and "distinct (map (field exs ''exception_id'') (tb_rows exs))"
    and "length (tb_rows runs) < k" and "length (tb_rows exs) < k"
  shows "(\<forall>rows s'. follow k (list_runs a limit) 0 s = (Inr rows, s') \<longrightarrow>
      rows = map (cells runs run_columns) (sort_key (run_order (ap_collation a) runs) (tb_rows runs))) \<and>
    (\<forall>rows s'. follow k (list_exceptions a f limit) 0 s = (Inr rows, s') \<longrightarrow>
      rows = map (cells exs exception_fields)
        (sort_key (exception_order (ap_collation a) exs) (filter (exception_where f exs) (tb_rows exs))))"
proof (intro conjI allI impI)
  have t: "runs_table a s = runs" "exceptions_table a s = exs"
    using assms(2,4) by (simp_all add: runs_table_def exceptions_table_def table_view_def as_stored_def)
  have "told_apart a run_order (\<lambda>tb r. True) runs"
    by (rule told_apart_by [OF assms(1,3)]) (simp add: run_order_def keys_injective [OF assms(1)])
  then have r: "runs_steady a s" by (simp add: runs_steady_def t)
  have "told_apart a exception_order (exception_where f) exs"
    by (rule told_apart_by [OF assms(1,5)]) (simp add: exception_order_def keys_injective [OF assms(1)])
  then have e: "exceptions_steady (a, f) s" by (simp add: exceptions_steady_def t)
  fix rows s'
  { assume "follow k (list_runs a limit) 0 s = (Inr rows, s')"
    then have "rows = runs_whole a s"
      using run_pages.follow_complete [OF r, of k limit 0 rows s'] assms(6) by (simp add: runs_whole_def t)
    then show "rows = map (cells runs run_columns) (sort_key (run_order (ap_collation a) runs) (tb_rows runs))"
      by (simp add: runs_whole_def t whole_of_def) }
  assume "follow k (list_exceptions a f limit) 0 s = (Inr rows, s')"
  moreover have "length (exceptions_whole (a, f) s) \<le> 0 + k"
    using order.trans [OF length_filter_le less_imp_le [OF assms(7)]] by (simp add: exceptions_whole_def t)
  ultimately have "rows = exceptions_whole (a, f) s"
    using exception_pages.follow_complete [OF e, of k limit 0 rows s'] assms(7) by simp
  then show "rows = map (cells exs exception_fields)
      (sort_key (exception_order (ap_collation a) exs) (filter (exception_where f exs) (tb_rows exs)))"
    by (simp add: exceptions_whole_def t whole_of_def)
qed


text \<open>C36 (export_complete): an export that is answered holds every matching reconciliation exactly once, never a part of
  them: where more match than the limit allows, there is no file.\<close>

theorem export_complete:
  assumes "fair (ap_collation a)" and "0 < ap_export_max a"
    and "map_of (st_tables s) ''equity_reconciliation_results'' = Some base" and "recon_view (ap_engine a) base = Inr tb"
    and "export_reconciliations a fmt f s = (Inr d, s')"
  shows "int (dl_rows d) \<le> ap_export_max a \<and>
    (\<exists>rows. mset rows = mset (map (cells tb recon_columns) (filter (recon_where f tb) (tb_rows tb))) \<and>
       export_payload a recon_columns rows fmt = Inr d)"
proof -
  from assms(5) obtain rows s1 where q: "query a (bind_st query_number (\<lambda>k. bind_st
        (read_view a ''equity_reconciliation_results'' recon_needed recon_view) (\<lambda>tb.
          return_st (section_of a recon_columns recon_order (recon_where f) tb k (nat (ap_export_max a + 1)) 0)))) s = (Inr rows, s1)"
    and small: "int (length rows) \<le> ap_export_max a" and d: "export_payload a recon_columns rows fmt = Inr d"
    by (auto simp: export_reconciliations_def st_simps split: if_splits elim!: bind_st_cases)
  from query_Inr [OF q] obtain tb' s2 where "read_view a ''equity_reconciliation_results'' recon_needed recon_view s = (Inr tb', s2)"
    and rows: "rows = section_of a recon_columns recon_order (recon_where f) tb' (st_steps s) (nat (ap_export_max a + 1)) 0"
    by (elim bind_st_cases) (auto simp: st_simps query_number_def)
  from read_view_Inr [OF this(1)] assms(3,4) have tb: "tb' = tb" by force
  let ?ordered = "order_by (recon_order (ap_collation a) tb) (ap_collation a) (st_steps s) (filter (recon_where f tb) (tb_rows tb))"
  have rows: "rows = map (cells tb recon_columns) (take (nat (ap_export_max a + 1)) ?ordered)"
    by (simp add: rows tb section_of_def page_def)
  with small assms(2) have "take (nat (ap_export_max a + 1)) ?ordered = ?ordered" by (auto simp: min_def split: if_splits)
  with rows have "rows = map (cells tb recon_columns) ?ordered" by simp
  moreover have "mset ?ordered = mset (filter (recon_where f tb) (tb_rows tb))"
    using assms(1) by (simp add: order_by_def fair_def)
  ultimately have "mset rows = mset (map (cells tb recon_columns) (filter (recon_where f tb) (tb_rows tb)))" by simp
  moreover have "dl_rows d = length rows"
    using d by (auto simp: export_payload_def Let_def res_simps split: export_format.splits)
  ultimately show ?thesis using small d by auto
qed

subsection \<open>Examples\<close>

definition sample_row :: "string \<Rightarrow> int \<Rightarrow> string \<Rightarrow> pyval \<Rightarrow> row" where
  "sample_row run day metric v = map (\<lambda>c. dict_get PNone
     [(''run_id'', PStr run), (''symbol'', PStr ''AAPL''), (''timestamp'', PDate day), (''source_a'', PStr ''yahoo''),
      (''source_b'', PStr ''alpaca''), (''source_a_value'', v), (''source_b_value'', v), (''difference'', PFloat (Fin 0)),
      (''metric_name'', PStr metric), (''is_discrepancy'', PBool False), (''status'', PStr ''MATCH'')] c)
     (column_names equity_reconciliation_results)"

definition sample_results :: table where
  "sample_results = equity_reconciliation_results\<lparr>tb_rows :=
     [sample_row ''r1'' 1 ''close'' (PFloat (Fin 2)), sample_row ''r1'' 1 ''volume'' (PFloat (Fin 7)),
      sample_row ''r1'' 2 ''close'' (PFloat (Fin 3)), sample_row ''r2'' 1 ''close'' (PFloat (Fin 4))]\<rparr>"

definition sample_tables :: store where
  "sample_tables = \<lparr>st_tables = [(''equity_reconciliation_results'', sample_results),
     (''pipeline_runs'', pipeline_runs\<lparr>tb_rows := [[PStr ''r1''], [PStr ''r2'']]\<rparr>),
     (''equity_exceptions'', equity_exceptions\<lparr>tb_rows := [[PStr ''x1''], [PStr ''x2'']]\<rparr>)], st_steps = 0\<rparr>"

definition sample_api :: "(pyval \<Rightarrow> 'k) \<Rightarrow> (nat \<Rightarrow> row list \<Rightarrow> row list) \<Rightarrow> 'k api" where
  "sample_api rk arr = \<lparr>ap_engine = plain_engine, ap_collation = \<lparr>rank = rk, arrange = arr\<rparr>, ap_runtime = sample_runtime,
     ap_busy = (\<lambda>n. False), ap_key = Some ''secret'', ap_env = (\<lambda>v. None), ap_limit = 4, ap_export_max = 100,
     ap_stamp = ''T'', ap_parquet = (\<lambda>cols rows. Inl OSError)\<rparr>"

abbreviation all_rows :: recon_filter where
  "all_rows \<equiv> \<lparr>rf_symbol = None, rf_date = None, rf_start = None, rf_stop = None, rf_status = None, rf_run = None\<rparr>"

abbreviation plain_api :: "nat api" where
  "plain_api \<equiv> sample_api to_nat (\<lambda>n rows. rows)"

lemma plain_api_fair: "fair (ap_collation plain_api)"
  by (simp add: sample_api_def fair_def)


lemma query_slots_bounded_witness:
  "\<exists>p q. new_pool 1 (Fin 2) = Inr p \<and> slot_step\<^sup>*\<^sup>* p q \<and> sp_active q = {7} \<and> sp_free q = 0 \<and> \<not> (\<exists>r. card (sp_active r) = 2 \<and> slot_step\<^sup>*\<^sup>* p r)"
proof -
  let ?p = "\<lparr>sp_limit = 1, sp_free = 1, sp_active = {}\<rparr> :: slot_pool"
  have p: "new_pool 1 (Fin 2) = Inr ?p" by (simp add: new_pool_def)
  have "slot_step ?p (?p\<lparr>sp_free := sp_free ?p - 1, sp_active := insert 7 (sp_active ?p)\<rparr>)" by (intro acquired) simp_all
  then have "slot_step\<^sup>*\<^sup>* ?p \<lparr>sp_limit = 1, sp_free = 0, sp_active = {7}\<rparr>" by simp
  moreover have "card (sp_active r) \<noteq> 2" if "slot_step\<^sup>*\<^sup>* ?p r" for r using query_slots_bounded [OF p that] by simp
  ultimately show ?thesis using p by fastforce
qed

lemma only_key_holders_read_witness:
  "\<not> is_ok (fst (handle plain_api (Some (''Bearer'', ''guess'')) (Runs 10 0) sample_tables))"
proof
  assume ok: "is_ok (fst (handle plain_api (Some (''Bearer'', ''guess'')) (Runs 10 0) sample_tables))"
  obtain r s' where h: "handle plain_api (Some (''Bearer'', ''guess'')) (Runs 10 0) sample_tables = (r, s')" by fastforce
  with only_key_holders_read [OF h] ok show False by (simp add: sample_api_def)
qed

abbreviation run_one :: recon_filter where
  "run_one \<equiv> all_rows\<lparr>rf_run := Some ''r1''\<rparr>"

lemma sample_answers:
  "is_ok (fst (follow 4 (list_reconciliations (sample_api rk (\<lambda>n rows. rows)) run_one 1) 0 sample_tables))"
  by code_simp


lemma sample_reports: "is_ok (recon_view plain_engine sample_results)" "length (tb_rows sample_results) = 4"
  by code_simp+

text \<open>The sample holds two runs; three groups of rows, two of which belong to the first run.\<close>

lemma sample_matches:
  assumes "recon_view plain_engine sample_results = Inr tb"
  shows "length (tb_rows tb) = 3" and "length (filter (recon_where run_one tb) (tb_rows tb)) = 2"
proof -
  have "(case recon_view plain_engine sample_results of Inl e \<Rightarrow> False | Inr tb \<Rightarrow> length (tb_rows tb) = 3 \<and>
      length (filter (recon_where run_one tb) (tb_rows tb)) = 2)" by code_simp
  with assms show "length (tb_rows tb) = 3" "length (filter (recon_where run_one tb) (tb_rows tb)) = 2" by simp_all
qed

lemma sample_view:
  obtains tb where "recon_view plain_engine sample_results = Inr tb"
  using sample_reports(1) by (auto simp: is_ok_iff)

lemma pages_of_a_run_complete_witness:
  "\<exists>rows s'. follow 4 (list_reconciliations plain_api run_one 1) 0 sample_tables = (Inr rows, s') \<and> length rows = 2"
proof -
  obtain rows s' where r: "follow 4 (list_reconciliations plain_api run_one 1) 0 sample_tables = (Inr rows, s')"
    using sample_answers [of to_nat] by (metis is_ok_iff surj_pair fst_conv)
  obtain tb where tb: "recon_view plain_engine sample_results = Inr tb" by (rule sample_view)
  have "rows = map (cells tb recon_columns) (sort_key (recon_order (ap_collation plain_api) tb) (filter (recon_where run_one tb) (tb_rows tb)))"
    by (rule pages_of_a_run_complete [OF plain_api_fair _ _ _ r, of "''r1''" sample_results tb])
      (use tb sample_matches(1) [OF tb] in \<open>simp_all add: sample_tables_def sample_api_def\<close>)
  with r sample_matches(2) [OF tb] show ?thesis by simp
qed

lemma sample_runs_answer:
  "is_ok (fst (follow 4 (list_runs (sample_api rk (\<lambda>n rows. rows)) 1) 0 sample_tables))"
  by code_simp

lemma run_and_exception_pages_complete_witness:
  "\<exists>rows s'. follow 4 (list_runs plain_api 1) 0 sample_tables = (Inr rows, s') \<and> length rows = 2"
proof -
  let ?runs = "pipeline_runs\<lparr>tb_rows := [[PStr ''r1''], [PStr ''r2'']]\<rparr>"
  let ?exs = "equity_exceptions\<lparr>tb_rows := [[PStr ''x1''], [PStr ''x2'']]\<rparr>"
  obtain rows s' where r: "follow 4 (list_runs plain_api 1) 0 sample_tables = (Inr rows, s')"
    using sample_runs_answer [of to_nat] by (metis is_ok_iff surj_pair fst_conv)
  have keys: "distinct (map (field ?runs ''run_id'') (tb_rows ?runs))" "distinct (map (field ?exs ''exception_id'') (tb_rows ?exs))"
    by code_simp+
  have tables: "map_of (st_tables sample_tables) ''pipeline_runs'' = Some ?runs" "map_of (st_tables sample_tables) ''equity_exceptions'' = Some ?exs"
    by (simp_all add: sample_tables_def)
  have "rows = map (cells ?runs run_columns) (sort_key (run_order (ap_collation plain_api) ?runs) (tb_rows ?runs))"
    by (rule run_and_exception_pages_complete [OF plain_api_fair tables(1) keys(1) tables(2) keys(2), THEN conjunct1, rule_format, OF _ _ r])
      simp_all
  with r show ?thesis by simp
qed

abbreviation run_day :: recon_filter where
  "run_day \<equiv> run_one\<lparr>rf_date := Some 1\<rparr>"

lemma sample_export: "is_ok (fst (export_reconciliations (sample_api rk (\<lambda>n rows. rows)) Csv run_day sample_tables))"
  by code_simp

lemma export_complete_witness:
  "\<exists>d s'. export_reconciliations plain_api Csv run_day sample_tables = (Inr d, s') \<and> int (dl_rows d) \<le> 100"
proof -
  obtain d s' where d: "export_reconciliations plain_api Csv run_day sample_tables = (Inr d, s')"
    using sample_export [of to_nat] by (metis is_ok_iff surj_pair fst_conv)
  obtain tb where tb: "recon_view plain_engine sample_results = Inr tb" by (rule sample_view)
  have "int (dl_rows d) \<le> ap_export_max plain_api"
    by (rule export_complete [OF plain_api_fair _ _ _ d, THEN conjunct1])
      (use tb in \<open>simp_all add: sample_tables_def sample_api_def\<close>)
  with d show ?thesis by (simp add: sample_api_def)
qed

text \<open>Without a filter by run the order of the reconciliations is not deterministic: the sort keys do not hold the
  run.  Two runs have reported the same symbol on the same day, and the engine meets the rows in another order
  for every other query: the client receives the row of one run twice and the other never.\<close>

definition two_runs :: store where
  "two_runs = \<lparr>st_tables = [(''equity_reconciliation_results'', equity_reconciliation_results\<lparr>tb_rows :=
     [sample_row ''r1'' 1 ''close'' (PFloat (Fin 2)), sample_row ''r2'' 1 ''close'' (PFloat (Fin 4))]\<rparr>)], st_steps = 0\<rparr>"

definition text_rank :: "pyval \<Rightarrow> string" where
  "text_rank v = (case v of PStr s \<Rightarrow> s | _ \<Rightarrow> [])"

definition turning :: "nat \<Rightarrow> row list \<Rightarrow> row list" where
  "turning n rows = (if n div 2 mod 2 = 0 then rows else rev rows)"

lemma pages_over_runs_repeat:
  "(case follow 2 (list_reconciliations (sample_api text_rank turning) all_rows 1) 0 two_runs of
      (Inr [r, r'], s') \<Rightarrow> r = r' \<and> hd r = PStr ''r1''
    | _ \<Rightarrow> False)"
  by code_simp

end
