(* ===== verification/Option_Control.thy ===== *)
theory Option_Control
  imports Options Persistence Adapters
begin

section \<open>The option control\<close>

text \<open>
  \<open>options_batch.py\<close>: one run over the option chains of Yahoo and Alpaca, from fetching them to the stored run.
  The vendor libraries, pandas' merge and the clocks are arguments.
\<close>

record option_job =
  oj_engine :: engine
  oj_runtime :: runtime
  oj_parsers :: cell_parsers
  oj_merge :: "(option_key, quote, quote) merge"
  oj_yahoo :: "string \<Rightarrow> string \<Rightarrow> (frame \<times> frame) result"
  oj_alpaca :: "string \<Rightarrow> int \<Rightarrow> payload option result"
  oj_attribute :: "pyval \<Rightarrow> string \<Rightarrow> pyval option"
  oj_today :: int
  oj_started :: string
  oj_finished :: string

record option_summary =
  os_run_id :: string
  os_status :: string
  os_breaks :: int
  os_already :: bool

record option_state =
  ot_process :: process
  ot_store :: store

definition build_option_run_id :: "runtime \<Rightarrow> string \<Rightarrow> string \<Rightarrow> string \<Rightarrow> string" where
  "build_option_run_id rt underlying expiry control_date =
     uuid5 rt (''option-chain-v1|'' @ py_upper underlying @ ''|'' @ expiry @ ''|'' @ control_date)"

text \<open>\<open>control_date or datetime.now(timezone.utc).date()\<close>, as the text it has in the identifier\<close>

definition effective_date :: "option_job \<Rightarrow> string option \<Rightarrow> string" where
  "effective_date j control_date =
     (case set_value control_date of Some d \<Rightarrow> d | None \<Rightarrow> iso_date (oj_runtime j) (oj_today j))"

definition with_process :: "(process, 'a) prog \<Rightarrow> (option_state, 'a) prog" where
  "with_process m t = (case m (ot_process t) of (r, p) \<Rightarrow> (r, t\<lparr>ot_process := p\<rparr>))"

definition with_store :: "'a db \<Rightarrow> (option_state, 'a) prog" where
  "with_store m t = (case m (ot_store t) of (r, s) \<Rightarrow> (r, t\<lparr>ot_store := s\<rparr>))"

definition option_tolerance :: pyfloat where
  "option_tolerance = fl (5 / 100)"

definition option_status :: "int \<Rightarrow> string" where
  "option_status breaks = (if breaks = 0 then ''SUCCESS'' else ''SUCCESS_WITH_BREAKS'')"

definition option_run_of :: "option_job \<Rightarrow> string \<Rightarrow> string \<Rightarrow> string \<Rightarrow> frame \<Rightarrow> frame \<Rightarrow> frame \<Rightarrow> option_run" where
  "option_run_of j run_id underlying expiry yahoo alpaca reconciliation =
     \<lparr>op_run_id = run_id, op_underlying = underlying, op_expiry = expiry, op_started_at = oj_started j,
      op_finished_at = oj_finished j, op_status = option_status (count_status reconciliation ''BREAK''),
      op_yahoo = yahoo, op_alpaca = alpaca, op_reconciliation = reconciliation\<rparr>"

definition fetch_chains :: "option_job \<Rightarrow> string \<Rightarrow> string \<Rightarrow> (option_state, frame \<times> frame) prog" where
  "fetch_chains j underlying expiry =
     bind_st (lift_res (fetch_yahoo_option_chain (oj_yahoo j) (oj_today j) (py_upper underlying) expiry)) (\<lambda>yahoo.
     bind_st (with_process (fetch_alpaca_option_chain (oj_runtime j) (oj_attribute j) (oj_alpaca j) (oj_today j)
                (py_upper underlying) expiry)) (\<lambda>alpaca.
     return_st (yahoo, alpaca)))"

definition compare_chains :: "option_job \<Rightarrow> frame \<Rightarrow> frame \<Rightarrow> frame result" where
  "compare_chains j yahoo alpaca =
     bind_res (reconcile_option_sources (oj_runtime j) (oj_parsers j) (oj_merge j) option_tolerance
       [(''YAHOO'', yahoo), (''ALPACA'', alpaca)]) (\<lambda>ps. Inr (option_pair_frame ps))"

definition option_main :: "option_job \<Rightarrow> string option \<Rightarrow> string \<Rightarrow> string \<Rightarrow> (option_state, option_summary) prog" where
  "option_main j control_date underlying expiry =
     (let run_id = build_option_run_id (oj_runtime j) underlying expiry (effective_date j control_date) in
      bind_st (with_store (initialize_database (oj_engine j))) (\<lambda>_.
      bind_st (fetch_chains j underlying expiry) (\<lambda>(yahoo, alpaca).
      bind_st (lift_res (compare_chains j yahoo alpaca)) (\<lambda>reconciliation.
      bind_st (with_store (persist_option_run (oj_engine j)
                 (option_run_of j run_id underlying expiry yahoo alpaca reconciliation))) (\<lambda>persisted.
      let breaks = count_status reconciliation ''BREAK'' in
      return_st \<lparr>os_run_id = run_id, os_status = option_status breaks, os_breaks = breaks, os_already = \<not> persisted\<rparr>)))))"

subsection \<open>The rows a run adds\<close>

lemma with_store_eq: "with_store m t = (r, t') \<longleftrightarrow> (\<exists>s. m (ot_store t) = (r, s) \<and> t' = t\<lparr>ot_store := s\<rparr>)"
  by (auto simp: with_store_def split: prod.splits)

lemma with_process_store: "with_process m t = (r, t') \<Longrightarrow> ot_store t' = ot_store t"
  by (auto simp: with_process_def split: prod.splits)

lemma fetch_chains_store: "fetch_chains j u e t = (r, t') \<Longrightarrow> ot_store t' = ot_store t"
  by (auto simp: fetch_chains_def st_simps elim!: bind_st_cases dest: with_process_store)

lemma staging_rows_length: "option_staging_rows run_id source f = Inr rs \<Longrightarrow> length rs = length (fr_rows f)"
  by (auto simp: option_staging_rows_def split: if_splits)

lemma result_rows_length: "option_result_rows run_id f = Inr rs \<Longrightarrow> length rs = length (fr_rows f)"
  by (auto simp: option_result_rows_def split: if_splits)

text \<open>The rows of a run: its own one, one contract for each row of the chain of Yahoo and of the chain of Alpaca, under
  the name of that provider, and one result for each compared contract; nothing else changes.\<close>

definition adds_option_run :: "engine \<Rightarrow> tables \<Rightarrow> tables \<Rightarrow> option_run \<Rightarrow> bool" where
  "adds_option_run eng ts ts' q \<longleftrightarrow> (\<exists>y a c run staged results.
    option_staging_rows (op_run_id q) ''YAHOO'' (op_yahoo q) = Inr y \<and>
    option_staging_rows (op_run_id q) ''ALPACA'' (op_alpaca q) = Inr a \<and>
    option_result_rows (op_run_id q) (op_reconciliation q) = Inr c \<and>
    rows_of ts' = (rows_of ts)
      (''option_runs'' := rows_of ts ''option_runs'' @ [run],
       ''option_contracts_staging'' := rows_of ts ''option_contracts_staging'' @ staged,
       ''option_reconciliation_results'' := rows_of ts ''option_reconciliation_results'' @ results) \<and>
    stored_rows eng ts ''option_runs'' (column_names option_runs) [option_values q] [run] \<and>
    stored_rows eng ts ''option_contracts_staging'' (column_names option_contracts_staging) (y @ a) staged \<and>
    stored_rows eng ts ''option_reconciliation_results'' (column_names option_reconciliation_results) c results \<and>
    length staged = length (fr_rows (op_yahoo q)) + length (fr_rows (op_alpaca q)) \<and>
    length results = length (fr_rows (op_reconciliation q)))"

lemma option_rows_added:
  assumes "persist_option_run eng q s = (Inr True, s')"
  shows "adds_option_run eng (st_tables s) (st_tables s') q"
proof -
  obtain y a results where b: "option_staging_rows (op_run_id q) ''YAHOO'' (op_yahoo q) = Inr y"
    "option_staging_rows (op_run_id q) ''ALPACA'' (op_alpaca q) = Inr a"
    "option_result_rows (op_run_id q) (op_reconciliation q) = Inr results"
    and t: "transaction eng (option_body eng q (y @ a) results) s = (Inr True, s')"
    using assms by (auto simp: persist_option_run_def lift_res_bind split: sum.splits)
  from t obtain s1 s2 where s: "st_tables s1 = st_tables s" "st_tables s' = st_tables s2"
    and body: "option_body eng q (y @ a) results s1 = (Inr True, s2)"
    by (cases rule: transaction_cases) auto
  obtain rows a1 where sel: "select eng ''option_runs'' [] ''run_id'' (PStr (op_run_id q)) s1 = (Inr rows, a1)"
    and rest: "(if rows \<noteq> [] then return_st False
     else bind_st (insert_into eng ''option_runs'' (column_names option_runs) (option_values q)) (\<lambda>_.
          bind_st (insert_if_any eng ''option_contracts_staging'' (column_names option_contracts_staging) (y @ a)) (\<lambda>_.
          bind_st (insert_if_any eng ''option_reconciliation_results'' (column_names option_reconciliation_results) results) (\<lambda>_.
          return_st True)))) a1 = (Inr True, s2)"
    using body unfolding option_body_def by (rule bind_st_Inr_cases)
  from rest obtain u2 a2 u3 a3 u4 where
    i: "insert_into eng ''option_runs'' (column_names option_runs) (option_values q) a1 = (Inr u2, a2)"
      "insert_if_any eng ''option_contracts_staging'' (column_names option_contracts_staging) (y @ a) a2 = (Inr u3, a3)"
      "insert_if_any eng ''option_reconciliation_results'' (column_names option_reconciliation_results) results a3 = (Inr u4, s2)"
    by (auto simp: st_simps elim!: bind_st_Inr_cases split: if_splits)
  have s1: "st_tables a1 = st_tables s" using select_keeps [OF sel] s(1) by simp
  from insert_one_stored [OF i(1)] obtain run where
    1: "adds_stored eng (st_tables a1) (st_tables a2) ''option_runs'' (column_names option_runs) [option_values q] [run]" by blast
  from insert_if_any_stored [OF i(2)] obtain n2 where 2: "adds_stored eng (st_tables a2) (st_tables a3)
    ''option_contracts_staging'' (column_names option_contracts_staging) (y @ a) n2" by blast
  from insert_if_any_stored [OF i(3)] obtain n3 where 3: "adds_stored eng (st_tables a3) (st_tables s2)
    ''option_reconciliation_results'' (column_names option_reconciliation_results) results n3" by blast
  note all = 1 [unfolded adds_stored_def] 2 [unfolded adds_stored_def] 3 [unfolded adds_stored_def]
  have "rows_of (st_tables s') = (rows_of (st_tables s))
      (''option_runs'' := rows_of (st_tables s) ''option_runs'' @ [run],
       ''option_contracts_staging'' := rows_of (st_tables s) ''option_contracts_staging'' @ n2,
       ''option_reconciliation_results'' := rows_of (st_tables s) ''option_reconciliation_results'' @ n3)"
    using all s(2) s1 by (simp add: adds_def)
  moreover have "stored_rows eng (st_tables s) ''option_runs'' (column_names option_runs) [option_values q] [run]"
    "stored_rows eng (st_tables s) ''option_contracts_staging'' (column_names option_contracts_staging) (y @ a) n2"
    "stored_rows eng (st_tables s) ''option_reconciliation_results'' (column_names option_reconciliation_results) results n3"
    using all s1 by (simp_all add: stored_rows_def)
  moreover from stored_rows_length [OF this(2)] stored_rows_length [OF this(3)] staging_rows_length [OF b(1)]
    staging_rows_length [OF b(2)] result_rows_length [OF b(3)]
  have "length n2 = length (fr_rows (op_yahoo q)) + length (fr_rows (op_alpaca q))"
    "length n3 = length (fr_rows (op_reconciliation q))" by simp_all
  ultimately show ?thesis using b unfolding adds_option_run_def by blast
qed

subsection \<open>Properties\<close>

definition prepared_store :: "option_job \<Rightarrow> option_state \<Rightarrow> store" where
  "prepared_store j t = snd (initialize_database (oj_engine j) (ot_store t))"

lemma fetch_chains_Inr:
  assumes "fetch_chains j u e t = (Inr (yahoo, alpaca), t')"
  shows "fetch_yahoo_option_chain (oj_yahoo j) (oj_today j) (py_upper u) e = Inr yahoo"
    and "fetch_alpaca_option_chain (oj_runtime j) (oj_attribute j) (oj_alpaca j) (oj_today j) (py_upper u) e (ot_process t)
      = (Inr alpaca, ot_process t')"
  using assms by (auto simp: fetch_chains_def with_process_def st_simps elim!: bind_st_Inr_cases split: prod.splits)

lemma option_main_Inr:
  assumes "option_main j date u e t = (Inr sm, t')"
  obtains yahoo alpaca recon q where "initialize_database (oj_engine j) (ot_store t) = (Inr (), prepared_store j t)"
    and "fetch_yahoo_option_chain (oj_yahoo j) (oj_today j) (py_upper u) e = Inr yahoo"
    and "fetch_alpaca_option_chain (oj_runtime j) (oj_attribute j) (oj_alpaca j) (oj_today j) (py_upper u) e (ot_process t)
      = (Inr alpaca, ot_process t')"
    and "compare_chains j yahoo alpaca = Inr recon"
    and "q = option_run_of j (build_option_run_id (oj_runtime j) u e (effective_date j date)) u e yahoo alpaca recon"
    and "persist_option_run (oj_engine j) q (prepared_store j t) = (Inr (\<not> os_already sm), ot_store t')"
    and "os_run_id sm = op_run_id q" "os_breaks sm = count_status recon ''BREAK''" "os_status sm = option_status (os_breaks sm)"
proof -
  let ?id = "build_option_run_id (oj_runtime j) u e (effective_date j date)"
  from assms obtain s0 yahoo alpaca t1 recon b s2 where
    i: "initialize_database (oj_engine j) (ot_store t) = (Inr (), s0)"
    and f: "fetch_chains j u e (t\<lparr>ot_store := s0\<rparr>) = (Inr (yahoo, alpaca), t1)"
    and c: "compare_chains j yahoo alpaca = Inr recon"
    and p: "persist_option_run (oj_engine j) (option_run_of j ?id u e yahoo alpaca recon) (ot_store t1) = (Inr b, s2)"
    and sm: "sm = \<lparr>os_run_id = ?id, os_status = option_status (count_status recon ''BREAK''),
        os_breaks = count_status recon ''BREAK'', os_already = \<not> b\<rparr>" and t': "t' = t1\<lparr>ot_store := s2\<rparr>"
    by (auto simp: option_main_def Let_def with_store_eq st_simps elim!: bind_st_Inr_cases split: prod.splits)
  have s0: "s0 = prepared_store j t" using i by (simp add: prepared_store_def)
  moreover have "ot_store t1 = s0" using fetch_chains_store [OF f] by simp
  ultimately show thesis
    using that [of yahoo alpaca recon] i fetch_chains_Inr [OF f] c p sm t' by (simp add: option_run_of_def)
qed

lemma option_main_Inl:
  assumes "option_main j date u e t = (Inl x, t')" and "keyed ''option_runs'' ''run_id'' (st_tables (prepared_store j t))"
  shows "st_tables (ot_store t') = st_tables (prepared_store j t)"
proof -
  let ?q = "option_run_of j (build_option_run_id (oj_runtime j) u e (effective_date j date)) u e"
  consider "ot_store t' = prepared_store j t"
    | y a r where "persist_option_run (oj_engine j) (?q y a r) (prepared_store j t) = (Inl x, ot_store t')"
    using assms(1)
    by (auto simp: option_main_def Let_def with_store_eq st_simps prepared_store_def
      elim!: bind_st_cases split: prod.splits dest!: fetch_chains_store)
  then show ?thesis
  proof cases
    case 2
    from persist_option_effect [OF this assms(2)] show ?thesis by simp
  qed simp
qed

text \<open>C37 (option_control_accounts): a run of the option control that raises leaves the store as it was prepared.
  One that returns has fetched the chain of Yahoo and the chain of Alpaca, and reports the breaks of the comparison
  of these two; unless its identifier was stored before, it adds one run, one staged contract for every row of
  the Yahoo chain and of the Alpaca chain, under the name of its provider and with the values of the row, and one
  result for every compared contract; otherwise it stores nothing.\<close>

theorem option_control_accounts:
  assumes "option_main j date u e t = (r, t')" and "keyed ''option_runs'' ''run_id'' (st_tables (prepared_store j t))"
  shows "case r of
      Inl x \<Rightarrow> st_tables (ot_store t') = st_tables (prepared_store j t)
    | Inr sm \<Rightarrow> \<exists>yahoo alpaca recon.
        fetch_yahoo_option_chain (oj_yahoo j) (oj_today j) (py_upper u) e = Inr yahoo \<and>
        fetch_alpaca_option_chain (oj_runtime j) (oj_attribute j) (oj_alpaca j) (oj_today j) (py_upper u) e (ot_process t)
          = (Inr alpaca, ot_process t') \<and>
        compare_chains j yahoo alpaca = Inr recon \<and> os_breaks sm = count_status recon ''BREAK'' \<and>
        os_status sm = option_status (os_breaks sm) \<and>
        os_run_id sm = build_option_run_id (oj_runtime j) u e (effective_date j date) \<and>
        (os_already sm \<longleftrightarrow> PStr (os_run_id sm) \<in> set (ids_of ''option_runs'' ''run_id'' (st_tables (prepared_store j t)))) \<and>
        (if os_already sm then st_tables (ot_store t') = st_tables (prepared_store j t)
         else adds_option_run (oj_engine j) (st_tables (prepared_store j t)) (st_tables (ot_store t'))
           (option_run_of j (os_run_id sm) u e yahoo alpaca recon))"
proof (cases r)
  case (Inl x)
  with option_main_Inl assms show ?thesis by simp
next
  case (Inr sm)
  from option_main_Inr [OF assms(1) [unfolded Inr]] obtain yahoo alpaca recon q where
    y: "fetch_yahoo_option_chain (oj_yahoo j) (oj_today j) (py_upper u) e = Inr yahoo"
    and al: "fetch_alpaca_option_chain (oj_runtime j) (oj_attribute j) (oj_alpaca j) (oj_today j) (py_upper u) e (ot_process t)
      = (Inr alpaca, ot_process t')"
    and c: "compare_chains j yahoo alpaca = Inr recon"
    and q: "q = option_run_of j (build_option_run_id (oj_runtime j) u e (effective_date j date)) u e yahoo alpaca recon"
    and p: "persist_option_run (oj_engine j) q (prepared_store j t) = (Inr (\<not> os_already sm), ot_store t')"
    and sm: "os_run_id sm = op_run_id q" "os_breaks sm = count_status recon ''BREAK''" "os_status sm = option_status (os_breaks sm)"
    by metis
  have id: "op_run_id q = build_option_run_id (oj_runtime j) u e (effective_date j date)" by (simp add: q option_run_of_def)
  from persist_option_effect [OF p assms(2)] have a: "os_already sm \<longleftrightarrow>
      PStr (os_run_id sm) \<in> set (ids_of ''option_runs'' ''run_id'' (st_tables (prepared_store j t)))"
    "os_already sm \<Longrightarrow> st_tables (ot_store t') = st_tables (prepared_store j t)"
    using sm(1) by (auto split: bool.splits)
  have "q = option_run_of j (os_run_id sm) u e yahoo alpaca recon" using q sm(1) id by simp
  then have "\<not> os_already sm \<Longrightarrow> adds_option_run (oj_engine j) (st_tables (prepared_store j t)) (st_tables (ot_store t'))
      (option_run_of j (os_run_id sm) u e yahoo alpaca recon)"
    using option_rows_added [of "oj_engine j" q] p by simp
  with Inr a c y al sm id show ?thesis by auto
qed

subsection \<open>An example\<close>

definition no_quotes :: frame where
  "no_quotes = \<lparr>fr_columns = [''contractSymbol'', ''strike'', ''lastPrice'', ''bid'', ''ask'', ''volume'', ''openInterest''],
     fr_numeric = [], fr_rows = []\<rparr>"

definition sample_option_job :: option_job where
  "sample_option_job = \<lparr>oj_engine = plain_engine, oj_runtime = sample_runtime, oj_parsers = sample_parsers,
     oj_merge = merge_by_key, oj_yahoo = (\<lambda>u e. Inr (no_quotes, no_quotes)), oj_alpaca = (\<lambda>u d. Inr None),
     oj_attribute = (\<lambda>v n. None), oj_today = 5, oj_started = ''s'', oj_finished = ''f''\<rparr>"

definition fresh_option_state :: option_state where
  "fresh_option_state = \<lparr>ot_process = \<lparr>ps_env = [''ALPACA_API_KEY'' \<mapsto> ''k'', ''ALPACA_SECRET_KEY'' \<mapsto> ''s''], ps_posix = True,
     ps_file = None\<rparr>, ot_store = \<lparr>st_tables = [], st_steps = 0\<rparr>\<rparr>"

abbreviation no_chain :: frame where
  "no_chain \<equiv> empty_frame canonical_option_columns"

lemma no_chain_yahoo: "fetch_yahoo_option_chain (oj_yahoo sample_option_job) 5 u e = Inr no_chain"
  by (simp add: fetch_yahoo_option_chain_def sample_option_job_def concat_frames_def no_quotes_def set_column_def)

lemma no_chain_alpaca:
  "fetch_alpaca_option_chain sample_runtime (oj_attribute sample_option_job) (oj_alpaca sample_option_job) 5 u ''9'' (ot_process fresh_option_state) =
     (Inr (frame_of_rows canonical_option_columns []), ot_process fresh_option_state)"
proof -
  have "load_alpaca_credentials (ot_process fresh_option_state) = (Inr (''k'', ''s''), ot_process fresh_option_state)"
    by (simp add: load_alpaca_credentials_def load_secret_def alpaca_keys_def fresh_option_state_def set_value_def getenv_or_def)
  moreover have "date_of_iso sample_runtime ''9'' = Some 9" by code_simp
  ultimately show ?thesis
    by (simp add: fetch_alpaca_option_chain_def bind_st_def st_simps sample_option_job_def)
qed

lemma no_chain_compared: "compare_chains sample_option_job no_chain (frame_of_rows canonical_option_columns []) = Inr (option_pair_frame [])"
proof -
  have "fle (Fin 0) x \<Longrightarrow> \<not> flt x (Fin 0)" for x by (cases x) auto
  then have "\<not> flt option_tolerance (Fin 0)" by (simp add: option_tolerance_def fl_nonneg)
  then show ?thesis
    by (simp add: compare_chains_def reconcile_option_sources_def reconcile_option_chain_def frame_empty_def empty_frame_def
      frame_of_rows_def build_frame_def option_pair_rows_def)
qed

lemma option_store_prepared:
  "is_ok (fst (initialize_database plain_engine (ot_store fresh_option_state)))"
  "keyed ''option_runs'' ''run_id'' (st_tables (snd (initialize_database plain_engine (ot_store fresh_option_state))))"
  "ids_of ''option_runs'' ''run_id'' (st_tables (snd (initialize_database plain_engine (ot_store fresh_option_state)))) = []"
  by code_simp+

definition sample_option_run :: option_run where
  "sample_option_run = option_run_of sample_option_job
     (build_option_run_id sample_runtime ''spy'' ''9'' ''today'') ''spy'' ''9'' no_chain (frame_of_rows canonical_option_columns []) (option_pair_frame [])"

lemma sample_persisted:
  "fst (persist_option_run plain_engine sample_option_run (snd (initialize_database plain_engine (ot_store fresh_option_state)))) = Inr True"
  by code_simp

lemma option_control_accounts_witness:
  "\<exists>sm t'. option_main sample_option_job (Some ''today'') ''spy'' ''9'' fresh_option_state = (Inr sm, t') \<and>
     \<not> os_already sm \<and> (\<exists>ts q. adds_option_run plain_engine ts (st_tables (ot_store t')) q)"
proof -
  let ?j = sample_option_job and ?t = fresh_option_state
  obtain r t' where m: "option_main ?j (Some ''today'') ''spy'' ''9'' ?t = (r, t')" by fastforce
  obtain s0 where i: "initialize_database plain_engine (ot_store ?t) = (Inr (), s0)"
    using option_store_prepared(1) by (auto simp: is_ok_iff prod_eq_iff)
  then have s: "prepared_store ?j ?t = s0" by (simp add: prepared_store_def sample_option_job_def)
  obtain s1 where p: "persist_option_run plain_engine sample_option_run s0 = (Inr True, s1)"
    using sample_persisted i by (simp add: prod_eq_iff)
  have f: "fetch_chains ?j ''spy'' ''9'' (?t\<lparr>ot_store := s0\<rparr>) = (Inr (no_chain, frame_of_rows canonical_option_columns []), ?t\<lparr>ot_store := s0\<rparr>)"
    using no_chain_yahoo no_chain_alpaca
    by (simp add: fetch_chains_def bind_st_def st_simps with_process_def sample_option_job_def fresh_option_state_def)
  have "is_ok r"
    using m i f p no_chain_compared
    by (auto simp: option_main_def Let_def bind_st_def st_simps with_store_def sample_option_run_def sample_option_job_def
      effective_date_def set_value_def is_ok_iff split: sum.splits)
  then obtain sm where r: "r = Inr sm" by (auto simp: is_ok_iff)
  from option_control_accounts [OF m] r i s option_store_prepared(2,3)
  have a: "\<not> os_already sm" "\<exists>ts q. adds_option_run plain_engine ts (st_tables (ot_store t')) q"
    by (auto simp: sample_option_job_def split: if_splits)
  with m r show ?thesis by blast
qed

end
