(* ===== verification/Dashboard.thy ===== *)
theory Dashboard
  imports Queries Batch Feed_State
begin

section \<open>The control room\<close>

text \<open>
  \<open>dashboard.py\<close>: the queries of \<open>load_dashboard_data\<close> over one read-only connection, the panels as tables of texts, and
  what \<open>main\<close> shows when the store or the feed is not available.  A query reads the tables at its own statement;
  frames are those of pandas, where a column of integers with a missing value is one of floats and a date is
  a timestamp.
\<close>

subsection \<open>Statements\<close>

definition reading :: "engine \<Rightarrow> (pyval \<Rightarrow> nat \<Rightarrow> tables \<Rightarrow> 'a result) \<Rightarrow> 'a db" where
  "reading eng q s = statement eng (\<lambda>ts. bind_res (q (clock eng (st_steps s)) (st_steps s) ts) (\<lambda>x. Inr (x, ts))) s"

definition from_table :: "string \<Rightarrow> string list \<Rightarrow> tables \<Rightarrow> table result" where
  "from_table name cols ts = (case map_of ts name of
     None \<Rightarrow> Inl DatabaseError
   | Some tb \<Rightarrow> if set cols \<subseteq> set (column_names tb) then Inr tb else Inl DatabaseError)"

text \<open>\<open>PRAGMA table_info\<close> and \<open>information_schema.tables\<close>\<close>

definition table_info :: "string \<Rightarrow> tables \<Rightarrow> string list result" where
  "table_info name ts = (case map_of ts name of None \<Rightarrow> Inl DatabaseError | Some tb \<Rightarrow> Inr (column_names tb))"

fun fetched :: "pyval \<Rightarrow> pyval" where
  "fetched (PDate d) = PTime (Datetime (d * 86400000000) None)"
| "fetched v = v"

definition fetchdf :: "string list \<Rightarrow> row list \<Rightarrow> frame" where
  "fetchdf cols rows = build_frame cols (\<lambda>c r. fetched (dict_get PNone (zip cols r) c)) rows"

record dash_filters =
  df_run :: "string option"
  df_symbol :: "string option"
  df_provider :: "string option"
  df_date :: "string option"

record 'k dash =
  dh_engine :: engine
  dh_collation :: "'k collation"
  dh_before :: "pyval \<Rightarrow> pyval \<Rightarrow> bool"
  dh_hours :: "pyval \<Rightarrow> pyval \<Rightarrow> pyval"
  dh_round3 :: "pyfloat \<Rightarrow> pyfloat"

text \<open>Filters on texts are compared in upper case.\<close>

definition wanted_text :: "string option \<Rightarrow> pyval list \<Rightarrow> bool" where
  "wanted_text f vs = (case set_value f of None \<Rightarrow> True | Some s \<Rightarrow> PStr (py_upper (py_strip s)) \<in> upper_of ` set vs)"

text \<open>\<open>CAST(? AS DATE)\<close>; a stored timestamp always has a date.\<close>

definition wanted_date :: "engine \<Rightarrow> string option \<Rightarrow> pyval option result" where
  "wanted_date eng f = (case set_value f of
     None \<Rightarrow> Inr None
   | Some s \<Rightarrow> (case cast_value eng DATE (PStr s) of None \<Rightarrow> Inl DatabaseError | Some d \<Rightarrow> Inr (Some d)))"

definition date_of :: "engine \<Rightarrow> pyval \<Rightarrow> pyval" where
  "date_of eng v = (case convert eng DATE v of None \<Rightarrow> PNone | Some d \<Rightarrow> d)"

definition on_date :: "engine \<Rightarrow> pyval option \<Rightarrow> pyval \<Rightarrow> bool" where
  "on_date eng d v = (case d of None \<Rightarrow> True | Some x \<Rightarrow> v \<noteq> PNone \<and> date_of eng v = x)"

fun int_cell :: "pyval \<Rightarrow> int option" where
  "int_cell (PInt n) = Some n"
| "int_cell _ = None"

fun abs_cell :: "pyval \<Rightarrow> pyval" where
  "abs_cell (PFloat x) = PFloat (fabs x)"
| "abs_cell v = v"

fun finite_cell :: "pyval \<Rightarrow> bool" where
  "finite_cell (PFloat (Fin x)) = True"
| "finite_cell _ = False"

definition rounded_max :: "'k dash \<Rightarrow> pyval list \<Rightarrow> pyval" where
  "rounded_max d vs = (case sql_max vs of None \<Rightarrow> PNone | Some x \<Rightarrow> PFloat (dh_round3 d x))"

definition count_cell :: "'a list \<Rightarrow> pyval" where
  "count_cell xs = PInt (int (length xs))"

text \<open>\<open>GROUP BY\<close>\<close>

definition grouped :: "('r \<Rightarrow> row) \<Rightarrow> (row \<Rightarrow> 'r list \<Rightarrow> row) \<Rightarrow> 'r list \<Rightarrow> row list" where
  "grouped key agg rows = map (\<lambda>k. agg k (filter (\<lambda>r. key r = k) rows)) (uniq (map key rows))"

subsection \<open>Runs\<close>

definition latest_columns :: "string list" where
  "latest_columns = [''run_id'', ''started_at'', ''finished_at'', ''status'', ''yahoo_row_count'', ''alpaca_row_count'',
     ''massive_row_count'', ''match_count'', ''break_count'']"

definition latest_query :: "'k::linorder dash \<Rightarrow> string option \<Rightarrow> nat \<Rightarrow> tables \<Rightarrow> frame result" where
  "latest_query d run n ts =
     bind_res (from_table ''pipeline_runs'' latest_columns ts) (\<lambda>tb.
     let rows = filter (\<lambda>r. case set_value run of None \<Rightarrow> True | Some i \<Rightarrow> field tb ''run_id'' r = PStr i) (tb_rows tb) in
     Inr (fetchdf latest_columns (map (cells tb latest_columns)
       (page 1 0 (order_by (\<lambda>r. desc_key (dh_collation d) (field tb ''started_at'' r)) (dh_collation d) n rows)))))"

text \<open>\<open>frame.loc[frame.index[0], c] = v\<close>\<close>

definition set_first :: "frame \<Rightarrow> string \<Rightarrow> pyval \<Rightarrow> frame" where
  "set_first f c v = (case fr_rows f of [] \<Rightarrow> f
     | r # rs \<Rightarrow> f\<lparr>fr_rows := map (\<lambda>(k, x). if k = c then v else x) (zip (fr_columns f) r) # rs\<rparr>)"

definition first_cell :: "frame \<Rightarrow> string \<Rightarrow> pyval" where
  "first_cell f c = (case fr_rows f of [] \<Rightarrow> PNone | r # rs \<Rightarrow> cell f r c)"

definition traced_latest :: "'k dash \<Rightarrow> frame \<Rightarrow> frame db" where
  "traced_latest d f =
     (if fr_rows f = [] then return_st f
      else bind_st (reading (dh_engine d) (\<lambda>now n. table_info ''pipeline_runs'')) (\<lambda>cols.
        if \<not> {''trace_id'', ''root_span_id''} \<subseteq> set cols then return_st f
        else bind_st (select (dh_engine d) ''pipeline_runs'' [''trace_id'', ''root_span_id''] ''run_id'' (first_cell f ''run_id'')) (\<lambda>rows.
          case rows of
            (t # s # _) # _ \<Rightarrow> return_st (set_first (set_first f ''trace_id'' t) ''root_span_id'' s)
          | _ \<Rightarrow> fail_st (TypeError ''object is not subscriptable''))))"

definition fact_counts :: "pyval \<Rightarrow> tables \<Rightarrow> (int \<times> int \<times> int) result" where
  "fact_counts run ts =
     bind_res (from_table ''fct_equity_reconciliation'' [''run_id'', ''status''] ts) (\<lambda>tb.
     let of_status = (\<lambda>s. count_where tb (\<lambda>r. run \<noteq> PNone \<and> field tb ''run_id'' r = run \<and> field tb ''status'' r = PStr s)) in
     Inr (of_status ''MATCH'', of_status ''WARN'', of_status ''BREAK''))"

definition with_facts :: "'k dash \<Rightarrow> frame \<Rightarrow> frame db" where
  "with_facts d f =
     (if fr_rows f = [] then return_st f
      else bind_st (reading (dh_engine d) (\<lambda>now n ts. Inr (map fst ts))) (\<lambda>names.
        if ''fct_equity_reconciliation'' \<notin> set names then return_st f
        else bind_st (reading (dh_engine d) (\<lambda>now n. fact_counts (first_cell f ''run_id''))) (\<lambda>(m, w, b).
          return_st (if 0 < m + w + b
            then set_first (set_first (set_first f ''match_count'' (PInt m)) ''warn_count'' (PInt w)) ''break_count'' (PInt b)
            else f))))"

definition trend_columns :: "string list" where
  "trend_columns = [''run_id'', ''started_at'', ''status'', ''match_count'', ''break_count'', ''break_rate_pct'']"

definition break_rate :: "pyval \<Rightarrow> pyval \<Rightarrow> pyval" where
  "break_rate m b = (case (int_cell m, int_cell b) of
     (Some x, Some y) \<Rightarrow> if x + y = 0 then PFloat (Fin 0) else PFloat (fdiv (fl (of_int (100 * y))) (of_int (x + y)))
   | _ \<Rightarrow> PNone)"

definition trend_query :: "'k::linorder dash \<Rightarrow> nat \<Rightarrow> nat \<Rightarrow> tables \<Rightarrow> frame result" where
  "trend_query d limit n ts =
     bind_res (from_table ''pipeline_runs'' (butlast trend_columns) ts) (\<lambda>tb.
     Inr (fetchdf trend_columns (map (\<lambda>r. cells tb (butlast trend_columns) r @
         [break_rate (field tb ''match_count'' r) (field tb ''break_count'' r)])
       (page limit 0 (order_by (\<lambda>r. desc_key (dh_collation d) (field tb ''started_at'' r)) (dh_collation d) n (tb_rows tb))))))"

subsection \<open>Breaks\<close>

definition break_needed :: "string list" where
  "break_needed = [''run_id'', ''is_discrepancy'', ''symbol'', ''timestamp'', ''metric_name'', ''source_a'', ''source_b'',
     ''source_a_value'', ''source_b_value'', ''difference'']"

definition break_columns :: "string list" where
  "break_columns = [''symbol'', ''timestamp'', ''metric_name'', ''source_a'', ''source_b'', ''source_a_value'', ''source_b_value'',
     ''difference'', ''break_reason'', ''warn_limit'', ''break_limit'']"

text \<open>\<open>greatest(absolute, greatest(abs(a), abs(b)) * share)\<close>, which skips \<open>NULL\<close>\<close>

definition greatest :: "pyval \<Rightarrow> pyval \<Rightarrow> pyval" where
  "greatest v w = (case (v, w) of
     (PFloat x, PFloat y) \<Rightarrow> PFloat (sql_greater x y) | (PNone, y) \<Rightarrow> y | (x, _) \<Rightarrow> x)"

definition times_share :: "pyfloat \<Rightarrow> pyval \<Rightarrow> pyval" where
  "times_share p v = (case v of PFloat x \<Rightarrow> PFloat (fmul x p) | _ \<Rightarrow> PNone)"

definition limit_cell :: "pyfloat \<Rightarrow> pyfloat \<Rightarrow> pyval \<Rightarrow> pyval \<Rightarrow> pyval" where
  "limit_cell absolute share a b =
     greatest (PFloat absolute) (times_share share (greatest (abs_cell a) (abs_cell b)))"

definition shown_limits :: "pyval \<Rightarrow> pyval \<Rightarrow> pyval \<Rightarrow> pyval list" where
  "shown_limits metric a b =
     (if metric = PStr ''close''
      then [limit_cell (fl (1 / 100)) (fl (1 / 1000)) a b, limit_cell (fl (5 / 100)) (fl (5 / 1000)) a b] else [PNone, PNone])"

definition selected_break :: "'k dash \<Rightarrow> dash_filters \<Rightarrow> pyval \<Rightarrow> pyval option \<Rightarrow> table \<Rightarrow> row \<Rightarrow> bool" where
  "selected_break d f run day tb r \<longleftrightarrow> run \<noteq> PNone \<and> field tb ''run_id'' r = run \<and> field tb ''is_discrepancy'' r = PBool True \<and>
     wanted_text (df_symbol f) [field tb ''symbol'' r] \<and>
     wanted_text (df_provider f) [field tb ''source_a'' r, field tb ''source_b'' r] \<and>
     on_date (dh_engine d) day (field tb ''timestamp'' r)"

definition break_cells :: "table \<Rightarrow> row \<Rightarrow> row" where
  "break_cells tb r = cells tb (drop 2 break_needed) r @ [field tb ''break_reason'' r] @
     shown_limits (field tb ''metric_name'' r) (field tb ''source_a_value'' r) (field tb ''source_b_value'' r)"

definition break_order :: "'k collation \<Rightarrow> table \<Rightarrow> row \<Rightarrow> nat \<times> bool \<times> 'k descending" where
  "break_order c tb r = (if finite_cell (field tb ''difference'' r) then 1 else 0, desc_key c (abs_cell (field tb ''difference'' r)))"

definition break_query :: "'k::linorder dash \<Rightarrow> dash_filters \<Rightarrow> nat \<Rightarrow> pyval \<Rightarrow> nat \<Rightarrow> tables \<Rightarrow> row list result" where
  "break_query d f limit run n ts =
     bind_res (wanted_date (dh_engine d) (df_date f)) (\<lambda>day.
     bind_res (from_table ''equity_reconciliation_results'' break_needed ts) (\<lambda>tb.
     Inr (map (break_cells tb) (page (min limit 5) 0
       (order_by (break_order (dh_collation d) tb) (dh_collation d) n (filter (selected_break d f run day tb) (tb_rows tb)))))))"

definition offender_columns :: "string list" where
  "offender_columns = [''symbol'', ''metric_name'', ''source_a'', ''source_b'', ''affected_runs'', ''max_abs_difference'']"

definition offender_query :: "'k::linorder dash \<Rightarrow> nat \<Rightarrow> nat \<Rightarrow> tables \<Rightarrow> frame result" where
  "offender_query d limit n ts =
     bind_res (from_table ''equity_reconciliation_results'' [''run_id'', ''is_discrepancy'', ''symbol'', ''metric_name'', ''source_a'',
       ''source_b'', ''difference''] ts) (\<lambda>tb.
     let rows = filter (\<lambda>r. field tb ''is_discrepancy'' r = PBool True) (tb_rows tb);
         groups = grouped (cells tb (take 4 offender_columns)) (\<lambda>k rs. k @
           [count_cell (uniq (filter (\<lambda>v. v \<noteq> PNone) (map (field tb ''run_id'') rs))),
            sql_max_double (map abs_cell (filter finite_cell (map (field tb ''difference'') rs)))]) rows in
     Inr (fetchdf offender_columns (page limit 0
       (order_by (\<lambda>r. (desc_key (dh_collation d) (r ! 4), desc_key (dh_collation d) (r ! 5))) (dh_collation d) n groups))))"

subsection \<open>Exceptions and partitions\<close>

definition exception_status_columns :: "string list" where
  "exception_status_columns = [''status'', ''exception_count'', ''unassigned_count'', ''overdue_count'', ''oldest_open_hours'']"

text \<open>\<open>max\<close> of a column of integers\<close>

fun max_int :: "pyval list \<Rightarrow> pyval" where
  "max_int [] = PNone"
| "max_int (PInt n # vs) = (case max_int vs of PInt m \<Rightarrow> PInt (max n m) | _ \<Rightarrow> PInt n)"
| "max_int (v # vs) = max_int vs"

definition exception_status_query :: "'k::linorder dash \<Rightarrow> pyval \<Rightarrow> nat \<Rightarrow> tables \<Rightarrow> frame result" where
  "exception_status_query d now n ts =
     bind_res (from_table ''equity_exceptions'' [''status'', ''owner'', ''due_at'', ''created_at''] ts) (\<lambda>tb.
     let groups = grouped (cells tb [''status'']) (\<lambda>k rs.
           let pending = filter (\<lambda>r. field tb ''status'' r = PStr ''OPEN'') rs in k @
           [count_cell rs, count_cell (filter (\<lambda>r. field tb ''owner'' r = PStr ''UNASSIGNED'') rs),
            count_cell (filter (\<lambda>r. field tb ''due_at'' r \<noteq> PNone \<and> dh_before d (field tb ''due_at'' r) now) pending),
            max_int (map (\<lambda>r. dh_hours d (field tb ''created_at'' r) now) pending)]) (tb_rows tb) in
     Inr (fetchdf exception_status_columns (order_by (\<lambda>r. desc_key (dh_collation d) (r ! 1)) (dh_collation d) n groups)))"

definition health_columns :: "string list" where
  "health_columns = [''provider'', ''symbol_bucket'', ''status'', ''attempts'', ''row_count'', ''latency_ms'', ''archive_reused'', ''error_type'']"

definition left_join :: "('a \<Rightarrow> 'b \<Rightarrow> bool) \<Rightarrow> 'a list \<Rightarrow> 'b list \<Rightarrow> ('a \<times> 'b option) list" where
  "left_join on xs ys = concat (map (\<lambda>x. case filter (on x) ys of [] \<Rightarrow> [(x, None)] | zs \<Rightarrow> map (\<lambda>y. (x, Some y)) zs) xs)"

definition status_rank :: "pyval \<Rightarrow> nat" where
  "status_rank v = (if v = PStr ''FAILED'' then 0 else if v = PStr ''RUNNING'' then 1 else 2)"

definition health_query :: "'k::linorder dash \<Rightarrow> nat \<Rightarrow> pyval \<Rightarrow> nat \<Rightarrow> tables \<Rightarrow> frame result" where
  "health_query d limit run n ts =
     bind_res (from_table ''work_partitions'' [''partition_id'', ''run_id'', ''provider'', ''symbol_bucket'', ''status'', ''attempts'',
       ''row_count'', ''error_type''] ts) (\<lambda>wp.
     bind_res (from_table ''provider_request_metrics'' [''partition_id'', ''latency_ms'', ''reused_archive''] ts) (\<lambda>pm.
     let rows = filter (\<lambda>r. field wp ''run_id'' r = run) (tb_rows wp);
         joined = left_join (\<lambda>w p. field wp ''partition_id'' w \<noteq> PNone \<and> field pm ''partition_id'' p = field wp ''partition_id'' w) rows (tb_rows pm);
         metric = (\<lambda>c js. map (\<lambda>j. case snd j of None \<Rightarrow> PNone | Some p \<Rightarrow> field pm c p) js);
         groups = grouped (\<lambda>j. cells wp [''provider'', ''symbol_bucket'', ''status'', ''attempts'', ''row_count'', ''error_type''] (fst j))
           (\<lambda>k js. take 5 k @ [rounded_max d (metric ''latency_ms'' js), PBool (PBool True \<in> set (metric ''reused_archive'' js))] @ drop 5 k) joined in
     Inr (fetchdf health_columns (page limit 0 (order_by (\<lambda>r. (status_rank (r ! 2), asc_key (dh_collation d) (r ! 0),
       asc_key (dh_collation d) (r ! 1))) (dh_collation d) n groups)))))"

definition detail_columns :: "string list" where
  "detail_columns = [''exception_id'', ''symbol'', ''trade_date'', ''source_a'', ''source_b'', ''reason_code'', ''priority'', ''status'',
     ''owner'', ''due_at'']"

definition detail_query :: "'k::linorder dash \<Rightarrow> dash_filters \<Rightarrow> nat \<Rightarrow> pyval \<Rightarrow> nat \<Rightarrow> tables \<Rightarrow> frame result" where
  "detail_query d f limit run n ts =
     bind_res (wanted_date (dh_engine d) (df_date f)) (\<lambda>day.
     bind_res (from_table ''equity_exceptions'' (''run_id'' # detail_columns) ts) (\<lambda>tb.
     let rows = filter (\<lambda>r. field tb ''run_id'' r = run \<and> wanted_text (df_symbol f) [field tb ''symbol'' r] \<and>
           wanted_text (df_provider f) [field tb ''source_a'' r, field tb ''source_b'' r] \<and>
           on_date (dh_engine d) day (field tb ''trade_date'' r)) (tb_rows tb) in
     Inr (fetchdf detail_columns (map (cells tb detail_columns) (page limit 0
       (order_by (\<lambda>r. (if field tb ''status'' r = PStr ''OPEN'' then 0 else 1 :: nat, asc_key (dh_collation d) (field tb ''due_at'' r),
          asc_key (dh_collation d) (field tb ''symbol'' r))) (dh_collation d) n rows))))))"

definition quarantine_columns :: "string list" where
  "quarantine_columns = [''provider'', ''instrument_type'', ''quarantined'', ''latest_quarantine'']"

text \<open>The latest of a column of timestamps\<close>

fun latest_time :: "('v \<Rightarrow> 'v \<Rightarrow> bool) \<Rightarrow> 'v \<Rightarrow> 'v list \<Rightarrow> 'v" where
  "latest_time before v [] = v"
| "latest_time before v (w # ws) = latest_time before (if before v w then w else v) ws"

definition max_time :: "'k dash \<Rightarrow> pyval list \<Rightarrow> pyval" where
  "max_time d vs = (case filter (\<lambda>v. v \<noteq> PNone) vs of [] \<Rightarrow> PNone | w # ws \<Rightarrow> latest_time (dh_before d) w ws)"

definition quarantine_query :: "'k::linorder dash \<Rightarrow> pyval \<Rightarrow> nat \<Rightarrow> tables \<Rightarrow> frame result" where
  "quarantine_query d run n ts =
     bind_res (from_table ''quarantine_records'' [''run_id'', ''provider'', ''instrument_type'', ''created_at''] ts) (\<lambda>tb.
     let groups = grouped (cells tb [''provider'', ''instrument_type'']) (\<lambda>k rs. k @ [count_cell rs, max_time d (map (field tb ''created_at'') rs)])
           (filter (\<lambda>r. field tb ''run_id'' r = run) (tb_rows tb)) in
     Inr (fetchdf quarantine_columns (order_by (\<lambda>r. (desc_key (dh_collation d) (r ! 2), asc_key (dh_collation d) (r ! 0)))
       (dh_collation d) n groups)))"

subsection \<open>Observations and events\<close>

definition observation_columns :: "string list" where
  "observation_columns = [''symbol'', ''trade_date'', ''source'', ''open'', ''high'', ''low'', ''close'', ''volume'']"

definition observation_query :: "'k::linorder dash \<Rightarrow> dash_filters \<Rightarrow> nat \<Rightarrow> pyval \<Rightarrow> nat \<Rightarrow> tables \<Rightarrow> frame result" where
  "observation_query d f limit run n ts =
     bind_res (wanted_date (dh_engine d) (df_date f)) (\<lambda>day.
     bind_res (from_table ''equity_bars_staging'' [''run_id'', ''symbol'', ''timestamp'', ''source'', ''open'', ''high'', ''low'', ''close'', ''volume''] ts) (\<lambda>b.
     bind_res (from_table ''equity_reconciliation_results'' [''run_id'', ''is_discrepancy'', ''symbol'', ''timestamp''] ts) (\<lambda>tb.
     let date = date_of (dh_engine d);
         broken = (\<lambda>r. list_ex (\<lambda>x. field tb ''run_id'' x = run \<and> field tb ''is_discrepancy'' x = PBool True \<and>
             field tb ''symbol'' x \<noteq> PNone \<and> field tb ''symbol'' x = field b ''symbol'' r \<and>
             field tb ''timestamp'' x \<noteq> PNone \<and> date (field tb ''timestamp'' x) = date (field b ''timestamp'' r)) (tb_rows tb));
         rows = filter (\<lambda>r. field b ''run_id'' r = run \<and> broken r \<and> wanted_text (df_symbol f) [field b ''symbol'' r] \<and>
             wanted_text (df_provider f) [field b ''source'' r] \<and> on_date (dh_engine d) day (field b ''timestamp'' r)) (tb_rows b);
         out = (\<lambda>r. [field b ''symbol'' r, date (field b ''timestamp'' r), field b ''source'' r] @ cells b (drop 3 observation_columns) r);
         key = (\<lambda>i r. asc_key (dh_collation d) (out r ! i)) in
     Inr (fetchdf observation_columns (map out (page limit 0
       (order_by (\<lambda>r. (key 0 r, key 1 r, key 2 r)) (dh_collation d) n rows)))))))"

definition event_columns :: "string list" where
  "event_columns = [''event_id'', ''source'', ''stream_id'', ''event_type'', ''sequence_number'', ''sequence_status'', ''expected_sequence'',
     ''missing_count'', ''transport'', ''symbol'', ''price'', ''quantity'', ''correlation_id'', ''exchange_timestamp'', ''latency_ms'',
     ''is_anomaly'', ''reason'', ''trace_id'', ''span_id'']"

definition event_query :: "'k::linorder dash \<Rightarrow> nat \<Rightarrow> nat \<Rightarrow> tables \<Rightarrow> frame result" where
  "event_query d limit n ts =
     bind_res (from_table ''realtime_event_journal'' (''recorded_at'' # event_columns) ts) (\<lambda>tb.
     Inr (fetchdf event_columns (map (cells tb event_columns) (page limit 0
       (order_by (\<lambda>r. desc_key (dh_collation d) (field tb ''recorded_at'' r)) (dh_collation d) n (tb_rows tb))))))"

definition sequence_columns :: "string list" where
  "sequence_columns = [''sequence_status'', ''event_count'', ''max_latency_ms'', ''anomaly_count'']"

definition sequence_query :: "'k::linorder dash \<Rightarrow> nat \<Rightarrow> tables \<Rightarrow> frame result" where
  "sequence_query d n ts =
     bind_res (from_table ''realtime_event_journal'' [''sequence_status'', ''latency_ms'', ''is_anomaly''] ts) (\<lambda>tb.
     let groups = grouped (cells tb [''sequence_status'']) (\<lambda>k rs. k @ [count_cell rs, rounded_max d (map (field tb ''latency_ms'') rs),
           count_cell (filter (\<lambda>r. field tb ''is_anomaly'' r = PBool True) rs)]) (tb_rows tb) in
     Inr (fetchdf sequence_columns (order_by (\<lambda>r. desc_key (dh_collation d) (r ! 1)) (dh_collation d) n groups)))"

subsection \<open>The data of the dashboard\<close>

record dashboard_data =
  dd_latest_run :: frame
  dd_run_trend :: frame
  dd_top_breaks :: frame
  dd_repeat_offenders :: frame
  dd_exception_status :: frame
  dd_ingestion_health :: frame
  dd_break_details :: frame
  dd_quarantine_summary :: frame
  dd_source_observations :: frame
  dd_recent_events :: frame
  dd_event_sequence_health :: frame

text \<open>A query that is made only where the database has what it needs.\<close>

definition no_frame :: frame where
  "no_frame = \<lparr>fr_columns = [], fr_numeric = [], fr_rows = []\<rparr>"

definition if_present :: "bool \<Rightarrow> frame db \<Rightarrow> frame db" where
  "if_present present q = (if present then q else return_st no_frame)"

definition latest_run :: "'k::linorder dash \<Rightarrow> dash_filters \<Rightarrow> frame db" where
  "latest_run d f =
     bind_st (reading (dh_engine d) (\<lambda>now n. latest_query d (df_run f) n)) (\<lambda>g.
     bind_st (traced_latest d (set_column (set_column (set_column g ''warn_count'' (PInt 0)) ''trace_id'' PNone) ''root_span_id'' PNone))
       (with_facts d))"

text \<open>\<open>str\<close> of the identifier in the first row, \<open>NULL\<close> when there is none; an empty one is not set.\<close>

definition selected_run :: "runtime \<Rightarrow> frame \<Rightarrow> pyval" where
  "selected_run rt f = (if fr_rows f = [] then PNone else PStr (py_str rt (first_cell f ''run_id'')))"

definition top_breaks :: "'k::linorder dash \<Rightarrow> dash_filters \<Rightarrow> nat \<Rightarrow> pyval \<Rightarrow> frame db" where
  "top_breaks d f limit run =
     bind_st (reading (dh_engine d) (\<lambda>now n. table_info ''equity_reconciliation_results'')) (\<lambda>cols.
     bind_st (reading (dh_engine d) (\<lambda>now n. break_query d f limit run n)) (\<lambda>rows.
     return_st (fetchdf break_columns rows)))"

definition asked :: "'k dash \<Rightarrow> (nat \<Rightarrow> tables \<Rightarrow> 'a result) \<Rightarrow> 'a db" where
  "asked d q = reading (dh_engine d) (\<lambda>now. q)"

definition load_dashboard_data :: "runtime \<Rightarrow> 'k::linorder dash \<Rightarrow> int \<Rightarrow> dash_filters \<Rightarrow> dashboard_data db" where
  "load_dashboard_data rt d limit f =
     (if limit \<le> 0 then fail_st (ValueError ''limit must be positive'')
      else let k = nat limit in
      bind_st (statement (dh_engine d) no_op) (\<lambda>_.
      bind_st (latest_run d f) (\<lambda>runs.
      bind_st (asked d (trend_query d k)) (\<lambda>trend.
      let run = selected_run rt runs; set_run = run \<noteq> PNone \<and> run \<noteq> PStr [] in
      bind_st (top_breaks d f k run) (\<lambda>breaks.
      bind_st (asked d (offender_query d k)) (\<lambda>offenders.
      bind_st (reading (dh_engine d) (exception_status_query d)) (\<lambda>exceptions.
      bind_st (asked d (\<lambda>n ts. Inr (map fst ts))) (\<lambda>names.
      bind_st (if_present (set_run \<and> {''work_partitions'', ''provider_request_metrics''} \<subseteq> set names) (asked d (health_query d k run))) (\<lambda>health.
      bind_st (asked d (\<lambda>n. table_info ''equity_exceptions'')) (\<lambda>cols.
      bind_st (if_present (set_run \<and> set (''run_id'' # detail_columns) \<subseteq> set cols) (asked d (detail_query d f k run))) (\<lambda>details.
      bind_st (if_present (set_run \<and> ''quarantine_records'' \<in> set names) (asked d (quarantine_query d run))) (\<lambda>quarantine.
      bind_st (if_present (set_run \<and> ''equity_bars_staging'' \<in> set names \<and> fr_rows breaks \<noteq> [])
                (asked d (observation_query d f k run))) (\<lambda>observations.
      bind_st (if_present (''realtime_event_journal'' \<in> set names) (asked d (event_query d k))) (\<lambda>events.
      bind_st (if_present (''realtime_event_journal'' \<in> set names) (asked d (sequence_query d))) (\<lambda>sequences.
      return_st \<lparr>dd_latest_run = runs, dd_run_trend = trend, dd_top_breaks = breaks, dd_repeat_offenders = offenders,
        dd_exception_status = exceptions, dd_ingestion_health = health, dd_break_details = details,
        dd_quarantine_summary = quarantine, dd_source_observations = observations, dd_recent_events = events,
        dd_event_sequence_health = sequences\<rparr>)))))))))))))))"

record batch_panel =
  bp_data :: "dashboard_data option"
  bp_warning :: "string option"

text \<open>\<open>duckdb.Error\<close> and \<open>OSError\<close>, with the name of their class\<close>

fun database_failure :: "exn \<Rightarrow> string option" where
  "database_failure DatabaseError = Some ''Error''"
| "database_failure OSError = Some ''OSError''"
| "database_failure FileNotFoundError = Some ''FileNotFoundError''"
| "database_failure FileExistsError = Some ''FileExistsError''"
| "database_failure PermissionError = Some ''PermissionError''"
| "database_failure (TimeoutError m) = Some ''TimeoutError''"
| "database_failure _ = None"

definition load_batch_dashboard_state :: "runtime \<Rightarrow> 'k::linorder dash \<Rightarrow> int \<Rightarrow> dash_filters \<Rightarrow> batch_panel db" where
  "load_batch_dashboard_state rt d limit f s =
     (case load_dashboard_data rt d limit f s of
        (Inl e, s') \<Rightarrow> (case database_failure e of
            None \<Rightarrow> (Inl e, s')
          | Some name \<Rightarrow> (Inr \<lparr>bp_data = None, bp_warning = Some (''Batch data unavailable ('' @ name @ '')'')\<rparr>, s'))
      | (Inr x, s') \<Rightarrow> (Inr \<lparr>bp_data = Some x,
          bp_warning = (if fr_rows (dd_latest_run x) = [] then Some ''Batch data unavailable: no runs'' else None)\<rparr>, s'))"

subsection \<open>Reading\<close>

lemma reading_Inr:
  assumes "reading eng q s = (Inr x, s')"
  shows "q (clock eng (st_steps s)) (st_steps s) (st_tables s) = Inr x" and "st_tables s' = st_tables s"
  using assms by (auto simp: reading_def statement_def Let_def res_simps split: option.splits sum.splits)

lemma asked_Inr:
  assumes "asked d q s = (Inr x, s')"
  shows "\<exists>n. q n (st_tables s) = Inr x" and "st_tables s' = st_tables s"
  using assms reading_Inr [of "dh_engine d" "\<lambda>now. q" s x s'] by (auto simp: asked_def)

definition unchanged :: "store \<Rightarrow> store \<Rightarrow> bool" where
  "unchanged s s' \<longleftrightarrow> st_tables s' = st_tables s"

lemma unchanged_order: "reflp unchanged" "transp unchanged"
  by (auto simp: unchanged_def reflp_def transp_def)

lemma unchanged_statements:
  "steps_by unchanged (reading eng q)" "steps_by unchanged (asked d q')" "steps_by unchanged (statement eng no_op)"
  "steps_by unchanged (select eng name cols key v)"
  by (rule steps_byI; auto simp: unchanged_def asked_def reading_def select_def statement_def select_rows_def no_op_def Let_def res_simps
      split: option.splits sum.splits if_splits)+

lemma unchanged_if: "steps_by R m \<Longrightarrow> steps_by R m' \<Longrightarrow> steps_by R (if b then m else m')"
  by simp

lemmas unchanged_rules = steps_by_bind [OF unchanged_order(2)] steps_by_pure [OF unchanged_order(1)] unchanged_statements unchanged_if

lemma unchanged_traced: "steps_by unchanged (traced_latest d f)"
  unfolding traced_latest_def by (intro unchanged_rules) (auto intro: unchanged_rules split: list.splits)

lemma unchanged_facts: "steps_by unchanged (with_facts d f)"
  unfolding with_facts_def by (intro unchanged_rules) (auto intro!: unchanged_rules split: prod.splits)

lemma unchanged_load: "steps_by unchanged (load_dashboard_data rt d limit f)"
  unfolding load_dashboard_data_def Let_def if_present_def latest_run_def top_breaks_def
  by (intro unchanged_rules unchanged_traced unchanged_facts)

text \<open>The breaks of a dashboard were read from the tables it was asked about.\<close>

lemma load_breaks:
  assumes "load_dashboard_data rt d limit f s = (Inr x, s')"
  obtains n rows where "0 < limit"
    "break_query d f (nat limit) (selected_run rt (dd_latest_run x)) n (st_tables s) = Inr rows"
    "dd_top_breaks x = fetchdf break_columns rows"
proof -
  from assms have l: "0 < limit" by (auto simp: load_dashboard_data_def st_simps split: if_splits)
  from assms l obtain s1 runs s2 trend s3 breaks s4 where
    c: "statement (dh_engine d) no_op s = (Inr (), s1)" and r: "latest_run d f s1 = (Inr runs, s2)"
    and t: "asked d (trend_query d (nat limit)) s2 = (Inr trend, s3)"
    and b: "top_breaks d f (nat limit) (selected_run rt runs) s3 = (Inr breaks, s4)"
    and x: "dd_latest_run x = runs" "dd_top_breaks x = breaks"
    by (auto simp: load_dashboard_data_def Let_def st_simps elim!: bind_st_Inr_cases)
  have "steps_by unchanged (latest_run d f)"
    unfolding latest_run_def by (intro unchanged_rules unchanged_traced unchanged_facts)
  from steps_byD [OF this r] steps_byD [OF unchanged_statements(3) c] asked_Inr(2) [OF t]
  have s3: "st_tables s3 = st_tables s" by (simp add: unchanged_def)
  from b obtain rows s5 where q: "reading (dh_engine d) (\<lambda>now n. break_query d f (nat limit) (selected_run rt runs) n) s5 = (Inr rows, s4)"
    and s5: "st_tables s5 = st_tables s3" and rows: "breaks = fetchdf break_columns rows"
    by (auto simp: top_breaks_def st_simps elim!: bind_st_Inr_cases dest: reading_Inr(2))
  from that [OF l, of _ rows] reading_Inr(1) [OF q] s3 s5 rows x show thesis by simp
qed

subsection \<open>Panels\<close>

text \<open>A table of \<open>rich\<close> is its title, its labels and its rows of texts; a panel is its title and its parts.\<close>

record rich_table =
  rt_title :: string
  rt_labels :: "string list"
  rt_rows :: "string list list"

datatype part = Table rich_table | Text string

record panel =
  pn_title :: string
  pn_parts :: "part list"

definition display :: "runtime \<Rightarrow> pyval \<Rightarrow> string" where
  "display rt v = (if isna v then ''MISSING'' else case v of PFloat x \<Rightarrow> format_float rt 4 x | _ \<Rightarrow> py_str rt v)"

definition rich_rows :: "runtime \<Rightarrow> string \<Rightarrow> (string \<times> string) list \<Rightarrow> frame \<Rightarrow> rich_table" where
  "rich_rows rt title cols f =
     \<lparr>rt_title = title, rt_labels = map snd cols,
      rt_rows = (if fr_rows f = [] \<or> fr_columns f = [] then [''No data'' # replicate (length cols - 1) []]
        else map (\<lambda>r. map (\<lambda>(k, _). display rt (cell f r k)) cols) (fr_rows f))\<rparr>"

definition head_frame :: "nat \<Rightarrow> frame \<Rightarrow> frame" where
  "head_frame n f = f\<lparr>fr_rows := take n (fr_rows f)\<rparr>"

definition render_batch_panel :: "runtime \<Rightarrow> batch_panel \<Rightarrow> panel" where
  "render_batch_panel rt b = \<lparr>pn_title = ''Batch reconciliation'', pn_parts =
     (case bp_data b of
        None \<Rightarrow> [Text (case set_value (bp_warning b) of None \<Rightarrow> ''Batch data unavailable'' | Some w \<Rightarrow> w)]
      | Some x \<Rightarrow> (case set_value (bp_warning b) of None \<Rightarrow> [] | Some w \<Rightarrow> [Text w]) @
          [Table (rich_rows rt ''Latest batch run'' [(''run_id'', ''Run ID''), (''status'', ''Status''), (''yahoo_row_count'', ''Yahoo''),
             (''alpaca_row_count'', ''Alpaca''), (''massive_row_count'', ''Massive''), (''match_count'', ''MATCH''),
             (''warn_count'', ''WARN''), (''break_count'', ''BREAK'')] (dd_latest_run x)),
           Table (rich_rows rt ''Top five breaks'' [(''symbol'', ''Instrument''), (''timestamp'', ''Date''), (''metric_name'', ''Metric''),
             (''source_a'', ''Provider A''), (''source_a_value'', ''Value A''), (''source_b'', ''Provider B''),
             (''source_b_value'', ''Value B''), (''difference'', ''Difference''), (''break_reason'', ''Reason''),
             (''warn_limit'', ''Warn limit''), (''break_limit'', ''Break limit'')] (head_frame 5 (dd_top_breaks x))),
           Table (rich_rows rt ''Exception operations'' [(''status'', ''Status''), (''exception_count'', ''Count''),
             (''unassigned_count'', ''Unassigned''), (''overdue_count'', ''Overdue''), (''oldest_open_hours'', ''Oldest (h)'')]
             (dd_exception_status x))])\<rparr>"

definition analysis_tables :: "runtime \<Rightarrow> dashboard_data \<Rightarrow> rich_table list" where
  "analysis_tables rt x =
     [rich_rows rt ''Batch telemetry correlation'' [(''run_id'', ''Run ID''), (''trace_id'', ''Trace ID''), (''root_span_id'', ''Root span ID'')]
        (dd_latest_run x),
      rich_rows rt ''Run history'' [(''run_id'', ''Run ID''), (''started_at'', ''Started''), (''status'', ''Status''), (''match_count'', ''MATCH''),
        (''break_count'', ''BREAK''), (''break_rate_pct'', ''Break %'')] (head_frame 5 (dd_run_trend x)),
      rich_rows rt ''Ingestion partitions'' [(''provider'', ''Provider''), (''symbol_bucket'', ''Bucket''), (''status'', ''Status''),
        (''attempts'', ''Attempts''), (''row_count'', ''Rows''), (''latency_ms'', ''Latency ms''), (''archive_reused'', ''Reused''),
        (''error_type'', ''Error'')] (dd_ingestion_health x),
      rich_rows rt ''Break and exception drill-down'' [(''exception_id'', ''Exception ID''), (''symbol'', ''Symbol''), (''trade_date'', ''Date''),
        (''source_a'', ''Source A''), (''source_b'', ''Source B''), (''reason_code'', ''Reason''), (''priority'', ''Priority''),
        (''status'', ''Status''), (''owner'', ''Owner''), (''due_at'', ''Due'')] (dd_break_details x),
      rich_rows rt ''Normalized source observations'' [(''symbol'', ''Symbol''), (''trade_date'', ''Date''), (''source'', ''Provider''),
        (''open'', ''Open''), (''high'', ''High''), (''low'', ''Low''), (''close'', ''Close''), (''volume'', ''Volume'')]
        (dd_source_observations x),
      rich_rows rt ''Repeat offenders'' [(''symbol'', ''Symbol''), (''metric_name'', ''Metric''), (''source_a'', ''Source A''),
        (''source_b'', ''Source B''), (''affected_runs'', ''Runs''), (''max_abs_difference'', ''Max difference'')]
        (head_frame 5 (dd_repeat_offenders x)),
      rich_rows rt ''Event sequence health'' [(''sequence_status'', ''Sequence status''), (''event_count'', ''Events''),
        (''max_latency_ms'', ''Max latency ms''), (''anomaly_count'', ''Anomalies'')] (dd_event_sequence_health x),
      rich_rows rt ''Persisted event trace'' [(''event_id'', ''Event ID''), (''source'', ''Source''), (''stream_id'', ''Stream''),
        (''event_type'', ''Type''), (''sequence_number'', ''Seq''), (''sequence_status'', ''Order''), (''expected_sequence'', ''Expected''),
        (''missing_count'', ''Missing''), (''transport'', ''Transport''), (''symbol'', ''Symbol''), (''price'', ''Price''),
        (''quantity'', ''Quantity''), (''correlation_id'', ''Correlation ID''), (''exchange_timestamp'', ''Exchange time''),
        (''latency_ms'', ''Latency ms''), (''is_anomaly'', ''Anomaly''), (''reason'', ''Reason''), (''trace_id'', ''Trace ID''),
        (''span_id'', ''Span ID'')] (head_frame 5 (dd_recent_events x)),
      rich_rows rt ''Quarantine evidence'' [(''provider'', ''Provider''), (''instrument_type'', ''Instrument''), (''quarantined'', ''Count''),
        (''latest_quarantine'', ''Latest'')] (dd_quarantine_summary x)]"

definition render_analysis_panel :: "runtime \<Rightarrow> batch_panel \<Rightarrow> panel" where
  "render_analysis_panel rt b = \<lparr>pn_title = ''Investigation workspace'', pn_parts =
     (case bp_data b of
        None \<Rightarrow> [Text ''Analysis unavailable with batch data'']
      | Some x \<Rightarrow> map Table (analysis_tables rt x))\<rparr>"

definition tick_rows :: "runtime \<Rightarrow> payload option \<Rightarrow> string list list" where
  "tick_rows rt t = (case t of
     None \<Rightarrow> [[''Most recent tick'', ''No tick received''], [''Latency'', ''MISSING'']]
   | Some p \<Rightarrow> let get = dict_get PNone p in
       [[''Most recent tick'', py_str rt (get ''symbol'') @ '' @ '' @ display rt (get ''price'') @ '' ('' @ py_str rt (get ''exchange_timestamp'') @ '')''],
        [''Latency'', display rt (get ''latency_ms'') @ '' ms''], [''Price change'', display rt (get ''pct_change'') @ ''%'']])"

definition render_realtime_panel :: "runtime \<Rightarrow> feed_panel \<Rightarrow> panel" where
  "render_realtime_panel rt p = \<lparr>pn_title = ''Real-time anomaly feed'', pn_parts = [Table \<lparr>rt_title = [], rt_labels = [[], []], rt_rows =
     [[''Feed status'', fp_status p]] @ tick_rows rt (fp_tick p) @
     [[''Ticks received'', show_nat (fp_ticks p)], [''Recent anomalies'', show_nat (fp_recent p)],
      [''Latest anomaly'', (case set_value (fp_reason p) of None \<Rightarrow> ''None observed'' | Some r \<Rightarrow> r)]] @
     (case set_value (fp_warning p) of None \<Rightarrow> [] | Some w \<Rightarrow> [[''Warning'', w]])\<rparr>]\<rparr>"

definition render_control_room :: "runtime \<Rightarrow> batch_panel \<Rightarrow> feed_panel \<Rightarrow> panel list" where
  "render_control_room rt b p = [render_batch_panel rt b, render_realtime_panel rt p, render_analysis_panel rt b]"

definition render_dashboard :: "runtime \<Rightarrow> dashboard_data \<Rightarrow> panel list" where
  "render_dashboard rt x = render_control_room rt \<lparr>bp_data = Some x, bp_warning = None\<rparr>
     (unavailable_realtime_data ''Real-time feed not connected'')"

subsection \<open>The screen\<close>

text \<open>The arguments of \<open>main\<close>, and what it keeps between two screens: the store, the feed or the panel that replaces
  it, and what the socket has received.\<close>

record screen_args =
  sa_limit :: int
  sa_filters :: dash_filters
  sa_endpoint :: "string option"
  sa_stale :: pyfloat
  sa_window :: pyfloat

record room =
  rm_store :: store
  rm_feed :: "feed_panel + feed_state"
  rm_arrivals :: "arrival list"

definition open_feed :: "environment \<Rightarrow> (nat \<Rightarrow> pyfloat) \<Rightarrow> (string \<Rightarrow> bool) \<Rightarrow> screen_args \<Rightarrow> (string + feed_state) result" where
  "open_feed env clk connects a =
     bind_res (case set_value (sa_endpoint a) of Some e \<Rightarrow> Inr e | None \<Rightarrow> get_scored_endpoint env) (\<lambda>e.
     bind_res (validate_local_endpoint e) (\<lambda>_.
     bind_res (new_feed_state clk (sa_stale a) (sa_window a)) (\<lambda>st.
     Inr (if connects e then Inr st else Inl ''ZMQError''))))"

definition start_feed :: "environment \<Rightarrow> (nat \<Rightarrow> pyfloat) \<Rightarrow> (string \<Rightarrow> bool) \<Rightarrow> screen_args \<Rightarrow> (feed_panel + feed_state) result" where
  "start_feed env clk connects a =
     (let lost = (\<lambda>name. unavailable_realtime_data (''Real-time feed unavailable ('' @ name @ '')'')) in
      case open_feed env clk connects a of
        Inl (ValueError m) \<Rightarrow> Inr (Inl (lost ''ValueError''))
      | Inl e \<Rightarrow> Inl e
      | Inr (Inl name) \<Rightarrow> Inr (Inl (lost name))
      | Inr (Inr st) \<Rightarrow> Inr (Inr st))"

definition poll_feed :: "runtime \<Rightarrow> (nat \<Rightarrow> pyfloat) \<Rightarrow> (room, feed_panel) prog" where
  "poll_feed rt clk m =
     (case rm_feed m of
        Inl p \<Rightarrow> (Inr p, m)
      | Inr st \<Rightarrow> (case poll rt clk 1000 (rm_arrivals m) st of
          (Inl e, st') \<Rightarrow> (Inl e, m\<lparr>rm_feed := Inr st'\<rparr>)
        | (Inr (p, rest), st') \<Rightarrow> (Inr p, m\<lparr>rm_feed := Inr st', rm_arrivals := rest\<rparr>)))"

definition screen :: "runtime \<Rightarrow> 'k::linorder dash \<Rightarrow> (nat \<Rightarrow> pyfloat) \<Rightarrow> screen_args \<Rightarrow> (room, panel list) prog" where
  "screen rt d clk a m =
     (case load_batch_dashboard_state rt d (sa_limit a) (sa_filters a) (rm_store m) of
        (Inl e, s) \<Rightarrow> (Inl e, m\<lparr>rm_store := s\<rparr>)
      | (Inr b, s) \<Rightarrow> bind_st (poll_feed rt clk) (\<lambda>p. return_st (render_control_room rt b p)) (m\<lparr>rm_store := s\<rparr>))"

text \<open>Every row of a table has a cell for every label, and no table is without a row.\<close>

definition rectangular :: "rich_table \<Rightarrow> bool" where
  "rectangular t \<longleftrightarrow> rt_rows t \<noteq> [] \<and> (\<forall>r\<in>set (rt_rows t). length r = length (rt_labels t))"

lemma rich_rows_rectangular: "cols \<noteq> [] \<Longrightarrow> rectangular (rich_rows rt title cols f)"
  by (auto simp: rectangular_def rich_rows_def)

lemma analysis_rectangular: "list_all rectangular (analysis_tables rt x)"
  unfolding analysis_tables_def by (simp add: rich_rows_rectangular)

lemma realtime_rectangular: "pn_parts (render_realtime_panel rt p) = [Table t] \<Longrightarrow> rectangular t"
  by (auto simp: render_realtime_panel_def rectangular_def tick_rows_def Let_def split: option.splits)

subsection \<open>Properties\<close>

text \<open>C38 (dashboard_shows_top_breaks): the dashboard only reads.  Its breaks are breaks of the run it shows that pass the filters,
  at most five and at most as many as asked for, and no break that passes them and is left out ranks before one
  that is shown.\<close>

theorem dashboard_shows_top_breaks:
  assumes "load_dashboard_data rt d limit f s = (Inr x, s')" and "fair (dh_collation d)"
  shows "st_tables s' = st_tables s \<and> 0 < limit \<and>
    (\<exists>tb day shown rest. map_of (st_tables s) ''equity_reconciliation_results'' = Some tb \<and>
       wanted_date (dh_engine d) (df_date f) = Inr day \<and>
       dd_top_breaks x = fetchdf break_columns (map (break_cells tb) shown) \<and>
       mset (shown @ rest) = mset (filter (selected_break d f (selected_run rt (dd_latest_run x)) day tb) (tb_rows tb)) \<and>
       length shown = min (min (nat limit) 5) (length (shown @ rest)) \<and>
       (\<forall>r\<in>set shown. \<forall>q\<in>set rest. break_order (dh_collation d) tb r \<le> break_order (dh_collation d) tb q))"
proof -
  have s: "st_tables s' = st_tables s" using steps_byD [OF unchanged_load assms(1)] by (simp add: unchanged_def)
  from load_breaks [OF assms(1)] obtain n rows where l: "0 < limit"
    and q: "break_query d f (nat limit) (selected_run rt (dd_latest_run x)) n (st_tables s) = Inr rows"
    and x: "dd_top_breaks x = fetchdf break_columns rows" .
  from q obtain day tb where day: "wanted_date (dh_engine d) (df_date f) = Inr day"
    and tb: "map_of (st_tables s) ''equity_reconciliation_results'' = Some tb"
    and rows: "rows = map (break_cells tb) (page (min (nat limit) 5) 0 (order_by (break_order (dh_collation d) tb) (dh_collation d) n
        (filter (selected_break d f (selected_run rt (dd_latest_run x)) day tb) (tb_rows tb))))"
    by (auto simp: break_query_def res_simps from_table_def split: option.splits if_splits)
  let ?found = "filter (selected_break d f (selected_run rt (dd_latest_run x)) day tb) (tb_rows tb)"
  let ?ordered = "order_by (break_order (dh_collation d) tb) (dh_collation d) n ?found"
  let ?k = "min (nat limit) 5"
  have m: "mset ?ordered = mset ?found" using assms(2) by (simp add: order_by_def fair_def)
  have "sorted (map (break_order (dh_collation d) tb) ?ordered)" by (simp add: order_by_def)
  then have "sorted (map (break_order (dh_collation d) tb) (take ?k ?ordered @ drop ?k ?ordered))" by simp
  then have "\<forall>r\<in>set (take ?k ?ordered). \<forall>q\<in>set (drop ?k ?ordered).
      break_order (dh_collation d) tb r \<le> break_order (dh_collation d) tb q"
    unfolding map_append sorted_append by simp
  moreover have "mset (take ?k ?ordered @ drop ?k ?ordered) = mset ?found" using m by simp
  moreover have "rows = map (break_cells tb) (take ?k ?ordered)" by (simp add: rows page_def)
  moreover have "length (take ?k ?ordered) = min ?k (length (take ?k ?ordered @ drop ?k ?ordered))" by simp
  ultimately show ?thesis using s l x tb day by blast
qed

text \<open>C39 (dashboard_limits_agree): the limits beside a difference of closes are the limits that decided it: the daily control
  reports a break exactly when the difference is beyond the break limit shown or not a number, and a warning
  exactly when it is only beyond the warning limit shown.\<close>

theorem dashboard_limits_agree:
  fixes x y :: rat
  shows "\<exists>w l. shown_limits (PStr ''close'') (PFloat (Fin x)) (PFloat (Fin y)) = [PFloat w, PFloat l] \<and>
    (price_status batch_tolerances (Fin x) (Fin y) = BREAK \<longleftrightarrow> flt l (fabs (fsub (Fin x) (Fin y))) \<or> is_nan (fsub (Fin x) (Fin y))) \<and>
    (price_status batch_tolerances (Fin x) (Fin y) = WARN \<longleftrightarrow>
       \<not> (flt l (fabs (fsub (Fin x) (Fin y))) \<or> is_nan (fsub (Fin x) (Fin y))) \<and> flt w (fabs (fsub (Fin x) (Fin y))))"
proof -
  let ?a = "Fin x" and ?b = "Fin y" and ?d = "fsub (Fin x) (Fin y)"
  have greater: "sql_greater u v = fmax u v" if "\<not> is_nan u" "\<not> is_nan v" for u v
    using that by (simp add: sql_greater_def fmax_def)
  have m: "\<exists>z. fmax (fabs ?a) (fabs ?b) = Fin z" by (simp add: fmax_def)
  have small: "\<exists>z. fl p = Fin z" if "0 \<le> p" "p \<le> 1" for p :: rat
    using fl_in_range [of p 1] that by auto
  have limit: "limit_cell (fl s) (fl p) (PFloat ?a) (PFloat ?b) = PFloat (price_limit (fl s) (Some (fl p)) ?a ?b) \<and>
      \<not> is_nan (price_limit (fl s) (Some (fl p)) ?a ?b)"
    if "0 \<le> s" "s \<le> 1" "0 \<le> p" "p \<le> 1" for s p :: rat
  proof -
    note u = that
    obtain s' p' z where z: "fl s = Fin s'" "fl p = Fin p'" "fmax (fabs ?a) (fabs ?b) = Fin z"
      using m small [OF u(1,2)] small [OF u(3,4)] by blast
    then have "sql_greater (fabs ?a) (fabs ?b) = Fin z" using greater [of "fabs ?a" "fabs ?b"] by simp
    moreover have "\<not> is_nan (fmul (Fin z) (Fin p'))" by (simp add: fl_def Let_def)
    ultimately show ?thesis using z greater [of "Fin s'" "fmul (Fin z) (Fin p')"]
      by (simp add: limit_cell_def greatest_def times_share_def price_limit_def)
  qed
  let ?w = "price_limit (fl (1 / 100)) (Some (fl (1 / 1000))) ?a ?b" and ?l = "price_limit (fl (5 / 100)) (Some (fl (5 / 1000))) ?a ?b"
  have "shown_limits (PStr ''close'') (PFloat ?a) (PFloat ?b) = [PFloat ?w, PFloat ?l]" "\<not> is_nan ?l"
    using limit [of "1 / 100" "1 / 1000"] limit [of "5 / 100" "5 / 1000"] by (simp_all add: shown_limits_def)
  moreover from this(2) have "price_status batch_tolerances ?a ?b = BREAK \<longleftrightarrow> flt ?l (fabs ?d) \<or> is_nan ?d"
    "price_status batch_tolerances ?a ?b = WARN \<longleftrightarrow> \<not> (flt ?l (fabs ?d) \<or> is_nan ?d) \<and> flt ?w (fabs ?d)"
    using flt_not_fle [of ?l "fabs ?d"] by (auto simp: price_status_def batch_tolerances_def Let_def)
  ultimately show ?thesis by blast
qed


subsection \<open>An example\<close>

definition sample_dash :: "(pyval \<Rightarrow> 'k) \<Rightarrow> 'k dash" where
  "sample_dash rk = \<lparr>dh_engine = plain_engine, dh_collation = \<lparr>rank = rk, arrange = (\<lambda>n rows. rows)\<rparr>, dh_before = (\<lambda>v w. False),
     dh_hours = (\<lambda>v w. PInt 0), dh_round3 = (\<lambda>x. x)\<rparr>"

definition no_filters :: dash_filters where
  "no_filters = \<lparr>df_run = None, df_symbol = None, df_provider = Some ''yahoo'', df_date = None\<rparr>"

definition one_break :: store where
  "one_break = \<lparr>st_tables = [(''pipeline_runs'', pipeline_runs\<lparr>tb_rows := [[PStr ''r1'']]\<rparr>), (''equity_exceptions'', equity_exceptions),
     (''equity_reconciliation_results'', new_table (map (\<lambda>c. plain c VARCHAR) break_needed) [] [] []
       \<lparr>tb_rows := [[PStr ''r1'', PBool True, PStr ''AAPL'', PNone, PStr ''volume'', PStr ''YAHOO'', PStr ''ALPACA'', PNone, PNone, PFloat (Fin 2)]]\<rparr>)],
     st_steps = 0\<rparr>"

lemma sample_loaded:
  "case load_dashboard_data sample_runtime (sample_dash rk) 3 no_filters one_break of
     (Inl e, s) \<Rightarrow> False | (Inr x, s) \<Rightarrow> length (fr_rows (dd_top_breaks x)) = 1 \<and> selected_run sample_runtime (dd_latest_run x) = PStr ''r1''"
  by code_simp

lemma dashboard_shows_top_breaks_witness:
  "\<exists>x s'. load_dashboard_data sample_runtime (sample_dash to_nat) 3 no_filters one_break = (Inr x, s') \<and>
     st_tables s' = st_tables one_break \<and> length (fr_rows (dd_top_breaks x)) \<le> 3"
proof -
  obtain x s' where x: "load_dashboard_data sample_runtime (sample_dash to_nat) 3 no_filters one_break = (Inr x, s')"
    using sample_loaded [of to_nat] by (auto split: prod.splits sum.splits)
  have "fair (dh_collation (sample_dash to_nat))" by (simp add: sample_dash_def fair_def)
  from dashboard_shows_top_breaks [OF x this] x show ?thesis by (auto simp: fetchdf_def)
qed

end
