(* ===== verification/Otc.thy ===== *)
theory Otc
  imports Market_Event Frames "HOL-Library.AList"
begin

section \<open>Trades over the counter\<close>

text \<open>
  \<open>ingestion/swaps.py\<close> and \<open>ingestion/forwards.py\<close>: booked trades marked against market data.  A blotter is a list of
  dictionaries; the price histories of Yahoo Finance come from a function that is asked by ticker, and the state
  is the list of the tickers asked for.
\<close>

type_synonym histories = "string \<Rightarrow> frame result"

type_synonym 'a market = "(string list, 'a) prog"

definition ask_history :: "histories \<Rightarrow> string \<Rightarrow> frame market" where
  "ask_history vendor ticker asked = (vendor ticker, asked @ [ticker])"

text \<open>\<open>float(hist["Close"].iloc[-1])\<close> of a history that is not empty\<close>

definition last_close :: "frame \<Rightarrow> pyfloat result" where
  "last_close hist =
     bind_res (cell_at hist (last (fr_rows hist)) ''Close'')
       (numeric_value (TypeError ''float() argument must be a string or a real number''))"

definition no_history :: "frame \<Rightarrow> bool" where
  "no_history hist \<longleftrightarrow> fr_rows hist = [] \<or> fr_columns hist = []"

text \<open>\<open>trade[key]\<close>, and \<open>row[key] = value\<close>\<close>

definition item :: "payload \<Rightarrow> string \<Rightarrow> pyval result" where
  "item d k = (case map_of d k of None \<Rightarrow> Inl (KeyError k) | Some v \<Rightarrow> Inr v)"

definition put :: "string \<Rightarrow> pyval \<Rightarrow> payload \<Rightarrow> payload" where
  "put k v d = AList.update k v d"

text \<open>\<open>pd.DataFrame(rows)\<close>: the columns are the keys in the order in which they appear.\<close>

definition frame_of_dicts :: "payload list \<Rightarrow> frame" where
  "frame_of_dicts rows = build_frame (uniq (concat (map (map fst) rows))) (\<lambda>c r. dict_get PNone r c) rows"

definition as_float :: "pyval \<Rightarrow> pyfloat result" where
  "as_float = numeric_value (TypeError ''unsupported operand type(s) for -'')"

subsection \<open>Swaps\<close>

definition swap :: "string \<Rightarrow> string \<Rightarrow> int \<Rightarrow> string \<Rightarrow> rat \<Rightarrow> string \<Rightarrow> string \<Rightarrow> string \<Rightarrow> string \<Rightarrow> payload" where
  "swap i party notional side rate index freq start stop =
     [(''trade_id'', PStr i), (''counterparty'', PStr party), (''currency'', PStr ''USD''), (''notional'', PInt notional),
      (''pay_receive'', PStr side), (''fixed_rate_pct'', PFloat (fl rate)), (''floating_index'', PStr index),
      (''pay_freq'', PStr freq), (''effective_date'', PStr start), (''maturity_date'', PStr stop)]"

definition swap_blotter :: "payload list" where
  "swap_blotter =
     [swap ''IRS-0001'' ''BankA'' 10000000 ''PAY_FIXED'' (385 / 100) ''USD-SOFR'' ''3M'' ''2024-01-15'' ''2029-01-15'',
      swap ''IRS-0002'' ''BankB'' 25000000 ''RECEIVE_FIXED'' (410 / 100) ''USD-SOFR'' ''3M'' ''2023-09-20'' ''2030-09-20'',
      swap ''IRS-0003'' ''BankA'' 5000000 ''PAY_FIXED'' (445 / 100) ''USD-10Y'' ''6M'' ''2024-03-01'' ''2034-03-01'']"

definition rate_proxy :: "pyval \<Rightarrow> string" where
  "rate_proxy index = (if index = PStr ''USD-SOFR'' then ''^IRX'' else ''^TNX'')"

definition fetch_reference_rate :: "histories \<Rightarrow> pyval \<Rightarrow> pyval market" where
  "fetch_reference_rate vendor index =
     bind_st (ask_history vendor (rate_proxy index)) (\<lambda>hist.
     if no_history hist then return_st PNone
     else bind_st (lift_res (last_close hist)) (\<lambda>x. return_st (PFloat (round_nd 4 x))))"

fun rate_cache :: "histories \<Rightarrow> pyval list \<Rightarrow> (pyval \<times> pyval) list market" where
  "rate_cache vendor [] = return_st []"
| "rate_cache vendor (i # is) = bind_st (fetch_reference_rate vendor i) (\<lambda>r.
     bind_st (rate_cache vendor is) (\<lambda>rs. return_st ((i, r) # rs)))"

definition mark_swap :: "(pyval \<times> pyval) list \<Rightarrow> payload \<Rightarrow> payload result" where
  "mark_swap rates trade =
     bind_res (item trade ''floating_index'') (\<lambda>i.
     let ref = (case map_of rates i of None \<Rightarrow> PNone | Some r \<Rightarrow> r); row = put ''reference_rate_pct'' ref trade in
     if ref = PNone then Inr (put ''fixed_minus_float_pct'' PNone row)
     else bind_res (bind_res (item trade ''fixed_rate_pct'') as_float) (\<lambda>fixed.
          bind_res (as_float ref) (\<lambda>r.
          Inr (put ''fixed_minus_float_pct'' (PFloat (round_nd 4 (fsub fixed r))) row))))"

text \<open>The distinct indices are those of a set: each is fetched once, here in the order in which they appear.\<close>

definition ingest_swaps :: "histories \<Rightarrow> int \<Rightarrow> payload list option \<Rightarrow> frame market" where
  "ingest_swaps vendor today blotter =
     (let trades = (case blotter of None \<Rightarrow> swap_blotter | Some b \<Rightarrow> b) in
      bind_st (lift_res (map_res (\<lambda>t. item t ''floating_index'') trades)) (\<lambda>indices.
      bind_st (rate_cache vendor (uniq indices)) (\<lambda>rates.
      bind_st (lift_res (map_res (mark_swap rates) trades)) (\<lambda>rows.
      return_st (set_column (frame_of_dicts rows) ''trade_date'' (PDate today))))))"

subsection \<open>Forwards\<close>

definition forward :: "string \<Rightarrow> string \<Rightarrow> string \<Rightarrow> string \<Rightarrow> int \<Rightarrow> rat \<Rightarrow> string \<Rightarrow> string \<Rightarrow> payload" where
  "forward i base quote symb notional rate traded valued =
     [(''trade_id'', PStr i), (''pair'', PStr (base @ quote)), (''yahoo_symbol'', PStr symb), (''base_ccy'', PStr base),
      (''quote_ccy'', PStr quote), (''notional'', PInt notional), (''booked_forward_rate'', PFloat (fl rate)),
      (''trade_date'', PStr traded), (''value_date'', PStr valued)]"

definition forward_blotter :: "payload list" where
  "forward_blotter =
     [forward ''FXF-0001'' ''EUR'' ''USD'' ''EURUSD=X'' 5000000 (10925 / 10000) ''2026-05-01'' ''2026-11-02'',
      forward ''FXF-0002'' ''GBP'' ''USD'' ''GBPUSD=X'' 3000000 (12710 / 10000) ''2026-05-15'' ''2026-08-17'',
      forward ''FXF-0003'' ''USD'' ''JPY'' ''USDJPY=X'' 8000000 (15640 / 100) ''2026-06-01'' ''2026-12-01'']"

definition foreign_rate :: "string \<Rightarrow> pyfloat" where
  "foreign_rate ccy = (if ccy = ''EUR'' then fl (325 / 10000) else if ccy = ''GBP'' then fl (450 / 10000)
     else if ccy = ''JPY'' then fl (10 / 10000) else Fin 0)"

definition fetch_usd_rate :: "histories \<Rightarrow> pyfloat market" where
  "fetch_usd_rate vendor =
     bind_st (ask_history vendor ''^IRX'') (\<lambda>hist.
     if no_history hist then return_st (fl (5 / 100))
     else bind_st (lift_res (last_close hist)) (\<lambda>x. return_st (fdiv x 100)))"

definition fetch_spot :: "histories \<Rightarrow> string \<Rightarrow> pyfloat option market" where
  "fetch_spot vendor symb =
     bind_st (ask_history vendor symb) (\<lambda>hist.
     if no_history hist then return_st None
     else bind_st (lift_res (last_close hist)) (\<lambda>x. return_st (Some (round_nd 6 x))))"

definition rate_for :: "string \<Rightarrow> pyfloat \<Rightarrow> pyfloat" where
  "rate_for ccy usd_rate = (if ccy = ''USD'' then usd_rate else foreign_rate ccy)"

text \<open>Division of two floats\<close>

fun float_div :: "pyfloat \<Rightarrow> pyfloat \<Rightarrow> pyfloat result" where
  "float_div x (Fin y) = (if y = 0 then Inl ZeroDivisionError else Inr (fdiv x y))"
| "float_div x NaN = Inr NaN"
| "float_div (Fin x) i = Inr (Fin 0)"
| "float_div x i = Inr NaN"

text \<open>\<open>1 + rate * t\<close>\<close>

definition growth :: "pyfloat \<Rightarrow> pyfloat \<Rightarrow> pyfloat" where
  "growth rate t = fadd (Fin 1) (fmul rate t)"

definition market_forward :: "pyfloat \<Rightarrow> string \<Rightarrow> string \<Rightarrow> int \<Rightarrow> pyfloat \<Rightarrow> pyfloat result" where
  "market_forward spot base_ccy quote_ccy days usd_rate =
     (let t = fdiv (Fin (of_int days)) 360 in
      bind_res (float_div (fmul spot (growth (rate_for quote_ccy usd_rate) t)) (growth (rate_for base_ccy usd_rate) t)) (\<lambda>f.
      Inr (round_nd 6 f)))"

definition text_item :: "payload \<Rightarrow> string \<Rightarrow> string result" where
  "text_item d k = bind_res (item d k) (\<lambda>v. case v of PStr s \<Rightarrow> Inr s | _ \<Rightarrow> Inl (TypeError k))"

text \<open>A pip is a hundredth of a yen and a ten-thousandth of other currencies.\<close>

definition pip :: "string \<Rightarrow> pyfloat" where
  "pip quote_ccy = (if quote_ccy = ''JPY'' then fl (1 / 100) else fl (1 / 10000))"

definition mark_forward :: "payload \<Rightarrow> pyfloat \<Rightarrow> pyfloat option \<Rightarrow> int \<Rightarrow> (pyval \<times> pyval) result" where
  "mark_forward trade usd_rate spot days =
     (case spot of
        None \<Rightarrow> Inr (PNone, PNone)
      | Some s \<Rightarrow> if days \<le> 0 then Inr (PNone, PNone)
          else bind_res (text_item trade ''base_ccy'') (\<lambda>base.
               bind_res (text_item trade ''quote_ccy'') (\<lambda>quote.
               bind_res (market_forward s base quote days usd_rate) (\<lambda>fwd.
               bind_res (bind_res (item trade ''booked_forward_rate'') as_float) (\<lambda>booked.
               bind_res (float_div (fsub booked fwd) (pip quote)) (\<lambda>pips.
               Inr (PFloat fwd, PFloat (round_nd 1 pips))))))))"

text \<open>One trade: the days to its value date are those from the start of the day.\<close>

definition forward_row :: "runtime \<Rightarrow> histories \<Rightarrow> int \<Rightarrow> pyfloat \<Rightarrow> payload \<Rightarrow> payload market" where
  "forward_row rt vendor asof usd_rate trade =
     bind_st (lift_res (text_item trade ''yahoo_symbol'')) (\<lambda>symb.
     bind_st (fetch_spot vendor symb) (\<lambda>spot.
     bind_st (lift_res (text_item trade ''value_date'')) (\<lambda>valued.
     lift_res (case date_of_iso rt valued of
         None \<Rightarrow> Inl (ValueError ''time data'')
       | Some day \<Rightarrow> bind_res (mark_forward trade usd_rate spot (day - asof)) (\<lambda>(fwd, pips).
           Inr (put ''diff_pips'' pips (put ''market_forward_rate'' fwd (put ''days_to_value'' (PInt (day - asof))
             (put ''spot_rate'' (case spot of None \<Rightarrow> PNone | Some x \<Rightarrow> PFloat x) trade)))))))))"

fun forward_rows :: "runtime \<Rightarrow> histories \<Rightarrow> int \<Rightarrow> pyfloat \<Rightarrow> payload list \<Rightarrow> payload list market" where
  "forward_rows rt vendor asof usd_rate [] = return_st []"
| "forward_rows rt vendor asof usd_rate (t # ts) = bind_st (forward_row rt vendor asof usd_rate t) (\<lambda>r.
     bind_st (forward_rows rt vendor asof usd_rate ts) (\<lambda>rs. return_st (r # rs)))"

definition ingest_forwards :: "runtime \<Rightarrow> histories \<Rightarrow> int \<Rightarrow> payload list option \<Rightarrow> frame market" where
  "ingest_forwards rt vendor asof blotter =
     (let trades = (case blotter of None \<Rightarrow> forward_blotter | Some b \<Rightarrow> b) in
      bind_st (fetch_usd_rate vendor) (\<lambda>usd_rate.
      bind_st (forward_rows rt vendor asof usd_rate trades) (\<lambda>rows.
      return_st (set_column (frame_of_dicts rows) ''ingested_date'' (PDate asof)))))"

subsection \<open>What a marked trade is\<close>

lemma map_of_put: "map_of (put k v d) = (map_of d)(k \<mapsto> v)"
  by (simp add: put_def update_conv')

lemma item_Inr: "item d k = Inr v \<longleftrightarrow> map_of d k = Some v"
  by (simp add: item_def split: option.splits)

text \<open>The reference rate of an index: the last close of its proxy, or none.\<close>

definition reference_rate :: "histories \<Rightarrow> pyval \<Rightarrow> pyval result" where
  "reference_rate vendor i = bind_res (vendor (rate_proxy i)) (\<lambda>hist.
     if no_history hist then Inr PNone else bind_res (last_close hist) (\<lambda>x. Inr (PFloat (round_nd 4 x))))"

definition marked_swap :: "histories \<Rightarrow> payload \<Rightarrow> payload \<Rightarrow> bool" where
  "marked_swap vendor t r \<longleftrightarrow>
     (\<forall>k. k \<notin> {''reference_rate_pct'', ''fixed_minus_float_pct''} \<longrightarrow> map_of r k = map_of t k) \<and>
     (\<exists>i ref. map_of t ''floating_index'' = Some i \<and> reference_rate vendor i = Inr ref \<and> map_of r ''reference_rate_pct'' = Some ref \<and>
       (if ref = PNone then map_of r ''fixed_minus_float_pct'' = Some PNone
        else \<exists>v fixed x. map_of t ''fixed_rate_pct'' = Some v \<and> as_float v = Inr fixed \<and> ref = PFloat x \<and>
          map_of r ''fixed_minus_float_pct'' = Some (PFloat (round_nd 4 (fsub fixed x)))))"

lemma fetch_reference_rate_eq:
  "fetch_reference_rate vendor i asked = (reference_rate vendor i, asked @ [rate_proxy i])"
  by (auto simp: fetch_reference_rate_def reference_rate_def ask_history_def bind_st_def return_st_def lift_res_def
    split: sum.splits)

lemma rate_cache_Inr:
  assumes "rate_cache vendor is asked = (Inr rates, asked')"
  shows "asked' = asked @ map rate_proxy is \<and> map fst rates = is \<and> (\<forall>(i, r)\<in>set rates. reference_rate vendor i = Inr r)"
  using assms
proof (induction "is" arbitrary: asked rates)
  case (Cons i "is")
  from Cons.prems obtain r s1 rs where 1: "fetch_reference_rate vendor i asked = (Inr r, s1)"
    and 2: "rate_cache vendor is s1 = (Inr rs, asked')" and rates: "rates = (i, r) # rs"
    by (auto simp: st_simps elim!: bind_st_cases)
  from Cons.IH [OF 2] 1 rates show ?case by (auto simp: fetch_reference_rate_eq)
qed (simp add: st_simps)

lemma reference_rate_cases: "reference_rate vendor i = Inr r \<Longrightarrow> r = PNone \<or> (\<exists>x. r = PFloat x)"
  by (auto simp: reference_rate_def res_simps split: if_splits)

lemma mark_swap_Inr:
  assumes "mark_swap rates t = Inr r" and "\<forall>i. map_of t ''floating_index'' = Some i \<longrightarrow> i \<in> fst ` set rates"
    and "\<forall>(i, r)\<in>set rates. reference_rate vendor i = Inr r"
  shows "marked_swap vendor t r"
proof -
  from assms(1) obtain i where i: "map_of t ''floating_index'' = Some i"
    by (auto simp: mark_swap_def item_Inr res_simps)
  with assms(2) obtain ref where ref: "map_of rates i = Some ref" by (metis map_of_eq_None_iff not_None_eq)
  with assms(3) have rr: "reference_rate vendor i = Inr ref" by (auto dest: map_of_SomeD)
  show ?thesis
  proof (cases "ref = PNone")
    case True
    with assms(1) i ref rr show ?thesis
      by (auto simp: marked_swap_def mark_swap_def item_def Let_def map_of_put)
  next
    case False
    with reference_rate_cases [OF rr] obtain x where x: "ref = PFloat x" by blast
    with assms(1) i ref obtain v fixed where "map_of t ''fixed_rate_pct'' = Some v" "as_float v = Inr fixed"
      "r = put ''fixed_minus_float_pct'' (PFloat (round_nd 4 (fsub fixed x))) (put ''reference_rate_pct'' ref t)"
      by (auto simp: mark_swap_def item_Inr Let_def res_simps item_def as_float_def split: option.splits)
    with i rr x show ?thesis by (auto simp: marked_swap_def map_of_put)
  qed
qed

definition marked_forward :: "runtime \<Rightarrow> histories \<Rightarrow> int \<Rightarrow> pyfloat \<Rightarrow> payload \<Rightarrow> payload \<Rightarrow> bool" where
  "marked_forward rt vendor asof usd t r \<longleftrightarrow>
     (\<forall>k. k \<notin> {''spot_rate'', ''days_to_value'', ''market_forward_rate'', ''diff_pips''} \<longrightarrow> map_of r k = map_of t k) \<and>
     (\<exists>symb valued day hist. map_of t ''yahoo_symbol'' = Some (PStr symb) \<and> map_of t ''value_date'' = Some (PStr valued) \<and>
       date_of_iso rt valued = Some day \<and> vendor symb = Inr hist \<and> map_of r ''days_to_value'' = Some (PInt (day - asof)) \<and>
       (if no_history hist \<or> day \<le> asof then map_of r ''market_forward_rate'' = Some PNone \<and> map_of r ''diff_pips'' = Some PNone
        else \<exists>base quote fwd v booked close pips. map_of t ''base_ccy'' = Some (PStr base) \<and> map_of t ''quote_ccy'' = Some (PStr quote) \<and>
          last_close hist = Inr close \<and> market_forward (round_nd 6 close) base quote (day - asof) usd = Inr fwd \<and>
          map_of t ''booked_forward_rate'' = Some v \<and> as_float v = Inr booked \<and> float_div (fsub booked fwd) (pip quote) = Inr pips \<and>
          map_of r ''market_forward_rate'' = Some (PFloat fwd) \<and> map_of r ''diff_pips'' = Some (PFloat (round_nd 1 pips))))"

lemma text_item_Inr: "text_item d k = Inr s \<longleftrightarrow> map_of d k = Some (PStr s)"
  by (auto simp: text_item_def item_def split: option.splits pyval.splits)

lemma forward_row_Inr:
  assumes "forward_row rt vendor asof usd t asked = (Inr r, asked')"
  shows "marked_forward rt vendor asof usd t r" and "\<exists>symb. map_of t ''yahoo_symbol'' = Some (PStr symb) \<and> asked' = asked @ [symb]"
proof -
  from assms obtain symb spot s1 valued day fwd pips where
    s: "text_item t ''yahoo_symbol'' = Inr symb" and f: "fetch_spot vendor symb asked = (Inr spot, s1)"
    and v: "text_item t ''value_date'' = Inr valued" and d: "date_of_iso rt valued = Some day"
    and m: "mark_forward t usd spot (day - asof) = Inr (fwd, pips)"
    and r: "r = put ''diff_pips'' pips (put ''market_forward_rate'' fwd (put ''days_to_value'' (PInt (day - asof))
             (put ''spot_rate'' (case spot of None \<Rightarrow> PNone | Some x \<Rightarrow> PFloat x) t)))" and a: "asked' = s1"
    by (auto simp: forward_row_def st_simps res_simps elim!: bind_st_cases split: option.splits)
  from f obtain hist where h: "vendor symb = Inr hist" "s1 = asked @ [symb]"
    and spot: "if no_history hist then spot = None else \<exists>x. last_close hist = Inr x \<and> spot = Some (round_nd 6 x)"
    by (auto simp: fetch_spot_def ask_history_def bind_st_def st_simps lift_res_def return_st_def split: sum.splits if_splits)
  show "\<exists>symb. map_of t ''yahoo_symbol'' = Some (PStr symb) \<and> asked' = asked @ [symb]" using s h a by (simp add: text_item_Inr)
  show "marked_forward rt vendor asof usd t r"
  proof (cases "no_history hist \<or> day \<le> asof")
    case True
    with m spot have "fwd = PNone \<and> pips = PNone" by (auto simp: mark_forward_def split: option.splits if_splits)
    with True s v d h r show ?thesis unfolding marked_forward_def by (auto simp: map_of_put text_item_Inr)
  next
    case False
    with spot obtain x where x: "last_close hist = Inr x" "spot = Some (round_nd 6 x)" by auto
    with False m obtain base quote f w booked p where
      "map_of t ''base_ccy'' = Some (PStr base)" "map_of t ''quote_ccy'' = Some (PStr quote)"
      "market_forward (round_nd 6 x) base quote (day - asof) usd = Inr f" "map_of t ''booked_forward_rate'' = Some w"
      "as_float w = Inr booked" "float_div (fsub booked f) (pip quote) = Inr p" "fwd = PFloat f" "pips = PFloat (round_nd 1 p)"
      by (auto simp: mark_forward_def res_simps text_item_Inr item_Inr)
    with False x s v d h r show ?thesis unfolding marked_forward_def by (simp add: map_of_put text_item_Inr)
  qed
qed

lemma forward_rows_Inr:
  assumes "forward_rows rt vendor asof usd ts asked = (Inr rs, asked')"
  shows "list_all2 (marked_forward rt vendor asof usd) ts rs \<and> length asked' = length asked + length ts"
  using assms
proof (induction ts arbitrary: asked rs)
  case (Cons t ts)
  from Cons.prems obtain r s1 rs' where 1: "forward_row rt vendor asof usd t asked = (Inr r, s1)"
    and 2: "forward_rows rt vendor asof usd ts s1 = (Inr rs', asked')" and rs: "rs = r # rs'"
    by (auto simp: st_simps elim!: bind_st_cases)
  from Cons.IH [OF 2] forward_row_Inr [OF 1] rs show ?case by auto
qed (simp add: st_simps)

subsection \<open>Properties\<close>

definition index_of :: "payload \<Rightarrow> pyval" where
  "index_of t = (case map_of t ''floating_index'' of None \<Rightarrow> PNone | Some i \<Rightarrow> i)"

lemma indices_of:
  "map_res (\<lambda>t. item t ''floating_index'') ts = Inr is \<Longrightarrow>
    is = map index_of ts \<and> (\<forall>t\<in>set ts. map_of t ''floating_index'' = Some (index_of t))"
  by (induction ts arbitrary: "is") (auto simp: res_simps item_Inr index_of_def)

lemma map_res_all2: "map_res f xs = Inr ys \<Longrightarrow> (\<And>x y. x \<in> set xs \<Longrightarrow> f x = Inr y \<Longrightarrow> P x y) \<Longrightarrow> list_all2 P xs ys"
  by (induction xs arbitrary: ys) (auto simp: res_simps)

text \<open>Ingesting swaps asks for one history per distinct index and returns every trade as it was booked, with
  the rounded reference rate of its index and the difference to its fixed rate; both are missing exactly when
  the market has no history.\<close>

theorem swaps_marked:
  assumes "ingest_swaps vendor today blotter asked = (Inr f, asked')"
  shows "\<exists>trades rows. trades = (case blotter of None \<Rightarrow> swap_blotter | Some b \<Rightarrow> b) \<and>
    list_all2 (marked_swap vendor) trades rows \<and> f = set_column (frame_of_dicts rows) ''trade_date'' (PDate today) \<and>
    asked' = asked @ map rate_proxy (uniq (map index_of trades))"
proof -
  let ?trades = "case blotter of None \<Rightarrow> swap_blotter | Some b \<Rightarrow> b"
  from assms obtain indices rates rows where i: "map_res (\<lambda>t. item t ''floating_index'') ?trades = Inr indices"
    and c: "rate_cache vendor (uniq indices) asked = (Inr rates, asked')"
    and r: "map_res (mark_swap rates) ?trades = Inr rows"
    and f: "f = set_column (frame_of_dicts rows) ''trade_date'' (PDate today)"
    by (auto simp: ingest_swaps_def Let_def st_simps elim!: bind_st_cases)
  from rate_cache_Inr [OF c] have rates: "asked' = asked @ map rate_proxy (uniq indices)" "set (map fst rates) = set indices"
    "\<forall>(i, r)\<in>set rates. reference_rate vendor i = Inr r" by (auto simp: set_uniq)
  note ix = indices_of [OF i]
  have "list_all2 (marked_swap vendor) ?trades rows"
  proof (rule map_res_all2 [OF r])
    fix t y assume "t \<in> set ?trades" "mark_swap rates t = Inr y"
    with rates(2,3) ix show "marked_swap vendor t y" by (intro mark_swap_Inr [of rates]) auto
  qed
  with f rates(1) ix show ?thesis by blast
qed

text \<open>Ingesting forwards asks once for the dollar rate and once for the spot of every trade, and returns
  every trade as it was booked with its days to value.  Exactly the trades with a spot and a value date in the
  future are marked: with the forward of covered interest parity and the difference in pips.\<close>

theorem forwards_marked:
  assumes "ingest_forwards rt vendor asof blotter asked = (Inr f, asked')"
  shows "\<exists>trades usd asked1 rows. trades = (case blotter of None \<Rightarrow> forward_blotter | Some b \<Rightarrow> b) \<and>
    fetch_usd_rate vendor asked = (Inr usd, asked1) \<and> list_all2 (marked_forward rt vendor asof usd) trades rows \<and>
    f = set_column (frame_of_dicts rows) ''ingested_date'' (PDate asof) \<and> length asked' = length asked + 1 + length trades"
proof -
  from assms obtain usd s1 rows where u: "fetch_usd_rate vendor asked = (Inr usd, s1)"
    and r: "forward_rows rt vendor asof usd (case blotter of None \<Rightarrow> forward_blotter | Some b \<Rightarrow> b) s1 = (Inr rows, asked')"
    and f: "f = set_column (frame_of_dicts rows) ''ingested_date'' (PDate asof)"
    by (auto simp: ingest_forwards_def Let_def st_simps elim!: bind_st_cases)
  have "length s1 = length asked + 1"
    using u by (auto simp: fetch_usd_rate_def ask_history_def bind_st_def st_simps return_st_def lift_res_def
      split: sum.splits if_splits)
  with forward_rows_Inr [OF r] u f show ?thesis by simp blast
qed

subsection \<open>Examples\<close>

definition closing :: "rat \<Rightarrow> frame" where
  "closing x = \<lparr>fr_columns = [''Close''], fr_numeric = [''Close''], fr_rows = [[PFloat (Fin x)]]\<rparr>"

definition sample_histories :: histories where
  "sample_histories ticker = (if ticker = ''^TNX'' then Inr (closing 4) else Inr \<lparr>fr_columns = [], fr_numeric = [], fr_rows = []\<rparr>)"

definition sample_swaps :: "payload list" where
  "sample_swaps = [[(''trade_id'', PStr ''a''), (''fixed_rate_pct'', PFloat (Fin 5)), (''floating_index'', PStr ''USD-SOFR'')],
     [(''trade_id'', PStr ''b''), (''fixed_rate_pct'', PFloat (Fin 5)), (''floating_index'', PStr ''USD-SOFR'')]]"

definition sample_forwards :: "payload list" where
  "sample_forwards = [[(''trade_id'', PStr ''a''), (''yahoo_symbol'', PStr ''EURUSD=X''), (''value_date'', PStr ''9'')]]"

lemma swaps_marked_witness:
  "\<exists>f. ingest_swaps sample_histories 5 (Some sample_swaps) [] = (Inr f, [''^IRX''])"
proof -
  have "is_ok (fst (ingest_swaps sample_histories 5 (Some sample_swaps) []))" by code_simp
  then obtain f asked where i: "ingest_swaps sample_histories 5 (Some sample_swaps) [] = (Inr f, asked)"
    by (metis is_ok_iff surj_pair fst_conv)
  moreover have "map rate_proxy (uniq (map index_of sample_swaps)) = [''^IRX'']" by code_simp
  ultimately show ?thesis using swaps_marked [OF i] by auto
qed

lemma forwards_marked_witness:
  "\<exists>f asked rows. ingest_forwards sample_runtime sample_histories 5 (Some sample_forwards) [] = (Inr f, asked) \<and>
     length asked = 2 \<and> f = set_column (frame_of_dicts rows) ''ingested_date'' (PDate 5) \<and> length rows = 1 \<and>
     map_of (rows ! 0) ''market_forward_rate'' = Some PNone"
proof -
  have usd: "fetch_usd_rate sample_histories [] = (Inr (fl (5 / 100)), [''^IRX''])"
    by (simp add: fetch_usd_rate_def ask_history_def sample_histories_def no_history_def bind_st_def return_st_def)
  have "is_ok (fst (forward_rows sample_runtime sample_histories 5 u sample_forwards s))" for u s by code_simp
  then obtain rs s where "forward_rows sample_runtime sample_histories 5 (fl (5 / 100)) sample_forwards [''^IRX''] = (Inr rs, s)"
    by (metis is_ok_iff surj_pair fst_conv)
  then have "\<exists>f asked. ingest_forwards sample_runtime sample_histories 5 (Some sample_forwards) [] = (Inr f, asked)"
    using usd by (simp add: ingest_forwards_def bind_st_def return_st_def)
  then obtain f asked where i: "ingest_forwards sample_runtime sample_histories 5 (Some sample_forwards) [] = (Inr f, asked)" by blast
  from forwards_marked [OF i] obtain usd rows where
    m: "list_all2 (marked_forward sample_runtime sample_histories 5 usd) sample_forwards rows"
    "f = set_column (frame_of_dicts rows) ''ingested_date'' (PDate 5)" "length asked = 1 + length sample_forwards" by auto
  then obtain r where "rows = [r]" "marked_forward sample_runtime sample_histories 5 usd (hd sample_forwards) r"
    by (auto simp: sample_forwards_def list_all2_Cons1)
  moreover from this(2) have "map_of r ''market_forward_rate'' = Some PNone"
    by (auto simp: marked_forward_def sample_forwards_def sample_histories_def no_history_def split: if_splits)
  ultimately show ?thesis using i m by (auto simp: sample_forwards_def)
qed

end
