(* ===== verification/Smoke.thy ===== *)
theory Smoke
  imports Batch Ticks
begin

section \<open>Release checks\<close>

text \<open>
  \<open>smoke.py\<close>: the checks of the configuration and of the schema.  Importing a module is an argument; the temporary
  database of \<open>check_database\<close> is the empty store.
\<close>

definition required_modules :: "string list" where
  "required_modules = map (\<lambda>m. ''reconciliation_engine.'' @ m)
     [''batch'', ''api.service'', ''alerts'', ''dashboard'', ''notifications'', ''ingestion.alpaca_equities'', ''ingestion.alpaca_options'',
      ''ingestion.massive'', ''ingestion.massive_equities'', ''ingestion.massive_options'', ''ingestion.massive_futures'',
      ''ingestion.providers'', ''ingestion.yahoo_equities'', ''ingestion.yahoo_options'', ''reconciliation.equities'',
      ''reconciliation.options'', ''reconciliation.futures'', ''realtime.publisher'', ''realtime.anomaly_scorer'',
      ''realtime.network_transport'', ''observability'', ''scaling.partitions'', ''scaling.equity_ingestion'', ''storage.data_lake'',
      ''storage.partitioned_data_lake'', ''storage.retention'', ''storage.duckdb'']"

definition required_tables :: "string list" where
  "required_tables = [''pipeline_runs'', ''equity_bars_staging'', ''equity_reconciliation_results'', ''equity_exceptions'',
     ''work_partitions'', ''provider_request_metrics'', ''quarantine_records'', ''realtime_event_journal'']"

definition check_imports :: "(string \<Rightarrow> exn option) \<Rightarrow> string list result" where
  "check_imports loading =
     bind_res (map_res (\<lambda>m. case loading m of None \<Rightarrow> Inr () | Some e \<Rightarrow> Inl e) required_modules) (\<lambda>_. Inr required_modules)"

definition placeholder :: "string \<Rightarrow> bool" where
  "placeholder key \<longleftrightarrow> starts_with ''your_'' (py_lower key)"

record checked_configuration =
  cc_symbols :: "string list"
  cc_raw :: string
  cc_scored :: string

definition endpoint_of :: "environment \<Rightarrow> string \<Rightarrow> string \<Rightarrow> string" where
  "endpoint_of env name dflt = py_strip (case env name of None \<Rightarrow> dflt | Some v \<Rightarrow> v)"

definition configured_symbols :: "environment \<Rightarrow> string list result" where
  "configured_symbols env =
     normalize_symbols (case env ''RECONCILIATION_SYMBOLS'' of Some v \<Rightarrow> [v] | None \<Rightarrow> [''AAPL''])"

definition configuration_of :: "environment \<Rightarrow> checked_configuration result" where
  "configuration_of env =
     bind_res (configured_symbols env) (\<lambda>symbols.
     let raw = endpoint_of env ''REALTIME_ZMQ_ENDPOINT'' ''tcp://127.0.0.1:5555'';
         scored = endpoint_of env ''REALTIME_SCORED_ZMQ_ENDPOINT'' ''tcp://127.0.0.1:5556'' in
     bind_res (validate_local_endpoint raw) (\<lambda>_.
     bind_res (validate_local_endpoint scored) (\<lambda>_.
     if raw = scored then Inl (ValueError ''Raw and scored ZeroMQ endpoints must be different'')
     else Inr \<lparr>cc_symbols = symbols, cc_raw = raw, cc_scored = scored\<rparr>)))"

definition check_configuration :: "(process, checked_configuration) prog" where
  "check_configuration =
     bind_st load_alpaca_credentials (\<lambda>(api_key, secret_key).
     if placeholder api_key \<or> placeholder secret_key then fail_st (RuntimeError ''Alpaca credentials still contain example placeholders'')
     else bind_st load_massive_api_key (\<lambda>massive.
     if placeholder massive then fail_st (RuntimeError ''Massive credentials still contain example placeholders'')
     else (\<lambda>p. let p' = load_project_env p in (configuration_of (ps_env p'), p'))))"

definition check_database :: "engine \<Rightarrow> string list db" where
  "check_database eng =
     bind_st (initialize_database eng) (\<lambda>_.
     bind_st (statement eng no_op) (\<lambda>_.
     bind_st (statement eng (\<lambda>ts. Inr (map fst ts, ts))) (\<lambda>names.
     bind_st (statement eng (\<lambda>ts. if map_of ts ''pipeline_runs'' = None then Inl DatabaseError else Inr ((), ts))) (\<lambda>_.
     if filter (\<lambda>t. t \<notin> set names) required_tables \<noteq> [] then fail_st (RuntimeError ''DuckDB schema is missing tables'')
     else return_st (sort required_tables)))))"

record smoke_result =
  sr_modules :: nat
  sr_configuration :: checked_configuration
  sr_tables :: "string list"

definition run_smoke_checks :: "(string \<Rightarrow> exn option) \<Rightarrow> engine \<Rightarrow> store option \<Rightarrow> process \<Rightarrow> smoke_result result" where
  "run_smoke_checks loading eng db p =
     bind_res (check_imports loading) (\<lambda>modules.
     bind_res (fst (check_configuration p)) (\<lambda>configuration.
     bind_res (fst (check_database eng (case db of Some s \<Rightarrow> s | None \<Rightarrow> \<lparr>st_tables = [], st_steps = 0\<rparr>))) (\<lambda>tables.
     Inr \<lparr>sr_modules = length modules, sr_configuration = configuration, sr_tables = tables\<rparr>)))"

text \<open>\<open>main\<close>: the exit status\<close>

definition smoke_main :: "(string \<Rightarrow> exn option) \<Rightarrow> engine \<Rightarrow> store option \<Rightarrow> process \<Rightarrow> int" where
  "smoke_main loading eng db p = (case run_smoke_checks loading eng db p of Inl e \<Rightarrow> 1 | Inr r \<Rightarrow> 0)"

subsection \<open>A prepared store passes\<close>

fun creates :: "string \<Rightarrow> ddl \<Rightarrow> bool" where
  "creates t (Create n tb) = (n = t)"
| "creates t d = False"

lemma required_created: "t \<in> set required_tables \<Longrightarrow> \<exists>tb. Create t tb \<in> set schema_script"
proof -
  have "list_all (\<lambda>t. list_ex (creates t) schema_script) required_tables" by code_simp
  moreover assume "t \<in> set required_tables"
  ultimately obtain d where "d \<in> set schema_script" "creates t d" by (auto simp: list_all_iff list_ex_iff)
  from this(2) obtain tb where "d = Create t tb" by (cases d) auto
  with \<open>d \<in> set schema_script\<close> show ?thesis by blast
qed

lemma prepared_has_tables:
  assumes "initialize_database eng s = (Inr u, s1)" and "t \<in> set required_tables"
  shows "map_of (st_tables s1) t \<noteq> None"
proof -
  obtain tb where "Create t tb \<in> set schema_script" using required_created [OF assms(2)] ..
  moreover have "\<forall>d\<in>set schema_script. settled d (schema_of (st_tables s1))"
    using script_settles [OF _ orderly_script] assms(1) by (simp add: initialize_database_def)
  ultimately have "settled (Create t tb) (schema_of (st_tables s1))" by blast
  then show ?thesis by (auto simp: schema_of_def)
qed

subsection \<open>Properties\<close>

text \<open>A configuration that passes names at least one symbol, each valid and once, two different
  endpoints on the local machine, and credentials that were found and are not the placeholders of the example.\<close>

theorem smoke_configuration_sound:
  assumes "check_configuration p = (Inr c, p')"
  shows "cc_symbols c \<noteq> [] \<and> distinct (cc_symbols c) \<and> list_all valid_symbol (cc_symbols c) \<and> cc_raw c \<noteq> cc_scored c \<and>
    (\<forall>e\<in>{cc_raw c, cc_scored c}. \<exists>l\<in>set local_prefixes. starts_with l e) \<and>
    (\<exists>k s m p1 p2. load_alpaca_credentials p = (Inr (k, s), p1) \<and> load_massive_api_key p1 = (Inr m, p2) \<and>
       \<not> placeholder k \<and> \<not> placeholder s \<and> \<not> placeholder m)"
proof -
  from assms obtain k s m p1 p2 where l: "load_alpaca_credentials p = (Inr (k, s), p1)" "load_massive_api_key p1 = (Inr m, p2)"
    "\<not> placeholder k" "\<not> placeholder s" "\<not> placeholder m" and c: "configuration_of (ps_env (load_project_env p2)) = Inr c"
    by (auto simp: check_configuration_def st_simps Let_def elim!: bind_st_cases split: if_splits prod.splits)
  from c obtain symbols where n: "configured_symbols (ps_env (load_project_env p2)) = Inr symbols" "cc_symbols c = symbols"
    and e: "cc_raw c \<noteq> cc_scored c" "validate_local_endpoint (cc_raw c) = Inr (cc_raw c)"
      "validate_local_endpoint (cc_scored c) = Inr (cc_scored c)"
    by (auto simp: configuration_of_def Let_def res_simps validate_local_endpoint_def split: if_splits)
  have "\<exists>l\<in>set local_prefixes. starts_with l x" if "validate_local_endpoint x = Inr x" for x
    using that by (auto simp: validate_local_endpoint_def list_ex_iff split: if_splits)
  with e normalize_Inr [OF n(1) [unfolded configured_symbols_def]] n(2) l show ?thesis
    by (simp add: list_all_iff)
qed

text \<open>Once the schema is initialised and the engine has no further fault, the check of the database
  finds every required table, on a new store and on one of any older release, and changes nothing.\<close>

theorem smoke_database_passes:
  assumes "initialize_database eng s = (Inr u, s1)" and "\<forall>n\<ge>st_steps s1. fault eng n = None"
  shows "\<exists>s'. check_database eng s = (Inr (sort required_tables), s') \<and> st_tables s' = st_tables s1"
proof -
  have "t \<in> set (map fst (st_tables s1))" if "t \<in> set required_tables" for t
    using prepared_has_tables [OF assms(1) that] by (auto simp: map_of_eq_None_iff)
  then have "filter (\<lambda>t. t \<notin> set (map fst (st_tables s1))) required_tables = []" by (simp add: filter_empty_conv)
  moreover have "map_of (st_tables s1) ''pipeline_runs'' \<noteq> None"
    by (rule prepared_has_tables [OF assms(1)]) (simp add: required_tables_def)
  ultimately show ?thesis using assms
    by (auto simp: check_database_def bind_st_def return_st_def statement_def no_op_def Let_def)
qed

subsection \<open>Examples\<close>

definition ready_process :: process where
  "ready_process = \<lparr>ps_env = [''APCA_API_KEY_ID'' \<mapsto> ''k'', ''APCA_API_SECRET_KEY'' \<mapsto> ''s'', ''MASSIVE_API_KEY'' \<mapsto> ''m''], ps_posix = False,
     ps_file = Some \<lparr>sf_mode = 0, sf_vars = [(''ALPACA_API_KEY'', ''your_key'')]\<rparr>\<rparr>"

lemma ready_configuration: "is_ok (fst (check_configuration ready_process))"
  by code_simp

lemma smoke_configuration_sound_witness:
  "\<exists>c p'. check_configuration ready_process = (Inr c, p') \<and> cc_symbols c \<noteq> [] \<and> cc_raw c \<noteq> cc_scored c"
proof -
  obtain c p' where c: "check_configuration ready_process = (Inr c, p')"
    using ready_configuration by (metis is_ok_iff surj_pair fst_conv)
  from smoke_configuration_sound [OF c] c show ?thesis by blast
qed

text \<open>The check reads the credentials before the variables of the file are loaded, every other program after that: a key of the
  environment passes, but what is used then is the placeholder of the file.\<close>

lemma placeholder_behind_key:
  "is_ok (fst (check_configuration ready_process)) \<and>
   map_option fst (alpaca_keys (ps_env (snd (check_configuration ready_process)))) = Some ''your_key''"
  by code_simp

text \<open>Two names of one endpoint are taken for two endpoints.\<close>

lemma same_endpoint_passes:
  "is_ok (configuration_of [''REALTIME_ZMQ_ENDPOINT'' \<mapsto> ''tcp://localhost:5555'', ''REALTIME_SCORED_ZMQ_ENDPOINT'' \<mapsto> ''tcp://127.0.0.1:5555''])"
  by code_simp

lemma fresh_initialized: "is_ok (fst (initialize_database plain_engine \<lparr>st_tables = [], st_steps = 0\<rparr>))"
  by code_simp

lemma smoke_database_passes_witness:
  "\<exists>s'. check_database plain_engine \<lparr>st_tables = [], st_steps = 0\<rparr> = (Inr (sort required_tables), s')"
proof -
  obtain s1 where i: "initialize_database plain_engine \<lparr>st_tables = [], st_steps = 0\<rparr> = (Inr (), s1)"
    using fresh_initialized by (auto simp: is_ok_iff prod_eq_iff)
  have "\<forall>n\<ge>st_steps s1. fault plain_engine n = None" by (simp add: plain_engine_def)
  from smoke_database_passes [OF i this] show ?thesis by blast
qed

end
