(* ===== verification/Observability.thy ===== *)
theory Observability
  imports Environment "HOL-Library.AList" "HOL-Library.List_Lexorder" "HOL-Library.Char_ord"
begin

section \<open>Telemetry\<close>

text \<open>
  \<open>observability.py\<close>: the configuration, the measurements that the recorders make, spans around a program, log records,
  and the global runtime that is configured once.  The SDK of OpenTelemetry is what keeps the measurements
  and the finished spans; exporters, resources and flushing are left out.
\<close>

subsection \<open>Configuration\<close>

record telemetry_config =
  tc_enabled :: bool
  tc_service :: string
  tc_version :: string
  tc_environment :: string
  tc_traces :: string
  tc_metrics :: string
  tc_interval :: int

definition instrumentation_version :: string where
  "instrumentation_version = ''1.0.0''"

definition rstrip_slash :: "string \<Rightarrow> string" where
  "rstrip_slash s = rev (dropWhile (\<lambda>c. c = CHR ''/'') (rev s))"

definition signal_endpoint :: "environment \<Rightarrow> string \<Rightarrow> string" where
  "signal_endpoint env signal =
     (case set_value (env (''OTEL_EXPORTER_OTLP_'' @ py_upper signal @ ''_ENDPOINT'')) of
        Some specific \<Rightarrow> specific
      | None \<Rightarrow> rstrip_slash (case env ''OTEL_EXPORTER_OTLP_ENDPOINT'' of None \<Rightarrow> ''http://127.0.0.1:4318'' | Some b \<Rightarrow> b)
          @ ''/v1/'' @ signal)"

definition telemetry_from_environment :: "environment \<Rightarrow> string option \<Rightarrow> telemetry_config result" where
  "telemetry_from_environment env service_name =
     (case py_int (case env ''OTEL_METRIC_EXPORT_INTERVAL'' of None \<Rightarrow> ''60000'' | Some v \<Rightarrow> v) of
        None \<Rightarrow> Inl (ValueError ''invalid literal for int() with base 10'')
      | Some interval \<Rightarrow>
          if interval \<le> 0 then Inl (ValueError ''OTEL_METRIC_EXPORT_INTERVAL must be positive'')
          else Inr \<lparr>tc_enabled = environment_bool env ''RECONCILIATION_OTEL_ENABLED'' False \<and> \<not> environment_bool env ''OTEL_SDK_DISABLED'' False,
            tc_service = (case set_value service_name of Some n \<Rightarrow> n | None \<Rightarrow>
               (case set_value (env ''OTEL_SERVICE_NAME'') of Some n \<Rightarrow> n | None \<Rightarrow> ''reconciliation-engine'')),
            tc_version = instrumentation_version,
            tc_environment = (case env ''RECONCILIATION_ENVIRONMENT'' of None \<Rightarrow> ''local'' | Some v \<Rightarrow> v),
            tc_traces = signal_endpoint env ''traces'', tc_metrics = signal_endpoint env ''metrics'', tc_interval = interval\<rparr>)"

subsection \<open>Measurements\<close>

record measurement =
  ms_instrument :: string
  ms_value :: pyval
  ms_attributes :: payload

record span_record =
  sn_name :: string
  sn_attributes :: payload
  sn_error :: "string option"

record telemetry =
  tl_enabled :: bool
  tl_measured :: "measurement list"
  tl_spans :: "span_record list"

definition new_telemetry :: "bool \<Rightarrow> telemetry" where
  "new_telemetry enabled = \<lparr>tl_enabled = enabled, tl_measured = [], tl_spans = []\<rparr>"

definition measure :: "string \<Rightarrow> pyval \<Rightarrow> payload \<Rightarrow> telemetry \<Rightarrow> telemetry" where
  "measure instrument v attrs t = t\<lparr>tl_measured := tl_measured t @ [\<lparr>ms_instrument = instrument, ms_value = v, ms_attributes = attrs\<rparr>]\<rparr>"

definition record_run :: "string \<Rightarrow> int \<Rightarrow> int \<Rightarrow> telemetry \<Rightarrow> telemetry" where
  "record_run status records breaks t =
     (let attrs = [(''run.status'', PStr status)];
          t' = measure ''reconciliation.records'' (PInt records) attrs (measure ''reconciliation.runs'' (PInt 1) attrs t) in
      if breaks \<noteq> 0 then measure ''reconciliation.records'' (PInt breaks) (attrs @ [(''reconciliation.status'', PStr ''BREAK'')]) t' else t')"

text \<open>\<open>max(0.0, latency)\<close>: a value that is not greater, and so a NaN, is replaced.\<close>

definition at_least_zero :: "pyfloat \<Rightarrow> pyfloat" where
  "at_least_zero x = (if flt (Fin 0) x then x else Fin 0)"

definition record_partition :: "string \<Rightarrow> string \<Rightarrow> string \<Rightarrow> pyfloat \<Rightarrow> int \<Rightarrow> bool \<Rightarrow> telemetry \<Rightarrow> telemetry" where
  "record_partition provider instrument_type status latency rows reused t =
     (let attrs = [(''provider'', PStr provider), (''instrument.type'', PStr instrument_type), (''partition.status'', PStr status),
            (''archive.reused'', PBool reused)];
          t' = measure ''reconciliation.provider.rows'' (PInt (max 0 rows)) attrs
            (measure ''reconciliation.provider.duration'' (PFloat (at_least_zero latency)) attrs
            (measure ''reconciliation.provider.requests'' (PInt 1) attrs (measure ''reconciliation.partitions'' (PInt 1) attrs t))) in
      if status = ''FAILED'' then measure ''reconciliation.quarantines'' (PInt 1) attrs t' else t')"

definition record_api_request :: "string \<Rightarrow> string \<Rightarrow> int \<Rightarrow> pyfloat \<Rightarrow> telemetry \<Rightarrow> telemetry" where
  "record_api_request verb route status duration t =
     (let attrs = [(''http.request.method'', PStr verb), (''http.route'', PStr route), (''http.response.status_code'', PInt status)] in
      measure ''reconciliation.api.duration'' (PFloat (at_least_zero duration)) attrs (measure ''reconciliation.api.requests'' (PInt 1) attrs t))"

definition record_export :: "string \<Rightarrow> int \<Rightarrow> telemetry \<Rightarrow> telemetry" where
  "record_export fmt rows t =
     (let attrs = [(''export.format'', PStr fmt)] in
      measure ''reconciliation.export.rows'' (PInt (max 0 rows)) attrs (measure ''reconciliation.exports'' (PInt 1) attrs t))"

definition record_alert :: "string \<Rightarrow> string \<Rightarrow> bool \<Rightarrow> telemetry \<Rightarrow> telemetry" where
  "record_alert rule severity delivered t =
     measure ''reconciliation.alerts'' (PInt 1) [(''alert.rule'', PStr rule), (''alert.severity'', PStr severity), (''alert.delivered'', PBool delivered)] t"

subsection \<open>Spans\<close>

fun safe_value :: "runtime \<Rightarrow> pyval \<Rightarrow> pyval option" where
  "safe_value rt PNone = None"
| "safe_value rt (PBool b) = Some (PBool b)"
| "safe_value rt (PInt n) = Some (PInt n)"
| "safe_value rt (PFloat x) = Some (PFloat x)"
| "safe_value rt v = Some (PStr (take 256 (py_str rt v)))"

definition safe_attributes :: "runtime \<Rightarrow> payload \<Rightarrow> payload" where
  "safe_attributes rt attrs = concat (map (\<lambda>(k, v). case safe_value rt v of None \<Rightarrow> [] | Some w \<Rightarrow> [(k, w)]) attrs)"

text \<open>\<open>type(error).__name__\<close>\<close>

fun class_name :: "exn \<Rightarrow> string" where
  "class_name (ValueError m) = ''ValueError''"
| "class_name (TypeError m) = ''TypeError''"
| "class_name (KeyError m) = ''KeyError''"
| "class_name (AttributeError m) = ''AttributeError''"
| "class_name (RuntimeError m) = ''RuntimeError''"
| "class_name OverflowError = ''OverflowError''"
| "class_name ZeroDivisionError = ''ZeroDivisionError''"
| "class_name FileNotFoundError = ''FileNotFoundError''"
| "class_name FileExistsError = ''FileExistsError''"
| "class_name PermissionError = ''PermissionError''"
| "class_name OSError = ''OSError''"
| "class_name (TimeoutError m) = ''TimeoutError''"
| "class_name DatabaseError = ''Error''"
| "class_name (TransportError m) = ''TransportError''"
| "class_name ConnectionClosedError = ''ConnectionClosedError''"
| "class_name (FrameError m) = ''FrameError''"
| "class_name (EventValidationError m) = ''EventValidationError''"
| "class_name (PartitionExecutionError ms) = ''PartitionExecutionError''"
| "class_name RequestException = ''RequestException''"
| "class_name (HTTPStatusError n) = ''HTTPError''"
| "class_name DatabaseBusyError = ''DatabaseBusyError''"
| "class_name (HTTPException n) = ''HTTPException''"
| "class_name WouldBlock = ''Again''"

text \<open>A span ends after the program in it; an exception is recorded and raised again.\<close>

definition span :: "runtime \<Rightarrow> string \<Rightarrow> payload \<Rightarrow> (telemetry, 'a) prog \<Rightarrow> (telemetry, 'a) prog" where
  "span rt name attrs body t =
     (case body t of (r, t') \<Rightarrow> (r, t'\<lparr>tl_spans := tl_spans t' @ [\<lparr>sn_name = name, sn_attributes = safe_attributes rt attrs,
        sn_error = (case r of Inl e \<Rightarrow> Some (class_name e) | Inr x \<Rightarrow> None)\<rparr>]\<rparr>))"

definition traced :: "runtime \<Rightarrow> string \<Rightarrow> (telemetry, 'a) prog \<Rightarrow> (telemetry, 'a) prog" where
  "traced rt name body = span rt name [] body"

text \<open>\<open>timed_span\<close>: the program in it may ask for the milliseconds since the start; \<open>tm\<close> are the readings of the monotonic clock.\<close>

definition timed_span :: "runtime \<Rightarrow> (nat \<Rightarrow> pyfloat) \<Rightarrow> string \<Rightarrow> payload \<Rightarrow> ((nat \<Rightarrow> pyfloat) \<Rightarrow> (telemetry, 'a) prog) \<Rightarrow> (telemetry, 'a) prog" where
  "timed_span rt tm name attrs body = span rt name attrs (body (\<lambda>k. fmul (fsub (tm (Suc k)) (tm 0)) (Fin 1000)))"

subsection \<open>The global runtime\<close>

record observer =
  ob_process :: process
  ob_configured :: bool
  ob_runtime :: telemetry
  ob_providers :: "telemetry_config list"
  ob_log :: "string list"

definition log_event :: "runtime \<Rightarrow> string \<Rightarrow> (string \<times> string) option \<Rightarrow> string \<Rightarrow> payload \<Rightarrow> observer \<Rightarrow> observer" where
  "log_event rt now context event items s =
     (let record = foldl (\<lambda>d (k, v). AList.update k v d) [(''timestamp'', PStr now), (''event'', PStr event)] (items @
        (case context of None \<Rightarrow> [] | Some (trace, spn) \<Rightarrow> [(''trace_id'', PStr trace), (''span_id'', PStr spn)])) in
      s\<lparr>ob_log := ob_log s @ [json_dumps rt (PDict (sort_key fst record))]\<rparr>)"

definition build_telemetry_runtime :: "telemetry_config \<Rightarrow> telemetry" where
  "build_telemetry_runtime c = new_telemetry (tc_enabled c)"

text \<open>\<open>configure_telemetry\<close>, under its lock; \<open>trace.set_tracer_provider\<close>, \<open>metrics.set_meter_provider\<close> and the exit handler belong
  to one provider.\<close>

definition configure_telemetry :: "runtime \<Rightarrow> string \<Rightarrow> string option \<Rightarrow> (observer, telemetry) prog" where
  "configure_telemetry rt now service_name s =
     (if ob_configured s then (Inr (ob_runtime s), s)
      else let s1 = s\<lparr>ob_process := load_project_env (ob_process s)\<rparr> in
      case telemetry_from_environment (ps_env (ob_process s1)) service_name of
        Inl e \<Rightarrow> (Inl e, s1)
      | Inr c \<Rightarrow>
          let t = build_telemetry_runtime c;
              s2 = s1\<lparr>ob_runtime := t, ob_configured := True, ob_providers := ob_providers s1 @ (if tc_enabled c then [c] else [])\<rparr> in
          (Inr t, log_event rt now None ''telemetry_configured'' [(''enabled'', PBool (tc_enabled c)), (''service_name'', PStr (tc_service c)),
             (''environment'', PStr (tc_environment c))] s2))"

definition get_telemetry :: "observer \<Rightarrow> telemetry" where
  "get_telemetry s = ob_runtime s"

definition set_telemetry_for_testing :: "telemetry \<Rightarrow> observer \<Rightarrow> telemetry \<times> observer" where
  "set_telemetry_for_testing t s = (ob_runtime s, s\<lparr>ob_runtime := t\<rparr>)"

subsection \<open>What programs do to the runtime\<close>

text \<open>The steps of a process: it configures the telemetry, its environment and files change, tests replace the runtime, events are logged.\<close>

inductive observer_step :: "runtime \<Rightarrow> observer \<Rightarrow> observer \<Rightarrow> bool" for rt where
  configures: "configure_telemetry rt now n s = (r, s') \<Longrightarrow> observer_step rt s s'"
| environment_changes: "observer_step rt s (s\<lparr>ob_process := p\<rparr>)"
| replaces: "set_telemetry_for_testing t s = (t', s') \<Longrightarrow> observer_step rt s s'"
| logs: "observer_step rt s (log_event rt now context event items s)"

definition one_provider :: "observer \<Rightarrow> bool" where
  "one_provider s \<longleftrightarrow> (if ob_configured s then length (ob_providers s) \<le> 1 \<and> list_all tc_enabled (ob_providers s) else ob_providers s = [])"

lemma log_event_selectors [simp]:
  "ob_configured (log_event rt now c e i s) = ob_configured s" "ob_providers (log_event rt now c e i s) = ob_providers s"
  "ob_runtime (log_event rt now c e i s) = ob_runtime s" "ob_process (log_event rt now c e i s) = ob_process s"
  by (simp_all add: log_event_def Let_def)

lemma configured_again: "ob_configured s \<Longrightarrow> configure_telemetry rt now n s = (Inr (ob_runtime s), s)"
  by (simp add: configure_telemetry_def)

lemma configure_cases:
  assumes "configure_telemetry rt now n s = (r, s')" and "\<not> ob_configured s"
  obtains (failed) e where "telemetry_from_environment (ps_env (load_project_env (ob_process s))) n = Inl e" "r = Inl e"
      "s' = s\<lparr>ob_process := load_project_env (ob_process s)\<rparr>"
    | (ready) c where "telemetry_from_environment (ps_env (load_project_env (ob_process s))) n = Inr c"
      "r = Inr (build_telemetry_runtime c)" "ob_configured s'" "ob_runtime s' = build_telemetry_runtime c"
      "ob_providers s' = ob_providers s @ (if tc_enabled c then [c] else [])"
  using assms by (auto simp: configure_telemetry_def Let_def split: sum.splits)

lemma one_provider_step: "observer_step rt s s' \<Longrightarrow> one_provider s \<Longrightarrow> one_provider s'"
proof (induction rule: observer_step.induct)
  case (configures now n s r s')
  show ?case
  proof (cases "ob_configured s")
    case True
    with configures show ?thesis by (simp add: configured_again)
  next
    case False
    with configures show ?thesis by (auto simp: one_provider_def elim: configure_cases)
  qed
qed (auto simp: one_provider_def set_telemetry_for_testing_def)

lemma one_provider_steps: "(observer_step rt)\<^sup>*\<^sup>* s s' \<Longrightarrow> one_provider s \<Longrightarrow> one_provider s'"
  by (induction rule: rtranclp_induct) (blast intro: one_provider_step)+

text \<open>A span does not change what the program in it returns, and it records a failure by the class of its exception.\<close>

lemma span_transparent:
  "fst (span rt name attrs body t) = fst (body t)"
  "\<exists>r. tl_spans (snd (span rt name attrs body t)) = tl_spans (snd (body t)) @ [r] \<and> sn_name r = name \<and>
     (sn_error r = None \<longleftrightarrow> is_ok (fst (body t)))"
  by (auto simp: span_def is_ok_iff split: prod.splits sum.splits)

lemma safe_value_bounded:
  "safe_value rt v = Some w \<Longrightarrow> (\<exists>b. w = PBool b) \<or> (\<exists>n. w = PInt n) \<or> (\<exists>x. w = PFloat x) \<or> (\<exists>t. w = PStr t \<and> length t \<le> 256)"
  by (cases v) auto

lemma in_safe_attributes: "(k, w) \<in> set (safe_attributes rt attrs) \<Longrightarrow> \<exists>v. (k, v) \<in> set attrs \<and> safe_value rt v = Some w"
  by (force simp: safe_attributes_def split: option.splits)

lemma environment_interval_positive: "telemetry_from_environment env n = Inr c \<Longrightarrow> tc_interval c > 0 \<and> tc_service c \<noteq> []"
  by (auto simp: telemetry_from_environment_def set_value_def split: option.splits if_splits list.splits)

text \<open>A base endpoint that is set to nothing is used as it is: the exporter is given a path for its address.  An interval that
  is set to nothing is refused.\<close>

lemma empty_settings:
  "signal_endpoint [''OTEL_EXPORTER_OTLP_ENDPOINT'' \<mapsto> []] ''traces'' = ''/v1/traces''"
  "telemetry_from_environment [''OTEL_METRIC_EXPORT_INTERVAL'' \<mapsto> []] None = Inl (ValueError ''invalid literal for int() with base 10'')"
  by code_simp+

subsection \<open>Properties\<close>

text \<open>C40 (telemetry_configured_once): whatever a process does, at most one provider is registered, and only one that the
  environment enabled; after one successful configuration every further call returns the runtime and
  changes nothing, and a call that fails leaves the runtime unconfigured and as it was, so that it can be repeated.\<close>

theorem telemetry_configured_once:
  assumes "(observer_step rt)\<^sup>*\<^sup>* s s'" and "\<not> ob_configured s" and "ob_providers s = []"
    and "configure_telemetry rt now n s' = (r, s2)"
  shows "length (ob_providers s2) \<le> 1 \<and> list_all tc_enabled (ob_providers s2) \<and> (ob_configured s' \<longrightarrow> r = Inr (ob_runtime s') \<and> s2 = s') \<and>
    (is_ok r \<longrightarrow> r = Inr (ob_runtime s2) \<and> (\<forall>now' m. configure_telemetry rt now' m s2 = (r, s2))) \<and>
    (\<not> is_ok r \<longrightarrow> \<not> ob_configured s2 \<and> ob_runtime s2 = ob_runtime s' \<and> ob_providers s2 = [])"
proof (cases "ob_configured s'")
  case True
  moreover have "one_provider s'" using one_provider_steps [OF assms(1)] assms(2,3) by (simp add: one_provider_def)
  ultimately show ?thesis using assms(4) by (auto simp: configured_again one_provider_def)
next
  case False
  moreover have "one_provider s'" using one_provider_steps [OF assms(1)] assms(2,3) by (simp add: one_provider_def)
  ultimately have none: "ob_providers s' = []" by (simp add: one_provider_def)
  from assms(4) False show ?thesis
    by (cases rule: configure_cases) (use False none in \<open>auto simp: configured_again\<close>)
qed

definition first_observer :: observer where
  "first_observer = \<lparr>ob_process = \<lparr>ps_env = [''RECONCILIATION_OTEL_ENABLED'' \<mapsto> ''true'', ''OTEL_METRIC_EXPORT_INTERVAL'' \<mapsto> ''9''], ps_posix = True, ps_file = None\<rparr>,
     ob_configured = False, ob_runtime = new_telemetry False, ob_providers = [], ob_log = []\<rparr>"

lemma first_configuration: "case telemetry_from_environment (ps_env (ob_process first_observer)) None of Inl e \<Rightarrow> False | Inr c \<Rightarrow> tc_enabled c"
  by code_simp

lemma telemetry_configured_once_witness:
  "\<exists>r s2. configure_telemetry sample_runtime ''t'' None first_observer = (r, s2) \<and> is_ok r \<and> length (ob_providers s2) = 1 \<and>
     configure_telemetry sample_runtime ''u'' (Some ''other'') s2 = (r, s2)"
proof -
  obtain r s2 where c: "configure_telemetry sample_runtime ''t'' None first_observer = (r, s2)" by fastforce
  have start: "\<not> ob_configured first_observer" "ob_providers first_observer = []" by (simp_all add: first_observer_def)
  have p: "load_project_env (ob_process first_observer) = ob_process first_observer"
    by (simp add: first_observer_def load_project_env_def)
  from c start(1) have "is_ok r \<and> length (ob_providers s2) = 1"
  proof (cases rule: configure_cases)
    case (failed e)
    from first_configuration show ?thesis unfolding failed(1) [unfolded p] by simp
  next
    case (ready c)
    from first_configuration have "tc_enabled c" unfolding ready(1) [unfolded p] by simp
    then show ?thesis using ready(2,5) start(2) by simp
  qed
  moreover note telemetry_configured_once [OF rtranclp.rtrancl_refl start c]
  ultimately show ?thesis using c by blast
qed

text \<open>The attributes of a span are numbers, truth values or strings of at most 256 characters,
  under keys that the caller gave.\<close>

theorem safe_attributes_bounded:
  "list_all (\<lambda>(k, w). (\<exists>b. w = PBool b) \<or> (\<exists>n. w = PInt n) \<or> (\<exists>x. w = PFloat x) \<or> (\<exists>t. w = PStr t \<and> length t \<le> 256))
     (safe_attributes rt attrs) \<and> set (map fst (safe_attributes rt attrs)) \<subseteq> set (map fst attrs)"
proof
  show "list_all (\<lambda>(k, w). (\<exists>b. w = PBool b) \<or> (\<exists>n. w = PInt n) \<or> (\<exists>x. w = PFloat x) \<or> (\<exists>t. w = PStr t \<and> length t \<le> 256))
     (safe_attributes rt attrs)"
    unfolding list_all_iff
  proof (rule ballI, rule case_prodI2)
    fix x k w assume "x \<in> set (safe_attributes rt attrs)" and "x = (k, w)"
    then obtain v where "safe_value rt v = Some w" by (blast dest: in_safe_attributes)
    then show "(\<exists>b. w = PBool b) \<or> (\<exists>n. w = PInt n) \<or> (\<exists>x. w = PFloat x) \<or> (\<exists>t. w = PStr t \<and> length t \<le> 256)"
      by (rule safe_value_bounded)
  qed
  show "set (map fst (safe_attributes rt attrs)) \<subseteq> set (map fst attrs)"
    by (auto dest!: in_safe_attributes simp: image_iff) force
qed

end
