(* ===== verification/Live_Feed.thy ===== *)
theory Live_Feed
  imports Anomaly Feed_State
begin

section \<open>The live feed\<close>

text \<open>
  The three programs of the demonstration feed, as their \<open>main\<close> functions start them (\<open>publisher.py\<close>,
  \<open>subscriber.py\<close>, \<open>anomaly_scorer.py\<close>), and what the dashboard shows of it.  PUB and SUB sockets may lose messages:
  what a program receives is any selection of what the other one has sent, in any order.
\<close>

subsection \<open>Starting the programs\<close>

text \<open>\<open>--count 0\<close> runs until the interrupt.\<close>

definition count_of :: "int \<Rightarrow> int option" where
  "count_of n = (if n = 0 then None else Some n)"

definition half_second :: pyfloat where
  "half_second = Fin (1 / 2)"

definition publisher_main :: "runtime \<Rightarrow> environment \<Rightarrow> string \<Rightarrow> pyfloat \<Rightarrow> int \<Rightarrow> int list \<Rightarrow> (nat \<times> publication) result" where
  "publisher_main rt env symb interval limit instants =
     bind_res (get_endpoint env) (\<lambda>e. publish_simulated_ticks rt e (PStr symb) interval (count_of limit) half_second instants)"

definition subscriber_main :: "runtime \<Rightarrow> environment \<Rightarrow> int \<Rightarrow> int option \<Rightarrow> socket_event list \<Rightarrow> payload list result" where
  "subscriber_main rt env limit timeout_ms events =
     bind_res (get_endpoint env) (\<lambda>e. receive_ticks rt e (count_of limit) timeout_ms events)"

definition scorer_main :: "engine \<Rightarrow> runtime \<Rightarrow> span_ids \<Rightarrow> environment \<Rightarrow> pyfloat \<Rightarrow> int \<Rightarrow> int option \<Rightarrow> socket_event list \<Rightarrow> store \<Rightarrow>
    payload list result \<times> payload list \<times> store" where
  "scorer_main eng rt spans env threshold limit timeout_ms events s =
     (case bind_res (get_endpoint env) (\<lambda>a. bind_res (get_scored_endpoint env) (\<lambda>b. Inr (a, b))) of
        Inl e \<Rightarrow> (Inl e, [], s)
      | Inr (a, b) \<Rightarrow>
          score_and_publish_ticks eng rt spans a b (PFloat threshold) (count_of limit) timeout_ms half_second True events s)"

subsection \<open>What is sent\<close>

definition simulated :: "runtime \<Rightarrow> payload \<Rightarrow> bool" where
  "simulated rt tick \<longleftrightarrow> (\<exists>s i now. py_strip s \<noteq> [] \<and> tick = simulated_tick rt s i now)"

lemma created_simulated:
  assumes "create_tick rt (PStr s) (PFloat (simulated_price i)) (Datetime (now - 5000) (Some 0)) (Some (Datetime now (Some 0))) = Inr t"
  shows "simulated rt t"
proof -
  have "py_strip s \<noteq> []"
    using assms by (auto simp: create_tick_def res_simps nonblank_str_Some split: option.splits)
  with assms create_simulated [OF this] show ?thesis by (auto simp: simulated_def)
qed

lemma publish_loop_simulated:
  "publish_loop rt symb iv limit n instants p = Inr (k, q) \<Longrightarrow> symb = PStr s \<Longrightarrow>
   (\<forall>t\<in>set (sent p). simulated rt t) \<Longrightarrow> (\<forall>t\<in>set (sent q). simulated rt t)"
proof (induction instants arbitrary: n p)
  case Nil
  then show ?case by (subst (asm) publish_loop.simps) (auto split: if_splits)
next
  case (Cons now later)
  show ?case
  proof (cases "case limit of None \<Rightarrow> False | Some c \<Rightarrow> n \<ge> c")
    case True
    with Cons.prems show ?thesis by (subst (asm) publish_loop.simps) auto
  next
    case False
    with Cons.prems(1,2) obtain t p' where
      t: "create_tick rt (PStr s) (PFloat (simulated_price n)) (Datetime (now - 5000) (Some 0)) (Some (Datetime now (Some 0))) = Inr t"
      and p': "publish_loop rt symb iv limit (Suc n) later p' = Inr (k, q)" "sent p' = sent p @ [t]"
      by (subst (asm) publish_loop.simps) (auto simp: res_simps Let_def split: if_splits)
    from Cons.IH [OF p'(1) Cons.prems(2)] p'(2) created_simulated [OF t] Cons.prems(3) show ?thesis by auto
  qed
qed

lemma published_simulated:
  "publish_simulated_ticks rt e (PStr s) iv c startup instants = Inr (n, q) \<Longrightarrow> \<forall>t\<in>set (sent q). simulated rt t"
  by (auto simp: publish_simulated_ticks_def res_simps split: if_splits dest!: publish_loop_simulated [OF _ refl])

lemma simulated_valid:
  assumes "simulated rt t" and "iso_roundtrip rt"
  shows "validate_tick rt (PDict t) = Inr t"
proof -
  from assms(1) obtain s i now where s: "py_strip s \<noteq> []" "t = simulated_tick rt s i now" by (auto simp: simulated_def)
  from create_tick_valid [OF create_simulated [OF s(1)] assms(2) refl refl, of now] s(2) show ?thesis by simp
qed

subsection \<open>Changes of simulated prices\<close>

lemma fl_within:
  assumes "\<bar>x\<bar> \<le> b" and "fl_round b = b" and "b \<le> 1000"
  shows "\<exists>r. fl x = Fin r \<and> \<bar>r\<bar> \<le> b"
proof -
  have b: "0 \<le> b" using assms(1) by linarith
  have "\<bar>fl_round x\<bar> \<le> \<bar>fl_round b\<bar>" using b64.abs_mono [of x b] assms(1) b by simp
  then have "\<bar>fl_round x\<bar> \<le> b" using assms(2) b by simp
  moreover have "(1000 :: rat) < 2 ^ 1024" by simp
  ultimately show ?thesis using assms(3) by (auto simp: fl_def Let_def)
qed

lemma dyadic_bounds:
  "fl_round (1599 / 16) = 1599 / 16" "fl_round (801 / 8) = 801 / 8" "fl_round (1 / 4) = 1 / 4" "fl_round (1 / 256) = 1 / 256"
  "fl_round (25 / 64) = 25 / 64"
  using fl_round_exact [of 1599 "-4"] fl_round_exact [of 801 "-3"] fl_round_exact [of 1 "-2"] fl_round_exact [of 1 "-8"]
    fl_round_exact [of 25 "-6"] by (simp_all add: power_int_minus_divide)

definition near_hundred :: "pyfloat \<Rightarrow> bool" where
  "near_hundred x \<longleftrightarrow> (\<exists>r. x = Fin r \<and> 1599 / 16 \<le> r \<and> r \<le> 801 / 8)"

lemma simulated_price_near: "near_hundred (simulated_price i)"
proof -
  let ?p = "simulated_prices ! (i mod length simulated_prices)"
  have "i mod 5 < 5" by simp
  then have "i mod 5 = 0 \<or> i mod 5 = 1 \<or> i mod 5 = 2 \<or> i mod 5 = 3 \<or> i mod 5 = 4" by linarith
  then have p: "1599 / 16 \<le> ?p \<and> ?p \<le> 801 / 8" by (elim disjE) (simp_all add: simulated_prices_def)
  then have "\<exists>r. fl ?p = Fin r \<and> \<bar>r\<bar> \<le> 801 / 8" by (intro fl_within) (simp_all add: dyadic_bounds)
  then obtain r where r: "fl ?p = Fin r" "r \<le> 801 / 8" by auto
  moreover have "fl_round ?p = r" using r(1) by (auto simp: fl_def Let_def split: if_splits)
  then have "1599 / 16 \<le> r" using b64.mono [of "1599 / 16" ?p] p by (simp add: dyadic_bounds)
  ultimately show ?thesis by (simp add: near_hundred_def simulated_price_def)
qed

text \<open>Simulated prices differ by less than 0.4 percent.\<close>

lemma near_change:
  assumes "near_hundred x" and "near_hundred (Fin p)"
  shows "\<exists>r. pct_change x p = Fin r \<and> \<bar>r\<bar> \<le> 25 / 64"
proof -
  from assms obtain q where b: "x = Fin q" "1599 / 16 \<le> q" "q \<le> 801 / 8" "1599 / 16 \<le> p" "p \<le> 801 / 8" by (auto simp: near_hundred_def)
  have p: "64 \<le> p" using b(4) by linarith
  have q: "\<bar>q - p\<bar> \<le> 1 / 4" unfolding abs_le_iff using b by linarith
  from fl_within [OF q dyadic_bounds(3)] obtain d where d: "fl (q - p) = Fin d" "\<bar>d\<bar> \<le> 1 / 4" by auto
  have "\<bar>d / p\<bar> \<le> 1 / 256" using d(2) p by (simp add: abs_divide divide_le_eq)
  from fl_within [OF this dyadic_bounds(4)] obtain s where s: "fl (d / p) = Fin s" "\<bar>s\<bar> \<le> 1 / 256" by auto
  have "\<bar>s * 100\<bar> \<le> 25 / 64" using s(2) by (simp add: abs_mult)
  from fl_within [OF this dyadic_bounds(5)] obtain u where u: "fl (s * 100) = Fin u" "\<bar>u\<bar> \<le> 25 / 64" by auto
  have "rne (u * 10 ^ 6) \<le> rne (of_int 390625)" "rne (of_int (- 390625)) \<le> rne (u * 10 ^ 6)"
    using u(2) by (intro rne_mono; simp add: abs_le_iff)+
  then have "\<bar>rne (u * 10 ^ 6)\<bar> \<le> 390625" unfolding rne_of_int by simp
  then have "\<bar>of_int (rne (u * 10 ^ 6)) :: rat\<bar> \<le> 390625" by (metis of_int_abs of_int_le_iff of_int_numeral)
  then have "\<bar>of_int (rne (u * 10 ^ 6)) / 10 ^ 6 :: rat\<bar> \<le> 25 / 64" by (simp add: abs_divide)
  from fl_within [OF this dyadic_bounds(5)] show ?thesis
    using d(1) s(1) u(1) p b(1) by (simp add: pct_change_def fsub_def)
qed

subsection \<open>Scoring simulated ticks\<close>

definition scorer_near :: "scorer \<Rightarrow> bool" where
  "scorer_near sc \<longleftrightarrow> 0 \<le> sc_number sc \<and> is_finite (sc_threshold sc) \<and> \<not> flt (sc_threshold sc) (Fin 0) \<and>
     (\<forall>p\<in>ran (sc_prices sc). near_hundred p)"

lemma new_scorer_near: "new_scorer rt v = Inr sc \<Longrightarrow> scorer_near sc"
  by (auto simp: new_scorer_def validate_threshold_def Let_def res_simps scorer_near_def split: pyval.splits if_splits)

lemma judge_near:
  assumes "near_hundred x" and "\<forall>p\<in>set_option previous. near_hundred p"
  shows "\<exists>pct an re. judge rt x previous t = Inr (pct, an, re) \<and> (pct = PNone \<or> (\<exists>r. pct = PFloat (Fin r))) \<and> (fle (Fin (25 / 64)) t \<longrightarrow> \<not> an)"
proof (cases previous)
  case None
  then show ?thesis by (intro exI [of _ PNone] exI [of _ False] exI) (simp add: judge_def)
next
  case (Some p)
  with assms(2) obtain q where q: "p = Fin q" "near_hundred (Fin q)" "0 < q" by (auto simp: near_hundred_def)
  from near_change [OF assms(1) q(2)] obtain r where r: "pct_change x q = Fin r" "\<bar>r\<bar> \<le> 25 / 64" by auto
  have "\<not> flt t (Fin \<bar>r\<bar>)" if "fle (Fin (25 / 64)) t" using that r(2) by (cases t) auto
  with Some q r show ?thesis by (auto simp: judge_def Let_def)
qed

text \<open>A simulated tick is always scored; its annotated tick is valid, and an anomaly only for a small threshold.\<close>

lemma score_simulated:
  assumes "simulated rt t" and "scorer_near sc" and "iso_roundtrip rt" and "\<And>z. py_strip (uuid5 rt z) \<noteq> []"
  shows "\<exists>a sc'. score rt sc (PDict t) = Inr (a, sc') \<and> scorer_near sc' \<and> sc_threshold sc' = sc_threshold sc \<and>
    validate_annotated_tick rt (PDict a) = Inr a \<and> (fle (Fin (25 / 64)) (sc_threshold sc) \<longrightarrow> \<not> anomalous a)"
proof -
  from assms(1) obtain s i now where t: "t = simulated_tick rt s i now" by (auto simp: simulated_def)
  have v: "validate_tick rt (PDict t) = Inr t" by (rule simulated_valid [OF assms(1,3)])
  have g: "dict_get PNone t ''symbol'' = PStr (norm_name s)" "dict_get PNone t ''price'' = PFloat (simulated_price i)"
    by (simp_all add: t simulated_tick_def dict_get_def)
  let ?prev = "sc_prices sc (norm_name s)"
  have thr: "validate_threshold rt (PFloat (sc_threshold sc)) = Inr (sc_threshold sc)"
    using assms(2) by (simp add: scorer_near_def validate_threshold_def to_float_def)
  have near: "\<forall>p\<in>set_option ?prev. near_hundred p" using assms(2) by (auto simp: scorer_near_def ran_def)
  obtain pct an re where j: "judge rt (simulated_price i) ?prev (sc_threshold sc) = Inr (pct, an, re)"
    and pct: "pct = PNone \<or> (\<exists>r. pct = PFloat (Fin r))" and an: "fle (Fin (25 / 64)) (sc_threshold sc) \<longrightarrow> \<not> an"
    using judge_near [OF simulated_price_near near] by blast
  have e: "exact_fields tick_fields t" using validate_tick_Inr [OF v] by blast
  let ?a = "t @ annotations rt t pct an re ''ZEROMQ'' (sc_number sc) (step_status (sc_previous sc) (sc_number sc))"
  have py: "py_str rt (PStr (norm_name s)) = norm_name s" by simp
  have "score_tick rt (PDict t) ?prev (PFloat (sc_threshold sc)) (sc_number sc) (sc_previous sc) ''ZEROMQ'' = Inr ?a"
    using assms(2) zeromq_name by (simp add: score_tick_def v thr g(2) j annotations_def scorer_near_def)
  moreover define sc' where "sc' = sc\<lparr>sc_prices := (sc_prices sc)(norm_name s \<mapsto> simulated_price i),
      sc_previous := Some (sc_number sc), sc_number := sc_number sc + 1\<rparr>"
  ultimately have sc: "score rt sc (PDict t) = Inr (?a, sc')" by (simp add: score_def v g py Let_def)
  have "near_hundred p" if "p \<in> ran ((sc_prices sc)(norm_name s \<mapsto> simulated_price i))" for p
    using that assms(2) simulated_price_near by (auto simp: scorer_near_def ran_def split: if_splits)
  then have "scorer_near sc' \<and> sc_threshold sc' = sc_threshold sc" using assms(2) by (simp add: scorer_near_def sc'_def)
  moreover have "validate_annotated_tick rt (PDict ?a) = Inr ?a"
    using scored_ticks_validate [OF sc assms(4)] annotated_get(1) [OF e] pct by auto
  moreover have "anomalous ?a \<longleftrightarrow> an" using annotated_get(2) [OF e] by (simp add: anomalous_def)
  ultimately show ?thesis using sc an by blast
qed

subsection \<open>The scorer on a simulated feed\<close>

definition annotated_ok :: "runtime \<Rightarrow> pyfloat \<Rightarrow> payload \<Rightarrow> bool" where
  "annotated_ok rt threshold a \<longleftrightarrow> validate_annotated_tick rt (PDict a) = Inr a \<and> (fle (Fin (25 / 64)) threshold \<longrightarrow> \<not> anomalous a)"

definition simulated_events :: "runtime \<Rightarrow> socket_event list \<Rightarrow> bool" where
  "simulated_events rt events \<longleftrightarrow> (\<forall>m. socket_event.Message m \<in> set events \<longrightarrow> (\<exists>t. m = PDict t \<and> simulated rt t))"

lemma score_loop_simulated:
  assumes "score_loop eng rt spans journal limit n g events s = (r, g', s')" and "simulated_events rt events"
    and "iso_roundtrip rt" and "\<And>z. py_strip (uuid5 rt z) \<noteq> []"
    and "scorer_near (sg_scorer g)" and "\<forall>a\<in>set (sg_published g). annotated_ok rt (sc_threshold (sg_scorer g)) a"
  shows "\<forall>a\<in>set (sg_published g'). annotated_ok rt (sc_threshold (sg_scorer g)) a"
  using assms(1,2,5,6)
proof (induction events arbitrary: n g s)
  case Nil
  then show ?case by (subst (asm) score_loop.simps) (auto split: if_splits)
next
  case (Cons ev es)
  show ?case
  proof (cases "\<exists>m. ev = socket_event.Message m \<and> \<not> (case limit of None \<Rightarrow> False | Some c \<Rightarrow> n \<ge> c)")
    case False
    then have "g' = g" using Cons.prems(1) by (subst (asm) score_loop.simps) (auto split: if_splits socket_event.splits)
    with Cons.prems(4) show ?thesis by simp
  next
    case True
    then obtain t where ev: "ev = socket_event.Message (PDict t)" and t: "simulated rt t"
      and l: "\<not> (case limit of None \<Rightarrow> False | Some c \<Rightarrow> n \<ge> c)" using Cons.prems(2) by (auto simp: simulated_events_def)
    obtain a sc where a: "score rt (sg_scorer g) (PDict t) = Inr (a, sc)" "scorer_near sc"
      "sc_threshold sc = sc_threshold (sg_scorer g)" "annotated_ok rt (sc_threshold (sg_scorer g)) a"
      using score_simulated [OF t Cons.prems(3) assms(3,4)] by (auto simp: annotated_ok_def)
    let ?j = "if journal then persist_realtime_event eng False (fst (spans n)) (snd (spans n)) a s else (Inr True, s)"
    let ?g = "g\<lparr>sg_scorer := sc, sg_published := sg_published g @ [a],
      sg_collected := (if limit = None then sg_collected g else sg_collected g @ [a])\<rparr>"
    obtain q s1 where q: "?j = (q, s1)" by fastforce
    have step: "(r, g', s') = (case q of Inl e \<Rightarrow> (Inl e, g\<lparr>sg_scorer := sc\<rparr>, s1)
        | Inr b \<Rightarrow> score_loop eng rt spans journal limit (Suc n) ?g es s1)"
      using Cons.prems(1) ev l a(1) q by (subst (asm) score_loop.simps) (simp split: sum.splits)
    show ?thesis
    proof (cases q)
      case (Inl e)
      with step Cons.prems(4) show ?thesis by simp
    next
      case (Inr b)
      have "simulated_events rt es" using Cons.prems(2) by (simp add: simulated_events_def)
      with Cons.IH [of "Suc n" ?g s1] step Inr a(2-4) Cons.prems(4) show ?thesis by simp
    qed
  qed
qed

lemma scored_feed:
  assumes "score_and_publish_ticks eng rt spans i out threshold limit timeout startup journal events s = (r, published, s')"
    and "simulated_events rt events" and "iso_roundtrip rt" and "\<And>z. py_strip (uuid5 rt z) \<noteq> []"
    and "validate_threshold rt threshold = Inr v"
  shows "\<forall>a\<in>set published. annotated_ok rt v a"
proof -
  have sc: "new_scorer rt threshold = Inr \<lparr>sc_threshold = v, sc_prices = Map.empty, sc_number = 0, sc_previous = None\<rparr>"
    using assms(5) by (simp add: new_scorer_def)
  show ?thesis
    using assms(1) score_loop_simulated [OF _ assms(2-4), where g = "\<lparr>sg_scorer = \<lparr>sc_threshold = v, sc_prices = Map.empty,
      sc_number = 0, sc_previous = None\<rparr>, sg_published = [], sg_collected = []\<rparr>"] new_scorer_near [OF sc]
    by (fastforce simp: score_and_publish_ticks_def res_simps sc split: if_splits sum.splits prod.splits)
qed

subsection \<open>The dashboard on an annotated feed\<close>

lemma drain_annotated:
  assumes "\<forall>a\<in>set seen. annotated_ok rt v a" and "length seen \<le> k"
  shows "\<exists>s'. drain rt tm k (map (\<lambda>a. arrival.Message (PDict a)) seen) s = (Inr [], s') \<and> fs_ticks s' = fs_ticks s + length seen \<and>
    fs_tick s' = (if seen = [] then fs_tick s else Some (last seen)) \<and> (fs_warning s = None \<longrightarrow> fs_warning s' = None) \<and>
    (seen \<noteq> [] \<or> fs_last s \<noteq> None \<longrightarrow> fs_last s' \<noteq> None) \<and> (fle (Fin (25 / 64)) v \<longrightarrow> fs_anomalies s' = fs_anomalies s)"
  using assms
proof (induction seen arbitrary: k s)
  case Nil
  then show ?case by (cases k) (simp_all add: return_st_def)
next
  case (Cons a as)
  then obtain n where k: "k = Suc n" by (cases k) auto
  from Cons.prems(1) have a: "validate_annotated_tick rt (PDict a) = Inr a" "fle (Fin (25 / 64)) v \<longrightarrow> \<not> anomalous a"
    by (simp_all add: annotated_ok_def)
  obtain s1 where o: "observe_tick rt tm (PDict a) s = (Inr (), s1)" and s1: "fs_ticks s1 = fs_ticks s + 1" "fs_tick s1 = Some a"
    "fs_warning s1 = None" "fs_last s1 \<noteq> None" "fle (Fin (25 / 64)) v \<longrightarrow> fs_anomalies s1 = fs_anomalies s"
    using a by (simp add: observe_tick_def bind_st_def lift_res_def Let_def)
  have "\<forall>a\<in>set as. annotated_ok rt v a" "length as \<le> n" using Cons.prems k by simp_all
  from Cons.IH [OF this, of s1] o s1 show ?case by (auto simp: k)
qed

lemma panel_of_snapshot:
  assumes "feed_snapshot tm s = (panel, s')" and "fs_warning s = None"
  shows "fp_ticks panel = fs_ticks s" "fp_tick panel = fs_tick s" "fp_status panel \<noteq> ''DEGRADED''"
    "fs_last s \<noteq> None \<Longrightarrow> fp_status panel \<in> {''LIVE'', ''STALE''}" "fs_anomalies s = [] \<Longrightarrow> fp_recent panel = 0"
  using assms by (auto simp: feed_snapshot_def feed_status_def Let_def split: prod.splits option.splits if_splits)

subsection \<open>Properties\<close>

lemma refused_threshold:
  assumes "score_and_publish_ticks eng rt spans i out threshold limit timeout startup journal events s = (r, published, s')"
    and "validate_threshold rt threshold = Inl e"
  shows "published = []"
  using assms(1) unfolding score_and_publish_ticks_def new_scorer_def assms(2)
  by (cases "validate_local_endpoint i"; cases "validate_local_endpoint out"; simp split: if_splits)

lemma scored_published:
  assumes "score_and_publish_ticks eng rt spans i out (PFloat threshold) limit timeout startup journal events s = (r, published, s')"
    and "simulated_events rt events" and "iso_roundtrip rt" and "\<And>z. py_strip (uuid5 rt z) \<noteq> []"
  shows "\<forall>a\<in>set published. annotated_ok rt threshold a"
proof (cases "validate_threshold rt (PFloat threshold)")
  case (Inl e)
  with refused_threshold [OF assms(1)] show ?thesis by simp
next
  case (Inr v)
  then have "v = threshold" by (auto simp: validate_threshold_def to_float_def Let_def split: if_splits)
  with scored_feed [OF assms Inr] show ?thesis by simp
qed

text \<open>The program of the scorer is one of these runs, or stops before it starts.\<close>

lemma scorer_main_runs:
  "scorer_main eng rt spans env threshold limit timeout events s = (r, published, s') \<Longrightarrow>
   (\<exists>a b. score_and_publish_ticks eng rt spans a b (PFloat threshold) (count_of limit) timeout half_second True events s
     = (r, published, s')) \<or> published = [] \<and> s' = s"
  by (auto simp: scorer_main_def split: sum.splits)

text \<open>C11 (live_feed_shown): whatever ticks of the simulated publisher reach the scorer, and whatever annotated ticks of the
  scorer reach the dashboard (lost, repeated or in another order), the dashboard accepts every one: its panel
  counts them all, shows the last one, is never degraded, and with a threshold of at least 25/64 percent (the
  default is one percent) it shows no anomaly.\<close>

theorem live_feed_shown:
  assumes "publisher_main rt env symb interval c instants = Inr (k, q)"
    and "\<forall>m. socket_event.Message m \<in> set events \<longrightarrow> m \<in> PDict ` set (sent q)"
    and "score_and_publish_ticks eng rt spans i out (PFloat threshold) c' timeout startup journal events s = (r, published, s')"
    and "set seen \<subseteq> set published" and "0 < limit" and "length seen \<le> nat limit"
    and "new_feed_state tm stale window = Inr s0" and "iso_roundtrip rt" and "\<And>z. py_strip (uuid5 rt z) \<noteq> []"
  shows "\<exists>panel s1. poll rt tm limit (map (\<lambda>a. arrival.Message (PDict a)) seen) s0 = (Inr (panel, []), s1) \<and>
    fp_ticks panel = length seen \<and> fp_tick panel = latest seen \<and> fp_status panel \<noteq> ''DEGRADED'' \<and>
    (seen \<noteq> [] \<longrightarrow> fp_status panel \<in> {''LIVE'', ''STALE''}) \<and> (fle (Fin (25 / 64)) threshold \<longrightarrow> fp_recent panel = 0)"
proof -
  from assms(1) have "\<forall>t\<in>set (sent q). simulated rt t"
    by (auto simp: publisher_main_def res_simps dest: published_simulated)
  with assms(2) have "simulated_events rt events" by (auto simp: simulated_events_def)
  from scored_published [OF assms(3) this assms(8,9)] assms(4)
  have "\<forall>a\<in>set seen. annotated_ok rt threshold a" by blast
  from drain_annotated [OF this assms(6), of tm s0] obtain s2 where
    d: "drain rt tm (nat limit) (map (\<lambda>a. arrival.Message (PDict a)) seen) s0 = (Inr [], s2)"
    and s2: "fs_ticks s2 = fs_ticks s0 + length seen" "fs_tick s2 = (if seen = [] then fs_tick s0 else Some (last seen))"
      "fs_warning s0 = None \<longrightarrow> fs_warning s2 = None" "seen \<noteq> [] \<longrightarrow> fs_last s2 \<noteq> None"
      "fle (Fin (25 / 64)) threshold \<longrightarrow> fs_anomalies s2 = fs_anomalies s0" by (elim exE conjE) (rule that; simp)
  have s0: "fs_ticks s0 = 0" "fs_tick s0 = None" "fs_warning s0 = None" "fs_anomalies s0 = []"
    using assms(7) by (auto simp: new_feed_state_def split: if_splits)
  obtain panel s1 where p: "feed_snapshot tm s2 = (panel, s1)" by fastforce
  have "poll rt tm limit (map (\<lambda>a. arrival.Message (PDict a)) seen) s0 = (Inr (panel, []), s1)"
    using assms(5) by (simp add: poll_def bind_st_def d p)
  moreover have "fs_warning s2 = None" using s2(3) s0(3) by blast
  ultimately show ?thesis using panel_of_snapshot [OF p] s2 s0 by (cases seen) (simp_all add: latest_def)
qed

definition one_tick :: payload where
  "one_tick = simulated_tick iso_runtime ''AAPL'' 0 5000"

lemma one_published:
  "\<exists>q. publisher_main iso_runtime (\<lambda>n. None) ''AAPL'' (Fin 0) 1 [5000] = Inr (1, q) \<and> sent q = [one_tick]"
proof -
  have e: "get_endpoint (\<lambda>n. None) = Inr ''tcp://127.0.0.1:5555''" by code_simp
  have "validate_local_endpoint ''tcp://127.0.0.1:5555'' = Inr ''tcp://127.0.0.1:5555''" and s: "py_strip ''AAPL'' \<noteq> []" by code_simp+
  with publish_loop_eq [OF s, of 1 0 "[5000]" iso_runtime "Fin 0" "\<lparr>sent = [], slept = [half_second]\<rparr>"] show ?thesis
    by (auto simp: publisher_main_def publish_simulated_ticks_def e count_of_def half_second_def one_tick_def)
qed

lemma one_scored:
  "\<exists>a s'. score_and_publish_ticks plain_engine iso_runtime (\<lambda>n. (None, None)) ''ipc://a'' ''ipc://b'' (PFloat (Fin 1)) (Some 1) None
     (Fin 0) False [socket_event.Message (PDict one_tick)] fresh_store = (Inr [a], [a], s')"
proof -
  let ?sc = "\<lparr>sc_threshold = Fin 1, sc_prices = Map.empty, sc_number = 0, sc_previous = None\<rparr>"
  have n: "new_scorer iso_runtime (PFloat (Fin 1)) = Inr ?sc" by (simp add: new_scorer_def validate_threshold_def to_float_def)
  have "py_strip ''AAPL'' \<noteq> []" by code_simp
  then have "simulated iso_runtime one_tick" unfolding simulated_def one_tick_def by blast
  from score_simulated [OF this new_scorer_near [OF n] iso_runtime_roundtrip iso_runtime_ids] obtain a sc where
    a: "score iso_runtime ?sc (PDict one_tick) = Inr (a, sc)" by blast
  have e: "validate_local_endpoint ''ipc://a'' = Inr ''ipc://a''" "validate_local_endpoint ''ipc://b'' = Inr ''ipc://b''" by code_simp+
  show ?thesis by (simp add: score_and_publish_ticks_def e n score_loop.simps a)
qed

lemma live_feed_shown_witness:
  "\<exists>a s0 panel s1. new_feed_state (\<lambda>k. Fin (of_nat k)) (Fin 5) (Fin 60) = Inr s0 \<and>
     poll iso_runtime (\<lambda>k. Fin (of_nat k)) 10 [arrival.Message (PDict a)] s0 = (Inr (panel, []), s1) \<and>
     fp_ticks panel = 1 \<and> fp_tick panel = Some a \<and> fp_recent panel = 0"
proof -
  obtain q where q: "publisher_main iso_runtime (\<lambda>n. None) ''AAPL'' (Fin 0) 1 [5000] = Inr (1, q)" "sent q = [one_tick]"
    using one_published by blast
  obtain a s' where a: "score_and_publish_ticks plain_engine iso_runtime (\<lambda>n. (None, None)) ''ipc://a'' ''ipc://b'' (PFloat (Fin 1))
     (Some 1) None (Fin 0) False [socket_event.Message (PDict one_tick)] fresh_store = (Inr [a], [a], s')" using one_scored by blast
  obtain s0 where n: "new_feed_state (\<lambda>k. Fin (of_nat k)) (Fin 5) (Fin 60) = Inr s0"
    by (simp add: new_feed_state_def positive_seconds_def)
  from live_feed_shown [OF q(1) _ a _ _ _ n iso_runtime_roundtrip iso_runtime_ids, of "[a]" 10] q(2) n show ?thesis
    by (auto simp: latest_def)
qed

end
