(* ===== verification/Providers.thy ===== *)
theory Providers
  imports Adapters
begin

section \<open>The default providers\<close>

text \<open>
  \<open>ingestion/providers.py\<close>: the adapter around a function that fetches one symbol, and the three adapters of the daily
  control.  Fetching may change the process (credentials are loaded) and the client of Massive (its limiter).
\<close>

record vendors =
  vd_process :: process
  vd_client :: client

type_synonym symbol_fetch = "string \<Rightarrow> int \<Rightarrow> int \<Rightarrow> (vendors, frame) prog"

record function_adapter =
  fa_name :: string
  fa_fetch_symbol :: symbol_fetch

definition in_process :: "(process, 'a) prog \<Rightarrow> (vendors, 'a) prog" where
  "in_process m v = (case m (vd_process v) of (r, p) \<Rightarrow> (r, v\<lparr>vd_process := p\<rparr>))"

definition in_client :: "(client, 'a) prog \<Rightarrow> (vendors, 'a) prog" where
  "in_client m v = (case m (vd_client v) of (r, c) \<Rightarrow> (r, v\<lparr>vd_client := c\<rparr>))"

fun fetch_frames :: "symbol_fetch \<Rightarrow> int \<Rightarrow> int \<Rightarrow> string list \<Rightarrow> (vendors, frame list) prog" where
  "fetch_frames f start stop [] = return_st []"
| "fetch_frames f start stop (s # ss) = bind_st (f s start stop) (\<lambda>x. bind_st (fetch_frames f start stop ss) (\<lambda>xs. return_st (x # xs)))"

text \<open>\<open>FunctionEquityAdapter.fetch\<close>\<close>

definition fetch_symbols :: "function_adapter \<Rightarrow> string list \<Rightarrow> int \<Rightarrow> int \<Rightarrow> (vendors, frame) prog" where
  "fetch_symbols a symbols start stop =
     bind_st (fetch_frames (fa_fetch_symbol a) start stop symbols) (\<lambda>frames.
     if frames = [] then return_st (empty_frame []) else lift_res (concat_frames frames))"

text \<open>The instants of the window are \<open>datetime\<close> values in UTC.\<close>

definition instant :: "int \<Rightarrow> pyval" where
  "instant t = PTime (Datetime t (Some 0))"

definition yahoo_symbol :: "(history_request \<Rightarrow> frame result) \<Rightarrow> symbol_fetch" where
  "yahoo_symbol history s start stop =
     lift_res (fetch_yahoo_equity_bars history s ''5d'' ''1d'' (Some (instant start)) (Some (instant stop)))"

definition alpaca_symbol :: "(string \<Rightarrow> int \<Rightarrow> int \<Rightarrow> (process, frame) prog) \<Rightarrow> cell_parsers \<Rightarrow> symbol_fetch" where
  "alpaca_symbol bars pd s start stop = in_process (fetch_stock_bars (bars s start stop) pd)"

definition massive_symbol :: "runtime \<Rightarrow> server \<Rightarrow> epochs \<Rightarrow> symbol_fetch" where
  "massive_symbol rt sv ep s start stop = in_client (fetch_massive_equity_bars rt sv ep 3 s (instant start) (instant stop) False)"

text \<open>\<open>MassiveClient()\<close> loads its key first.\<close>

definition default_equity_adapters :: "runtime \<Rightarrow> server \<Rightarrow> epochs \<Rightarrow> (history_request \<Rightarrow> frame result) \<Rightarrow>
    (string \<Rightarrow> int \<Rightarrow> int \<Rightarrow> (process, frame) prog) \<Rightarrow> cell_parsers \<Rightarrow> (vendors, (string \<times> function_adapter) list) prog" where
  "default_equity_adapters rt sv ep history bars pd =
     bind_st (in_process load_massive_api_key) (\<lambda>_. return_st
       [(''YAHOO'', \<lparr>fa_name = ''YAHOO'', fa_fetch_symbol = yahoo_symbol history\<rparr>),
        (''ALPACA'', \<lparr>fa_name = ''ALPACA'', fa_fetch_symbol = alpaca_symbol bars pd\<rparr>),
        (''MASSIVE'', \<lparr>fa_name = ''MASSIVE'', fa_fetch_symbol = massive_symbol rt sv ep\<rparr>)])"

subsection \<open>Canonical frames\<close>

definition canonical :: "frame \<Rightarrow> bool" where
  "canonical f \<longleftrightarrow> fr_columns f = lake_columns \<and> (\<forall>r\<in>set (fr_rows f). length r = length lake_columns)"

lemma massive_columns: "massive_equity_columns = lake_columns"
  by (simp add: massive_equity_columns_def lake_columns_def)

lemma select_canonical: "select_columns f lake_columns = Inr g \<Longrightarrow> canonical g"
  by (auto simp: select_columns_def canonical_def split: if_splits)

lemma empty_canonical: "canonical (empty_frame lake_columns)"
  by (simp add: canonical_def empty_frame_def)

definition gives_canonical :: "symbol_fetch \<Rightarrow> bool" where
  "gives_canonical f \<longleftrightarrow> (\<forall>s a b v g v'. f s a b v = (Inr g, v') \<longrightarrow> canonical g)"

lemma yahoo_canonical: "gives_canonical (yahoo_symbol history)"
  by (auto simp: gives_canonical_def yahoo_symbol_def fetch_yahoo_equity_bars_def massive_columns Let_def res_simps st_simps empty_canonical
      select_canonical split: if_splits)

lemma alpaca_canonical: "gives_canonical (alpaca_symbol bars pd)"
  by (auto simp: gives_canonical_def alpaca_symbol_def in_process_def fetch_stock_bars_def massive_columns Let_def res_simps st_simps
      empty_canonical select_canonical elim!: bind_st_cases split: if_splits prod.splits)

lemma massive_canonical: "gives_canonical (massive_symbol rt sv ep)"
  by (auto simp: gives_canonical_def massive_symbol_def in_client_def fetch_massive_equity_bars_def normalize_results_def massive_columns
      canonical_def build_frame_def Let_def res_simps st_simps elim!: bind_st_cases split: if_splits prod.splits)

lemma fetch_frames_canonical:
  "fetch_frames f a b ss v = (Inr fs, v') \<Longrightarrow> gives_canonical f \<Longrightarrow> list_all canonical fs \<and> length fs = length ss"
  by (induction ss arbitrary: v fs) (fastforce simp: st_simps gives_canonical_def elim!: bind_st_cases)+

lemma uniq_repeat: "set xs \<subseteq> set ys \<Longrightarrow> foldl add_new ys xs = ys"
  by (induction xs) (auto simp: add_new_def)

lemma uniq_lake: "uniq lake_columns = lake_columns"
  by code_simp

lemma uniq_columns:
  assumes "fs \<noteq> []" and "list_all canonical fs"
  shows "uniq (concat (map fr_columns fs)) = lake_columns"
proof -
  from assms obtain g gs where g: "fs = g # gs" "fr_columns g = lake_columns" by (cases fs) (auto simp: canonical_def)
  have "set (concat (map fr_columns gs)) \<subseteq> set lake_columns" using assms(2) g(1) by (auto simp: list_all_iff canonical_def)
  then show ?thesis using uniq_lake g by (simp add: uniq_def uniq_repeat)
qed

lemma concat_canonical: "concat_frames fs = Inr g \<Longrightarrow> list_all canonical fs \<Longrightarrow> canonical g"
  by (auto simp: concat_frames_def Let_def uniq_columns canonical_def split: if_splits)

text \<open>An adapter whose vendor keeps no state is a fetcher of the partitioned ingestion.\<close>

lemma stateless_frames:
  "(\<And>s v. f s a b v = (g s a b, v)) \<Longrightarrow> fetch_frames f a b ss v = (map_res (\<lambda>s. g s a b) ss, v)"
  by (induction ss) (auto simp: bind_st_def return_st_def split: sum.splits)

lemma stateless_fetch:
  assumes "\<And>s a b v. fa_fetch_symbol ad s a b v = (g s a b, v)"
  shows "fetch_symbols ad ss a b v = (adapter_fetch g ss a b, v)"
  using stateless_frames [of "fa_fetch_symbol ad" a b g ss v, OF assms]
  by (auto simp: fetch_symbols_def adapter_fetch_def bind_st_def return_st_def lift_res_def split: sum.splits)

subsection \<open>Properties\<close>

text \<open>C18 (default_adapters_canonical): the three adapters are those of the control, under their own names, and whatever the vendors
  return, every frame that one of them gives for some symbols has exactly the canonical columns, in order, and a
  cell for each of them in every row: no vendor format reaches the archives or the comparison.\<close>

theorem default_adapters_canonical:
  assumes "default_equity_adapters rt sv ep history bars pd v0 = (Inr ads, v1)" and "(k, a) \<in> set ads" and "symbols \<noteq> []"
    and "fetch_symbols a symbols start stop v = (Inr f, v')"
  shows "map fst ads = [''YAHOO'', ''ALPACA'', ''MASSIVE''] \<and> fa_name a = k \<and> fr_columns f = lake_columns \<and>
    list_all (\<lambda>r. length r = length lake_columns) (fr_rows f)"
proof -
  from assms(1) have ads: "ads = [(''YAHOO'', \<lparr>fa_name = ''YAHOO'', fa_fetch_symbol = yahoo_symbol history\<rparr>),
      (''ALPACA'', \<lparr>fa_name = ''ALPACA'', fa_fetch_symbol = alpaca_symbol bars pd\<rparr>),
      (''MASSIVE'', \<lparr>fa_name = ''MASSIVE'', fa_fetch_symbol = massive_symbol rt sv ep\<rparr>)]"
    by (auto simp: default_equity_adapters_def st_simps elim!: bind_st_cases)
  with assms(2) have n: "fa_name a = k" and g: "gives_canonical (fa_fetch_symbol a)"
    using yahoo_canonical alpaca_canonical massive_canonical by auto
  from assms(4) obtain fs v2 where fs: "fetch_frames (fa_fetch_symbol a) start stop symbols v = (Inr fs, v2)"
    and f: "fs \<noteq> [] \<longrightarrow> concat_frames fs = Inr f"
    by (auto simp: fetch_symbols_def st_simps elim!: bind_st_cases split: if_splits)
  from fetch_frames_canonical [OF fs g] f assms(3) have "canonical f" by (auto intro: concat_canonical)
  with ads n show ?thesis by (simp add: canonical_def list_all_iff)
qed

definition keyed_vendors :: vendors where
  "keyed_vendors = \<lparr>vd_process = \<lparr>ps_env = [''MASSIVE_API_KEY'' \<mapsto> ''k''], ps_posix = True, ps_file = None\<rparr>,
     vd_client = sample_client\<rparr>"

definition sample_providers :: "(vendors, (string \<times> function_adapter) list) prog" where
  "sample_providers = default_equity_adapters sample_runtime sample_server \<lparr>ep_date = (\<lambda>v. Inr 0), ep_time = Inr\<rparr>
     (\<lambda>r. Inr (empty_frame [])) (\<lambda>s a b. fail_st OSError) sample_parsers"

lemma default_adapters_canonical_witness:
  "\<exists>ads v1 a f v'. sample_providers keyed_vendors = (Inr ads, v1) \<and>
     map_of ads ''YAHOO'' = Some a \<and> fetch_symbols a [''A'', ''B''] 0 1 v1 = (Inr f, v') \<and> fr_columns f = lake_columns"
proof -
  have "fst (load_massive_api_key (vd_process keyed_vendors)) = Inr ''k''" by code_simp
  then obtain p where "load_massive_api_key (vd_process keyed_vendors) = (Inr ''k'', p)" by (metis prod.collapse)
  then obtain ads v1 where ads: "sample_providers keyed_vendors = (Inr ads, v1)"
    by (simp add: sample_providers_def default_equity_adapters_def in_process_def bind_st_def return_st_def)
  then obtain a where a: "map_of ads ''YAHOO'' = Some a" "fa_fetch_symbol a = yahoo_symbol (\<lambda>r. Inr (empty_frame []))"
    by (auto simp: sample_providers_def default_equity_adapters_def st_simps elim!: bind_st_cases)
  have "fa_fetch_symbol a s b c v = (Inr (empty_frame lake_columns), v)" for s b c v
    by (simp add: a(2) yahoo_symbol_def fetch_yahoo_equity_bars_def empty_frame_def massive_columns lift_res_def)
  then have "\<exists>f. fetch_symbols a [''A'', ''B''] 0 1 v1 = (Inr f, v1)"
    by (simp add: fetch_symbols_def bind_st_def return_st_def lift_res_def concat_frames_def Let_def)
  then obtain f where f: "fetch_symbols a [''A'', ''B''] 0 1 v1 = (Inr f, v1)" by blast
  with default_adapters_canonical [OF ads [unfolded sample_providers_def] map_of_SomeD [OF a(1)] _ f] ads a(1) show ?thesis by blast
qed

end
