(* ===== verification/Programs.thy ===== *)
theory Programs
  imports Monitor Api Observability
begin

section \<open>Programs around the components\<close>

text \<open>
  The feed monitor as \<open>network_transport.main\<close> starts it from its parsed arguments, and the middleware of the export API
  that records every request.
\<close>

subsection \<open>The feed monitor\<close>

text \<open>The three commands: a TCP or TLS feed (host, port, framing, TLS, reconnect attempts), a multicast feed (group, port,
  interface), and the capture command (transport, address, port, interface, output).\<close>

datatype feed_command =
    FeedTcp string int string bool int
  | FeedMulticast string int string
  | CaptureCommand string string int string string

record feed_arguments =
  fd_command :: feed_command
  fd_count :: int
  fd_timeout :: pyfloat

text \<open>How the program ends: with its count, after printing the words of a command, by the interrupt, with the status 1 and a message, or by an exception.\<close>

datatype ending = Finished | Printed "string list" | Interrupted | ExitOne exn | Uncaught exn

text \<open>\<open>except (TransportError, FrameError, EventValidationError, OSError)\<close>, with their subclasses\<close>

fun feed_failure :: "exn \<Rightarrow> bool" where
  "feed_failure (TransportError m) = True"
| "feed_failure ConnectionClosedError = True"
| "feed_failure (FrameError m) = True"
| "feed_failure (EventValidationError m) = True"
| "feed_failure OSError = True"
| "feed_failure FileNotFoundError = True"
| "feed_failure FileExistsError = True"
| "feed_failure PermissionError = True"
| "feed_failure (TimeoutError m) = True"
| "feed_failure _ = False"

text \<open>A feed that has nothing more blocks until the interrupt.\<close>

definition ending_of :: "exn \<Rightarrow> ending" where
  "ending_of e = (if e = WouldBlock then Interrupted else if feed_failure e then ExitOne e else Uncaught e)"

definition positive_count :: "int \<Rightarrow> int option" where
  "positive_count n = (if n = 0 then None else Some n)"

definition run_feed :: "engine \<Rightarrow> runtime \<Rightarrow> ('x \<Rightarrow> market_event result \<times> 'x) \<Rightarrow> (nat \<Rightarrow> string option \<times> string option) \<Rightarrow> int \<Rightarrow>
    'x \<Rightarrow> store \<Rightarrow> (ending \<times> payload list \<times> store) option" where
  "run_feed eng rt feed spans n x s =
     map_option (\<lambda>(r, printed, s'). (case r of Inl e \<Rightarrow> ending_of e | Inr evs \<Rightarrow> Finished, printed, s'))
       (monitor_transport eng rt feed spans x (positive_count n) True None s)"

definition capture_command :: "(string \<Rightarrow> bool) \<Rightarrow> string \<Rightarrow> string \<Rightarrow> int \<Rightarrow> string \<Rightarrow> string \<Rightarrow> string list result" where
  "capture_command ipv6 transport address port interface path =
     bind_res (build_capture_filter ipv6 transport address (PInt port)) (build_tcpdump_command interface path)"

text \<open>\<open>main\<close> for a feed: the transports are made outside the handler of errors.  What the network does is an argument.\<close>

definition feed_main :: "engine \<Rightarrow> (string \<Rightarrow> bool) \<Rightarrow> runtime \<Rightarrow> (nat \<Rightarrow> string option \<times> string option) \<Rightarrow> feed_arguments \<Rightarrow> connect_outcome list \<Rightarrow>
    bool list \<Rightarrow> datagram_event list \<Rightarrow> store \<Rightarrow> (ending \<times> payload list \<times> store) option" where
  "feed_main eng ipv6 rt spans args network setup inbox s =
     (case fd_command args of
        FeedTcp host port framing tls attempts \<Rightarrow>
          (case new_tcp (PStr host) (PInt port) framing tls (Fin 5) (fd_timeout args) attempts (fl (1 / 4)) 1048576 network of
             Inl e \<Rightarrow> Some (Uncaught e, [], s)
           | Inr t \<Rightarrow> run_feed eng rt (receive rt) spans (fd_count args) t s)
      | FeedMulticast group_name port interface \<Rightarrow>
          (case new_multicast group_name (PInt port) interface (fd_timeout args) 65507 setup inbox of
             Inl e \<Rightarrow> Some (Uncaught e, [], s)
           | Inr t \<Rightarrow> run_feed eng rt (mc_receive rt) spans (fd_count args) t s)
      | CaptureCommand transport address port interface path \<Rightarrow>
          Some (case capture_command ipv6 transport address port interface path of Inl e \<Rightarrow> Uncaught e | Inr ws \<Rightarrow> Printed ws, [], s))"

lemma run_feed_returns: "n \<noteq> 0 \<Longrightarrow> run_feed eng rt feed spans n x s \<noteq> None"
  using monitor_loop_total [of 0 "nat n"]
  by (fastforce simp: run_feed_def monitor_transport_def positive_count_def split: sum.split prod.split if_split)

text \<open>With a count the program ends, and what leaves it as an uncaught exception is not a failure of the feed.\<close>

lemma feed_main_returns: "fd_count args \<noteq> 0 \<Longrightarrow> feed_main eng ipv6 rt spans args network setup inbox s \<noteq> None"
  by (simp add: feed_main_def run_feed_returns del: not_None_eq split: feed_command.split sum.split)

lemma run_feed_ending:
  assumes "run_feed eng rt feed spans n x s = Some (e, printed, s')"
  shows "(\<forall>f. e = ExitOne f \<longrightarrow> feed_failure f) \<and> (\<forall>f. e = Uncaught f \<longrightarrow> \<not> feed_failure f) \<and> (\<forall>ws. e \<noteq> Printed ws)"
proof -
  from assms obtain r :: "market_event list result" where "e = (case r of Inl f \<Rightarrow> ending_of f | Inr evs \<Rightarrow> Finished)" by (auto simp: run_feed_def)
  then show ?thesis by (cases r) (auto simp: ending_of_def split: if_splits)
qed

subsection \<open>The middleware of the export API\<close>

definition route_of :: "request \<Rightarrow> string" where
  "route_of req =
     (case req of
        Health \<Rightarrow> ''/health''
      | Runs limit offset \<Rightarrow> ''/api/v1/runs''
      | Run run_id \<Rightarrow> ''/api/v1/runs/{run_id}''
      | Reconciliations f limit offset \<Rightarrow> ''/api/v1/reconciliations''
      | Exceptions f limit offset \<Rightarrow> ''/api/v1/exceptions''
      | Export fmt f \<Rightarrow> ''/api/v1/exports'')"

definition status_of :: "response result \<Rightarrow> int" where
  "status_of r =
     (case r of
        Inr Unhealthy \<Rightarrow> 503
      | Inr _ \<Rightarrow> 200
      | Inl (HTTPException n) \<Rightarrow> n
      | Inl e \<Rightarrow> 500)"

text \<open>\<open>observe_request\<close>: the record is made whether the request is answered or raises.\<close>

definition observe_request :: "'k::linorder api \<Rightarrow> (string \<times> string) option \<Rightarrow> request \<Rightarrow> pyfloat \<Rightarrow> (telemetry \<times> store, response) prog" where
  "observe_request a credentials req duration = (\<lambda>(t, s).
     case handle a credentials req s of
       (r, s') \<Rightarrow> (r, record_api_request ''GET'' (route_of req) (status_of r) duration t, s'))"

fun serve :: "'k::linorder api \<Rightarrow> ((string \<times> string) option \<times> request \<times> pyfloat) list \<Rightarrow> telemetry \<times> store \<Rightarrow>
    response result list \<times> telemetry \<times> store" where
  "serve a [] ts = ([], ts)"
| "serve a ((credentials, req, duration) # reqs) ts =
     (case observe_request a credentials req duration ts of (r, ts1) \<Rightarrow>
      case serve a reqs ts1 of (rs, ts2) \<Rightarrow> (r # rs, ts2))"

definition counted :: "telemetry \<Rightarrow> (pyval \<times> pyval) list" where
  "counted t = map (\<lambda>m. (dict_get PNone (ms_attributes m) ''http.route'', dict_get PNone (ms_attributes m) ''http.response.status_code''))
     (filter (\<lambda>m. ms_instrument m = ''reconciliation.api.requests'') (tl_measured t))"

lemma counted_record:
  "counted (record_api_request verb route code duration t) = counted t @ [(PStr route, PInt code)]"
  by (simp add: counted_def record_api_request_def measure_def Let_def dict_get_def)

text \<open>Every request is counted once, under its route and the status that its caller gets.\<close>

lemma requests_counted:
  "serve a reqs (t, s) = (rs, t', s') \<Longrightarrow>
   counted t' = counted t @ map2 (\<lambda>(c, req, d) r. (PStr (route_of req), PInt (status_of r))) reqs rs"
proof (induction reqs arbitrary: t s rs)
  case (Cons q reqs)
  obtain c req d where q: "q = (c, req, d)" by (cases q) auto
  obtain r s1 where h: "handle a c req s = (r, s1)" by fastforce
  let ?t = "record_api_request ''GET'' (route_of req) (status_of r) d t"
  obtain rs2 where "serve a reqs (?t, s1) = (rs2, t', s')" "rs = r # rs2"
    using Cons.prems by (auto simp: q observe_request_def h split: prod.splits)
  with Cons.IH [of ?t s1 rs2] show ?case by (simp add: q counted_record)
qed simp

end
