(* ===== verification/Spec2Isabelle.thy ===== *)
theory Spec2Isabelle
  imports Work_Manifest Anomaly Monitor Exceptions Options Futures Batch Alerts Adapters Feed_State Retention Snapshot Api
    Option_Control Dashboard Otc Smoke Observability Live_Feed Providers Programs
begin

text \<open>
  The automated reconciliation engine (\<open>src/reconciliation_engine\<close>): a daily control that fetches market
  data from several providers, archives it, compares every pair of providers, stores the run and reports
  its breaks, and a real-time path that receives, validates, scores and journals market events.

  \<^bold>\<open>Layers.\<close>
  \<^item> \<open>Prelude\<close>, \<open>Py_Float\<close>, \<open>Py_Value\<close>: results as sums with the exceptions of the source, stateful
    programs (\<open>bind_st\<close>, \<open>steps_by\<close>), Python strings, 64-bit floats with rounding to nearest, Python
    values, and the record \<open>runtime\<close> of what the source uses of the library without defining it
    (UUIDs, SHA-256, JSON, ISO dates, clocks).
  \<^item> \<open>Sequence_Tracker\<close>, \<open>Market_Event\<close>, \<open>Tcp_Transport\<close>, \<open>Multicast\<close>, \<open>Ticks\<close>, \<open>Anomaly\<close>, \<open>Monitor\<close>: the
    real-time path (\<open>realtime/network_transport.py\<close>, \<open>publisher.py\<close>, \<open>subscriber.py\<close>,
    \<open>anomaly_scorer.py\<close>).
  \<^item> \<open>Sql\<close>, \<open>Store_Schema\<close>, \<open>Frames\<close>, \<open>Once_Store\<close>, \<open>Persistence\<close>, \<open>Work_Manifest\<close>, \<open>Partitions\<close>: the store
    (\<open>storage/duckdb.py\<close>) and the partitions of work (\<open>scaling/partitions.py\<close>).  A table is its columns,
    keys and rows; a statement may fail at any step, as the engine argument decides.
  \<^item> \<open>Joins\<close>, \<open>Equities\<close>, \<open>Exceptions\<close>, \<open>Options\<close>, \<open>Futures\<close>: the comparisons (\<open>reconciliation/*.py\<close>).  The
    outer merge of pandas is an argument with the laws of the locale \<open>outer_join\<close>.
  \<^item> \<open>Lake\<close>, \<open>Ingestion\<close>, \<open>Batch\<close>: the archives (\<open>storage/data_lake.py\<close>, \<open>partitioned_data_lake.py\<close>), the
    partitioned ingestion (\<open>scaling/equity_ingestion.py\<close>) and the daily control (\<open>batch.py\<close>,
    \<open>notifications.py\<close>) that composes all of them; \<open>Option_Control\<close>: the option control (\<open>options_batch.py\<close>).
  \<^item> \<open>Environment\<close>, \<open>Massive\<close>, \<open>Adapters\<close>, \<open>Otc\<close>: credentials (\<open>security.py\<close>), the client of Massive with its
    limiter, retries and pagination, and the frames made of what the vendors return (\<open>ingestion/*.py\<close>),
    booked swaps and forwards included; \<open>Providers\<close>: the adapters of the control (\<open>ingestion/providers.py\<close>).
    \<open>Alerts\<close>: the operational alerts (\<open>alerts.py\<close>).
  \<^item> \<open>Queries\<close>, \<open>Api\<close>, \<open>Feed_State\<close>, \<open>Dashboard\<close>: SQL selections over the store, the export API
    (\<open>api/service.py\<close>) with its bound on concurrent queries, authentication, pages and downloads, and the
    dashboard (\<open>dashboard.py\<close>) with its feed, its queries and its panels.
  \<^item> \<open>Retention\<close>, \<open>Snapshot\<close>, \<open>Smoke\<close>, \<open>Observability\<close>: the deletion of old partitions (\<open>storage/retention.py\<close>), the
    publication of a copy of the database (\<open>storage/snapshot.py\<close>), the release checks (\<open>smoke.py\<close>) and
    telemetry (\<open>observability.py\<close>).
  \<^item> \<open>Live_Feed\<close>, \<open>Programs\<close>: the programs of the live feed composed with the dashboard, the feed monitor as its
    \<open>main\<close> runs it, and the middleware of the export API.

  \<^bold>\<open>What the lemmas show.\<close>  The daily control: a completed run stores one run row, two result rows for every
  compared observation and one exception per break and writes the archive of these results, a failing one stores
  nothing, and a stored one is not repeated; the bars it compares are those of the checkpoints of its partitions; its identifier is a function of the set of symbols, the date and the bucket count.  Comparison:
  no one-sided observation disappears, the roles of the providers can be exchanged, every break gets an
  exception and a reason.  Archives: never overwritten, never shared, the same on a second call.  Store: each
  run and each event at most once under any replay and any failure, the manifest only grows.  Real-time
  path: framing and tracking agree with their specifications over the whole history for every chunking, the
  receive loop is bounded, the scorer is a function of the history of each symbol, and what is published
  is in the journal; what the simulated publisher sends is accepted by the scorer and by the dashboard,
  whatever is lost on the way.  Providers: their frames have the canonical columns, the key never leaves its
  host, retries are bounded, pagination over an ending chain returns every row once, and each booked trade
  is marked with its own rate.  Readers: following
  the pages of a listing returns every matching row once and in order, no reader changes a table, only
  holders of the key read, and the dashboard shows the first breaks with the limits that decided them.
  Operation: retention removes only dated directories below its root, a publication is all or nothing,
  an evaluation raises exactly the alerts the tables call for and dispatches each once, alerts keep their
  cooldown as long as the calls for an alert exclude one another, and telemetry is configured at most once.

  \<^bold>\<open>Interfaces.\<close>  The locales \<open>outer_join\<close> (merges), \<open>codec\<close> (Parquet), \<open>listing\<close> (pages), and those of the store and
  the transports state what a component promises to its clients; each is interpreted on the definitions of
  the model that provide it.

  \<^bold>\<open>Bounds.\<close>  Loops over sockets take the list of chunks the peer sends and are total on it; retry loops
  run for the attempts of the source.  The worker pool is a sequential execution in the completion order
  that the caller chooses: partitions write disjoint files, and the bookkeeping runs in the main thread in
  the source too.  Numeric cells are 64-bit floats; integers beyond \<open>2^53\<close> are rounded when they
  are compared as prices.

  \<^bold>\<open>Not modelled.\<close>  Argument parsing and the start of the web server
  (\<open>api/__main__.py\<close>), printing and logging inside the operations, the places where they open spans or count
  (the recorders themselves are in \<open>Observability\<close>), exporters of telemetry, and the styles of the panels: their
  effect is on the outside only.  The vendor SDKs, pandas, DuckDB, Parquet and ZeroMQ are arguments or, for
  the parts of SQL that the source uses, the definitions of \<open>Sql\<close> and \<open>Queries\<close>.  Benchmarks, analytics models
  and deployment files are outside the package.
\<close>

end
